(* ===== verification/Chalybs_Prelude.thy ===== *)
theory Chalybs_Prelude
  imports Main "HOL-Library.Word" "HOL-Library.List_Lexorder" "HOL-Library.Char_ord"
    "HOL-Library.Product_Lexorder" "HOL-Library.Sublist"
begin

text \<open>
  What every component shares: the error values of \<^verbatim>\<open>core/src/errors.rs\<close>, the pieces of
  Rust's standard library the code uses on strings and integers (\<^verbatim>\<open>trim\<close>, \<^verbatim>\<open>split\<close>,
  \<^verbatim>\<open>parse::<u32>\<close>, \<^verbatim>\<open>to_string\<close>, \<^verbatim>\<open>{:02x}\<close>, sorting and deduplication), and the
  lemmas about them that the components reuse.

  A Rust string is a list of bytes here, as \<^verbatim>\<open>str::len\<close> counts it; white space is the ASCII
  white space, which is what sysfs, procfs and the configuration format carry.  Integers that the
  code only compares, prints and parses are \<open>nat\<close> or \<open>int\<close> with the width enforced
  where they are parsed; integers the code does arithmetic on are words of the source's width.
\<close>

named_theorems str_simps "evaluation rules of the string helpers"
named_theorems parse_dests "what a successful parse tells about its input"

subsection \<open>Errors\<close>

text \<open>\<^verbatim>\<open>ChalybsError\<close>; \<open>Inl\<close> of a sum is the \<^verbatim>\<open>Err\<close> of a \<^verbatim>\<open>Result\<close>.\<close>

datatype chalybs_error =
    Config string
  | Cgroup string
  | Qemu string
  | Vfio string
  | Irq string
  | Affinity string
  | Peripheral string
  | State string
  | Io string
  | Serde string
  | Toml string
  | Other string

text \<open>The \<^verbatim>\<open>#[error(...)]\<close> strings: what \<^verbatim>\<open>{e}\<close> prints.\<close>

fun show_error :: "chalybs_error \<Rightarrow> string" where
  "show_error (Config m) = ''configuration error: '' @ m"
| "show_error (Cgroup m) = ''cgroup/cpuset error: '' @ m"
| "show_error (Qemu m) = ''QEMU error: '' @ m"
| "show_error (Vfio m) = ''VFIO error: '' @ m"
| "show_error (Irq m) = ''IRQ error: '' @ m"
| "show_error (Affinity m) = ''Affinity error: '' @ m"
| "show_error (Peripheral m) = ''Peripheral error: '' @ m"
| "show_error (State m) = ''State transition error: '' @ m"
| "show_error (Io m) = ''IO error: '' @ m"
| "show_error (Serde m) = ''Serde error: '' @ m"
| "show_error (Toml m) = ''Toml error: '' @ m"
| "show_error (Other m) = ''Other: '' @ m"

type_synonym 'a result = "chalybs_error + 'a"

definition is_ok :: "'e + 'a \<Rightarrow> bool" where
  "is_ok r = (case r of Inl _ \<Rightarrow> False | Inr _ \<Rightarrow> True)"

lemma is_ok_simps [simp]: "is_ok (Inl e) = False" "is_ok (Inr x) = True"
  by (simp_all add: is_ok_def)

lemma is_ok_iff: "is_ok r \<longleftrightarrow> (\<exists>x. r = Inr x)"
  by (cases r) simp_all

subsection \<open>Strings\<close>

definition is_ws :: "char \<Rightarrow> bool" where
  "is_ws c \<longleftrightarrow> c = CHR '' '' \<or> (9 \<le> (of_char c :: nat) \<and> (of_char c :: nat) \<le> 13)"

definition trim :: "string \<Rightarrow> string" where
  "trim s = rev (dropWhile is_ws (rev (dropWhile is_ws s)))"

text \<open>\<^verbatim>\<open>str::split(char)\<close>: never empty, one piece more than there are separators.\<close>

fun split_on :: "char \<Rightarrow> string \<Rightarrow> string list" where
  "split_on c [] = [[]]"
| "split_on c (x # xs) =
     (if x = c then [] # split_on c xs
      else case split_on c xs of [] \<Rightarrow> [[x]] | y # ys \<Rightarrow> (x # y) # ys)"

text \<open>\<^verbatim>\<open>str::split_once(char)\<close>.\<close>

fun split_once :: "char \<Rightarrow> string \<Rightarrow> (string \<times> string) option" where
  "split_once c [] = None"
| "split_once c (x # xs) =
     (if x = c then Some ([], xs)
      else map_option (\<lambda>(a, b). (x # a, b)) (split_once c xs))"

text \<open>\<^verbatim>\<open>str::split_whitespace\<close>: the maximal runs of other bytes.\<close>

fun split_ws_acc :: "string \<Rightarrow> string \<Rightarrow> string list" where
  "split_ws_acc acc [] = (if acc = [] then [] else [rev acc])"
| "split_ws_acc acc (x # xs) =
     (if is_ws x then (if acc = [] then split_ws_acc [] xs else rev acc # split_ws_acc [] xs)
      else split_ws_acc (x # acc) xs)"

definition split_whitespace :: "string \<Rightarrow> string list" where
  "split_whitespace s = split_ws_acc [] s"

text \<open>\<^verbatim>\<open>str::lines\<close>: split at line feeds, no last empty line, a trailing return dropped.\<close>

definition strip_cr :: "string \<Rightarrow> string" where
  "strip_cr l = (if l \<noteq> [] \<and> last l = CHR 0x0D then butlast l else l)"

definition str_lines :: "string \<Rightarrow> string list" where
  "str_lines s =
     (let ps = split_on (CHR 0x0A) s
      in map strip_cr (if last ps = [] then butlast ps else ps))"

definition starts_with :: "string \<Rightarrow> string \<Rightarrow> bool" where
  "starts_with p s \<longleftrightarrow> take (length p) s = p"

text \<open>\<^verbatim>\<open><[String]>::join\<close>.\<close>

fun join :: "string \<Rightarrow> string list \<Rightarrow> string" where
  "join sep [] = []"
| "join sep [x] = x"
| "join sep (x # y # ys) = x @ sep @ join sep (y # ys)"

definition to_ascii_lower :: "char \<Rightarrow> char" where
  "to_ascii_lower c =
     (if 65 \<le> (of_char c :: nat) \<and> (of_char c :: nat) \<le> 90 then char_of (of_char c + 32 :: nat) else c)"

definition eq_ignore_ascii_case :: "string \<Rightarrow> string \<Rightarrow> bool" where
  "eq_ignore_ascii_case a b \<longleftrightarrow> map to_ascii_lower a = map to_ascii_lower b"

text \<open>A string between single quotes, and one between back quotes, as the messages have them.\<close>

definition quoted :: "string \<Rightarrow> string" where
  "quoted s = CHR 0x27 # s @ [CHR 0x27]"

definition backquoted :: "string \<Rightarrow> string" where
  "backquoted s = CHR 0x60 # s @ [CHR 0x60]"

text \<open>\<^verbatim>\<open>str::contains(&str)\<close>.\<close>

fun str_contains :: "string \<Rightarrow> string \<Rightarrow> bool" where
  "str_contains [] p = (p = [])"
| "str_contains (x # xs) p = (starts_with p (x # xs) \<or> str_contains xs p)"

lemma split_on_ne [simp]: "split_on c s \<noteq> []"
  by (induction s) (auto split: list.splits)

lemma split_on_no_sep: "c \<notin> set s \<Longrightarrow> split_on c s = [s]"
  by (induction s) auto

lemma split_on_append:
  assumes "c \<notin> set a"
  shows "split_on c (a @ c # b) = a # split_on c b"
  using assms by (induction a) (auto split: list.splits)

lemma split_on_pieces: "p \<in> set (split_on c s) \<Longrightarrow> c \<notin> set p"
  by (induction s arbitrary: p) (auto split: list.splits if_splits)

lemma split_once_no_sep: "c \<notin> set s \<Longrightarrow> split_once c s = None"
  by (induction s) auto

lemma split_once_append: "c \<notin> set a \<Longrightarrow> split_once c (a @ c # b) = Some (a, b)"
  by (induction a) auto

lemma trim_id: "\<forall>c \<in> set s. \<not> is_ws c \<Longrightarrow> trim s = s"
proof -
  assume nows: "\<forall>c \<in> set s. \<not> is_ws c"
  then have "dropWhile is_ws s = s" by (cases s) auto
  moreover from nows have "dropWhile is_ws (rev s) = rev s" by (cases "rev s") (auto simp: rev_eq_Cons_iff)
  ultimately show ?thesis by (simp add: trim_def)
qed

lemma split_on_join:
  assumes "\<forall>p \<in> set ps. c \<notin> set p" "ps \<noteq> []"
  shows "split_on c (join [c] ps) = ps"
  using assms
  by (induction "[c]" ps rule: join.induct) (auto simp: split_on_no_sep split_on_append)

subsection \<open>Integer parsing and printing\<close>

datatype parse_int_error = EmptyInput | InvalidDigit | PosOverflow | NegOverflow

fun show_parse_int_error :: "parse_int_error \<Rightarrow> string" where
  "show_parse_int_error EmptyInput = ''cannot parse integer from empty string''"
| "show_parse_int_error InvalidDigit = ''invalid digit found in string''"
| "show_parse_int_error PosOverflow = ''number too large to fit in target type''"
| "show_parse_int_error NegOverflow = ''number too small to fit in target type''"

text \<open>\<^verbatim>\<open>char::to_digit(radix)\<close>, for the radices 10 and 16.\<close>

definition to_digit :: "nat \<Rightarrow> char \<Rightarrow> nat option" where
  "to_digit radix c =
     (let n = of_char c :: nat;
          d = (if 48 \<le> n \<and> n \<le> 57 then Some (n - 48)
               else if 97 \<le> n \<and> n \<le> 102 then Some (n - 87)
               else if 65 \<le> n \<and> n \<le> 70 then Some (n - 55) else None)
      in case d of None \<Rightarrow> None | Some v \<Rightarrow> if v < radix then Some v else None)"

text \<open>
  The loop of \<^verbatim>\<open>from_str_radix\<close>: at each byte the digit is checked first, then the
  multiplication, then the addition, so the first problem from the left is the error.
\<close>

fun parse_digits :: "nat \<Rightarrow> nat \<Rightarrow> nat \<Rightarrow> string \<Rightarrow> parse_int_error + nat" where
  "parse_digits radix mx acc [] = Inr acc"
| "parse_digits radix mx acc (c # cs) =
     (case to_digit radix c of
        None \<Rightarrow> Inl InvalidDigit
      | Some d \<Rightarrow>
          if mx < acc * radix \<or> mx < acc * radix + d then Inl PosOverflow
          else parse_digits radix mx (acc * radix + d) cs)"

text \<open>\<^verbatim>\<open>uN::from_str_radix\<close>: one leading plus sign is accepted, a lone sign is not.\<close>

definition parse_unsigned :: "nat \<Rightarrow> nat \<Rightarrow> string \<Rightarrow> parse_int_error + nat" where
  "parse_unsigned radix mx s =
     (case s of
        [] \<Rightarrow> Inl EmptyInput
      | c # cs \<Rightarrow>
          if cs = [] \<and> (c = CHR ''+'' \<or> c = CHR ''-'') then Inl InvalidDigit
          else if c = CHR ''+'' then parse_digits radix mx 0 cs
          else parse_digits radix mx 0 s)"

definition u8_max :: nat where "u8_max = 255"
definition u16_max :: nat where "u16_max = 65535"
definition u32_max :: nat where "u32_max = 4294967295"
definition u64_max :: nat where "u64_max = 18446744073709551615"

lemmas uint_max_defs = u8_max_def u16_max_def u32_max_def u64_max_def

definition parse_u8 :: "string \<Rightarrow> parse_int_error + nat" where
  "parse_u8 = parse_unsigned 10 u8_max"
definition parse_u16 :: "string \<Rightarrow> parse_int_error + nat" where
  "parse_u16 = parse_unsigned 10 u16_max"
definition parse_u32 :: "string \<Rightarrow> parse_int_error + nat" where
  "parse_u32 = parse_unsigned 10 u32_max"
definition parse_u64 :: "string \<Rightarrow> parse_int_error + nat" where
  "parse_u64 = parse_unsigned 10 u64_max"

lemmas parse_uN_defs = parse_u8_def parse_u16_def parse_u32_def parse_u64_def

text \<open>\<^verbatim>\<open>i32::from_str\<close>: as above, and one leading minus sign negates.\<close>

definition parse_i32 :: "string \<Rightarrow> parse_int_error + int" where
  "parse_i32 s =
     (case s of
        [] \<Rightarrow> Inl EmptyInput
      | c # cs \<Rightarrow>
          if cs = [] \<and> (c = CHR ''+'' \<or> c = CHR ''-'') then Inl InvalidDigit
          else if c = CHR ''-'' then
            (case parse_digits 10 2147483648 0 cs of
               Inl PosOverflow \<Rightarrow> Inl NegOverflow | Inl e \<Rightarrow> Inl e | Inr n \<Rightarrow> Inr (- int n))
          else
            (case parse_digits 10 2147483647 0 (if c = CHR ''+'' then cs else s) of
               Inl e \<Rightarrow> Inl e | Inr n \<Rightarrow> Inr (int n)))"

definition ok_opt :: "'e + 'a \<Rightarrow> 'a option" where
  "ok_opt r = (case r of Inl _ \<Rightarrow> None | Inr x \<Rightarrow> Some x)"

lemma ok_opt_simps [simp]: "ok_opt (Inl e) = None" "ok_opt (Inr x) = Some x"
  by (simp_all add: ok_opt_def)

lemma ok_opt_Some [simp]: "ok_opt r = Some x \<longleftrightarrow> r = Inr x"
  by (cases r) simp_all

text \<open>\<^verbatim>\<open>Display\<close> of integers and the hexadecimal formats \<^verbatim>\<open>{:02x}\<close>, \<^verbatim>\<open>{:04x}\<close>.\<close>

definition digit_char :: "nat \<Rightarrow> char" where
  "digit_char d = char_of (if d < 10 then 48 + d else 87 + d)"

fun show_radix :: "nat \<Rightarrow> nat \<Rightarrow> string" where
  "show_radix b n =
     (if n < b \<or> b < 2 then [digit_char n] else show_radix b (n div b) @ [digit_char (n mod b)])"

declare show_radix.simps [simp del]

definition show_nat :: "nat \<Rightarrow> string" where
  "show_nat n = show_radix 10 n"

definition show_int :: "int \<Rightarrow> string" where
  "show_int i = (if i < 0 then ''-'' @ show_nat (nat (- i)) else show_nat (nat i))"

definition show_hex_pad :: "nat \<Rightarrow> nat \<Rightarrow> string" where
  "show_hex_pad w n = (let s = show_radix 16 n in replicate (w - length s) (CHR ''0'') @ s)"

definition show_bool :: "bool \<Rightarrow> string" where
  "show_bool b = (if b then ''true'' else ''false'')"

text \<open>\<^verbatim>\<open>{:?}\<close> of a vector of integers.\<close>

definition show_nats_debug :: "nat list \<Rightarrow> string" where
  "show_nats_debug xs = ''['' @ join '', '' (map show_nat xs) @ '']''"

lemma of_char_digit_char: "d < 16 \<Longrightarrow> (of_char (digit_char d) :: nat) = (if d < 10 then 48 + d else 87 + d)"
  by (simp add: digit_char_def)

lemma to_digit_digit_char: "d < r \<Longrightarrow> r \<le> 16 \<Longrightarrow> to_digit r (digit_char d) = Some d"
  by (simp add: to_digit_def of_char_digit_char Let_def)

lemma parse_digits_append:
  assumes "parse_digits r mx acc a = Inr v"
  shows "parse_digits r mx acc (a @ b) = parse_digits r mx v b"
  using assms
  by (induction r mx acc a rule: parse_digits.induct) (auto split: option.splits if_splits)

lemma parse_digits_show_radix:
  assumes "2 \<le> b" "b \<le> 16" "n \<le> mx"
  shows "parse_digits b mx 0 (show_radix b n) = Inr n"
  using assms
proof (induction b n rule: show_radix.induct)
  case (1 b n)
  show ?case
  proof (cases "n < b")
    case True
    with "1.prems" show ?thesis
      by (simp add: show_radix.simps [of b n] to_digit_digit_char)
  next
    case False
    have step: "n div b * b + n mod b = n" by simp
    then have le: "n div b * b \<le> mx" using "1.prems" by linarith
    have "n div b \<le> mx" using "1.prems" div_le_dividend le_trans by blast
    then have IH: "parse_digits b mx 0 (show_radix b (n div b)) = Inr (n div b)"
      using False "1.prems" "1.IH" by simp
    have nlt: "\<not> mx < n div b * b" "\<not> mx < n"
      using le "1.prems" step by linarith+
    have dig: "to_digit b (digit_char (n mod b)) = Some (n mod b)"
      using "1.prems" by (intro to_digit_digit_char) auto
    have "parse_digits b mx (n div b) [digit_char (n mod b)] = Inr n"
      by (simp only: parse_digits.simps dig option.case nlt step if_False simp_thms)
    then show ?thesis
      using False "1.prems" by (simp add: show_radix.simps [of b n] parse_digits_append [OF IH])
  qed
qed

lemma show_radix_ne [simp]: "show_radix b n \<noteq> []"
  by (subst show_radix.simps) simp

lemma digit_char_not_sign:
  assumes "d < 16"
  shows "digit_char d \<noteq> CHR ''+''" "digit_char d \<noteq> CHR ''-''"
proof -
  have "(of_char (digit_char d) :: nat) \<ge> 48" using assms by (simp add: of_char_digit_char)
  then show "digit_char d \<noteq> CHR ''+''" "digit_char d \<noteq> CHR ''-''" by auto
qed

lemma show_radix_chars:
  assumes "2 \<le> b" "c \<in> set (show_radix b n)"
  shows "\<exists>d < b. c = digit_char d"
  using assms
proof (induction b n rule: show_radix.induct)
  case (1 b n)
  show ?case
  proof (cases "n < b")
    case True
    with "1.prems" show ?thesis by (auto simp: show_radix.simps [of b n])
  next
    case False
    then have *: "show_radix b n = show_radix b (n div b) @ [digit_char (n mod b)]"
      using "1.prems" by (simp add: show_radix.simps [of b n])
    have lt: "n mod b < b" using "1.prems" by simp
    from * "1.prems"(2) consider "c \<in> set (show_radix b (n div b))" | "c = digit_char (n mod b)"
      by auto
    then show ?thesis
    proof cases
      case 1
      with "1.IH" False "1.prems" show ?thesis by simp
    qed (use lt in blast)
  qed
qed

text \<open>Printing then parsing an integer that fits the width gives it back, in both radices.\<close>

lemma parse_unsigned_show_radix:
  assumes "2 \<le> b" "b \<le> 16" "n \<le> mx"
  shows "parse_unsigned b mx (show_radix b n) = Inr n"
proof -
  obtain c cs where s: "show_radix b n = c # cs" by (cases "show_radix b n") auto
  then have "c \<in> set (show_radix b n)" by simp
  then obtain d where d: "d < b" "c = digit_char d"
    using show_radix_chars [OF assms(1)] by blast
  then have "c \<noteq> CHR ''+''" "c \<noteq> CHR ''-''"
    using digit_char_not_sign [of d] assms(2) by auto
  moreover have "parse_digits b mx 0 (c # cs) = Inr n"
    using parse_digits_show_radix [OF assms] s by simp
  ultimately show ?thesis by (simp add: parse_unsigned_def s)
qed

lemma parse_unsigned_digits:
  "s \<noteq> [] \<Longrightarrow> hd s \<noteq> CHR ''+'' \<Longrightarrow> hd s \<noteq> CHR ''-'' \<Longrightarrow> parse_unsigned r mx s = parse_digits r mx 0 s"
  by (cases s) (auto simp: parse_unsigned_def simp del: parse_digits.simps)

lemma parse_digits_zeros:
  "2 \<le> r \<Longrightarrow> parse_digits r mx 0 (replicate k (CHR ''0'') @ s) = parse_digits r mx 0 s"
  by (induction k) (simp_all add: to_digit_def)

lemma hd_show_radix:
  assumes "2 \<le> b" "b \<le> 16"
  shows "hd (show_radix b n) \<noteq> CHR ''+''" "hd (show_radix b n) \<noteq> CHR ''-''"
proof -
  have "hd (show_radix b n) \<in> set (show_radix b n)" by simp
  then obtain d where "d < b" "hd (show_radix b n) = digit_char d"
    using show_radix_chars [OF assms(1)] by blast
  then show "hd (show_radix b n) \<noteq> CHR ''+''" "hd (show_radix b n) \<noteq> CHR ''-''"
    using digit_char_not_sign [of d] assms(2) by auto
qed

lemma parse_unsigned_show_hex_pad:
  assumes "n \<le> mx"
  shows "parse_unsigned 16 mx (show_hex_pad w n) = Inr n"
proof -
  let ?k = "w - length (show_radix 16 n)"
  have "hd (show_hex_pad w n) \<noteq> CHR ''+''" "hd (show_hex_pad w n) \<noteq> CHR ''-''"
    using hd_show_radix [of 16 n] by (cases ?k; simp add: show_hex_pad_def Let_def)+
  then show ?thesis
    using parse_digits_zeros [of 16 mx ?k "show_radix 16 n"] parse_digits_show_radix [of 16 n mx] assms
    by (simp add: parse_unsigned_digits show_hex_pad_def Let_def)
qed

lemma parse_u32_show_nat: "n \<le> u32_max \<Longrightarrow> parse_u32 (show_nat n) = Inr n"
  by (simp add: parse_u32_def show_nat_def parse_unsigned_show_radix)

lemma parse_digits_bound:
  "parse_digits r mx acc s = Inr v \<Longrightarrow> acc \<le> mx \<Longrightarrow> v \<le> mx"
  by (induction r mx acc s rule: parse_digits.induct) (auto split: option.splits if_splits)

lemma parse_unsigned_bound [parse_dests]: "parse_unsigned r mx s = Inr v \<Longrightarrow> v \<le> mx"
  by (auto simp: parse_unsigned_def simp del: parse_digits.simps dest: parse_digits_bound
      split: list.splits if_splits)

lemma parse_u32_bound [parse_dests]: "parse_u32 s = Inr v \<Longrightarrow> v \<le> u32_max"
  by (simp add: parse_u32_def parse_unsigned_bound)

lemma show_nat_chars:
  assumes "c \<in> set (show_nat n)"
  shows "48 \<le> (of_char c :: nat) \<and> (of_char c :: nat) \<le> 57"
proof -
  from assms obtain d where "d < 10" "c = digit_char d"
    using show_radix_chars [of 10 c n] by (auto simp: show_nat_def)
  then show ?thesis by (simp add: of_char_digit_char)
qed

lemma show_nat_clean:
  "CHR '','' \<notin> set (show_nat n)" "CHR ''-'' \<notin> set (show_nat n)" "CHR '':'' \<notin> set (show_nat n)"
  "c \<in> set (show_nat n) \<Longrightarrow> \<not> is_ws c"
  using show_nat_chars by (force simp: is_ws_def)+

lemma show_nat_ne [simp]: "show_nat n \<noteq> []"
  by (simp add: show_nat_def)

lemma trim_show_nat [simp]: "trim (show_nat n) = show_nat n"
  by (rule trim_id) (auto dest: show_nat_clean(4))

subsection \<open>Sorting and deduplication\<close>

text \<open>\<^verbatim>\<open>sort_unstable\<close> then \<^verbatim>\<open>dedup\<close> of a vector of integers.\<close>

definition sort_dedup :: "nat list \<Rightarrow> nat list" where
  "sort_dedup xs = remdups_adj (sort xs)"

lemma set_sort_dedup [simp]: "set (sort_dedup xs) = set xs"
  by (simp add: sort_dedup_def)

lemma sorted_remdups_adj_strict:
  fixes xs :: "'a::linorder list"
  assumes "sorted xs"
  shows "sorted (remdups_adj xs) \<and> distinct (remdups_adj xs)"
  using assms
  by (induction xs rule: remdups_adj.induct) (auto simp: order_le_less)

lemma sorted_sort_dedup [simp]: "sorted (sort_dedup xs)"
  and distinct_sort_dedup [simp]: "distinct (sort_dedup xs)"
  by (simp_all add: sort_dedup_def sorted_remdups_adj_strict)

lemma sort_dedup_unique:
  assumes "sorted ys" "distinct ys" "set ys = set xs"
  shows "sort_dedup xs = ys"
  using assms by (intro sorted_distinct_set_unique) auto

lemma sort_dedup_idem [simp]: "sort_dedup (sort_dedup xs) = sort_dedup xs"
  by (rule sort_dedup_unique) simp_all

lemma sort_dedup_Nil [simp]: "sort_dedup [] = []"
  by (simp add: sort_dedup_def)

lemma sort_dedup_eq_Nil [simp]: "sort_dedup xs = [] \<longleftrightarrow> xs = []"
  by (metis set_empty set_sort_dedup)

subsection \<open>Grouping\<close>

text \<open>
  \<^verbatim>\<open>map.entry(key).or_default().push(x)\<close> over a \<^verbatim>\<open>HashMap\<close> of vectors, and the loop that
  groups a list by an optional key.  The order of the map's entries is unspecified in Rust; here it
  is the order of first insertion, and the lemmas below only speak of the set of entries.
\<close>

fun entry_push :: "'k \<Rightarrow> 'a \<Rightarrow> ('k \<times> 'a list) list \<Rightarrow> ('k \<times> 'a list) list" where
  "entry_push k x [] = [(k, [x])]"
| "entry_push k x ((k', xs) # m) =
     (if k' = k then (k', xs @ [x]) # m else (k', xs) # entry_push k x m)"

definition group_step :: "('a \<Rightarrow> 'k option) \<Rightarrow> ('k \<times> 'a list) list \<Rightarrow> 'a \<Rightarrow> ('k \<times> 'a list) list" where
  "group_step key m x = (case key x of None \<Rightarrow> m | Some k \<Rightarrow> entry_push k x m)"

definition group_by_key :: "('a \<Rightarrow> 'k option) \<Rightarrow> 'a list \<Rightarrow> ('k \<times> 'a list) list" where
  "group_by_key key xs = foldl (group_step key) [] xs"

lemma map_of_entry_push:
  "map_of (entry_push k x m) k' =
     (if k' = k then Some ((case map_of m k of None \<Rightarrow> [] | Some xs \<Rightarrow> xs) @ [x]) else map_of m k')"
  by (induction k x m rule: entry_push.induct) auto

lemma keys_entry_push: "fst ` set (entry_push k x m) = insert k (fst ` set m)"
  by (induction k x m rule: entry_push.induct) auto

lemma distinct_entry_push:
  "distinct (map fst m) \<Longrightarrow> distinct (map fst (entry_push k x m))"
proof (induction k x m rule: entry_push.induct)
  case (2 k x k' xs m)
  have "k' \<notin> fst ` set m" using "2.prems" by simp
  then show ?case using 2 keys_entry_push [of k x m] by auto
qed simp

lemma group_fold:
  assumes "distinct (map fst m)"
  shows "distinct (map fst (foldl (group_step key) m xs)) \<and>
    map_of (foldl (group_step key) m xs) k =
      (case (map_of m k, filter (\<lambda>x. key x = Some k) xs) of
         (None, []) \<Rightarrow> None | (None, y # ys) \<Rightarrow> Some (y # ys) | (Some zs, ys) \<Rightarrow> Some (zs @ ys))"
  using assms
proof (induction xs arbitrary: m)
  case Nil
  then show ?case by (simp split: option.split)
next
  case (Cons x xs)
  show ?case
  proof (cases "key x")
    case None
    with Cons show ?thesis by (simp add: group_step_def)
  next
    case (Some kx)
    have "distinct (map fst (entry_push kx x m))"
      using Cons.prems by (rule distinct_entry_push)
    from Cons.IH [OF this] Some show ?thesis
      by (auto simp: group_step_def map_of_entry_push split: option.splits list.splits)
  qed
qed

lemma distinct_group_by_key: "distinct (map fst (group_by_key key xs))"
  using group_fold [of "[]" key xs] by (simp add: group_by_key_def)

lemma map_of_group_by_key:
  "map_of (group_by_key key xs) k =
     (let ys = filter (\<lambda>x. key x = Some k) xs in if ys = [] then None else Some ys)"
  using group_fold [of "[]" key xs k] by (auto simp: group_by_key_def Let_def split: list.splits)

lemma in_group_by_key:
  "(k, ys) \<in> set (group_by_key key xs) \<longleftrightarrow> ys = filter (\<lambda>x. key x = Some k) xs \<and> ys \<noteq> []"
  using map_of_eq_Some_iff [OF distinct_group_by_key, of key xs k ys] map_of_group_by_key [of key xs k]
  by (auto simp: Let_def split: if_splits)

subsection \<open>Hash maps\<close>

text \<open>\<^verbatim>\<open>HashMap::insert\<close> on an association list: an old entry of the key is replaced.\<close>

fun hm_insert :: "'k \<Rightarrow> 'v \<Rightarrow> ('k \<times> 'v) list \<Rightarrow> ('k \<times> 'v) list" where
  "hm_insert k v [] = [(k, v)]"
| "hm_insert k v ((k', v') # m) = (if k = k' then (k, v) # m else (k', v') # hm_insert k v m)"

lemma map_of_hm_insert [simp]: "map_of (hm_insert k v m) x = (if x = k then Some v else map_of m x)"
  by (induction k v m rule: hm_insert.induct) auto

lemma keys_hm_insert: "fst ` set (hm_insert k v m) = insert k (fst ` set m)"
  by (induction k v m rule: hm_insert.induct) auto

lemma distinct_hm_insert: "distinct (map fst m) \<Longrightarrow> distinct (map fst (hm_insert k v m))"
proof (induction k v m rule: hm_insert.induct)
  case (2 k v k' v' m)
  then show ?case using keys_hm_insert [of k v m] by auto
qed simp

end
