(* ===== verification/Chalybs_Os.thy ===== *)
theory Chalybs_Os
  imports Chalybs_Prelude
begin

text \<open>
  The program's outside world: the kernel's file interfaces, processes, procfs, I2C, MQTT and
  CPUID.  None of it is code of the repository, so it is a parameter: a record \<open>os\<close> of answers,
  each a function of the whole history of earlier calls (a \<open>trace\<close>).  Nothing is assumed about
  the answers, so a statement for every \<open>os\<close> covers every kernel, every interleaving with the
  guest and every failure.  A call returns the answer and appends its event to the trace; events of
  calls that change the outside world say whether they succeeded.

  On top of it are the few combinators the translated code is written with: \<open>andThen\<close> for
  sequencing, \<open>bindR\<close> for the question mark operator, \<open>mapErr\<close>, and \<open>eachR\<close> and
  \<open>eachA\<close> for loops with and without early return; and the frame predicate \<open>emits\<close>, which
  says which events an action may add to the trace.
\<close>

named_theorems act_simps "unfolding of the action combinators"
named_theorems emits_intros "frame rules: which events an action may perform"

type_synonym path = string

subsection \<open>Answers and events\<close>

datatype io_kind = NotFound | WouldBlock | ConnectionReset | ConnectionAborted | BrokenPipe | OtherKind

datatype io_error = IoError (io_error_kind: io_kind) (io_error_msg: string)

text \<open>\<^verbatim>\<open>mount(2)\<close> as the code tells its errors apart.\<close>

datatype mount_error = EBUSY | MountErr string

text \<open>A directory entry: unreadable, with a name that is not UTF-8, or named.\<close>

datatype dir_entry = EntryErr string | EntryNonUtf8 | Entry string

text \<open>A procfs task entry: unreadable, without a readable stat, or with one.\<close>

datatype task_entry =
    TaskErr
  | TaskNoStat int
  | Task (task_tid: int) (task_comm: string) (task_utime: nat) (task_stime: nat)

text \<open>What one poll of the MQTT event loop yields.\<close>

datatype mqtt_event = MqttConnAck | MqttOther | MqttErr string | MqttEnd

datatype os_event =
    EvExists path
  | EvIsDir path
  | EvRead path
  | EvReadLink path
  | EvReadDir path
  | EvWrite path string bool
  | EvCreateDir path bool
  | EvRemove path bool
  | EvMount path bool
  | EvUmount path bool
  | EvOpenTruncate path bool
  | EvSetLen path nat bool
  | EvChown path nat nat bool
  | EvEnv string
  | EvSpawn string "string list" bool
  | EvKill int bool
  | EvWait int bool
  | EvTryWait int
  | EvTasks int
  | EvSetAffinity int nat bool
  | EvSleep nat
  | EvI2cOpen path bool
  | EvI2cSlave path nat bool
  | EvI2cWrite path "8 word list" bool
  | EvI2cRead path
  | EvMqttConnect string nat string
  | EvMqttPoll
  | EvMqttPublish string string bool
  | EvThread string

type_synonym trace = "os_event list"

record os =
  os_exists :: "trace \<Rightarrow> path \<Rightarrow> bool"
  os_is_dir :: "trace \<Rightarrow> path \<Rightarrow> bool"
  os_read :: "trace \<Rightarrow> path \<Rightarrow> io_error + string"
  os_read_link :: "trace \<Rightarrow> path \<Rightarrow> io_error + string"
  os_read_dir :: "trace \<Rightarrow> path \<Rightarrow> io_error + dir_entry list"
  os_write :: "trace \<Rightarrow> path \<Rightarrow> string \<Rightarrow> io_error option"
  os_create_dir :: "trace \<Rightarrow> path \<Rightarrow> io_error option"
  os_remove :: "trace \<Rightarrow> path \<Rightarrow> io_error option"
  os_mount :: "trace \<Rightarrow> path \<Rightarrow> mount_error option"
  os_umount :: "trace \<Rightarrow> path \<Rightarrow> string option"
  os_open_truncate :: "trace \<Rightarrow> path \<Rightarrow> io_error option"
  os_set_len :: "trace \<Rightarrow> path \<Rightarrow> nat \<Rightarrow> io_error option"
  os_chown :: "trace \<Rightarrow> path \<Rightarrow> nat \<Rightarrow> nat \<Rightarrow> io_error option"
  os_env :: "trace \<Rightarrow> string \<Rightarrow> string option"
  os_spawn :: "trace \<Rightarrow> string \<Rightarrow> string list \<Rightarrow> io_error + int"
  os_kill :: "trace \<Rightarrow> int \<Rightarrow> string option"
  os_wait :: "trace \<Rightarrow> int \<Rightarrow> io_error option"
  os_try_wait :: "trace \<Rightarrow> int \<Rightarrow> io_error + bool"
  os_proc_open :: "trace \<Rightarrow> int \<Rightarrow> string option"
  os_tasks :: "trace \<Rightarrow> int \<Rightarrow> string + task_entry list"
  os_set_affinity :: "trace \<Rightarrow> int \<Rightarrow> nat \<Rightarrow> string option"
  os_cpu_set_max :: nat
  os_i2c_open :: "trace \<Rightarrow> path \<Rightarrow> io_error option"
  os_i2c_slave :: "trace \<Rightarrow> path \<Rightarrow> nat \<Rightarrow> io_error option"
  os_i2c_write :: "trace \<Rightarrow> path \<Rightarrow> 8 word list \<Rightarrow> io_error option"
  os_i2c_read :: "trace \<Rightarrow> path \<Rightarrow> io_error + 8 word list"
  os_mqtt_poll :: "trace \<Rightarrow> mqtt_event"
  os_mqtt_publish :: "trace \<Rightarrow> string \<Rightarrow> string \<Rightarrow> string option"

text \<open>
  A concrete outside world for evaluating the model: nothing exists, every call fails.  Others are
  updates of it.
\<close>

definition silent_os :: os where
  "silent_os = \<lparr>os_exists = \<lambda>t p. False, os_is_dir = \<lambda>t p. False,
     os_read = \<lambda>t p. Inl (IoError NotFound ''no such file''),
     os_read_link = \<lambda>t p. Inl (IoError NotFound ''no such file''),
     os_read_dir = \<lambda>t p. Inl (IoError NotFound ''no such file''),
     os_write = \<lambda>t p c. Some (IoError NotFound ''no such file''),
     os_create_dir = \<lambda>t p. Some (IoError NotFound ''no such file''),
     os_remove = \<lambda>t p. Some (IoError NotFound ''no such file''),
     os_mount = \<lambda>t p. Some (MountErr ''failed''), os_umount = \<lambda>t p. Some ''failed'',
     os_open_truncate = \<lambda>t p. Some (IoError NotFound ''no such file''),
     os_set_len = \<lambda>t p n. Some (IoError NotFound ''no such file''),
     os_chown = \<lambda>t p u g. Some (IoError NotFound ''no such file''), os_env = \<lambda>t k. None,
     os_spawn = \<lambda>t b as. Inl (IoError NotFound ''no such file''), os_kill = \<lambda>t pid. Some ''failed'',
     os_wait = \<lambda>t pid. Some (IoError OtherKind ''failed''),
     os_try_wait = \<lambda>t pid. Inl (IoError OtherKind ''failed''), os_proc_open = \<lambda>t pid. Some ''failed'',
     os_tasks = \<lambda>t pid. Inl ''failed'', os_set_affinity = \<lambda>t tid c. Some ''failed'', os_cpu_set_max = 1024,
     os_i2c_open = \<lambda>t p. Some (IoError NotFound ''no such file''),
     os_i2c_slave = \<lambda>t p a. Some (IoError NotFound ''no such file''),
     os_i2c_write = \<lambda>t p b. Some (IoError NotFound ''no such file''),
     os_i2c_read = \<lambda>t p. Inl (IoError NotFound ''no such file''),
     os_mqtt_poll = \<lambda>t. MqttEnd, os_mqtt_publish = \<lambda>t tp pl. Some ''failed''\<rparr>"

subsection \<open>Actions\<close>

type_synonym ('s, 'a) act = "'s \<Rightarrow> 'a \<times> 's"
type_synonym 'a io = "(trace, 'a) act"

definition ret :: "'a \<Rightarrow> ('s, 'a) act" where
  [act_simps]: "ret x = (\<lambda>s. (x, s))"

definition okR :: "'a \<Rightarrow> ('s, 'e + 'a) act" where
  [act_simps]: "okR x = (\<lambda>s. (Inr x, s))"

definition errR :: "'e \<Rightarrow> ('s, 'e + 'a) act" where
  [act_simps]: "errR e = (\<lambda>s. (Inl e, s))"

definition andThen :: "('s, 'a) act \<Rightarrow> ('a \<Rightarrow> ('s, 'b) act) \<Rightarrow> ('s, 'b) act" where
  [act_simps]: "andThen m f = (\<lambda>s. case m s of (x, s') \<Rightarrow> f x s')"

definition bindR :: "('s, 'e + 'a) act \<Rightarrow> ('a \<Rightarrow> ('s, 'e + 'b) act) \<Rightarrow> ('s, 'e + 'b) act" where
  [act_simps]: "bindR m f =
     (\<lambda>s. case m s of (Inl e, s') \<Rightarrow> (Inl e, s') | (Inr x, s') \<Rightarrow> f x s')"

definition mapErr :: "('e \<Rightarrow> 'f) \<Rightarrow> ('s, 'e + 'a) act \<Rightarrow> ('s, 'f + 'a) act" where
  [act_simps]: "mapErr g m =
     (\<lambda>s. case m s of (Inl e, s') \<Rightarrow> (Inl (g e), s') | (Inr x, s') \<Rightarrow> (Inr x, s'))"

text \<open>\<^verbatim>\<open>for x in xs { body? }\<close> and a loop whose body cannot fail.\<close>

fun eachR :: "'a list \<Rightarrow> ('a \<Rightarrow> ('s, 'e + unit) act) \<Rightarrow> ('s, 'e + unit) act" where
  "eachR [] body = okR ()"
| "eachR (x # xs) body = bindR (body x) (\<lambda>_. eachR xs body)"

fun eachA :: "'a list \<Rightarrow> ('a \<Rightarrow> ('s, unit) act) \<Rightarrow> ('s, unit) act" where
  "eachA [] body = ret ()"
| "eachA (x # xs) body = andThen (body x) (\<lambda>_. eachA xs body)"

text \<open>A loop that collects: each body yields the elements it pushes.\<close>

fun gatherA :: "'a list \<Rightarrow> ('a \<Rightarrow> ('s, 'b list) act) \<Rightarrow> ('s, 'b list) act" where
  "gatherA [] body = ret []"
| "gatherA (x # xs) body = andThen (body x) (\<lambda>ys. andThen (gatherA xs body) (\<lambda>zs. ret (ys @ zs)))"

fun gatherR :: "'a list \<Rightarrow> ('a \<Rightarrow> ('s, 'e + 'b list) act) \<Rightarrow> ('s, 'e + 'b list) act" where
  "gatherR [] body = okR []"
| "gatherR (x # xs) body = bindR (body x) (\<lambda>ys. bindR (gatherR xs body) (\<lambda>zs. okR (ys @ zs)))"

text \<open>Running an outside action inside a state that carries the trace as its second part.\<close>

definition onOs :: "'a io \<Rightarrow> ('r \<times> trace, 'a) act" where
  [act_simps]: "onOs m = (\<lambda>(r, t). case m t of (x, t') \<Rightarrow> (x, (r, t')))"

definition modify :: "('r \<Rightarrow> 'r) \<Rightarrow> ('r \<times> trace, unit) act" where
  [act_simps]: "modify f = (\<lambda>(r, t). ((), (f r, t)))"

definition peek :: "('r \<times> trace, 'r) act" where
  [act_simps]: "peek = (\<lambda>(r, t). (r, (r, t)))"

subsection \<open>The calls\<close>

definition opt_res :: "'e option \<Rightarrow> 'e + unit" where
  "opt_res r = (case r of None \<Rightarrow> Inr () | Some e \<Rightarrow> Inl e)"

definition call :: "(trace \<Rightarrow> 'a) \<Rightarrow> ('a \<Rightarrow> os_event) \<Rightarrow> 'a io" where
  [act_simps]: "call ans ev = (\<lambda>t. (ans t, t @ [ev (ans t)]))"

definition path_exists :: "os \<Rightarrow> path \<Rightarrow> bool io" where
  "path_exists os p = call (\<lambda>t. os_exists os t p) (\<lambda>_. EvExists p)"
definition path_is_dir :: "os \<Rightarrow> path \<Rightarrow> bool io" where
  "path_is_dir os p = call (\<lambda>t. os_is_dir os t p) (\<lambda>_. EvIsDir p)"
definition read_to_string :: "os \<Rightarrow> path \<Rightarrow> (io_error + string) io" where
  "read_to_string os p = call (\<lambda>t. os_read os t p) (\<lambda>_. EvRead p)"
definition read_link :: "os \<Rightarrow> path \<Rightarrow> (io_error + string) io" where
  "read_link os p = call (\<lambda>t. os_read_link os t p) (\<lambda>_. EvReadLink p)"
definition read_dir :: "os \<Rightarrow> path \<Rightarrow> (io_error + dir_entry list) io" where
  "read_dir os p = call (\<lambda>t. os_read_dir os t p) (\<lambda>_. EvReadDir p)"
definition write_file :: "os \<Rightarrow> path \<Rightarrow> string \<Rightarrow> (io_error + unit) io" where
  "write_file os p c = call (\<lambda>t. opt_res (os_write os t p c)) (\<lambda>r. EvWrite p c (is_ok r))"
definition create_dir_all :: "os \<Rightarrow> path \<Rightarrow> (io_error + unit) io" where
  "create_dir_all os p = call (\<lambda>t. opt_res (os_create_dir os t p)) (\<lambda>r. EvCreateDir p (is_ok r))"
definition remove_file :: "os \<Rightarrow> path \<Rightarrow> (io_error + unit) io" where
  "remove_file os p = call (\<lambda>t. opt_res (os_remove os t p)) (\<lambda>r. EvRemove p (is_ok r))"
definition mount_fs :: "os \<Rightarrow> path \<Rightarrow> (mount_error + unit) io" where
  "mount_fs os p = call (\<lambda>t. opt_res (os_mount os t p)) (\<lambda>r. EvMount p (is_ok r))"
definition umount_fs :: "os \<Rightarrow> path \<Rightarrow> (string + unit) io" where
  "umount_fs os p = call (\<lambda>t. opt_res (os_umount os t p)) (\<lambda>r. EvUmount p (is_ok r))"
definition open_truncate :: "os \<Rightarrow> path \<Rightarrow> (io_error + unit) io" where
  "open_truncate os p = call (\<lambda>t. opt_res (os_open_truncate os t p)) (\<lambda>r. EvOpenTruncate p (is_ok r))"
definition set_len :: "os \<Rightarrow> path \<Rightarrow> nat \<Rightarrow> (io_error + unit) io" where
  "set_len os p n = call (\<lambda>t. opt_res (os_set_len os t p n)) (\<lambda>r. EvSetLen p n (is_ok r))"
definition chown :: "os \<Rightarrow> path \<Rightarrow> nat \<Rightarrow> nat \<Rightarrow> (io_error + unit) io" where
  "chown os p u g = call (\<lambda>t. opt_res (os_chown os t p u g)) (\<lambda>r. EvChown p u g (is_ok r))"
definition env_var :: "os \<Rightarrow> string \<Rightarrow> string option io" where
  "env_var os k = call (\<lambda>t. os_env os t k) (\<lambda>_. EvEnv k)"
definition spawn_process :: "os \<Rightarrow> string \<Rightarrow> string list \<Rightarrow> (io_error + int) io" where
  "spawn_process os b as = call (\<lambda>t. os_spawn os t b as) (\<lambda>r. EvSpawn b as (is_ok r))"
definition kill_term :: "os \<Rightarrow> int \<Rightarrow> (string + unit) io" where
  "kill_term os p = call (\<lambda>t. opt_res (os_kill os t p)) (\<lambda>r. EvKill p (is_ok r))"
definition wait_child :: "os \<Rightarrow> int \<Rightarrow> (io_error + unit) io" where
  "wait_child os p = call (\<lambda>t. opt_res (os_wait os t p)) (\<lambda>r. EvWait p (is_ok r))"
definition try_wait :: "os \<Rightarrow> int \<Rightarrow> (io_error + bool) io" where
  "try_wait os p = call (\<lambda>t. os_try_wait os t p) (\<lambda>_. EvTryWait p)"
definition proc_open :: "os \<Rightarrow> int \<Rightarrow> (string + unit) io" where
  "proc_open os p = call (\<lambda>t. opt_res (os_proc_open os t p)) (\<lambda>_. EvTasks p)"
definition proc_tasks :: "os \<Rightarrow> int \<Rightarrow> (string + task_entry list) io" where
  "proc_tasks os p = call (\<lambda>t. os_tasks os t p) (\<lambda>_. EvTasks p)"
definition set_affinity :: "os \<Rightarrow> int \<Rightarrow> nat \<Rightarrow> (string + unit) io" where
  "set_affinity os tid c = call (\<lambda>t. opt_res (os_set_affinity os t tid c)) (\<lambda>r. EvSetAffinity tid c (is_ok r))"
definition sleep_ms :: "nat \<Rightarrow> unit io" where
  "sleep_ms n = call (\<lambda>_. ()) (\<lambda>_. EvSleep n)"
definition i2c_open :: "os \<Rightarrow> path \<Rightarrow> (io_error + unit) io" where
  "i2c_open os p = call (\<lambda>t. opt_res (os_i2c_open os t p)) (\<lambda>r. EvI2cOpen p (is_ok r))"
definition i2c_slave :: "os \<Rightarrow> path \<Rightarrow> nat \<Rightarrow> (io_error + unit) io" where
  "i2c_slave os p a = call (\<lambda>t. opt_res (os_i2c_slave os t p a)) (\<lambda>r. EvI2cSlave p a (is_ok r))"
definition i2c_write :: "os \<Rightarrow> path \<Rightarrow> 8 word list \<Rightarrow> (io_error + unit) io" where
  "i2c_write os p b = call (\<lambda>t. opt_res (os_i2c_write os t p b)) (\<lambda>r. EvI2cWrite p b (is_ok r))"
definition i2c_read :: "os \<Rightarrow> path \<Rightarrow> (io_error + 8 word list) io" where
  "i2c_read os p = call (\<lambda>t. os_i2c_read os t p) (\<lambda>_. EvI2cRead p)"
definition mqtt_connect :: "string \<Rightarrow> nat \<Rightarrow> string \<Rightarrow> unit io" where
  "mqtt_connect h p c = call (\<lambda>_. ()) (\<lambda>_. EvMqttConnect h p c)"
definition mqtt_poll :: "os \<Rightarrow> mqtt_event io" where
  "mqtt_poll os = call (\<lambda>t. os_mqtt_poll os t) (\<lambda>_. EvMqttPoll)"
definition mqtt_publish :: "os \<Rightarrow> string \<Rightarrow> string \<Rightarrow> (string + unit) io" where
  "mqtt_publish os tp pl = call (\<lambda>t. opt_res (os_mqtt_publish os t tp pl)) (\<lambda>r. EvMqttPublish tp pl (is_ok r))"
definition spawn_thread :: "string \<Rightarrow> unit io" where
  "spawn_thread n = call (\<lambda>_. ()) (\<lambda>_. EvThread n)"

lemmas call_defs =
  path_exists_def path_is_dir_def read_to_string_def read_link_def read_dir_def write_file_def
  create_dir_all_def remove_file_def mount_fs_def umount_fs_def open_truncate_def set_len_def
  chown_def env_var_def spawn_process_def kill_term_def wait_child_def try_wait_def proc_open_def
  proc_tasks_def set_affinity_def sleep_ms_def i2c_open_def i2c_slave_def i2c_write_def
  i2c_read_def mqtt_connect_def mqtt_poll_def mqtt_publish_def spawn_thread_def

subsection \<open>Classes of events\<close>

text \<open>Events that leave the outside world as it is.\<close>

fun is_readonly :: "os_event \<Rightarrow> bool" where
  "is_readonly (EvExists p) = True"
| "is_readonly (EvIsDir p) = True"
| "is_readonly (EvRead p) = True"
| "is_readonly (EvReadLink p) = True"
| "is_readonly (EvReadDir p) = True"
| "is_readonly (EvEnv k) = True"
| "is_readonly (EvTasks p) = True"
| "is_readonly (EvTryWait p) = True"
| "is_readonly (EvSleep n) = True"
| "is_readonly _ = False"

text \<open>The writes of a trace: path, content and outcome, in order.\<close>

fun write_of :: "os_event \<Rightarrow> (path \<times> string \<times> bool) option" where
  "write_of (EvWrite p c b) = Some (p, c, b)"
| "write_of _ = None"

definition writes :: "trace \<Rightarrow> (path \<times> string \<times> bool) list" where
  "writes t = List.map_filter write_of t"

lemma writes_simps [simp]:
  "writes [] = []"
  "writes (a @ b) = writes a @ writes b"
  "writes (EvWrite p c ok # t) = (p, c, ok) # writes t"
  "write_of e = None \<Longrightarrow> writes (e # t) = writes t"
  by (simp_all add: writes_def map_filter_def)

lemma readonly_no_write: "is_readonly e \<Longrightarrow> write_of e = None"
  by (cases e) simp_all

lemma readonly_writes: "list_all is_readonly t \<Longrightarrow> writes t = []"
  by (induction t) (auto simp: readonly_no_write)

subsection \<open>Unfolding the combinators\<close>

lemma bindR_ok:
  assumes "bindR m f s = (Inr y, s'')"
  obtains x s' where "m s = (Inr x, s')" "f x s' = (Inr y, s'')"
  using assms by (auto simp: bindR_def split: prod.splits sum.splits)

lemma bindR_err:
  assumes "bindR m f s = (Inl e, s'')"
  obtains "m s = (Inl e, s'')" | x s' where "m s = (Inr x, s')" "f x s' = (Inl e, s'')"
  using assms by (auto simp: bindR_def split: prod.splits sum.splits)

lemma andThen_eq:
  assumes "andThen m f s = (y, s'')"
  obtains x s' where "m s = (x, s')" "f x s' = (y, s'')"
  using assms by (auto simp: andThen_def split: prod.splits)

lemma mapErr_ok [simp]: "mapErr g m s = (Inr x, s') \<longleftrightarrow> m s = (Inr x, s')"
  by (auto simp: mapErr_def split: prod.splits sum.splits)

lemma mapErr_err: "mapErr g m s = (Inl e, s') \<longleftrightarrow> (\<exists>e'. m s = (Inl e', s') \<and> e = g e')"
  by (auto simp: mapErr_def split: prod.splits sum.splits)

lemma okR_ok [simp]: "okR x s = (Inr y, s') \<longleftrightarrow> x = y \<and> s = s'"
  by (auto simp: okR_def)

lemma okR_not_err [simp]: "okR x s \<noteq> (Inl e, s')"
  by (simp add: okR_def)

lemma errR_not_ok [simp]: "errR e s \<noteq> (Inr y, s')"
  by (simp add: errR_def)

lemma errR_err [simp]: "errR e s = (Inl e', s') \<longleftrightarrow> e = e' \<and> s = s'"
  by (auto simp: errR_def)

lemma ret_eq [simp]: "ret x s = (y, s') \<longleftrightarrow> x = y \<and> s = s'"
  by (auto simp: ret_def)

lemma opt_res_simps [simp]: "opt_res None = Inr ()" "opt_res (Some e) = Inl e"
  by (simp_all add: opt_res_def)

subsection \<open>Frames: which events an action adds\<close>

definition emits :: "('s \<Rightarrow> trace) \<Rightarrow> (os_event \<Rightarrow> bool) \<Rightarrow> ('s, 'a) act \<Rightarrow> bool" where
  "emits g P m \<longleftrightarrow> (\<forall>s. \<exists>ev. g (snd (m s)) = g s @ ev \<and> list_all P ev)"

abbreviation io_emits :: "(os_event \<Rightarrow> bool) \<Rightarrow> 'a io \<Rightarrow> bool" where
  "io_emits \<equiv> emits (\<lambda>t. t)"

lemma emitsE:
  assumes "emits g P m" "m s = (x, s')"
  obtains ev where "g s' = g s @ ev" "list_all P ev"
  using assms unfolding emits_def by (metis snd_conv)

lemma emitsI:
  assumes "\<And>s x s'. m s = (x, s') \<Longrightarrow> \<exists>ev. g s' = g s @ ev \<and> list_all P ev"
  shows "emits g P m"
  using assms unfolding emits_def by (metis prod.collapse)

lemma emits_ret [emits_intros]: "emits g P (ret x)"
  by (simp add: emits_def ret_def)

lemma emits_okR [emits_intros]: "emits g P (okR x)"
  by (simp add: emits_def okR_def)

lemma emits_errR [emits_intros]: "emits g P (errR x)"
  by (simp add: emits_def errR_def)

lemma emits_andThen [emits_intros]:
  assumes m: "emits g P m" and f: "\<And>x. emits g P (f x)"
  shows "emits g P (andThen m f)"
proof (rule emitsI)
  fix s y s'' assume "andThen m f s = (y, s'')"
  then obtain x s' where ms: "m s = (x, s')" and fs: "f x s' = (y, s'')" by (rule andThen_eq)
  obtain a where "g s' = g s @ a" "list_all P a" using m ms by (rule emitsE)
  moreover obtain b where "g s'' = g s' @ b" "list_all P b" using f fs by (rule emitsE)
  ultimately show "\<exists>ev. g s'' = g s @ ev \<and> list_all P ev" by (intro exI [of _ "a @ b"]) simp
qed

lemma bindR_as_andThen:
  "bindR m f = andThen m (\<lambda>r. case r of Inl e \<Rightarrow> errR e | Inr x \<Rightarrow> f x)"
  by (auto simp: act_simps fun_eq_iff split: prod.splits sum.splits)

lemma mapErr_as_andThen:
  "mapErr h m = andThen m (\<lambda>r. case r of Inl e \<Rightarrow> errR (h e) | Inr x \<Rightarrow> okR x)"
  by (auto simp: act_simps fun_eq_iff split: prod.splits sum.splits)

lemma emits_bindR [emits_intros]:
  "emits g P m \<Longrightarrow> (\<And>x. emits g P (f x)) \<Longrightarrow> emits g P (bindR m f)"
  unfolding bindR_as_andThen by (intro emits_andThen) (auto simp: emits_errR split: sum.split)

lemma emits_mapErr [emits_intros]: "emits g P m \<Longrightarrow> emits g P (mapErr h m)"
  unfolding mapErr_as_andThen
  by (intro emits_andThen) (auto simp: emits_errR emits_okR split: sum.split)

lemma emits_eachR [emits_intros]: "(\<And>x. x \<in> set xs \<Longrightarrow> emits g P (b x)) \<Longrightarrow> emits g P (eachR xs b)"
  by (induction xs) (auto intro!: emits_intros)

lemma emits_eachA [emits_intros]: "(\<And>x. x \<in> set xs \<Longrightarrow> emits g P (b x)) \<Longrightarrow> emits g P (eachA xs b)"
  by (induction xs) (auto intro!: emits_intros)

lemma emits_gatherA [emits_intros]: "(\<And>x. x \<in> set xs \<Longrightarrow> emits g P (b x)) \<Longrightarrow> emits g P (gatherA xs b)"
  by (induction xs) (auto intro!: emits_intros)

lemma emits_gatherR [emits_intros]: "(\<And>x. x \<in> set xs \<Longrightarrow> emits g P (b x)) \<Longrightarrow> emits g P (gatherR xs b)"
  by (induction xs) (auto intro!: emits_intros)

lemma emits_if [emits_intros]: "(c \<Longrightarrow> emits g P a) \<Longrightarrow> (\<not> c \<Longrightarrow> emits g P b) \<Longrightarrow> emits g P (if c then a else b)"
  by simp

lemma emits_case_sum [emits_intros]:
  "(\<And>e. r = Inl e \<Longrightarrow> emits g P (a e)) \<Longrightarrow> (\<And>x. r = Inr x \<Longrightarrow> emits g P (b x)) \<Longrightarrow>
   emits g P (case r of Inl e \<Rightarrow> a e | Inr x \<Rightarrow> b x)"
  by (cases r) simp_all

lemma emits_case_option [emits_intros]:
  "(r = None \<Longrightarrow> emits g P a) \<Longrightarrow> (\<And>x. r = Some x \<Longrightarrow> emits g P (b x)) \<Longrightarrow>
   emits g P (case r of None \<Rightarrow> a | Some x \<Rightarrow> b x)"
  by (cases r) simp_all

lemma emits_case_prod [emits_intros]:
  "(\<And>x y. r = (x, y) \<Longrightarrow> emits g P (f x y)) \<Longrightarrow> emits g P (case r of (x, y) \<Rightarrow> f x y)"
  by (cases r) simp

lemma emits_let [emits_intros]: "(\<And>x. x = v \<Longrightarrow> emits g P (f x)) \<Longrightarrow> emits g P (let x = v in f x)"
  by simp

lemma emits_case_dir_entry [emits_intros]:
  "(\<And>m. r = EntryErr m \<Longrightarrow> emits g P (a m)) \<Longrightarrow> (r = EntryNonUtf8 \<Longrightarrow> emits g P b) \<Longrightarrow>
   (\<And>n. r = Entry n \<Longrightarrow> emits g P (c n)) \<Longrightarrow>
   emits g P (case r of EntryErr m \<Rightarrow> a m | EntryNonUtf8 \<Rightarrow> b | Entry n \<Rightarrow> c n)"
  by (cases r) simp_all

lemma emits_onOs [emits_intros]: "io_emits P m \<Longrightarrow> emits snd P (onOs m)"
  unfolding emits_def onOs_def by (auto split: prod.splits) (metis snd_conv)

lemma emits_modify [emits_intros]: "emits snd P (modify f)"
  by (auto simp: emits_def modify_def)

lemma emits_peek [emits_intros]: "emits snd P peek"
  by (auto simp: emits_def peek_def)

lemma emits_call: "(\<And>x. P (ev x)) \<Longrightarrow> io_emits P (call ans ev)"
  by (auto simp: emits_def call_def)

lemma emits_mono: "emits g P m \<Longrightarrow> (\<And>e. P e \<Longrightarrow> Q e) \<Longrightarrow> emits g Q m"
  unfolding emits_def by (meson list.pred_mono_strong)

lemma emits_calls [emits_intros]:
  "P (EvExists p) \<Longrightarrow> io_emits P (path_exists os p)"
  "P (EvIsDir p) \<Longrightarrow> io_emits P (path_is_dir os p)"
  "P (EvRead p) \<Longrightarrow> io_emits P (read_to_string os p)"
  "P (EvReadLink p) \<Longrightarrow> io_emits P (read_link os p)"
  "P (EvReadDir p) \<Longrightarrow> io_emits P (read_dir os p)"
  "(\<And>b. P (EvWrite p c b)) \<Longrightarrow> io_emits P (write_file os p c)"
  "(\<And>b. P (EvCreateDir p b)) \<Longrightarrow> io_emits P (create_dir_all os p)"
  "(\<And>b. P (EvRemove p b)) \<Longrightarrow> io_emits P (remove_file os p)"
  "(\<And>b. P (EvMount p b)) \<Longrightarrow> io_emits P (mount_fs os p)"
  "(\<And>b. P (EvUmount p b)) \<Longrightarrow> io_emits P (umount_fs os p)"
  "(\<And>b. P (EvOpenTruncate p b)) \<Longrightarrow> io_emits P (open_truncate os p)"
  "(\<And>b. P (EvSetLen p n b)) \<Longrightarrow> io_emits P (set_len os p n)"
  "(\<And>b. P (EvChown p u gr b)) \<Longrightarrow> io_emits P (chown os p u gr)"
  "P (EvEnv k) \<Longrightarrow> io_emits P (env_var os k)"
  "(\<And>b. P (EvSpawn bin as b)) \<Longrightarrow> io_emits P (spawn_process os bin as)"
  "(\<And>b. P (EvKill pid b)) \<Longrightarrow> io_emits P (kill_term os pid)"
  "(\<And>b. P (EvWait pid b)) \<Longrightarrow> io_emits P (wait_child os pid)"
  "P (EvTryWait pid) \<Longrightarrow> io_emits P (try_wait os pid)"
  "P (EvTasks pid) \<Longrightarrow> io_emits P (proc_open os pid)"
  "P (EvTasks pid) \<Longrightarrow> io_emits P (proc_tasks os pid)"
  "(\<And>b. P (EvSetAffinity pid cpu b)) \<Longrightarrow> io_emits P (set_affinity os pid cpu)"
  "P (EvSleep n) \<Longrightarrow> io_emits P (sleep_ms n)"
  "(\<And>b. P (EvI2cOpen p b)) \<Longrightarrow> io_emits P (i2c_open os p)"
  "(\<And>b. P (EvI2cSlave p n b)) \<Longrightarrow> io_emits P (i2c_slave os p n)"
  "(\<And>b. P (EvI2cWrite p bs b)) \<Longrightarrow> io_emits P (i2c_write os p bs)"
  "P (EvI2cRead p) \<Longrightarrow> io_emits P (i2c_read os p)"
  "P (EvMqttConnect h n c) \<Longrightarrow> io_emits P (mqtt_connect h n c)"
  "P EvMqttPoll \<Longrightarrow> io_emits P (mqtt_poll os)"
  "(\<And>b. P (EvMqttPublish tp pl b)) \<Longrightarrow> io_emits P (mqtt_publish os tp pl)"
  "P (EvThread c) \<Longrightarrow> io_emits P (spawn_thread c)"
  by (auto simp: call_defs intro!: emits_call)

text \<open>A silent action leaves the trace as it is; a read-only one adds no write.\<close>

lemma emits_readonly_writes:
  assumes "emits g is_readonly m" "m s = (x, s')"
  shows "writes (g s') = writes (g s)"
proof -
  from assms obtain ev where "g s' = g s @ ev" "list_all is_readonly ev" by (rule emitsE)
  then show ?thesis by (simp add: readonly_writes)
qed

subsection \<open>Exact effects: which writes an action attempts\<close>

text \<open>
  For best-effort code, which goes on whatever a write returned: the paths and contents an action
  writes, in order, on every run.
\<close>

named_theorems attempts_intros "which writes a best-effort action attempts"

definition attempted :: "trace \<Rightarrow> (path \<times> string) list" where
  "attempted t = map (\<lambda>(p, c, ok). (p, c)) (writes t)"

lemma attempted_simps [simp]:
  "attempted [] = []"
  "attempted (a @ b) = attempted a @ attempted b"
  "attempted (EvWrite p c ok # t) = (p, c) # attempted t"
  "write_of e = None \<Longrightarrow> attempted (e # t) = attempted t"
  by (simp_all add: attempted_def)

definition attempts :: "('s \<Rightarrow> trace) \<Rightarrow> (path \<times> string) list \<Rightarrow> ('s, 'a) act \<Rightarrow> bool" where
  "attempts g ws m \<longleftrightarrow> (\<forall>s. attempted (g (snd (m s))) = attempted (g s) @ ws)"

lemma attemptsD: "attempts g ws m \<Longrightarrow> m s = (x, s') \<Longrightarrow> attempted (g s') = attempted (g s) @ ws"
  unfolding attempts_def by (metis snd_conv)

lemma attempts_ret [attempts_intros]: "attempts g [] (ret x)"
  by (simp add: attempts_def ret_def)
lemma attempts_okR [attempts_intros]: "attempts g [] (okR x)"
  by (simp add: attempts_def okR_def)
lemma attempts_andThen [attempts_intros]:
  "attempts g ws m \<Longrightarrow> (\<And>x. attempts g vs (f x)) \<Longrightarrow> attempts g (ws @ vs) (andThen m f)"
  unfolding attempts_def andThen_def by (auto split: prod.splits) (metis append_assoc snd_conv)
lemma attempts_mapErr [attempts_intros]: "attempts g ws m \<Longrightarrow> attempts g ws (mapErr h m)"
  unfolding attempts_def mapErr_def by (auto split: prod.splits sum.splits) (metis snd_conv)+
lemma attempts_write [attempts_intros]: "attempts (\<lambda>t. t) [(p, c)] (write_file os p c)"
  by (simp add: attempts_def call_defs act_simps)
lemma attempts_onOs [attempts_intros]: "attempts (\<lambda>t. t) ws m \<Longrightarrow> attempts snd ws (onOs m)"
  unfolding attempts_def onOs_def by (auto split: prod.splits) (metis snd_conv)
lemma attempts_modify [attempts_intros]: "attempts snd [] (modify f)"
  by (auto simp: attempts_def modify_def)
lemma attempts_silent:
  assumes "emits g (\<lambda>e. write_of e = None) m"
  shows "attempts g [] m"
proof -
  have "attempted ev = []" if "list_all (\<lambda>e. write_of e = None) ev" for ev
    using that by (induction ev) simp_all
  with assms show ?thesis
    unfolding emits_def attempts_def by (metis attempted_simps(2))
qed

subsection \<open>Running actions on a given state\<close>

text \<open>
  One rule per combinator that turns an equation about a run into equations about the runs of its
  parts, so that the simplifier walks through a handler from its first call to its outcome.
\<close>

named_theorems run_simps "equations about the runs of composed actions"

lemma run_bindR_ok [run_simps]:
  "bindR m f s = (Inr y, s'') \<longleftrightarrow> (\<exists>x s'. m s = (Inr x, s') \<and> f x s' = (Inr y, s''))"
  by (auto simp: bindR_def split: prod.splits sum.splits)
lemma run_bindR_err [run_simps]:
  "bindR m f s = (Inl e, s'') \<longleftrightarrow>
     m s = (Inl e, s'') \<or> (\<exists>x s'. m s = (Inr x, s') \<and> f x s' = (Inl e, s''))"
  by (auto simp: bindR_def split: prod.splits sum.splits)
lemma run_andThen [run_simps]:
  "andThen m f s = (y, s'') \<longleftrightarrow> (\<exists>x s'. m s = (x, s') \<and> f x s' = (y, s''))"
  by (auto simp: andThen_def split: prod.splits)
lemma run_mapErr [run_simps]: "mapErr h m s = (Inl e, s') \<longleftrightarrow> (\<exists>e'. m s = (Inl e', s') \<and> e = h e')"
  by (rule mapErr_err)
lemma run_onOs [run_simps]: "onOs m (r, t) = (x, (r', t')) \<longleftrightarrow> r' = r \<and> m t = (x, t')"
  by (auto simp: onOs_def split: prod.splits)
lemma run_onOs_pair [run_simps]: "onOs m (r, t) = (x, s') \<longleftrightarrow> fst s' = r \<and> m t = (x, snd s')"
  by (auto simp: onOs_def split: prod.splits)
lemma run_modify [run_simps]: "modify f (r, t) = (x, s') \<longleftrightarrow> s' = (f r, t)"
  by (auto simp: modify_def)
lemma run_peek [run_simps]: "peek (r, t) = (x, s') \<longleftrightarrow> x = r \<and> s' = (r, t)"
  by (auto simp: peek_def)
lemma run_okR [run_simps]: "okR x s = (r, s') \<longleftrightarrow> r = Inr x \<and> s' = s"
  by (auto simp: okR_def)
lemma run_errR [run_simps]: "errR e s = (r, s') \<longleftrightarrow> r = Inl e \<and> s' = s"
  by (auto simp: errR_def)
lemma run_ret [run_simps]: "ret x s = (y, s') \<longleftrightarrow> y = x \<and> s' = s"
  by (auto simp: ret_def)

end
