(* ===== verification/Chalybs_Config.thy ===== *)
theory Chalybs_Config
  imports Chalybs_Os
begin

text \<open>
  The configuration of \<^verbatim>\<open>core/src/config.rs\<close>: its structs as records, its enums as
  datatypes, the defaults, and the checks of \<^verbatim>\<open>RootConfig::validate\<close>.  Decoding TOML is
  the third-party \<^verbatim>\<open>toml\<close> crate and a parameter of \<open>from_path\<close>.  A \<^verbatim>\<open>HashMap\<close> is
  an association list in its iteration order.
\<close>

subsection \<open>Data\<close>

record cpu_config =
  cc_host_cpus :: string
  cc_vm_cpus :: string

record smbios_config =
  sm_bios_vendor :: "string option"
  sm_bios_version :: "string option"
  sm_bios_date :: "string option"
  sm_system_manufacturer :: "string option"
  sm_system_product_name :: "string option"
  sm_system_uuid :: "string option"
  sm_baseboard_manufacturer :: "string option"
  sm_baseboard_product :: "string option"

record cpu_extras_config =
  ce_abi :: "string option"
  ce_topo :: "string option"
  ce_hv_contexts :: "string option"
  ce_vendor_id :: "string option"

record qemu_config =
  qc_binary :: string
  qc_pre_args :: "string option"
  qc_args :: string
  qc_post_args :: "string option"
  qc_rtc :: "string option"
  qc_num_vcpus :: nat
  qc_mem_mb :: "64 word"
  qc_hugepages :: bool
  qc_ovmf_code :: string
  qc_ovmf_vars :: string
  qc_smbios :: "smbios_config option"
  qc_cpu_model :: "string option"
  qc_cpu_extras :: "cpu_extras_config option"
  qc_rombar_off :: "string list option"
  qc_pci_rootport :: "(string \<times> string) list option"
  qc_legacy_primary_gpu :: bool

record numa_config =
  nc_node :: "nat option"
  nc_hugepage_node :: "nat option"

datatype isolation_mode = Disabled | Audit | Enforce

datatype isolation_level = Dedicated | SharedWithHost | Forbidden

record pci_device_config =
  pd_pci_address :: string
  pd_required :: bool
  pd_level :: "isolation_level option"

record devices_config =
  dv_gpu :: "pci_device_config list option"
  dv_nvme :: "pci_device_config list option"
  dv_nic :: "pci_device_config list option"
  dv_usb :: "pci_device_config list option"

record gpu_policy_config =
  gp_allow_single_gpu :: bool
  gp_force_use_igpu :: bool

record isolation_policy_config =
  ip_mode :: isolation_mode
  ip_default_level :: isolation_level
  ip_require_iommu_exclusive :: bool
  ip_require_multifunction_consistency :: bool
  ip_forbid_host_critical_in_group :: bool

record tasmota_config =
  tc_mqtt_host :: string
  tc_username :: "string option"
  tc_password :: "string option"
  tc_device_id :: string

record ddc_config =
  dc_monitor_i2c_bus :: "8 word"
  dc_vm_input :: "8 word"
  dc_host_input :: "8 word"
  dc_fatal_on_error :: bool

record looking_glass_config =
  lg_shm_name :: string
  lg_mem_mb :: "64 word"

record spice_config =
  sp_enabled :: bool
  sp_port :: nat
  sp_addr :: string

record peripheral_config =
  pc_tasmota :: "tasmota_config option"
  pc_ddc :: "ddc_config option"
  pc_looking_glass :: "looking_glass_config option"
  pc_spice :: "spice_config option"

record vm_config =
  vc_cpu :: cpu_config
  vc_qemu :: qemu_config
  vc_numa :: "numa_config option"
  vc_devices :: devices_config
  vc_gpu :: gpu_policy_config
  vc_isolation :: isolation_policy_config
  vc_peripherals :: "peripheral_config option"

record logging_config =
  lc_level :: "string option"
  lc_format :: "string option"

record root_config =
  rc_vm :: "(string \<times> vm_config) list"
  rc_logging :: "logging_config option"

subsection \<open>Defaults\<close>

definition default_required :: bool where
  "default_required = True"

definition default_isolation_mode :: isolation_mode where
  "default_isolation_mode = Disabled"

definition default_isolation_level :: isolation_level where
  "default_isolation_level = Dedicated"

definition default_true :: bool where
  "default_true = True"

definition isolation_policy_default :: isolation_policy_config where
  "isolation_policy_default =
     \<lparr>ip_mode = default_isolation_mode,
      ip_default_level = default_isolation_level,
      ip_require_iommu_exclusive = default_true,
      ip_require_multifunction_consistency = default_true,
      ip_forbid_host_critical_in_group = default_true\<rparr>"

lemmas config_default_defs =
  default_required_def default_isolation_mode_def default_isolation_level_def default_true_def
  isolation_policy_default_def

subsection \<open>Validation\<close>

text \<open>The body of the loop over \<^verbatim>\<open>self.vm\<close>: the first failing check of the entry.\<close>

definition validate_vm :: "string \<Rightarrow> vm_config \<Rightarrow> unit result" where
  "validate_vm name vm =
     (if qc_num_vcpus (vc_qemu vm) = 0 then
        Inl (Config (''vm '' @ name @ '': num_vcpus must be > 0''))
      else if cc_vm_cpus (vc_cpu vm) = [] then
        Inl (Config (''vm '' @ name @ '': vm_cpus must not be empty''))
      else Inr ())"

fun validate_vms :: "(string \<times> vm_config) list \<Rightarrow> unit result" where
  "validate_vms [] = Inr ()"
| "validate_vms ((name, vm) # rest) =
     (case validate_vm name vm of Inl e \<Rightarrow> Inl e | Inr _ \<Rightarrow> validate_vms rest)"

definition validate :: "root_config \<Rightarrow> unit result" where
  "validate cfg =
     (if rc_vm cfg = [] then Inl (Config ''no VMs defined'') else validate_vms (rc_vm cfg))"

text \<open>\<^verbatim>\<open>RootConfig::from_path\<close>; \<open>toml\<close> stands for \<^verbatim>\<open>toml::from_str\<close>.\<close>

definition from_path :: "os \<Rightarrow> (string \<Rightarrow> string + root_config) \<Rightarrow> path \<Rightarrow> root_config result io" where
  "from_path os toml p =
     bindR (mapErr (\<lambda>e. Io (io_error_msg e)) (read_to_string os p)) (\<lambda>data.
       case toml data of
         Inl e \<Rightarrow> errR (Toml e)
       | Inr cfg \<Rightarrow> (case validate cfg of Inl e \<Rightarrow> errR e | Inr _ \<Rightarrow> okR cfg))"

text \<open>A configured VM is one that the checks let through.\<close>

definition vm_ok :: "vm_config \<Rightarrow> bool" where
  "vm_ok vm \<longleftrightarrow> 0 < qc_num_vcpus (vc_qemu vm) \<and> cc_vm_cpus (vc_cpu vm) \<noteq> []"

lemma validate_vm_ok: "is_ok (validate_vm name vm) \<longleftrightarrow> vm_ok vm"
  by (auto simp: validate_vm_def vm_ok_def)

lemma validate_vms_ok: "is_ok (validate_vms vms) \<longleftrightarrow> (\<forall>(name, vm) \<in> set vms. vm_ok vm)"
proof (induction vms rule: validate_vms.induct)
  case (2 name vm rest)
  then show ?case
    using validate_vm_ok [of name vm] by (cases "validate_vm name vm") auto
qed simp

text \<open>Accepted exactly when there is a VM and every VM passes, whatever the map's order.\<close>

lemma validate_ok_iff:
  "is_ok (validate cfg) \<longleftrightarrow> rc_vm cfg \<noteq> [] \<and> (\<forall>(name, vm) \<in> set (rc_vm cfg). vm_ok vm)"
  by (simp add: validate_def validate_vms_ok)

lemma from_path_ok:
  assumes "from_path os toml p t = (Inr cfg, t')"
  shows "is_ok (validate cfg)" "t' = t @ [EvRead p]"
  using assms
  by (auto simp: from_path_def call_defs act_simps split: sum.splits)

end
