(* ===== verification/Chalybs_Util.thy ===== *)
theory Chalybs_Util
  imports Chalybs_Config
begin

text \<open>
  CPU lists: the strict parser of \<^verbatim>\<open>core/src/util.rs\<close>, the forgiving one of
  \<^verbatim>\<open>core/src/cpu/detect/topology.rs\<close>, and the printer that \<^verbatim>\<open>core/src/cpuset/mod.rs\<close>
  and \<^verbatim>\<open>core/src/irq/pin.rs\<close> both carry.  The main results are the round trip through the
  printer and what the two parsers have in common.
\<close>

subsection \<open>The strict parser\<close>

text \<open>\<^verbatim>\<open>for c in start..=end\<close> pushes nothing when \<^verbatim>\<open>end < start\<close>.\<close>

definition cpu_range :: "nat \<Rightarrow> nat \<Rightarrow> nat list" where
  "cpu_range a b = [a..<Suc b]"

definition parse_cpu_part :: "string \<Rightarrow> nat list result" where
  "parse_cpu_part part =
     (case split_once (CHR ''-'') part of
        Some (start, end) \<Rightarrow>
          (case parse_u32 start of
             Inl e \<Rightarrow> Inl (Config (''invalid cpu range start '' @ quoted start @ '': '' @ show_parse_int_error e))
           | Inr a \<Rightarrow>
               (case parse_u32 end of
                  Inl e \<Rightarrow> Inl (Config (''invalid cpu range end '' @ quoted end @ '': '' @ show_parse_int_error e))
                | Inr b \<Rightarrow> Inr (cpu_range a b)))
      | None \<Rightarrow>
          (case parse_u32 part of
             Inl e \<Rightarrow> Inl (Config (''invalid cpu '' @ quoted part @ '': '' @ show_parse_int_error e))
           | Inr c \<Rightarrow> Inr [c]))"

fun parse_cpu_parts :: "string list \<Rightarrow> nat list result" where
  "parse_cpu_parts [] = Inr []"
| "parse_cpu_parts (p # ps) =
     (case parse_cpu_part p of
        Inl e \<Rightarrow> Inl e
      | Inr cs \<Rightarrow> (case parse_cpu_parts ps of Inl e \<Rightarrow> Inl e | Inr ds \<Rightarrow> Inr (cs @ ds)))"

definition parse_cpu_list :: "string \<Rightarrow> nat list result" where
  "parse_cpu_list s =
     parse_cpu_parts (filter (\<lambda>p. p \<noteq> []) (map trim (split_on (CHR '','') s)))"

subsection \<open>The forgiving parser\<close>

definition parse_cpulist_part :: "string \<Rightarrow> nat list" where
  "parse_cpulist_part part =
     (case split_once (CHR ''-'') part of
        Some (start_s, end_s) \<Rightarrow>
          (case (parse_u32 (trim start_s), parse_u32 (trim end_s)) of
             (Inr start, Inr end) \<Rightarrow> if end < start then [] else cpu_range start end
           | (Inr start, Inl _) \<Rightarrow> [start]
           | (Inl _, Inr end) \<Rightarrow> [end]
           | (Inl _, Inl _) \<Rightarrow> [])
      | None \<Rightarrow> (case parse_u32 part of Inr cpu \<Rightarrow> [cpu] | Inl _ \<Rightarrow> []))"

definition parse_cpulist :: "string \<Rightarrow> nat list" where
  "parse_cpulist s =
     concat (map (\<lambda>p. let part = trim p in if part = [] then [] else parse_cpulist_part part)
       (split_on (CHR '','') s))"

subsection \<open>The printer\<close>

text \<open>\<^verbatim>\<open>format_cpu_list\<close> of \<^verbatim>\<open>cpuset/mod.rs\<close> and, word for word the same, of \<^verbatim>\<open>irq/pin.rs\<close>.\<close>

definition format_cpu_list :: "nat list \<Rightarrow> string" where
  "format_cpu_list cpus = join '','' (map show_nat (sort_dedup cpus))"

definition format_cpu_list_irq :: "nat list \<Rightarrow> string" where
  "format_cpu_list_irq cpus = join '','' (map show_nat (sort_dedup cpus))"

subsection \<open>Lemmas\<close>

lemma split_once_pieces:
  "split_once c s = Some (a, b) \<Longrightarrow> s = a @ c # b \<and> c \<notin> set a"
  by (induction s arbitrary: a) (auto split: if_splits)

lemma is_ws_no_digit:
  assumes "is_ws c" shows "to_digit r c = None"
  using assms by (auto simp: is_ws_def to_digit_def Let_def split: if_splits option.splits)

lemma parse_digits_no_ws:
  "parse_digits r mx acc s = Inr v \<Longrightarrow> c \<in> set s \<Longrightarrow> \<not> is_ws c"
  by (induction r mx acc s rule: parse_digits.induct)
    (auto split: option.splits if_splits simp: is_ws_no_digit)

lemma parse_unsigned_no_ws:
  assumes "parse_unsigned r mx s = Inr v" "c \<in> set s"
  shows "\<not> is_ws c"
proof -
  have plus: "\<not> is_ws (CHR ''+'')" by (simp add: is_ws_def)
  show ?thesis
    using assms plus
    by (auto simp: parse_unsigned_def simp del: parse_digits.simps dest: parse_digits_no_ws
        split: list.splits if_splits)
qed

lemma trim_parsed: "parse_u32 s = Inr v \<Longrightarrow> trim s = s"
  by (rule trim_id) (auto simp: parse_u32_def dest: parse_unsigned_no_ws)

text \<open>Every CPU a successful parse yields fits 32 bits.\<close>

lemma parse_cpu_part_bound:
  assumes "parse_cpu_part p = Inr cs" "c \<in> set cs"
  shows "c \<le> u32_max"
proof -
  from assms consider a b x y where "split_once (CHR ''-'') p = Some (a, b)"
      "parse_u32 a = Inr x" "parse_u32 b = Inr y" "cs = cpu_range x y"
    | x where "parse_u32 p = Inr x" "cs = [x]"
    by (auto simp: parse_cpu_part_def split: option.splits sum.splits)
  then show ?thesis
  proof cases
    case 1
    then have "y \<le> u32_max" "c \<le> y" using assms(2) by (auto simp: cpu_range_def dest: parse_u32_bound split: if_splits)
    then show ?thesis by simp
  qed (use assms(2) in \<open>auto dest: parse_u32_bound\<close>)
qed

lemma parse_cpu_parts_bound:
  "parse_cpu_parts ps = Inr cs \<Longrightarrow> c \<in> set cs \<Longrightarrow> c \<le> u32_max"
  by (induction ps arbitrary: cs) (auto split: sum.splits dest: parse_cpu_part_bound)

lemma parse_cpu_list_bound:
  "parse_cpu_list s = Inr cs \<Longrightarrow> c \<in> set cs \<Longrightarrow> c \<le> u32_max"
  by (simp add: parse_cpu_list_def parse_cpu_parts_bound)

lemma parse_cpu_part_show: "n \<le> u32_max \<Longrightarrow> parse_cpu_part (show_nat n) = Inr [n]"
  by (simp add: parse_cpu_part_def split_once_no_sep show_nat_clean parse_u32_show_nat)

lemma parse_cpu_parts_show:
  "\<forall>n \<in> set ns. n \<le> u32_max \<Longrightarrow> parse_cpu_parts (map show_nat ns) = Inr ns"
  by (induction ns) (auto simp: parse_cpu_part_show)

lemma filter_nonempty_show: "filter (\<lambda>p. p \<noteq> []) (map show_nat ns) = map show_nat ns"
  by (induction ns) auto

text \<open>A comma-separated list of printed numbers parses to these numbers.\<close>

lemma parse_cpu_list_join:
  assumes "\<forall>n \<in> set ns. n \<le> u32_max"
  shows "parse_cpu_list (join '','' (map show_nat ns)) = Inr ns"
proof (cases "ns = []")
  case True
  then show ?thesis by (simp add: parse_cpu_list_def trim_def)
next
  case False
  then have "split_on (CHR '','') (join '','' (map show_nat ns)) = map show_nat ns"
    by (intro split_on_join) (auto simp: show_nat_clean(1))
  then have "parse_cpu_list (join '','' (map show_nat ns)) =
      parse_cpu_parts (filter (\<lambda>p. p \<noteq> []) (map show_nat ns))"
    by (simp add: parse_cpu_list_def comp_def)
  then show ?thesis
    using parse_cpu_parts_show [OF assms] by (simp add: filter_nonempty_show)
qed

lemma parse_format_cpu_list:
  assumes "\<forall>n \<in> set ns. n \<le> u32_max"
  shows "parse_cpu_list (format_cpu_list ns) = Inr (sort_dedup ns)"
  using assms by (simp add: format_cpu_list_def parse_cpu_list_join)

lemma format_cpu_list_irq_eq: "format_cpu_list_irq = format_cpu_list"
  by (simp add: fun_eq_iff format_cpu_list_def format_cpu_list_irq_def)

text \<open>Where the strict parser succeeds the forgiving one gives the same list.\<close>

lemma cpulist_part_agrees:
  assumes "parse_cpu_part p = Inr cs"
  shows "parse_cpulist_part p = cs"
proof -
  from assms consider a b x y where "split_once (CHR ''-'') p = Some (a, b)"
      "parse_u32 a = Inr x" "parse_u32 b = Inr y" "cs = cpu_range x y"
    | x where "split_once (CHR ''-'') p = None" "parse_u32 p = Inr x" "cs = [x]"
    by (auto simp: parse_cpu_part_def split: option.splits sum.splits)
  then show ?thesis
  proof cases
    case 1
    moreover from 1 have "trim a = a" "trim b = b" by (auto dest: trim_parsed)
    ultimately show ?thesis by (auto simp: parse_cpulist_part_def cpu_range_def)
  qed (simp add: parse_cpulist_part_def)
qed

lemma cpulist_parts_agree:
  assumes "parse_cpu_parts (filter (\<lambda>p. p \<noteq> []) (map trim ps)) = Inr cs"
  shows "concat (map (\<lambda>p. let part = trim p in if part = [] then [] else parse_cpulist_part part) ps) = cs"
  using assms
  by (induction ps arbitrary: cs)
    (auto simp: Let_def split: if_splits sum.splits dest: cpulist_part_agrees)

lemma parse_cpulist_agrees: "parse_cpu_list s = Inr cs \<Longrightarrow> parse_cpulist s = cs"
  unfolding parse_cpu_list_def parse_cpulist_def by (rule cpulist_parts_agree)

text \<open>
  C34. Round trip: a list of CPUs printed in the cpuset format is read back by the strict parser of the
  configuration and by the forgiving one of sysfs, as the same CPUs in ascending order and without
  repetition; and what either parser reads from any accepted text survives printing and reading again.
\<close>

theorem cpu_list_roundtrip:
  assumes "\<forall>n \<in> set ns. n \<le> u32_max"
  shows "parse_cpu_list (format_cpu_list ns) = Inr (sort_dedup ns) \<and>
    parse_cpulist (format_cpu_list_irq ns) = sort_dedup ns \<and>
    (case parse_cpu_list s of
       Inl e \<Rightarrow> True
     | Inr cs \<Rightarrow> parse_cpulist s = cs \<and> parse_cpulist (format_cpu_list cs) = sort_dedup cs)"
proof -
  have strict: "parse_cpu_list (format_cpu_list cs) = Inr (sort_dedup cs)" if "\<forall>n \<in> set cs. n \<le> u32_max" for cs
    using that by (rule parse_format_cpu_list)
  have "parse_cpulist (format_cpu_list cs) = sort_dedup cs" if "parse_cpu_list s = Inr cs" for cs
    using that parse_cpu_list_bound by (intro parse_cpulist_agrees strict) blast
  with strict [OF assms] parse_cpulist_agrees show ?thesis
    by (auto simp: format_cpu_list_irq_eq split: sum.split)
qed

lemma cpu_list_roundtrip_witness:
  "parse_cpu_list (format_cpu_list [7, 2, 7, 0]) = Inr (sort_dedup [7, 2, 7, 0]) \<and>
   parse_cpulist (format_cpu_list_irq [7, 2, 7, 0]) = sort_dedup [7, 2, 7, 0]"
  using cpu_list_roundtrip [where ns = "[7, 2, 7, 0]" and s = "[]"] by (simp add: u32_max_def)

end
