(* ===== verification/Chalybs_Cpu.thy ===== *)
theory Chalybs_Cpu
  imports Chalybs_Util
begin

text \<open>
  CPU detection and planning: identity from CPUID (\<^verbatim>\<open>core/src/cpu/detect/cpuid.rs\<close>; the
  \<^verbatim>\<open>raw-cpuid\<close> crate's answers are the parameter \<open>raw_cpuid\<close>), classification and the
  QEMU model table, the NUMA topology read from sysfs, and the pure planner and validator of
  \<^verbatim>\<open>core/src/cpuplan\<close>.
\<close>

subsection \<open>Identity and classification\<close>

datatype cpu_vendor = VendorAmd | VendorIntel | VendorArm | VendorUnknown

record cpu_identity =
  ci_vendor :: cpu_vendor
  ci_family :: nat
  ci_model :: nat
  ci_stepping :: nat
  ci_raw_vendor :: "string option"
  ci_model_name :: "string option"

datatype cpu_arch =
    AmdZen1OrZenPlus | AmdZen2 | AmdZen3OrZen4 | IntelCoreFamily | Arm64Generic | UnknownArch

definition detect_vendor :: "string option \<Rightarrow> string option \<Rightarrow> cpu_vendor" where
  "detect_vendor raw_vendor model_name =
     (if raw_vendor = Some ''AuthenticAMD'' then VendorAmd
      else if raw_vendor = Some ''GenuineIntel'' then VendorIntel
      else case model_name of
          Some name \<Rightarrow>
            (let lower = map to_ascii_lower name
             in if str_contains lower ''arm'' \<or> str_contains lower ''aarch64'' then VendorArm
                else VendorUnknown)
        | None \<Rightarrow> VendorUnknown)"

record feature_info =
  fi_family_id :: nat
  fi_extended_family_id :: nat
  fi_model_id :: nat
  fi_extended_model_id :: nat
  fi_stepping_id :: nat

record raw_cpuid =
  rc_vendor_info :: "string option"
  rc_feature_info :: "feature_info option"
  rc_brand_string :: "string option"

definition cpuid_family :: "feature_info \<Rightarrow> nat" where
  "cpuid_family fi =
     (if fi_family_id fi = 15 then fi_family_id fi + fi_extended_family_id fi else fi_family_id fi)"

definition cpuid_model :: "feature_info \<Rightarrow> nat" where
  "cpuid_model fi =
     (if fi_family_id fi = 6 \<or> fi_family_id fi = 15
      then fi_extended_model_id fi * 16 + fi_model_id fi else fi_model_id fi)"

text \<open>\<open>None\<close> for the argument is a build for another architecture than x86.\<close>

definition detect_cpu_identity :: "raw_cpuid option \<Rightarrow> cpu_identity option" where
  "detect_cpu_identity cpuid =
     (case cpuid of None \<Rightarrow> None | Some c \<Rightarrow>
        (case rc_vendor_info c of None \<Rightarrow> None | Some v \<Rightarrow>
          (case rc_feature_info c of None \<Rightarrow> None | Some fi \<Rightarrow>
            (let raw_vendor = Some v;
                 model_name =
                   (case rc_brand_string c of
                      None \<Rightarrow> None
                    | Some b \<Rightarrow> (let s = trim b in if s = [] then None else Some s))
             in Some \<lparr>ci_vendor = detect_vendor raw_vendor model_name,
                      ci_family = cpuid_family fi,
                      ci_model = cpuid_model fi,
                      ci_stepping = fi_stepping_id fi,
                      ci_raw_vendor = raw_vendor,
                      ci_model_name = model_name\<rparr>))))"

definition classify_amd :: "cpu_identity \<Rightarrow> cpu_arch" where
  "classify_amd ident =
     (if ci_family ident = 0x17 then
        (if ci_model ident < 0x30 then AmdZen1OrZenPlus else AmdZen2)
      else if ci_family ident = 0x19 then AmdZen3OrZen4
      else UnknownArch)"

definition classify_intel :: "cpu_identity \<Rightarrow> cpu_arch" where
  "classify_intel ident = (if ci_family ident = 6 then IntelCoreFamily else UnknownArch)"

definition classify :: "cpu_identity \<Rightarrow> cpu_arch" where
  "classify ident =
     (case ci_vendor ident of
        VendorAmd \<Rightarrow> classify_amd ident
      | VendorIntel \<Rightarrow> classify_intel ident
      | VendorArm \<Rightarrow> Arm64Generic
      | VendorUnknown \<Rightarrow> UnknownArch)"

fun map_arch_to_qemu_model :: "cpu_arch \<Rightarrow> string option" where
  "map_arch_to_qemu_model AmdZen1OrZenPlus = Some ''EPYC-v2''"
| "map_arch_to_qemu_model AmdZen2 = Some ''EPYC-v3''"
| "map_arch_to_qemu_model AmdZen3OrZen4 = Some ''EPYC-v4''"
| "map_arch_to_qemu_model IntelCoreFamily = Some ''Skylake-Server''"
| "map_arch_to_qemu_model Arm64Generic = Some ''cortex-a57''"
| "map_arch_to_qemu_model UnknownArch = None"

text \<open>
  \<^verbatim>\<open>autodetect_qemu_cpu_model\<close>: its result.  The NUMA telemetry it logs on the way reads
  sysfs and changes nothing.
\<close>

definition autodetect_qemu_cpu_model :: "raw_cpuid option \<Rightarrow> string option" where
  "autodetect_qemu_cpu_model cpuid =
     (case detect_cpu_identity cpuid of
        None \<Rightarrow> None
      | Some ident \<Rightarrow> map_arch_to_qemu_model (classify ident))"

subsection \<open>NUMA topology from sysfs\<close>

record host_numa_node =
  hn_node_id :: nat
  hn_cpus :: "nat list"

record host_numa_topology =
  ht_nodes :: "host_numa_node list"

definition sysfs_node_dir :: path where
  "sysfs_node_dir = ''/sys/devices/system/node''"

text \<open>The node directory's entries are named \<^verbatim>\<open>node\<close> and a number.\<close>

definition node_entry_id :: "nat \<Rightarrow> string \<Rightarrow> nat option" where
  "node_entry_id mx name =
     (if starts_with ''node'' name then ok_opt (parse_unsigned 10 mx (drop 4 name)) else None)"

definition topology_entry :: "os \<Rightarrow> dir_entry \<Rightarrow> host_numa_node list io" where
  "topology_entry os ent =
     (case ent of
        EntryErr m \<Rightarrow> ret []
      | EntryNonUtf8 \<Rightarrow> ret []
      | Entry name \<Rightarrow>
          (case node_entry_id u32_max name of
             None \<Rightarrow> ret []
           | Some node_id \<Rightarrow>
               andThen (read_to_string os (sysfs_node_dir @ ''/'' @ name @ ''/cpulist'')) (\<lambda>r.
                 case r of
                   Inl e \<Rightarrow> ret []
                 | Inr s \<Rightarrow>
                     (let cpus = parse_cpulist (trim s)
                      in if cpus = [] then ret []
                         else ret [\<lparr>hn_node_id = node_id, hn_cpus = sort_dedup cpus\<rparr>]))))"

definition topology_from_sysfs :: "os \<Rightarrow> (io_error + host_numa_topology) io" where
  "topology_from_sysfs os =
     bindR (read_dir os sysfs_node_dir) (\<lambda>entries.
       andThen (gatherA entries (topology_entry os)) (\<lambda>nodes. okR \<lparr>ht_nodes = nodes\<rparr>))"

subsection \<open>The CPU plan\<close>

text \<open>\<^verbatim>\<open>VmCpuLayout\<close> of \<^verbatim>\<open>core/src/model.rs\<close>: the host and VM CPU sets.\<close>

record vm_cpu_layout =
  vl_host :: "nat list"
  vl_vm :: "nat list"

record cpu_plan_node =
  pn_node_id :: nat
  pn_host_cpus :: "nat list"
  pn_vm_cpus :: "nat list"

record cpu_plan =
  cp_ident :: cpu_identity
  cp_arch :: cpu_arch
  cp_topology :: host_numa_topology
  cp_vm_layout :: vm_cpu_layout
  cp_nodes :: "cpu_plan_node list"
  cp_vm_spans_nodes :: bool
  cp_dominant_node :: "nat option"

record cpu_plan_inputs =
  pi_ident :: cpu_identity
  pi_arch :: cpu_arch
  pi_topology :: host_numa_topology
  pi_vm_layout :: vm_cpu_layout

text \<open>The loop over the nodes: its variables and its body.\<close>

record plan_acc =
  pa_nodes :: "cpu_plan_node list"
  pa_vm_node_count :: nat
  pa_dominant_node :: "nat option"
  pa_dominant_vm_count :: nat

definition plan_node_step :: "nat set \<Rightarrow> plan_acc \<Rightarrow> host_numa_node \<Rightarrow> plan_acc" where
  "plan_node_step vm_cpu_set acc node =
     (let host_cpus = sort_dedup (hn_cpus node);
          vm_cpus = sort_dedup (filter (\<lambda>c. c \<in> vm_cpu_set) host_cpus);
          acc1 = (if vm_cpus = [] then acc
                  else (let a = acc\<lparr>pa_vm_node_count := pa_vm_node_count acc + 1\<rparr>
                        in if pa_dominant_vm_count a < length vm_cpus
                           then a\<lparr>pa_dominant_vm_count := length vm_cpus,
                                  pa_dominant_node := Some (hn_node_id node)\<rparr>
                           else a))
      in acc1\<lparr>pa_nodes := pa_nodes acc1 @
               [\<lparr>pn_node_id = hn_node_id node, pn_host_cpus = host_cpus, pn_vm_cpus = vm_cpus\<rparr>]\<rparr>)"

definition plan_acc_init :: plan_acc where
  "plan_acc_init = \<lparr>pa_nodes = [], pa_vm_node_count = 0, pa_dominant_node = None, pa_dominant_vm_count = 0\<rparr>"

definition build_cpu_plan :: "cpu_plan_inputs \<Rightarrow> cpu_plan" where
  "build_cpu_plan inputs =
     (let vm_cpu_set = set (vl_vm (pi_vm_layout inputs));
          acc = foldl (plan_node_step vm_cpu_set) plan_acc_init (ht_nodes (pi_topology inputs))
      in \<lparr>cp_ident = pi_ident inputs,
          cp_arch = pi_arch inputs,
          cp_topology = pi_topology inputs,
          cp_vm_layout = pi_vm_layout inputs,
          cp_nodes = pa_nodes acc,
          cp_vm_spans_nodes = (1 < pa_vm_node_count acc),
          cp_dominant_node = pa_dominant_node acc\<rparr>)"

text \<open>\<^verbatim>\<open>CpuPlan::node\<close>, \<^verbatim>\<open>vm_cpus\<close> and \<^verbatim>\<open>host_cpus\<close>.\<close>

definition plan_node :: "cpu_plan \<Rightarrow> nat \<Rightarrow> cpu_plan_node option" where
  "plan_node plan i = find (\<lambda>n. pn_node_id n = i) (cp_nodes plan)"

definition plan_vm_cpus :: "cpu_plan \<Rightarrow> nat list" where
  "plan_vm_cpus plan = sort (concat (map pn_vm_cpus (cp_nodes plan)))"

definition plan_host_cpus :: "cpu_plan \<Rightarrow> nat list" where
  "plan_host_cpus plan = sort (vl_host (cp_vm_layout plan))"

datatype cpu_plan_validation_error = HostCpuOutsideTopology nat | VmCpuOutsideTopology nat

definition topology_cpus :: "host_numa_topology \<Rightarrow> nat set" where
  "topology_cpus topo = (\<Union>n \<in> set (ht_nodes topo). set (hn_cpus n))"

definition validate_cpu_plan :: "cpu_plan \<Rightarrow> cpu_plan_validation_error list" where
  "validate_cpu_plan plan =
     (if ht_nodes (cp_topology plan) = [] then []
      else
        (let topo_cpus = topology_cpus (cp_topology plan)
         in map HostCpuOutsideTopology (filter (\<lambda>c. c \<notin> topo_cpus) (vl_host (cp_vm_layout plan))) @
            map VmCpuOutsideTopology (filter (\<lambda>c. c \<notin> topo_cpus) (vl_vm (cp_vm_layout plan)))))"

subsection \<open>Lemmas\<close>

lemma topology_entry_readonly: "io_emits is_readonly (topology_entry os ent)"
  unfolding topology_entry_def Let_def by (intro emits_intros) auto

lemma topology_from_sysfs_readonly [emits_intros]: "io_emits is_readonly (topology_from_sysfs os)"
  unfolding topology_from_sysfs_def
  by (intro emits_intros) (auto intro: topology_entry_readonly)

text \<open>What the loop computes, node by node.\<close>

definition node_vm_cpus :: "nat set \<Rightarrow> host_numa_node \<Rightarrow> nat list" where
  "node_vm_cpus vms node = sort_dedup (filter (\<lambda>c. c \<in> vms) (sort_dedup (hn_cpus node)))"

definition node_plan :: "nat set \<Rightarrow> host_numa_node \<Rightarrow> cpu_plan_node" where
  "node_plan vms node =
     \<lparr>pn_node_id = hn_node_id node, pn_host_cpus = sort_dedup (hn_cpus node),
      pn_vm_cpus = node_vm_cpus vms node\<rparr>"

lemma set_node_vm_cpus: "set (node_vm_cpus vms node) = set (hn_cpus node) \<inter> vms"
  by (auto simp: node_vm_cpus_def)

lemma plan_fold_nodes:
  "pa_nodes (foldl (plan_node_step vms) acc ns) = pa_nodes acc @ map (node_plan vms) ns"
  by (induction ns arbitrary: acc)
    (auto simp: plan_node_step_def Let_def node_plan_def node_vm_cpus_def)

lemma plan_fold_count:
  "pa_vm_node_count (foldl (plan_node_step vms) acc ns) =
   pa_vm_node_count acc + length (filter (\<lambda>n. node_vm_cpus vms n \<noteq> []) ns)"
  by (induction ns arbitrary: acc) (auto simp: plan_node_step_def Let_def node_vm_cpus_def)

text \<open>
  The dominant node: \<open>best\<close> is the first node of the largest VM share, \<open>None\<close> when no node has
  a VM CPU.
\<close>

definition vm_share :: "nat set \<Rightarrow> host_numa_node \<Rightarrow> nat" where
  "vm_share vms n = length (node_vm_cpus vms n)"

lemma node_vm_cpus_Nil: "node_vm_cpus vms n = [] \<longleftrightarrow> vm_share vms n = 0"
  by (simp add: vm_share_def)

lemma plan_step_dominant:
  "pa_dominant_vm_count (plan_node_step vms acc n) =
     max (pa_dominant_vm_count acc) (vm_share vms n)"
  "pa_dominant_node (plan_node_step vms acc n) =
     (if pa_dominant_vm_count acc < vm_share vms n then Some (hn_node_id n) else pa_dominant_node acc)"
  by (auto simp: plan_node_step_def Let_def vm_share_def node_vm_cpus_def)

abbreviation plan_run :: "nat set \<Rightarrow> plan_acc \<Rightarrow> host_numa_node list \<Rightarrow> plan_acc" where
  "plan_run vms acc ns \<equiv> foldl (plan_node_step vms) acc ns"

lemma plan_fold_dominant:
  "(\<forall>n \<in> set ns. vm_share vms n \<le> pa_dominant_vm_count (plan_run vms acc ns)) \<and>
    pa_dominant_vm_count acc \<le> pa_dominant_vm_count (plan_run vms acc ns) \<and>
    (pa_dominant_vm_count (plan_run vms acc ns) = pa_dominant_vm_count acc \<and>
       pa_dominant_node (plan_run vms acc ns) = pa_dominant_node acc \<or>
     (\<exists>n \<in> set ns. pa_dominant_node (plan_run vms acc ns) = Some (hn_node_id n) \<and>
       vm_share vms n = pa_dominant_vm_count (plan_run vms acc ns) \<and> pa_dominant_vm_count acc < vm_share vms n))"
proof (induction ns arbitrary: acc)
  case (Cons n ns)
  let ?a = "plan_node_step vms acc n"
  show ?case
    using Cons.IH [of ?a] plan_step_dominant [of vms acc n]
    by (auto simp: max_def split: if_splits)
qed simp

lemma validate_cpu_plan_iff:
  "validate_cpu_plan plan = [] \<longleftrightarrow>
     ht_nodes (cp_topology plan) = [] \<or>
     set (vl_host (cp_vm_layout plan)) \<union> set (vl_vm (cp_vm_layout plan)) \<subseteq> topology_cpus (cp_topology plan)"
  by (auto simp: validate_cpu_plan_def Let_def filter_empty_conv)

lemma topology_cpus_sorted:
  assumes "n \<in> set (ht_nodes topo)"
  shows "set (hn_cpus n) \<subseteq> topology_cpus topo"
  using assms by (auto simp: topology_cpus_def)

subsection \<open>Properties of the planner\<close>

text \<open>
  The CPU plan keeps the topology's nodes in order; each node's CPUs are sorted without
  repetition and its VM CPUs are exactly the node's CPUs that the VM's set holds; the plan says the
  VM spans nodes exactly when two nodes or more hold a VM CPU.
\<close>

theorem build_cpu_plan_nodes:
  "map pn_node_id (cp_nodes (build_cpu_plan inp)) = map hn_node_id (ht_nodes (pi_topology inp)) \<and>
   map (set \<circ> pn_host_cpus) (cp_nodes (build_cpu_plan inp)) =
     map (set \<circ> hn_cpus) (ht_nodes (pi_topology inp)) \<and>
   map (set \<circ> pn_vm_cpus) (cp_nodes (build_cpu_plan inp)) =
     map (\<lambda>n. set (hn_cpus n) \<inter> set (vl_vm (pi_vm_layout inp))) (ht_nodes (pi_topology inp)) \<and>
   list_all (\<lambda>p. sorted (pn_host_cpus p) \<and> distinct (pn_host_cpus p) \<and>
     sorted (pn_vm_cpus p) \<and> distinct (pn_vm_cpus p)) (cp_nodes (build_cpu_plan inp)) \<and>
   (cp_vm_spans_nodes (build_cpu_plan inp) \<longleftrightarrow>
     2 \<le> length (filter (\<lambda>n. set (hn_cpus n) \<inter> set (vl_vm (pi_vm_layout inp)) \<noteq> {})
            (ht_nodes (pi_topology inp))))"
proof -
  let ?vms = "set (vl_vm (pi_vm_layout inp))" and ?ns = "ht_nodes (pi_topology inp)"
  have nodes: "cp_nodes (build_cpu_plan inp) = map (node_plan ?vms) ?ns"
    by (simp add: build_cpu_plan_def Let_def plan_fold_nodes plan_acc_init_def)
  have ne: "node_vm_cpus vms n \<noteq> [] \<longleftrightarrow> set (hn_cpus n) \<inter> vms \<noteq> {}" for vms n
    by (metis set_empty set_node_vm_cpus)
  have "cp_vm_spans_nodes (build_cpu_plan inp) \<longleftrightarrow>
      2 \<le> length (filter (\<lambda>n. set (hn_cpus n) \<inter> ?vms \<noteq> {}) ?ns)"
    by (auto simp: build_cpu_plan_def Let_def plan_fold_count plan_acc_init_def ne)
  then show ?thesis
    by (simp add: nodes list_all_iff node_plan_def set_node_vm_cpus)
      (simp add: node_vm_cpus_def)
qed

text \<open>
  The dominant node of the plan is a node with the largest number of VM CPUs, and it is absent
  exactly when no node of the topology holds a VM CPU.
\<close>

theorem build_cpu_plan_dominant:
  "case cp_dominant_node (build_cpu_plan inp) of
     None \<Rightarrow> list_all (\<lambda>n. vm_share (set (vl_vm (pi_vm_layout inp))) n = 0) (ht_nodes (pi_topology inp))
   | Some d \<Rightarrow> list_ex (\<lambda>n. hn_node_id n = d \<and> 0 < vm_share (set (vl_vm (pi_vm_layout inp))) n \<and>
       list_all (\<lambda>m. vm_share (set (vl_vm (pi_vm_layout inp))) m \<le> vm_share (set (vl_vm (pi_vm_layout inp))) n)
         (ht_nodes (pi_topology inp))) (ht_nodes (pi_topology inp))"
  using plan_fold_dominant [of "ht_nodes (pi_topology inp)" "set (vl_vm (pi_vm_layout inp))" plan_acc_init]
  by (auto simp: build_cpu_plan_def Let_def plan_acc_init_def list_all_iff list_ex_iff split: option.split)

text \<open>
  Validation of the built plan reports nothing exactly when there is no topology to check
  against or every host CPU and every VM CPU of the layout lies on some node.
\<close>

theorem validate_built_plan:
  "validate_cpu_plan (build_cpu_plan inp) = [] \<longleftrightarrow>
     ht_nodes (pi_topology inp) = [] \<or>
     set (vl_host (pi_vm_layout inp)) \<union> set (vl_vm (pi_vm_layout inp))
       \<subseteq> topology_cpus (pi_topology inp)"
  by (simp add: validate_cpu_plan_iff) (simp add: build_cpu_plan_def Let_def)

text \<open>
  On AMD hosts the QEMU model is a function of family and model number: 17h below model 30h is
  \<^verbatim>\<open>EPYC-v2\<close>, 17h from 30h on \<^verbatim>\<open>EPYC-v3\<close>, 19h \<^verbatim>\<open>EPYC-v4\<close>, and every other
  family, newer ones included, yields no model.
\<close>

theorem amd_model_table:
  "map_arch_to_qemu_model (classify (i\<lparr>ci_vendor := VendorAmd\<rparr>)) =
     (if ci_family i = 23 then Some (if ci_model i < 48 then ''EPYC-v2'' else ''EPYC-v3'')
      else if ci_family i = 25 then Some ''EPYC-v4'' else None)"
  by (simp add: classify_def classify_amd_def)

end
