(* ===== verification/Chalybs_Model.thy ===== *)
theory Chalybs_Model
  imports Chalybs_Cpu
begin

text \<open>
  The runtime object that goes through the state machine, from \<^verbatim>\<open>core/src/model.rs\<close>:
  events, cgroup paths, the QEMU handle, the VFIO transitions, and \<^verbatim>\<open>VmRuntime\<close> with its
  constructor and event helpers.  A child process is its pid.
\<close>

datatype core_event_kind = EvInfo | EvWarning | EvError | EvSystem

record core_event =
  ce_kind :: core_event_kind
  ce_message :: string

record cgroup_paths =
  cg_root :: path
  cg_vm :: path
  cg_host :: path

record qemu_state =
  qs_pid :: int

record vfio_transition =
  vt_bdf :: string
  vt_from_driver :: "string option"
  vt_iommu_group :: "nat option"

record vm_runtime =
  rt_name :: string
  rt_cfg :: vm_config
  rt_cpus :: vm_cpu_layout
  rt_cgroups :: "cgroup_paths option"
  rt_qemu :: "qemu_state option"
  rt_pinned_threads :: bool
  rt_pinned_irqs :: bool
  rt_irq_pinning_complete :: bool
  rt_vfio_transitions :: "vfio_transition list"
  rt_events :: "core_event list"
  rt_hugepages_node :: "nat option"
  rt_hugepages_pages :: "64 word"
  rt_hugepages_bytes :: "64 word"
  rt_hugepages_active :: bool
  rt_cpu_plan :: "cpu_plan option"
  rt_tasmota_powered :: bool

definition vm_runtime_new :: "string \<Rightarrow> vm_config \<Rightarrow> vm_cpu_layout \<Rightarrow> vm_runtime" where
  "vm_runtime_new name cfg cpus =
     \<lparr>rt_name = name, rt_cfg = cfg, rt_cpus = cpus, rt_cgroups = None, rt_qemu = None,
      rt_pinned_threads = False, rt_pinned_irqs = False, rt_irq_pinning_complete = False,
      rt_vfio_transitions = [], rt_events = [], rt_hugepages_node = None, rt_hugepages_pages = 0,
      rt_hugepages_bytes = 0, rt_hugepages_active = False, rt_cpu_plan = None,
      rt_tasmota_powered = False\<rparr>"

definition set_cgroups :: "path \<Rightarrow> vm_runtime \<Rightarrow> vm_runtime" where
  "set_cgroups root rt =
     rt\<lparr>rt_cgroups := Some \<lparr>cg_root = root, cg_vm = root @ ''/vfio_vm'', cg_host = root @ ''/vfio_host''\<rparr>\<rparr>"

definition push_event :: "core_event_kind \<Rightarrow> string \<Rightarrow> vm_runtime \<Rightarrow> vm_runtime" where
  "push_event kind message rt =
     rt\<lparr>rt_events := rt_events rt @ [\<lparr>ce_kind = kind, ce_message = message\<rparr>]\<rparr>"

definition push_info :: "string \<Rightarrow> vm_runtime \<Rightarrow> vm_runtime" where
  "push_info m = push_event EvInfo m"
definition push_warning :: "string \<Rightarrow> vm_runtime \<Rightarrow> vm_runtime" where
  "push_warning m = push_event EvWarning m"
definition push_error :: "string \<Rightarrow> vm_runtime \<Rightarrow> vm_runtime" where
  "push_error m = push_event EvError m"
definition push_system :: "string \<Rightarrow> vm_runtime \<Rightarrow> vm_runtime" where
  "push_system m = push_event EvSystem m"

lemmas push_defs = push_event_def push_info_def push_warning_def push_error_def push_system_def

text \<open>The state of the code that has the runtime and the outside world in its hands.\<close>

type_synonym 'a rt_act = "(vm_runtime \<times> trace, 'a) act"

abbreviation rt_emits :: "(os_event \<Rightarrow> bool) \<Rightarrow> 'a rt_act \<Rightarrow> bool" where
  "rt_emits \<equiv> emits snd"

text \<open>
  The frame of the runtime: an action \<open>keeps\<close> a view of it when it never changes that view, and
  only appends to the event list when it \<open>logs\<close>.
\<close>

named_theorems keeps_intros "frame rules of the runtime"

definition keeps :: "(vm_runtime \<Rightarrow> 'v) \<Rightarrow> 'a rt_act \<Rightarrow> bool" where
  "keeps v m \<longleftrightarrow> (\<forall>s. v (fst (snd (m s))) = v (fst s))"

lemma keepsE: "keeps v m \<Longrightarrow> m (rt, t) = (x, rt', t') \<Longrightarrow> v rt' = v rt"
  unfolding keeps_def by (metis fst_conv snd_conv)

lemma keeps_ret [keeps_intros]: "keeps v (ret x)"
  by (simp add: keeps_def ret_def)
lemma keeps_okR [keeps_intros]: "keeps v (okR x)"
  by (simp add: keeps_def okR_def)
lemma keeps_errR [keeps_intros]: "keeps v (errR x)"
  by (simp add: keeps_def errR_def)
lemma keeps_onOs [keeps_intros]: "keeps v (onOs m)"
  by (auto simp: keeps_def onOs_def split: prod.splits)
lemma keeps_peek [keeps_intros]: "keeps v peek"
  by (auto simp: keeps_def peek_def)
lemma keeps_modify [keeps_intros]: "(\<And>rt. v (f rt) = v rt) \<Longrightarrow> keeps v (modify f)"
  by (auto simp: keeps_def modify_def)
lemma keeps_andThen [keeps_intros]: "keeps v m \<Longrightarrow> (\<And>x. keeps v (f x)) \<Longrightarrow> keeps v (andThen m f)"
  unfolding keeps_def andThen_def by (auto split: prod.splits) (metis fst_conv snd_conv)
lemma keeps_bindR [keeps_intros]: "keeps v m \<Longrightarrow> (\<And>x. keeps v (f x)) \<Longrightarrow> keeps v (bindR m f)"
  unfolding bindR_as_andThen
  by (intro keeps_intros) (auto simp: keeps_errR split: sum.split)
lemma keeps_mapErr [keeps_intros]: "keeps v m \<Longrightarrow> keeps v (mapErr h m)"
  unfolding mapErr_as_andThen
  by (intro keeps_intros) (auto simp: keeps_errR keeps_okR split: sum.split)
lemma keeps_if [keeps_intros]: "(c \<Longrightarrow> keeps v a) \<Longrightarrow> (\<not> c \<Longrightarrow> keeps v b) \<Longrightarrow> keeps v (if c then a else b)"
  by simp
lemma keeps_case_sum [keeps_intros]:
  "(\<And>e. r = Inl e \<Longrightarrow> keeps v (a e)) \<Longrightarrow> (\<And>x. r = Inr x \<Longrightarrow> keeps v (b x)) \<Longrightarrow>
   keeps v (case r of Inl e \<Rightarrow> a e | Inr x \<Rightarrow> b x)"
  by (cases r) simp_all
lemma keeps_case_option [keeps_intros]:
  "(r = None \<Longrightarrow> keeps v a) \<Longrightarrow> (\<And>x. r = Some x \<Longrightarrow> keeps v (b x)) \<Longrightarrow>
   keeps v (case r of None \<Rightarrow> a | Some x \<Rightarrow> b x)"
  by (cases r) simp_all
lemma keeps_case_prod [keeps_intros]:
  "(\<And>x y. r = (x, y) \<Longrightarrow> keeps v (f x y)) \<Longrightarrow> keeps v (case r of (x, y) \<Rightarrow> f x y)"
  by (cases r) simp
lemma keeps_let [keeps_intros]: "(\<And>x. x = w \<Longrightarrow> keeps v (f x)) \<Longrightarrow> keeps v (let x = w in f x)"
  by simp
lemma keeps_eachR [keeps_intros]: "(\<And>x. x \<in> set xs \<Longrightarrow> keeps v (b x)) \<Longrightarrow> keeps v (eachR xs b)"
  by (induction xs) (auto intro!: keeps_intros)
lemma keeps_eachA [keeps_intros]: "(\<And>x. x \<in> set xs \<Longrightarrow> keeps v (b x)) \<Longrightarrow> keeps v (eachA xs b)"
  by (induction xs) (auto intro!: keeps_intros)

lemma push_frames [simp]:
  "rt_name (push_event k m rt) = rt_name rt" "rt_cfg (push_event k m rt) = rt_cfg rt"
  "rt_cpus (push_event k m rt) = rt_cpus rt" "rt_cgroups (push_event k m rt) = rt_cgroups rt"
  "rt_qemu (push_event k m rt) = rt_qemu rt"
  "rt_pinned_threads (push_event k m rt) = rt_pinned_threads rt"
  "rt_pinned_irqs (push_event k m rt) = rt_pinned_irqs rt"
  "rt_irq_pinning_complete (push_event k m rt) = rt_irq_pinning_complete rt"
  "rt_vfio_transitions (push_event k m rt) = rt_vfio_transitions rt"
  "rt_hugepages_node (push_event k m rt) = rt_hugepages_node rt"
  "rt_hugepages_pages (push_event k m rt) = rt_hugepages_pages rt"
  "rt_hugepages_bytes (push_event k m rt) = rt_hugepages_bytes rt"
  "rt_hugepages_active (push_event k m rt) = rt_hugepages_active rt"
  "rt_cpu_plan (push_event k m rt) = rt_cpu_plan rt"
  "rt_tasmota_powered (push_event k m rt) = rt_tasmota_powered rt"
  "rt_events (push_event k m rt) = rt_events rt @ [\<lparr>ce_kind = k, ce_message = m\<rparr>]"
  by (simp_all add: push_event_def)

lemmas push_abbrevs = push_info_def push_warning_def push_error_def push_system_def

end
