(* ===== verification/Chalybs_Pci.thy ===== *)
theory Chalybs_Pci
  imports Chalybs_Model
begin

text \<open>
  The PCI inventory of \<^verbatim>\<open>core/src/pci.rs\<close>: functions and their class codes, the driver
  and safety classification of GPUs, the scan of sysfs, lookups, the unbind assessment, and the
  sysfs writes that unbind and bind drivers; and the GPU policy module \<^verbatim>\<open>config::pci\<close>.
  The locale \<open>device_lookup\<close> is the interface through which the VFIO components use the inventory.
\<close>

unbundle bit_operations_syntax

subsection \<open>PCI functions\<close>

record pci_function =
  pf_bdf :: string
  pf_vendor_id :: nat
  pf_device_id :: nat
  pf_class :: "32 word"
  pf_driver :: "string option"
  pf_iommu_group :: "nat option"
  pf_numa_node :: "int option"

datatype driver_kind =
    KindVfio | KindAmdGpu | KindNvidia | KindNouveau | KindOtherKernel string | KindUnbound

datatype safety_class = VfioReady | HostOwned | SafetyUnknown

datatype gpu_unbind_feasibility = Safe | Risky string | Unsafe string

datatype pci_class_kind = ClassGpu | ClassNvme | ClassNic | ClassUsbController | ClassStorageOther | ClassOther

definition class_triple :: "pci_function \<Rightarrow> 8 word \<times> 8 word \<times> 8 word" where
  "class_triple f =
     (ucast (drop_bit 16 (pf_class f) AND 0xff),
      ucast (drop_bit 8 (pf_class f) AND 0xff),
      ucast (pf_class f AND 0xff))"

definition class_base :: "pci_function \<Rightarrow> 8 word" where
  "class_base f = ucast (drop_bit 16 (pf_class f))"

definition class_sub :: "pci_function \<Rightarrow> 8 word" where
  "class_sub f = ucast (drop_bit 8 (pf_class f) AND 0xff)"

definition class_prog_if :: "pci_function \<Rightarrow> 8 word" where
  "class_prog_if f = ucast (pf_class f AND 0xff)"

definition is_display_controller :: "pci_function \<Rightarrow> bool" where
  "is_display_controller f \<longleftrightarrow> class_base f = 0x03"

definition is_network_controller :: "pci_function \<Rightarrow> bool" where
  "is_network_controller f \<longleftrightarrow> class_base f = 0x02"

definition is_storage_controller :: "pci_function \<Rightarrow> bool" where
  "is_storage_controller f \<longleftrightarrow> class_base f = 0x01"

definition is_nvme :: "pci_function \<Rightarrow> bool" where
  "is_nvme f = (case class_triple f of (base, sub, pi) \<Rightarrow> base = 0x01 \<and> sub = 0x08)"

definition is_usb_controller :: "pci_function \<Rightarrow> bool" where
  "is_usb_controller f = (case class_triple f of (base, sub, pi) \<Rightarrow> base = 0x0c \<and> sub = 0x03)"

definition device_class :: "pci_function \<Rightarrow> pci_class_kind" where
  "device_class f =
     (if is_display_controller f then ClassGpu
      else if is_nvme f then ClassNvme
      else if is_network_controller f then ClassNic
      else if is_usb_controller f then ClassUsbController
      else if is_storage_controller f then ClassStorageOther
      else ClassOther)"

definition gpu_driver_kind :: "pci_function \<Rightarrow> driver_kind option" where
  "gpu_driver_kind f =
     (if \<not> is_display_controller f then None
      else case pf_driver f of
          None \<Rightarrow> Some KindUnbound
        | Some d \<Rightarrow>
            Some (if d = ''vfio-pci'' then KindVfio
                  else if d = ''amdgpu'' \<or> d = ''radeon'' then KindAmdGpu
                  else if d = ''nvidia'' then KindNvidia
                  else if d = ''nouveau'' then KindNouveau
                  else KindOtherKernel d))"

fun safety_of_kind :: "driver_kind \<Rightarrow> safety_class" where
  "safety_of_kind KindVfio = VfioReady"
| "safety_of_kind KindAmdGpu = HostOwned"
| "safety_of_kind KindNvidia = HostOwned"
| "safety_of_kind KindNouveau = HostOwned"
| "safety_of_kind (KindOtherKernel d) = SafetyUnknown"
| "safety_of_kind KindUnbound = SafetyUnknown"

definition gpu_safety_class :: "pci_function \<Rightarrow> safety_class option" where
  "gpu_safety_class f = map_option safety_of_kind (gpu_driver_kind f)"

subsection \<open>Bus addresses\<close>

definition parse_bdf_slot :: "string \<Rightarrow> (nat \<times> nat \<times> nat) option" where
  "parse_bdf_slot bdf =
     (case split_on (CHR '':'') bdf of
        [domain_str, bus_str, devfunc_str] \<Rightarrow>
          (case split_on (CHR ''.'') devfunc_str of
             [dev_str, func_str] \<Rightarrow>
               if length domain_str \<noteq> 4 \<or> length bus_str \<noteq> 2 \<or> length dev_str \<noteq> 2 \<or> func_str = []
               then None
               else
                 (case (ok_opt (parse_unsigned 16 u16_max domain_str),
                        ok_opt (parse_unsigned 16 u8_max bus_str),
                        ok_opt (parse_unsigned 16 u8_max dev_str)) of
                    (Some domain, Some bus, Some dev) \<Rightarrow> Some (domain, bus, dev)
                  | _ \<Rightarrow> None)
           | _ \<Rightarrow> None)
      | _ \<Rightarrow> None)"

definition slot_key :: "pci_function \<Rightarrow> (nat \<times> nat \<times> nat) option" where
  "slot_key f = parse_bdf_slot (pf_bdf f)"

text \<open>The format the kernel prints: four, two and two hexadecimal digits and a function.\<close>

definition show_bdf :: "nat \<Rightarrow> nat \<Rightarrow> nat \<Rightarrow> nat \<Rightarrow> string" where
  "show_bdf d b s f = show_hex_pad 4 d @ '':'' @ show_hex_pad 2 b @ '':'' @ show_hex_pad 2 s @ ''.'' @ show_nat f"

subsection \<open>Binding drivers through sysfs\<close>

definition driver_file :: "string \<Rightarrow> string \<Rightarrow> path" where
  "driver_file drv file = ''/sys/bus/pci/drivers/'' @ drv @ ''/'' @ file"

definition newline :: string where
  "newline = [CHR 0x0A]"

definition unbind_current_driver :: "os \<Rightarrow> pci_function \<Rightarrow> unit result io" where
  "unbind_current_driver os f =
     (case pf_driver f of
        None \<Rightarrow> okR ()
      | Some driver_name \<Rightarrow>
          if driver_name = ''vfio-pci'' then okR ()
          else
            (let p = driver_file driver_name ''unbind''
             in andThen (path_exists os p) (\<lambda>ex.
                  if \<not> ex then
                    errR (Vfio (''cannot unbind '' @ pf_bdf f @ '': driver unbind path '' @ p @ '' does not exist''))
                  else
                    mapErr (\<lambda>e. Vfio (''failed to write BDF '' @ pf_bdf f @ '' to '' @ p @ '' for unbind: '' @ io_error_msg e))
                      (write_file os p (pf_bdf f @ newline)))))"

definition bind_to_vfio_pci :: "os \<Rightarrow> pci_function \<Rightarrow> unit result io" where
  "bind_to_vfio_pci os f =
     (if pf_driver f = Some ''vfio-pci'' then okR ()
      else
        (let p = driver_file ''vfio-pci'' ''bind''
         in andThen (path_exists os p) (\<lambda>ex.
              if \<not> ex then
                errR (Vfio (''vfio-pci bind path '' @ p @ '' does not exist; ensure vfio-pci is loaded and configured''))
              else
                mapErr (\<lambda>e. Vfio (''failed to bind BDF '' @ pf_bdf f @ '' to vfio-pci via '' @ p @ '': '' @ io_error_msg e))
                  (write_file os p (pf_bdf f @ newline)))))"

definition bind_to_driver :: "os \<Rightarrow> pci_function \<Rightarrow> string \<Rightarrow> unit result io" where
  "bind_to_driver os f driver =
     (if pf_driver f = Some driver then okR ()
      else
        (let p = driver_file driver ''bind''
         in andThen (path_exists os p) (\<lambda>ex.
              if \<not> ex then
                errR (Vfio (''driver bind path '' @ p @ '' does not exist for '' @ backquoted driver @ ''; ensure the module is loaded''))
              else
                mapErr (\<lambda>e. Vfio (''failed to bind BDF '' @ pf_bdf f @ '' to driver '' @ backquoted driver @ '' via '' @ p @ '': '' @ io_error_msg e))
                  (write_file os p (pf_bdf f @ newline)))))"

definition rescan_pci_bus :: "os \<Rightarrow> unit result io" where
  "rescan_pci_bus os =
     mapErr (\<lambda>e. Io (io_error_msg e)) (write_file os ''/sys/bus/pci/rescan'' (''1'' @ newline))"

subsection \<open>Scanning\<close>

definition strip_0x :: "string \<Rightarrow> string" where
  "strip_0x s = (if starts_with ''0x'' s then drop 2 s else s)"

definition read_hex :: "os \<Rightarrow> nat \<Rightarrow> string \<Rightarrow> path \<Rightarrow> nat result io" where
  "read_hex os mx ty p =
     bindR (mapErr (\<lambda>e. Io (io_error_msg e)) (read_to_string os p)) (\<lambda>raw.
       (let s = trim raw
        in case parse_unsigned 16 mx (strip_0x s) of
             Inl e \<Rightarrow> errR (Vfio (''failed to parse '' @ s @ '' as hex '' @ ty @ '' from '' @ p @ '': '' @ show_parse_int_error e))
           | Inr v \<Rightarrow> okR v))"

definition read_hex_u16 :: "os \<Rightarrow> path \<Rightarrow> nat result io" where
  "read_hex_u16 os p = read_hex os u16_max ''u16'' p"

definition read_hex_u32 :: "os \<Rightarrow> path \<Rightarrow> nat result io" where
  "read_hex_u32 os p = read_hex os u32_max ''u32'' p"

text \<open>\<^verbatim>\<open>Path::file_name\<close>: the last normal component.\<close>

definition file_name :: "path \<Rightarrow> string option" where
  "file_name p =
     (let cs = filter (\<lambda>c. c \<noteq> [] \<and> c \<noteq> ''.'') (split_on (CHR ''/'') p)
      in if cs = [] \<or> last cs = ''..'' then None else Some (last cs))"

definition read_driver_name :: "os \<Rightarrow> path \<Rightarrow> string option io" where
  "read_driver_name os dir =
     andThen (read_link os (dir @ ''/driver'')) (\<lambda>r.
       ret (case r of Inl e \<Rightarrow> None | Inr link \<Rightarrow> file_name link))"

definition read_iommu_group :: "os \<Rightarrow> path \<Rightarrow> nat option io" where
  "read_iommu_group os dir =
     andThen (read_link os (dir @ ''/iommu_group'')) (\<lambda>r.
       ret (case r of Inl e \<Rightarrow> None
            | Inr link \<Rightarrow> (case file_name link of None \<Rightarrow> None | Some name \<Rightarrow> ok_opt (parse_u32 name))))"

definition read_numa_node :: "os \<Rightarrow> path \<Rightarrow> int option io" where
  "read_numa_node os dir =
     andThen (read_to_string os (dir @ ''/numa_node'')) (\<lambda>r.
       ret (case r of Inl e \<Rightarrow> None | Inr raw \<Rightarrow> ok_opt (parse_i32 (trim raw))))"

definition read_function :: "os \<Rightarrow> path \<Rightarrow> string \<Rightarrow> pci_function result io" where
  "read_function os dir bdf =
     bindR (read_hex_u16 os (dir @ ''/vendor'')) (\<lambda>vendor_id.
     bindR (read_hex_u16 os (dir @ ''/device'')) (\<lambda>device_id.
     bindR (read_hex_u32 os (dir @ ''/class'')) (\<lambda>class.
     andThen (read_driver_name os dir) (\<lambda>driver.
     andThen (read_iommu_group os dir) (\<lambda>iommu_group.
     andThen (read_numa_node os dir) (\<lambda>numa_node.
       okR \<lparr>pf_bdf = bdf, pf_vendor_id = vendor_id, pf_device_id = device_id,
            pf_class = of_nat class, pf_driver = driver, pf_iommu_group = iommu_group,
            pf_numa_node = numa_node\<rparr>))))))"

record pci_inventory =
  inv_functions :: "pci_function list"

definition pci_root :: path where
  "pci_root = ''/sys/bus/pci/devices''"

definition scan_entry :: "os \<Rightarrow> dir_entry \<Rightarrow> pci_function list io" where
  "scan_entry os ent =
     (case ent of
        EntryErr m \<Rightarrow> ret []
      | EntryNonUtf8 \<Rightarrow> ret []
      | Entry bdf \<Rightarrow>
          andThen (read_function os (pci_root @ ''/'' @ bdf) bdf) (\<lambda>r.
            ret (case r of Inl e \<Rightarrow> [] | Inr func \<Rightarrow> [func])))"

definition scan :: "os \<Rightarrow> pci_inventory result io" where
  "scan os =
     andThen (path_exists os pci_root) (\<lambda>ex.
       if \<not> ex then errR (Vfio (''PCI devices directory '' @ pci_root @ '' does not exist''))
       else
         bindR (mapErr (\<lambda>e. Vfio (''failed to list PCI devices in '' @ pci_root @ '': '' @ io_error_msg e))
                  (read_dir os pci_root)) (\<lambda>entries.
           andThen (gatherA entries (scan_entry os)) (\<lambda>fs. okR \<lparr>inv_functions = fs\<rparr>)))"

subsection \<open>Inventory queries\<close>

definition count_display_controllers :: "pci_inventory \<Rightarrow> nat" where
  "count_display_controllers pci = length (filter is_display_controller (inv_functions pci))"

definition gpus :: "pci_inventory \<Rightarrow> pci_function list" where
  "gpus pci = filter is_display_controller (inv_functions pci)"

record gpu_function_summary =
  gs_bdf :: string
  gs_vendor_id :: nat
  gs_device_id :: nat
  gs_driver :: "string option"
  gs_driver_kind :: "driver_kind option"
  gs_safety :: "safety_class option"

definition gpu_summaries :: "pci_inventory \<Rightarrow> gpu_function_summary list" where
  "gpu_summaries pci =
     map (\<lambda>f. \<lparr>gs_bdf = pf_bdf f, gs_vendor_id = pf_vendor_id f, gs_device_id = pf_device_id f,
              gs_driver = pf_driver f, gs_driver_kind = gpu_driver_kind f,
              gs_safety = gpu_safety_class f\<rparr>) (gpus pci)"

definition nics :: "pci_inventory \<Rightarrow> pci_function list" where
  "nics pci = filter is_network_controller (inv_functions pci)"

definition nvmes :: "pci_inventory \<Rightarrow> pci_function list" where
  "nvmes pci = filter is_nvme (inv_functions pci)"

definition usb_controllers :: "pci_inventory \<Rightarrow> pci_function list" where
  "usb_controllers pci = filter is_usb_controller (inv_functions pci)"

definition by_iommu_group :: "pci_inventory \<Rightarrow> (nat \<times> pci_function list) list" where
  "by_iommu_group pci = group_by_key pf_iommu_group (inv_functions pci)"

definition find_by_bdf :: "pci_inventory \<Rightarrow> string \<Rightarrow> pci_function option" where
  "find_by_bdf pci bdf = find (\<lambda>f. pf_bdf f = bdf) (inv_functions pci)"

text \<open>\<^verbatim>\<open>resolve_configured\<close>, for any lookup function.\<close>

fun resolve_with :: "(string \<Rightarrow> pci_function option) \<Rightarrow> pci_device_config list \<Rightarrow> pci_function list result" where
  "resolve_with lookup [] = Inr []"
| "resolve_with lookup (dev # devs) =
     (case lookup (pd_pci_address dev) of
        Some func \<Rightarrow>
          (case resolve_with lookup devs of Inl e \<Rightarrow> Inl e | Inr fs \<Rightarrow> Inr (func # fs))
      | None \<Rightarrow>
          if pd_required dev then
            Inl (Vfio (''required PCI device '' @ pd_pci_address dev @ '' not present in host inventory''))
          else resolve_with lookup devs)"

definition resolve_configured :: "pci_inventory \<Rightarrow> pci_device_config list \<Rightarrow> pci_function list result" where
  "resolve_configured pci cfgs = resolve_with (find_by_bdf pci) cfgs"

definition is_bdf_in_gpu_complex :: "pci_inventory \<Rightarrow> string \<Rightarrow> bool" where
  "is_bdf_in_gpu_complex pci bdf =
     (case parse_bdf_slot bdf of
        None \<Rightarrow> False
      | Some key \<Rightarrow>
          if \<not> list_ex (\<lambda>f. pf_bdf f = bdf) (inv_functions pci) then False
          else list_ex (\<lambda>f. slot_key f = Some key \<and> is_display_controller f) (inv_functions pci))"

subsection \<open>Unbind assessment\<close>

record gpu_unbind_assessment =
  ga_bdf :: string
  ga_current_driver :: "string option"
  ga_safety_class :: safety_class
  ga_iommu_group :: "nat option"
  ga_group_members :: "string list"
  ga_feasibility :: gpu_unbind_feasibility

definition problematic_member :: "pci_function \<Rightarrow> pci_function \<Rightarrow> bool" where
  "problematic_member gpu member =
     (if pf_bdf member = pf_bdf gpu then False
      else if \<not> is_display_controller member then True
      else case gpu_driver_kind member of
          Some KindVfio \<Rightarrow> False | Some KindUnbound \<Rightarrow> False | None \<Rightarrow> False | Some _ \<Rightarrow> True)"

definition evaluate_gpu_unbind_feasibility ::
  "pci_function \<Rightarrow> safety_class \<Rightarrow> pci_function list \<Rightarrow> gpu_unbind_feasibility" where
  "evaluate_gpu_unbind_feasibility gpu safety group_members =
     (case safety of
        VfioReady \<Rightarrow>
          (let problematic = map pf_bdf (filter (problematic_member gpu) group_members)
           in if problematic = [] then Safe
              else Risky (''GPU shares IOMMU group with other non-vfio or non-GPU devices: '' @ join '', '' problematic))
      | HostOwned \<Rightarrow>
          Risky ''GPU appears host-owned (bound to graphics driver); unbinding may disrupt host display''
      | SafetyUnknown \<Rightarrow>
          Risky ''GPU driver state is unknown or unbound; operator review required before unbinding'')"

definition assess_gpu :: "(nat \<times> pci_function list) list \<Rightarrow> pci_function \<Rightarrow> gpu_unbind_assessment" where
  "assess_gpu groups gpu =
     (let safety = (case gpu_safety_class gpu of None \<Rightarrow> SafetyUnknown | Some s \<Rightarrow> s);
          group_id = pf_iommu_group gpu;
          member_bdfs =
            (case group_id of None \<Rightarrow> []
             | Some gid \<Rightarrow>
                 (case map_of groups gid of None \<Rightarrow> []
                  | Some members \<Rightarrow> map pf_bdf (filter (\<lambda>m. pf_bdf m \<noteq> pf_bdf gpu) members)));
          feasibility =
            (if pf_driver gpu = Some ''vfio-pci'' then Safe
             else case group_id of
                 None \<Rightarrow> Unsafe ''GPU has no IOMMU group; cannot safely isolate for passthrough''
               | Some gid \<Rightarrow>
                   (case map_of groups gid of
                      None \<Rightarrow> Risky ''IOMMU group not found in inventory; treating as risky''
                    | Some members \<Rightarrow> evaluate_gpu_unbind_feasibility gpu safety members))
      in \<lparr>ga_bdf = pf_bdf gpu, ga_current_driver = pf_driver gpu, ga_safety_class = safety,
          ga_iommu_group = group_id, ga_group_members = member_bdfs, ga_feasibility = feasibility\<rparr>)"

definition assess_gpu_unbind_safety :: "pci_inventory \<Rightarrow> gpu_unbind_assessment list" where
  "assess_gpu_unbind_safety pci = map (assess_gpu (by_iommu_group pci)) (gpus pci)"

text \<open>
  \<^verbatim>\<open>by_bdf.insert(a.bdf, a)\<close> over the assessments: the last one of a bus address wins.
\<close>

definition assessment_by_bdf :: "gpu_unbind_assessment list \<Rightarrow> string \<Rightarrow> gpu_unbind_assessment option" where
  "assessment_by_bdf as bdf = map_of (rev (map (\<lambda>a. (ga_bdf a, a)) as)) bdf"

subsection \<open>The inventory as an interface\<close>

text \<open>
  The VFIO components reach the inventory through \<^verbatim>\<open>find_by_bdf\<close> and
  \<^verbatim>\<open>resolve_configured\<close> only.  What they rely on: a found function carries the address asked
  for.
\<close>

locale device_lookup =
  fixes lookup :: "string \<Rightarrow> pci_function option"
  assumes lookup_bdf: "lookup bdf = Some f \<Longrightarrow> pf_bdf f = bdf"
begin

definition present :: "pci_device_config list \<Rightarrow> pci_device_config list" where
  "present cfgs = filter (\<lambda>d. lookup (pd_pci_address d) \<noteq> None) cfgs"

lemma resolve_bdfs:
  "resolve_with lookup cfgs = Inr fs \<Longrightarrow> map pf_bdf fs = map pd_pci_address (present cfgs)"
  by (induction cfgs arbitrary: fs)
    (auto simp: present_def lookup_bdf split: option.splits sum.splits if_splits)

lemma resolve_members:
  assumes "resolve_with lookup cfgs = Inr fs"
  shows "f \<in> set fs \<longleftrightarrow> (\<exists>d \<in> set cfgs. lookup (pd_pci_address d) = Some f)"
  using assms
  by (induction cfgs arbitrary: fs) (auto split: option.splits sum.splits if_splits)

lemma resolve_found:
  assumes "resolve_with lookup cfgs = Inr fs" "f \<in> set fs"
  shows "lookup (pf_bdf f) = Some f"
  using assms lookup_bdf by (auto simp: resolve_members)

lemma resolve_ok_iff:
  "is_ok (resolve_with lookup cfgs) \<longleftrightarrow>
     list_all (\<lambda>d. pd_required d \<longrightarrow> lookup (pd_pci_address d) \<noteq> None) cfgs"
  by (induction cfgs) (auto split: option.splits sum.splits)

lemma resolve_error:
  "resolve_with lookup cfgs = Inl e \<Longrightarrow>
   \<exists>d \<in> set cfgs. pd_required d \<and> lookup (pd_pci_address d) = None \<and>
     e = Vfio (''required PCI device '' @ pd_pci_address d @ '' not present in host inventory'')"
  by (induction cfgs) (auto split: option.splits sum.splits if_splits)

lemma resolve_append:
  "resolve_with lookup (a @ b) =
     (case resolve_with lookup a of Inl e \<Rightarrow> Inl e
      | Inr fs \<Rightarrow> (case resolve_with lookup b of Inl e \<Rightarrow> Inl e | Inr gs \<Rightarrow> Inr (fs @ gs)))"
  by (induction a) (auto split: option.splits sum.splits)

end

lemma find_by_bdf_key: "find_by_bdf pci bdf = Some f \<Longrightarrow> pf_bdf f = bdf"
  by (auto simp: find_by_bdf_def find_Some_iff)

interpretation invl: device_lookup "find_by_bdf pci" for pci
  by unfold_locales (rule find_by_bdf_key)

lemma find_by_bdf_mem: "find_by_bdf pci bdf = Some f \<Longrightarrow> f \<in> set (inv_functions pci)"
  by (auto simp: find_by_bdf_def find_Some_iff)

lemma find_by_bdf_None: "find_by_bdf pci bdf = None \<longleftrightarrow> bdf \<notin> pf_bdf ` set (inv_functions pci)"
  by (auto simp: find_by_bdf_def find_None_iff)

text \<open>In an inventory without repeated addresses (sysfs has one directory per address) lookup is exact.\<close>

definition inv_wf :: "pci_inventory \<Rightarrow> bool" where
  "inv_wf pci \<longleftrightarrow> distinct (map pf_bdf (inv_functions pci))"

lemma find_by_bdf_wf:
  assumes "inv_wf pci" "f \<in> set (inv_functions pci)"
  shows "find_by_bdf pci (pf_bdf f) = Some f"
proof -
  obtain g where g: "find_by_bdf pci (pf_bdf f) = Some g"
    using assms(2) by (cases "find_by_bdf pci (pf_bdf f)") (auto simp: find_by_bdf_None)
  then have "pf_bdf g = pf_bdf f" "g \<in> set (inv_functions pci)"
    by (auto dest: find_by_bdf_key find_by_bdf_mem)
  then have "g = f"
    using assms unfolding inv_wf_def by (meson distinct_map inj_onD)
  with g show ?thesis by simp
qed

lemma in_by_iommu_group:
  "(gid, ms) \<in> set (by_iommu_group pci) \<longleftrightarrow>
     ms = filter (\<lambda>f. pf_iommu_group f = Some gid) (inv_functions pci) \<and> ms \<noteq> []"
  by (simp add: by_iommu_group_def in_group_by_key)

lemma map_of_by_iommu_group:
  assumes "f \<in> set (inv_functions pci)" "pf_iommu_group f = Some gid"
  shows "map_of (by_iommu_group pci) gid =
    Some (filter (\<lambda>f. pf_iommu_group f = Some gid) (inv_functions pci))"
  using assms by (auto simp: by_iommu_group_def map_of_group_by_key Let_def filter_empty_conv)

subsection \<open>Class codes\<close>

lemma bit_low_byte: "bit (0xff::int) n \<longleftrightarrow> n < 8"
proof -
  have "(0xff::int) = mask 8" by (simp add: mask_eq_exp_minus_1)
  then show ?thesis by (simp only: bit_mask_iff) auto
qed

lemma class_base_triple: "class_base f = fst (class_triple f)"
  unfolding class_base_def class_triple_def fst_conv
  by (intro bit_word_eqI) (auto simp: bit_simps bit_low_byte)

lemma class_kinds_exclusive:
  "is_display_controller f \<Longrightarrow> \<not> is_nvme f \<and> \<not> is_network_controller f \<and> \<not> is_usb_controller f \<and> \<not> is_storage_controller f"
  "is_nvme f \<Longrightarrow> is_storage_controller f"
  using class_base_triple [of f]
  by (auto simp: is_display_controller_def is_nvme_def is_network_controller_def
      is_usb_controller_def is_storage_controller_def split: prod.splits)

subsection \<open>Safety classification\<close>

lemma gpu_safety_None: "gpu_safety_class f = None \<longleftrightarrow> \<not> is_display_controller f"
  by (auto simp: gpu_safety_class_def gpu_driver_kind_def split: option.splits)

lemma gpu_safety_VfioReady:
  "gpu_safety_class f = Some VfioReady \<longleftrightarrow> is_display_controller f \<and> pf_driver f = Some ''vfio-pci''"
  by (auto simp: gpu_safety_class_def gpu_driver_kind_def split: option.splits if_splits)

lemma gpu_safety_HostOwned:
  "gpu_safety_class f = Some HostOwned \<longleftrightarrow> is_display_controller f \<and>
     pf_driver f \<in> Some ` {''amdgpu'', ''radeon'', ''nvidia'', ''nouveau''}"
  by (auto simp: gpu_safety_class_def gpu_driver_kind_def split: option.splits if_splits)

lemma assess_gpu_Safe:
  assumes "is_display_controller g"
  shows "ga_feasibility (assess_gpu groups g) = Safe \<longleftrightarrow> pf_driver g = Some ''vfio-pci''"
proof (cases "pf_driver g = Some ''vfio-pci''")
  case False
  then have "gpu_safety_class g \<noteq> Some VfioReady" by (simp add: gpu_safety_VfioReady)
  with False show ?thesis
    by (auto simp: assess_gpu_def Let_def evaluate_gpu_unbind_feasibility_def
        split: option.splits safety_class.splits)
qed (simp add: assess_gpu_def Let_def)

lemma assessment_by_bdf_Some:
  assumes "assessment_by_bdf (assess_gpu_unbind_safety pci) bdf = Some a"
  shows "\<exists>g \<in> set (gpus pci). pf_bdf g = bdf \<and> a = assess_gpu (by_iommu_group pci) g"
proof -
  from assms have "(bdf, a) \<in> set (map (\<lambda>a. (ga_bdf a, a)) (assess_gpu_unbind_safety pci))"
    unfolding assessment_by_bdf_def by (auto dest: map_of_SomeD)
  then show ?thesis
    by (auto simp: assess_gpu_unbind_safety_def assess_gpu_def Let_def)
qed

lemma assessment_by_bdf_wf:
  assumes "inv_wf pci" "g \<in> set (inv_functions pci)" "is_display_controller g"
  shows "assessment_by_bdf (assess_gpu_unbind_safety pci) (pf_bdf g) =
    Some (assess_gpu (by_iommu_group pci) g)"
proof -
  have keys: "map (\<lambda>a. ga_bdf a) (assess_gpu_unbind_safety pci) = map pf_bdf (gpus pci)"
    by (simp add: assess_gpu_unbind_safety_def assess_gpu_def Let_def)
  have "distinct (map pf_bdf (gpus pci))"
    using assms(1) by (simp add: inv_wf_def gpus_def distinct_map_filter)
  then have "distinct (map fst (rev (map (\<lambda>a. (ga_bdf a, a)) (assess_gpu_unbind_safety pci))))"
    by (simp add: rev_map comp_def) (metis keys rev_map distinct_rev)
  moreover have "(pf_bdf g, assess_gpu (by_iommu_group pci) g)
      \<in> set (rev (map (\<lambda>a. (ga_bdf a, a)) (assess_gpu_unbind_safety pci)))"
    using assms by (auto simp: assess_gpu_unbind_safety_def gpus_def assess_gpu_def Let_def image_iff)
  ultimately show ?thesis
    unfolding assessment_by_bdf_def by (rule map_of_is_SomeI)
qed

subsection \<open>Frames\<close>

lemma read_hex_readonly: "io_emits is_readonly (read_hex os mx ty p)"
  unfolding read_hex_def Let_def by (intro emits_intros) auto

lemma read_function_readonly: "io_emits is_readonly (read_function os dir bdf)"
  unfolding read_function_def read_hex_u16_def read_hex_u32_def read_driver_name_def
    read_iommu_group_def read_numa_node_def
  by (intro emits_intros read_hex_readonly) auto

lemma scan_readonly [emits_intros]: "io_emits is_readonly (scan os)"
  unfolding scan_def scan_entry_def
  by (intro emits_intros read_function_readonly) auto

text \<open>The exact effect of a driver write: a look at the file, then at most one write to it.\<close>

lemma bind_to_vfio_pci_trace:
  assumes "bind_to_vfio_pci os f t = (r, t')"
  shows "(r = Inr () \<and> t' = t \<and> pf_driver f = Some ''vfio-pci'') \<or>
    (pf_driver f \<noteq> Some ''vfio-pci'' \<and>
     (writes t' = writes t \<and> \<not> is_ok r \<or>
      writes t' = writes t @ [(driver_file ''vfio-pci'' ''bind'', pf_bdf f @ newline, is_ok r)]))"
  using assms
  by (auto simp: bind_to_vfio_pci_def Let_def act_simps call_defs split: if_splits option.splits sum.splits)

lemma unbind_current_driver_trace:
  assumes "unbind_current_driver os f t = (r, t')"
  shows "(r = Inr () \<and> t' = t \<and> (pf_driver f = None \<or> pf_driver f = Some ''vfio-pci'')) \<or>
    (\<exists>d. pf_driver f = Some d \<and> d \<noteq> ''vfio-pci'' \<and>
     (writes t' = writes t \<and> \<not> is_ok r \<or>
      writes t' = writes t @ [(driver_file d ''unbind'', pf_bdf f @ newline, is_ok r)]))"
  using assms
  by (auto simp: unbind_current_driver_def Let_def act_simps call_defs split: if_splits option.splits sum.splits)

lemma bind_to_driver_trace:
  assumes "bind_to_driver os f d t = (r, t')"
  shows "(r = Inr () \<and> t' = t \<and> pf_driver f = Some d) \<or>
    (pf_driver f \<noteq> Some d \<and>
     (writes t' = writes t \<and> \<not> is_ok r \<or>
      writes t' = writes t @ [(driver_file d ''bind'', pf_bdf f @ newline, is_ok r)]))"
  using assms
  by (auto simp: bind_to_driver_def Let_def act_simps call_defs split: if_splits option.splits sum.splits)

end
