(* ===== verification/Chalybs_GpuPolicy.thy ===== *)
theory Chalybs_GpuPolicy
  imports Chalybs_Pci
begin

text \<open>
  The GPU policy of \<^verbatim>\<open>config::pci\<close> in \<^verbatim>\<open>core/src/config.rs\<close>: the single-GPU preflight and the
  gate that prepares configured GPUs for passthrough.  The classifications that the code only logs
  leave no trace here.
\<close>

subsection \<open>Preflight\<close>

definition preflight_gpu_policy :: "os \<Rightarrow> string \<Rightarrow> vm_config \<Rightarrow> unit result io" where
  "preflight_gpu_policy os vm_name cfg =
     (let vm_gpu_count = (case dv_gpu (vc_devices cfg) of None \<Rightarrow> 0 | Some v \<Rightarrow> length v)
      in if vm_gpu_count = 0 then okR ()
         else
           bindR (scan os) (\<lambda>pci.
             (let host_gpu_count = count_display_controllers pci
              in if host_gpu_count = 0 then
                   errR (Vfio (''VM '' @ vm_name @ '': GPU passthrough requested, but host has NO GPUs detected via PCI inventory.''))
                 else if host_gpu_count = 1 \<and> \<not> gp_allow_single_gpu (vc_gpu cfg) then
                   errR (Vfio (''VM '' @ vm_name @ '': GPU passthrough on a SINGLE-GPU host is blocked.'' @ newline @
                     ''To permit this, explicitly set:'' @ newline @
                     ''[vm.'' @ vm_name @ ''.gpu]'' @ newline @
                     ''allow_single_gpu = true'' @ newline @ newline @
                     ''WARNING: this may steal the host display.'' @ newline))
                 else okR ())))"

subsection \<open>Preparation\<close>

text \<open>One round of the gate loop, and the loop.\<close>

definition gate_gpu ::
  "string \<Rightarrow> (string \<Rightarrow> gpu_unbind_assessment option) \<Rightarrow> pci_function \<Rightarrow> unit result" where
  "gate_gpu vm_name by_bdf func =
     (if \<not> is_display_controller func then
        Inl (Vfio (''VM '' @ vm_name @ '': device '' @ pf_bdf func @ '' in devices.gpu is not a display controller''))
      else case by_bdf (pf_bdf func) of
          None \<Rightarrow> Inr ()
        | Some a \<Rightarrow>
            (case ga_feasibility a of
               Unsafe reason \<Rightarrow>
                 Inl (Vfio (''VM '' @ vm_name @ '': GPU '' @ pf_bdf func @ '' is classified as UNSAFE to unbind: '' @ reason))
             | Risky reason \<Rightarrow> Inr ()
             | Safe \<Rightarrow> Inr ()))"

fun gate_gpus ::
  "string \<Rightarrow> (string \<Rightarrow> gpu_unbind_assessment option) \<Rightarrow> pci_function list \<Rightarrow> unit result" where
  "gate_gpus vm_name by_bdf [] = Inr ()"
| "gate_gpus vm_name by_bdf (f # fs) =
     (case gate_gpu vm_name by_bdf f of Inl e \<Rightarrow> Inl e | Inr _ \<Rightarrow> gate_gpus vm_name by_bdf fs)"

definition take_over_gpu :: "os \<Rightarrow> pci_function \<Rightarrow> unit result io" where
  "take_over_gpu os func = bindR (unbind_current_driver os func) (\<lambda>_. bind_to_vfio_pci os func)"

definition prepare_gpu_passthrough :: "os \<Rightarrow> string \<Rightarrow> vm_config \<Rightarrow> unit result io" where
  "prepare_gpu_passthrough os vm_name cfg =
     (case dv_gpu (vc_devices cfg) of
        None \<Rightarrow> okR ()
      | Some gpu_cfgs \<Rightarrow>
          if gpu_cfgs = [] then okR ()
          else
            bindR (scan os) (\<lambda>pci.
              case resolve_configured pci gpu_cfgs of
                Inl e \<Rightarrow> errR e
              | Inr resolved \<Rightarrow>
                  (case gate_gpus vm_name (assessment_by_bdf (assess_gpu_unbind_safety pci)) resolved of
                     Inl e \<Rightarrow> errR e
                   | Inr _ \<Rightarrow> eachR resolved (take_over_gpu os))))"

subsection \<open>Lemmas\<close>

lemma gate_gpus_ok:
  "is_ok (gate_gpus vm by fs) \<longleftrightarrow> list_all (\<lambda>f. is_ok (gate_gpu vm by f)) fs"
  by (induction fs) (auto split: sum.splits)

lemma assess_gpu_Unsafe:
  assumes "is_display_controller g"
  shows "(\<exists>why. ga_feasibility (assess_gpu groups g) = Unsafe why) \<longleftrightarrow>
    pf_driver g \<noteq> Some ''vfio-pci'' \<and> pf_iommu_group g = None"
  by (auto simp: assess_gpu_def Let_def evaluate_gpu_unbind_feasibility_def
      split: option.splits safety_class.splits)

text \<open>On an inventory with unique addresses the gate blocks exactly non-GPUs and GPUs outside IOMMU.\<close>

lemma gate_gpu_ok:
  assumes "inv_wf pci" "f \<in> set (inv_functions pci)"
  shows "is_ok (gate_gpu vm (assessment_by_bdf (assess_gpu_unbind_safety pci)) f) \<longleftrightarrow>
    is_display_controller f \<and> (pf_driver f = Some ''vfio-pci'' \<or> pf_iommu_group f \<noteq> None)"
proof (cases "is_display_controller f")
  case True
  then have a: "assessment_by_bdf (assess_gpu_unbind_safety pci) (pf_bdf f) =
      Some (assess_gpu (by_iommu_group pci) f)"
    by (rule assessment_by_bdf_wf [OF assms])
  show ?thesis
    using True assess_gpu_Unsafe [OF True, of "by_iommu_group pci"]
    by (auto simp: gate_gpu_def a split: gpu_unbind_feasibility.splits)
qed (simp add: gate_gpu_def)

lemma preflight_readonly [emits_intros]: "io_emits is_readonly (preflight_gpu_policy os vm cfg)"
  unfolding preflight_gpu_policy_def Let_def by (intro emits_intros)

text \<open>Only driver files of the PCI bus are written, and only with a bus address.\<close>

fun is_driver_write :: "os_event \<Rightarrow> bool" where
  "is_driver_write (EvWrite p c ok) = starts_with ''/sys/bus/pci/drivers/'' p"
| "is_driver_write e = is_readonly e"

lemma readonly_driver_write: "is_readonly e \<Longrightarrow> is_driver_write e"
  by (cases e) simp_all

lemma driver_file_prefix [simp]: "starts_with ''/sys/bus/pci/drivers/'' (driver_file d f)"
  by (simp add: driver_file_def starts_with_def)

lemma driver_writes [emits_intros]:
  "io_emits is_driver_write (unbind_current_driver os f)"
  "io_emits is_driver_write (bind_to_vfio_pci os f)"
  "io_emits is_driver_write (bind_to_driver os f d)"
  unfolding unbind_current_driver_def bind_to_vfio_pci_def bind_to_driver_def Let_def
  by (intro emits_intros; simp)+

lemma scan_driver_write: "io_emits is_driver_write (scan os)"
  by (rule emits_mono [OF scan_readonly readonly_driver_write])

lemma prepare_driver_write [emits_intros]: "io_emits is_driver_write (prepare_gpu_passthrough os vm cfg)"
  unfolding prepare_gpu_passthrough_def take_over_gpu_def
  by (intro emits_intros scan_driver_write)

end
