(* ===== verification/Chalybs_Isolation.thy ===== *)
theory Chalybs_Isolation
  imports Chalybs_Pci
begin

text \<open>
  The device isolation policy of \<^verbatim>\<open>core/src/vfio/isolation.rs\<close>: the set of passthrough
  addresses, the per-device contexts, the five evaluators in the order the code runs them, and the
  decision per mode.  \<^verbatim>\<open>findings.push\<close> appends to a list, so an evaluator is the list it
  appends; the passthrough \<^verbatim>\<open>HashSet\<close> is only asked for membership and is a list here.
\<close>

subsection \<open>Data\<close>

datatype isolation_severity = SevInfo | SevWarning | SevViolation

record isolation_finding =
  if_severity :: isolation_severity
  if_code :: string
  if_message :: string
  if_device_bdf :: "string option"
  if_iommu_group :: "nat option"

record isolation_report =
  ir_vm_name :: string
  ir_findings :: "isolation_finding list"

definition has_violations :: "isolation_report \<Rightarrow> bool" where
  "has_violations r = list_ex (\<lambda>f. if_severity f = SevViolation) (ir_findings r)"

record device_isolation_context =
  dx_device_cfg :: pci_device_config
  dx_func :: pci_function
  dx_class :: pci_class_kind
  dx_effective_level :: isolation_level

definition finding ::
  "isolation_severity \<Rightarrow> string \<Rightarrow> string \<Rightarrow> string option \<Rightarrow> nat option \<Rightarrow> isolation_finding" where
  "finding sev code msg bdf grp =
     \<lparr>if_severity = sev, if_code = code, if_message = msg, if_device_bdf = bdf, if_iommu_group = grp\<rparr>"

lemma finding_sel [simp]:
  "if_severity (finding s c m b g) = s" "if_code (finding s c m b g) = c"
  "if_message (finding s c m b g) = m" "if_device_bdf (finding s c m b g) = b"
  "if_iommu_group (finding s c m b g) = g"
  by (simp_all add: finding_def)

text \<open>\<^verbatim>\<open>{:?}\<close> of the two enums, and \<^verbatim>\<open>first().cloned()\<close>.\<close>

fun show_severity :: "isolation_severity \<Rightarrow> string" where
  "show_severity SevInfo = ''Info''"
| "show_severity SevWarning = ''Warning''"
| "show_severity SevViolation = ''Violation''"

fun show_mode :: "isolation_mode \<Rightarrow> string" where
  "show_mode Disabled = ''Disabled''"
| "show_mode Audit = ''Audit''"
| "show_mode Enforce = ''Enforce''"

fun first_opt :: "'a list \<Rightarrow> 'a option" where
  "first_opt [] = None"
| "first_opt (x # xs) = Some x"

subsection \<open>Collecting the devices\<close>

definition collect_devices_for_kind :: "pci_device_config list option \<Rightarrow> pci_inventory \<Rightarrow> string list result" where
  "collect_devices_for_kind cfgs_opt pci =
     (case cfgs_opt of
        None \<Rightarrow> Inr []
      | Some cfgs \<Rightarrow>
          if cfgs = [] then Inr []
          else case resolve_configured pci cfgs of Inl e \<Rightarrow> Inl e | Inr funcs \<Rightarrow> Inr (map pf_bdf funcs))"

text \<open>The four calls with the question mark operator: the first failing list decides.\<close>

fun collect_kinds :: "('c \<Rightarrow> 'a list result) \<Rightarrow> 'c list \<Rightarrow> 'a list result" where
  "collect_kinds f [] = Inr []"
| "collect_kinds f (c # cs) =
     (case f c of Inl e \<Rightarrow> Inl e
      | Inr xs \<Rightarrow> (case collect_kinds f cs of Inl e \<Rightarrow> Inl e | Inr ys \<Rightarrow> Inr (xs @ ys)))"

definition device_kinds :: "devices_config \<Rightarrow> pci_device_config list option list" where
  "device_kinds d = [dv_gpu d, dv_nvme d, dv_nic d, dv_usb d]"

definition collect_passthrough_bdfs :: "vm_config \<Rightarrow> pci_inventory \<Rightarrow> string list result" where
  "collect_passthrough_bdfs cfg pci =
     collect_kinds (\<lambda>c. collect_devices_for_kind c pci) (device_kinds (vc_devices cfg))"

text \<open>\<^verbatim>\<open>cfg_by_bdf.insert\<close> in a loop: the last entry of an address wins.\<close>

definition cfg_by_bdf :: "pci_device_config list \<Rightarrow> string \<Rightarrow> pci_device_config option" where
  "cfg_by_bdf cfgs bdf = map_of (rev (map (\<lambda>d. (pd_pci_address d, d)) cfgs)) bdf"

definition device_context ::
  "isolation_policy_config \<Rightarrow> pci_device_config list \<Rightarrow> pci_function \<Rightarrow> device_isolation_context list" where
  "device_context policy cfgs func =
     (case cfg_by_bdf cfgs (pf_bdf func) of
        Some dev_cfg \<Rightarrow>
          [\<lparr>dx_device_cfg = dev_cfg, dx_func = func, dx_class = device_class func,
            dx_effective_level =
              (case pd_level dev_cfg of None \<Rightarrow> ip_default_level policy | Some l \<Rightarrow> l)\<rparr>]
      | None \<Rightarrow> [])"

definition collect_device_contexts_for_kind ::
  "pci_device_config list option \<Rightarrow> isolation_policy_config \<Rightarrow> pci_inventory \<Rightarrow>
   device_isolation_context list result" where
  "collect_device_contexts_for_kind cfgs_opt policy pci =
     (case cfgs_opt of
        None \<Rightarrow> Inr []
      | Some cfgs \<Rightarrow>
          if cfgs = [] then Inr []
          else case resolve_configured pci cfgs of
              Inl e \<Rightarrow> Inl e
            | Inr funcs \<Rightarrow> Inr (concat (map (device_context policy cfgs) funcs)))"

definition collect_device_contexts ::
  "isolation_policy_config \<Rightarrow> vm_config \<Rightarrow> pci_inventory \<Rightarrow> device_isolation_context list result" where
  "collect_device_contexts policy cfg pci =
     collect_kinds (\<lambda>c. collect_device_contexts_for_kind c policy pci) (device_kinds (vc_devices cfg))"

subsection \<open>Evaluators\<close>

definition iommu_group_findings ::
  "string \<Rightarrow> string list \<Rightarrow> nat \<times> pci_function list \<Rightarrow> isolation_finding list" where
  "iommu_group_findings vm_name passthrough_bdfs grp =
     (case grp of (gid, members) \<Rightarrow>
       (let passthrough_members = map pf_bdf (filter (\<lambda>m. pf_bdf m \<in> set passthrough_bdfs) members);
            non_passthrough = map pf_bdf (filter (\<lambda>m. pf_bdf m \<notin> set passthrough_bdfs) members)
        in if passthrough_members = [] then []
           else if non_passthrough = [] then
             [finding SevInfo ''IOMMU_GROUP_EXCLUSIVE_PASSTHROUGH''
                (''IOMMU group '' @ show_nat gid @ '' contains only passthrough devices ('' @
                 join '','' passthrough_members @ ''); group is exclusive for VM '' @ vm_name)
                (first_opt passthrough_members) (Some gid)]
           else
             [finding SevViolation ''IOMMU_GROUP_NOT_EXCLUSIVE''
                (''IOMMU group '' @ show_nat gid @ '' contains passthrough devices ('' @
                 join '','' passthrough_members @ '') and non-passthrough members ('' @
                 join '','' non_passthrough @ ''); this violates require_iommu_exclusive for VM '' @ vm_name)
                (first_opt passthrough_members) (Some gid)]))"

definition evaluate_iommu_exclusivity ::
  "string \<Rightarrow> pci_inventory \<Rightarrow> string list \<Rightarrow> isolation_finding list" where
  "evaluate_iommu_exclusivity vm_name pci passthrough_bdfs =
     concat (map (iommu_group_findings vm_name passthrough_bdfs) (by_iommu_group pci))"

text \<open>\<^verbatim>\<open>parse_slot_key\<close>, the second copy of the address parser.\<close>

definition parse_slot_key :: "string \<Rightarrow> (nat \<times> nat \<times> nat) option" where
  "parse_slot_key bdf =
     (case split_on (CHR '':'') bdf of
        [domain_str, bus_str, devfunc_str] \<Rightarrow>
          (case split_on (CHR ''.'') devfunc_str of
             [dev_str, func_str] \<Rightarrow>
               if length domain_str \<noteq> 4 \<or> length bus_str \<noteq> 2 \<or> length dev_str \<noteq> 2 \<or> func_str = []
               then None
               else
                 (case (ok_opt (parse_unsigned 16 u16_max domain_str),
                        ok_opt (parse_unsigned 16 u8_max bus_str),
                        ok_opt (parse_unsigned 16 u8_max dev_str)) of
                    (Some domain, Some bus, Some dev) \<Rightarrow> Some (domain, bus, dev)
                  | _ \<Rightarrow> None)
           | _ \<Rightarrow> None)
      | _ \<Rightarrow> None)"

definition slot_findings ::
  "string \<Rightarrow> string list \<Rightarrow> (nat \<times> nat \<times> nat) \<times> pci_function list \<Rightarrow> isolation_finding list" where
  "slot_findings vm_name passthrough_bdfs grp =
     (case grp of ((domain, bus, slot), members) \<Rightarrow>
       (let pt_list = map pf_bdf (filter (\<lambda>m. pf_bdf m \<in> set passthrough_bdfs) members);
            host_list = map pf_bdf (filter (\<lambda>m. pf_bdf m \<notin> set passthrough_bdfs) members)
        in if pt_list = [] \<or> host_list = [] then []
           else
             [finding SevViolation ''MULTIFUNCTION_MIXED_OWNERSHIP''
                (''PCI device '' @ show_hex_pad 4 domain @ '':'' @ show_hex_pad 2 bus @ '':'' @
                 show_hex_pad 2 slot @ ''.x has mixed ownership: passthrough functions ('' @
                 join '','' pt_list @ '') and host-owned functions ('' @ join '','' host_list @
                 ''); this violates require_multifunction_consistency for VM '' @ vm_name)
                (first_opt pt_list) None]))"

definition evaluate_multifunction_consistency ::
  "string \<Rightarrow> pci_inventory \<Rightarrow> string list \<Rightarrow> isolation_finding list" where
  "evaluate_multifunction_consistency vm_name pci passthrough_bdfs =
     concat (map (slot_findings vm_name passthrough_bdfs)
       (group_by_key (\<lambda>f. parse_slot_key (pf_bdf f)) (inv_functions pci)))"

definition host_critical_findings ::
  "string \<Rightarrow> string list \<Rightarrow> nat \<times> pci_function list \<Rightarrow> isolation_finding list" where
  "host_critical_findings vm_name passthrough_bdfs grp =
     (case grp of (gid, members) \<Rightarrow>
       (let has_passthrough = list_ex (\<lambda>m. pf_bdf m \<in> set passthrough_bdfs) members;
            gpu_bdfs = map pf_bdf (filter (\<lambda>m. is_display_controller m \<and>
                          gpu_safety_class m = Some HostOwned) members)
        in if gpu_bdfs = [] then []
           else if has_passthrough then
             [finding SevViolation ''HOST_CRITICAL_GPU_SHARED_GROUP''
                (''IOMMU group '' @ show_nat gid @ '' contains passthrough devices and host-owned GPU(s) ('' @
                 join '','' gpu_bdfs @ ''); this violates forbid_host_critical_in_group for VM '' @ vm_name)
                (first_opt gpu_bdfs) (Some gid)]
           else
             [finding SevWarning ''HOST_CRITICAL_GPU_SHARED_GROUP_HOST_ONLY''
                (''IOMMU group '' @ show_nat gid @ '' contains host-owned GPU(s) ('' @
                 join '','' gpu_bdfs @ ''), but no passthrough devices; group is host-only but may still be performance/availability sensitive for VM '' @ vm_name)
                (first_opt gpu_bdfs) (Some gid)]))"

definition evaluate_host_critical_sharing ::
  "string \<Rightarrow> pci_inventory \<Rightarrow> string list \<Rightarrow> isolation_finding list" where
  "evaluate_host_critical_sharing vm_name pci passthrough_bdfs =
     concat (map (host_critical_findings vm_name passthrough_bdfs) (by_iommu_group pci))"

definition device_level_findings ::
  "string \<Rightarrow> isolation_policy_config \<Rightarrow> (nat \<times> pci_function list) list \<Rightarrow> string list \<Rightarrow>
   device_isolation_context \<Rightarrow> isolation_finding list" where
  "device_level_findings vm_name policy groups passthrough_bdfs ctx =
     (let bdf = pf_bdf (dx_func ctx)
      in case dx_effective_level ctx of
           Forbidden \<Rightarrow>
             [finding SevViolation ''DEVICE_FORBIDDEN_BY_POLICY''
                (''PCI device '' @ bdf @ '' is configured for passthrough but IsolationLevel=forbidden for VM '' @ vm_name)
                (Some bdf) (pf_iommu_group (dx_func ctx))]
         | Dedicated \<Rightarrow>
             if ip_require_iommu_exclusive policy then []
             else (case pf_iommu_group (dx_func ctx) of
                 None \<Rightarrow>
                   [finding SevWarning ''DEVICE_DEDICATED_NO_IOMMU_GROUP''
                      (''PCI device '' @ bdf @ '' with IsolationLevel=dedicated has no IOMMU group; cannot evaluate group exclusivity for VM '' @ vm_name)
                      (Some bdf) None]
               | Some gid \<Rightarrow>
                   (case map_of groups gid of
                      None \<Rightarrow>
                        [finding SevWarning ''DEVICE_DEDICATED_GROUP_UNKNOWN''
                           (''PCI device '' @ bdf @ '' with IsolationLevel=dedicated is in IOMMU group '' @ show_nat gid @
                            '', but group members are not present in the current inventory snapshot for VM '' @ vm_name)
                           (Some bdf) (Some gid)]
                    | Some members \<Rightarrow>
                        (let non_passthrough = map pf_bdf (filter (\<lambda>m. pf_bdf m \<notin> set passthrough_bdfs) members)
                         in if non_passthrough = [] then
                              [finding SevInfo ''DEVICE_DEDICATED_GROUP_EXCLUSIVE''
                                 (''PCI device '' @ bdf @ '' with IsolationLevel=dedicated is in IOMMU group '' @ show_nat gid @
                                  '' that is exclusive to passthrough devices for VM '' @ vm_name)
                                 (Some bdf) (Some gid)]
                            else
                              [finding SevViolation ''DEVICE_DEDICATED_GROUP_NOT_EXCLUSIVE''
                                 (''PCI device '' @ bdf @ '' with IsolationLevel=dedicated is in IOMMU group '' @ show_nat gid @
                                  '' that also contains non-passthrough members ('' @ join '','' non_passthrough @
                                  ''); this violates per-device dedicated isolation for VM '' @ vm_name)
                                 (Some bdf) (Some gid)])))
         | SharedWithHost \<Rightarrow> [])"

definition evaluate_per_device_isolation_levels ::
  "string \<Rightarrow> isolation_policy_config \<Rightarrow> pci_inventory \<Rightarrow> device_isolation_context list \<Rightarrow> string list \<Rightarrow>
   isolation_finding list" where
  "evaluate_per_device_isolation_levels vm_name policy pci device_contexts passthrough_bdfs =
     (if device_contexts = [] then []
      else concat (map (device_level_findings vm_name policy (by_iommu_group pci) passthrough_bdfs) device_contexts))"

text \<open>\<^verbatim>\<open>dev_node as u16\<close> keeps the low sixteen bits.\<close>

definition numa_findings ::
  "string \<Rightarrow> isolation_policy_config \<Rightarrow> nat \<Rightarrow> device_isolation_context \<Rightarrow> isolation_finding list" where
  "numa_findings vm_name policy vm_node ctx =
     (let func = dx_func ctx; bdf = pf_bdf func
      in case pf_numa_node func of
           None \<Rightarrow>
             [finding SevWarning ''NUMA_DEVICE_NODE_UNKNOWN''
                (''PCI device '' @ bdf @ '' has unknown NUMA node (None) while VM '' @ vm_name @
                 '' is pinned to node '' @ show_nat vm_node)
                (Some bdf) (pf_iommu_group func)]
         | Some dev_node \<Rightarrow>
             if dev_node < 0 then
               [finding SevWarning ''NUMA_DEVICE_NODE_NEGATIVE''
                  (''PCI device '' @ bdf @ '' reports negative NUMA node ('' @ show_int dev_node @
                   '') while VM '' @ vm_name @ '' is pinned to node '' @ show_nat vm_node @
                   ''; treating as warning but not violation'')
                  (Some bdf) (pf_iommu_group func)]
             else if dev_node mod 65536 = int vm_node then []
             else
               (let mismatch = (\<lambda>severity label.
                      [finding severity ''NUMA_NODE_MISMATCH''
                         (''PCI device '' @ bdf @ '' with IsolationLevel='' @ label @ '' is on NUMA node '' @
                          show_int dev_node @ '' but VM '' @ vm_name @ '' is pinned to node '' @ show_nat vm_node @
                          ''; this NUMA mismatch is treated as '' @ show_severity severity @
                          '' under mode '' @ show_mode (ip_mode policy))
                         (Some bdf) (pf_iommu_group func)])
                in case dx_effective_level ctx of
                     Forbidden \<Rightarrow> []
                   | Dedicated \<Rightarrow>
                       (case ip_mode policy of
                          Disabled \<Rightarrow> mismatch SevWarning ''dedicated''
                        | Audit \<Rightarrow> mismatch SevWarning ''dedicated''
                        | Enforce \<Rightarrow> mismatch SevViolation ''dedicated'')
                   | SharedWithHost \<Rightarrow> mismatch SevWarning ''shared-with-host''))"

definition evaluate_numa_placement ::
  "string \<Rightarrow> isolation_policy_config \<Rightarrow> vm_config \<Rightarrow> device_isolation_context list \<Rightarrow> isolation_finding list" where
  "evaluate_numa_placement vm_name policy cfg device_contexts =
     (if device_contexts = [] then []
      else case Option.bind (vc_numa cfg) nc_node of
          None \<Rightarrow> []
        | Some vm_node \<Rightarrow> concat (map (numa_findings vm_name policy vm_node) device_contexts))"

subsection \<open>The decision\<close>

definition isolation_findings ::
  "string \<Rightarrow> vm_config \<Rightarrow> pci_inventory \<Rightarrow> string list \<Rightarrow> device_isolation_context list \<Rightarrow>
   isolation_finding list" where
  "isolation_findings vm_name cfg pci passthrough_bdfs device_contexts =
     (let policy = vc_isolation cfg
      in (if ip_require_iommu_exclusive policy
          then evaluate_iommu_exclusivity vm_name pci passthrough_bdfs else []) @
         (if ip_require_multifunction_consistency policy
          then evaluate_multifunction_consistency vm_name pci passthrough_bdfs else []) @
         (if ip_forbid_host_critical_in_group policy
          then evaluate_host_critical_sharing vm_name pci passthrough_bdfs else []) @
         (if device_contexts \<noteq> []
          then evaluate_per_device_isolation_levels vm_name policy pci device_contexts passthrough_bdfs else []) @
         evaluate_numa_placement vm_name policy cfg device_contexts)"

definition evaluate_isolation_for_vm :: "string \<Rightarrow> vm_config \<Rightarrow> pci_inventory \<Rightarrow> unit result" where
  "evaluate_isolation_for_vm vm_name cfg pci =
     (let policy = vc_isolation cfg
      in if ip_mode policy = Disabled then Inr ()
         else case collect_passthrough_bdfs cfg pci of
             Inl e \<Rightarrow> Inl e
           | Inr passthrough_bdfs \<Rightarrow>
               (case collect_device_contexts policy cfg pci of
                  Inl e \<Rightarrow> Inl e
                | Inr device_contexts \<Rightarrow>
                    (let report = \<lparr>ir_vm_name = vm_name,
                           ir_findings = isolation_findings vm_name cfg pci passthrough_bdfs device_contexts\<rparr>
                     in case ip_mode policy of
                          Disabled \<Rightarrow> Inr ()
                        | Audit \<Rightarrow> Inr ()
                        | Enforce \<Rightarrow>
                            if has_violations report then
                              Inl (Vfio (''VM '' @ vm_name @ '': device isolation policy violations detected (count = '' @
                                show_nat (length (filter (\<lambda>f. if_severity f = SevViolation) (ir_findings report))) @
                                ''); see logs for detailed findings''))
                            else Inr ())))"


subsection \<open>Rules and their violations\<close>

text \<open>
  Every evaluator is a rule applied to a list of subjects (groups, slots, devices).  What the
  decision relies on is when a rule reports a violation; the laws below are proved once for all
  rules.
\<close>

abbreviation is_violation :: "isolation_finding \<Rightarrow> bool" where
  "is_violation f \<equiv> if_severity f = SevViolation"

locale isolation_rule =
  fixes rule :: "'x \<Rightarrow> isolation_finding list"
    and bad :: "'x \<Rightarrow> bool"
  assumes violation_iff: "list_ex is_violation (rule x) \<longleftrightarrow> bad x"
begin

lemma report_violates: "list_ex is_violation (concat (map rule xs)) \<longleftrightarrow> list_ex bad xs"
  by (induction xs) (auto simp: violation_iff)

lemma report_clean: "\<not> list_ex is_violation (concat (map rule xs)) \<longleftrightarrow> list_all (\<lambda>x. \<not> bad x) xs"
  using report_violates [of xs] by (auto simp: list_ex_iff list_all_iff)

end

definition mixed_members :: "string list \<Rightarrow> pci_function list \<Rightarrow> bool" where
  "mixed_members pts ms \<longleftrightarrow> list_ex (\<lambda>m. pf_bdf m \<in> set pts) ms \<and> list_ex (\<lambda>m. pf_bdf m \<notin> set pts) ms"

definition host_gpu_shared :: "string list \<Rightarrow> pci_function list \<Rightarrow> bool" where
  "host_gpu_shared pts ms \<longleftrightarrow> list_ex (\<lambda>m. pf_bdf m \<in> set pts) ms \<and>
     list_ex (\<lambda>m. gpu_safety_class m = Some HostOwned) ms"

definition level_violated ::
  "isolation_policy_config \<Rightarrow> (nat \<times> pci_function list) list \<Rightarrow> string list \<Rightarrow> device_isolation_context \<Rightarrow> bool" where
  "level_violated policy groups pts ctx =
     (case dx_effective_level ctx of
        Forbidden \<Rightarrow> True
      | SharedWithHost \<Rightarrow> False
      | Dedicated \<Rightarrow>
          \<not> ip_require_iommu_exclusive policy \<and>
          (case pf_iommu_group (dx_func ctx) of
             None \<Rightarrow> False
           | Some gid \<Rightarrow>
               (case map_of groups gid of None \<Rightarrow> False
                | Some ms \<Rightarrow> list_ex (\<lambda>m. pf_bdf m \<notin> set pts) ms)))"

definition numa_violated :: "isolation_policy_config \<Rightarrow> nat \<Rightarrow> device_isolation_context \<Rightarrow> bool" where
  "numa_violated policy vm_node ctx =
     (case pf_numa_node (dx_func ctx) of
        None \<Rightarrow> False
      | Some n \<Rightarrow> 0 \<le> n \<and> n mod 65536 \<noteq> int vm_node \<and> dx_effective_level ctx = Dedicated \<and>
          ip_mode policy = Enforce)"

lemma list_ex_filter: "list_ex P xs \<longleftrightarrow> filter P xs \<noteq> []"
  by (simp add: list_ex_iff filter_empty_conv)

lemma gpu_safety_display_owned:
  "is_display_controller m \<and> gpu_safety_class m = Some HostOwned \<longleftrightarrow> gpu_safety_class m = Some HostOwned"
  by (auto simp: gpu_safety_HostOwned)

lemmas rule_simps = list_ex_filter mixed_members_def host_gpu_shared_def gpu_safety_display_owned

interpretation iommu_rule: isolation_rule "iommu_group_findings vm pts" "\<lambda>g. mixed_members pts (snd g)"
  for vm pts
  by unfold_locales (simp add: iommu_group_findings_def Let_def rule_simps split: prod.split)

interpretation slot_rule: isolation_rule "slot_findings vm pts" "\<lambda>g. mixed_members pts (snd g)"
  for vm pts
  by unfold_locales (simp add: slot_findings_def Let_def rule_simps split: prod.split)

interpretation host_gpu_rule: isolation_rule "host_critical_findings vm pts" "\<lambda>g. host_gpu_shared pts (snd g)"
  for vm pts
  by unfold_locales (simp add: host_critical_findings_def Let_def rule_simps split: prod.split)

interpretation level_rule: isolation_rule "device_level_findings vm policy groups pts"
  "level_violated policy groups pts" for vm policy groups pts
  by unfold_locales
    (simp add: device_level_findings_def level_violated_def Let_def list_ex_filter
      split: isolation_level.split option.split)

interpretation numa_rule: isolation_rule "numa_findings vm policy node" "numa_violated policy node"
  for vm policy node
  by unfold_locales
    (simp add: numa_findings_def numa_violated_def Let_def
      split: isolation_level.split option.split isolation_mode.split)

subsection \<open>What the collectors return\<close>

definition kind_list :: "pci_device_config list option \<Rightarrow> pci_device_config list" where
  "kind_list c = (case c of None \<Rightarrow> [] | Some cfgs \<Rightarrow> cfgs)"

definition required_present :: "vm_config \<Rightarrow> pci_inventory \<Rightarrow> bool" where
  "required_present cfg pci =
     list_all (\<lambda>c. list_all (\<lambda>d. if pd_required d then find_by_bdf pci (pd_pci_address d) \<noteq> None else True)
       (kind_list c)) (device_kinds (vc_devices cfg))"

definition present_functions :: "pci_inventory \<Rightarrow> pci_device_config list \<Rightarrow> pci_function list" where
  "present_functions pci cfgs = List.map_filter (\<lambda>d. find_by_bdf pci (pd_pci_address d)) cfgs"

definition passthrough_set :: "vm_config \<Rightarrow> pci_inventory \<Rightarrow> string list" where
  "passthrough_set cfg pci =
     concat (map (\<lambda>c. map pf_bdf (present_functions pci (kind_list c))) (device_kinds (vc_devices cfg)))"

definition passthrough_contexts ::
  "isolation_policy_config \<Rightarrow> vm_config \<Rightarrow> pci_inventory \<Rightarrow> device_isolation_context list" where
  "passthrough_contexts policy cfg pci =
     concat (map (\<lambda>c. concat (map (device_context policy (kind_list c)) (present_functions pci (kind_list c))))
       (device_kinds (vc_devices cfg)))"

lemma resolve_configured_Nil [simp]: "resolve_configured pci [] = Inr []"
  by (simp add: resolve_configured_def)

lemma resolve_configured_ok:
  "is_ok (resolve_configured pci cfgs) \<longleftrightarrow>
     list_all (\<lambda>d. if pd_required d then find_by_bdf pci (pd_pci_address d) \<noteq> None else True) cfgs"
  by (simp add: resolve_configured_def invl.resolve_ok_iff list_all_iff)

lemma resolve_configured_value:
  "resolve_configured pci cfgs = Inr fs \<Longrightarrow> fs = present_functions pci cfgs"
  unfolding resolve_configured_def present_functions_def
  by (induction cfgs arbitrary: fs)
    (auto simp: map_filter_simps split: option.splits sum.splits if_splits)

lemma collect_kinds_ok: "is_ok (collect_kinds f cs) \<longleftrightarrow> list_all (\<lambda>c. is_ok (f c)) cs"
  by (induction cs) (auto split: sum.splits)

lemma collect_kinds_value:
  assumes "\<And>c xs. f c = Inr xs \<Longrightarrow> xs = g c" "collect_kinds f cs = Inr xs"
  shows "xs = concat (map g cs)"
  using assms(2)
proof (induction cs arbitrary: xs)
  case (Cons c cs)
  then show ?case using assms(1) by (auto split: sum.splits)
qed simp

lemma collect_passthrough_ok: "is_ok (collect_passthrough_bdfs cfg pci) \<longleftrightarrow> required_present cfg pci"
proof -
  have "is_ok (collect_devices_for_kind c pci) \<longleftrightarrow>
      list_all (\<lambda>d. if pd_required d then find_by_bdf pci (pd_pci_address d) \<noteq> None else True) (kind_list c)" for c
    by (auto simp: collect_devices_for_kind_def kind_list_def resolve_configured_ok [symmetric]
        split: option.split sum.split)
  then show ?thesis
    by (simp add: collect_passthrough_bdfs_def collect_kinds_ok required_present_def)
qed

lemma collect_passthrough_value:
  assumes "collect_passthrough_bdfs cfg pci = Inr bdfs"
  shows "bdfs = passthrough_set cfg pci"
  unfolding passthrough_set_def
  by (rule collect_kinds_value [OF _ assms [unfolded collect_passthrough_bdfs_def]])
    (auto simp: collect_devices_for_kind_def kind_list_def present_functions_def map_filter_simps
      dest!: resolve_configured_value split: option.splits if_splits sum.splits)

lemma collect_contexts_ok: "is_ok (collect_device_contexts policy cfg pci) \<longleftrightarrow> required_present cfg pci"
proof -
  have "is_ok (collect_device_contexts_for_kind c policy pci) \<longleftrightarrow>
      list_all (\<lambda>d. if pd_required d then find_by_bdf pci (pd_pci_address d) \<noteq> None else True) (kind_list c)" for c
    by (auto simp: collect_device_contexts_for_kind_def kind_list_def resolve_configured_ok [symmetric]
        split: option.split sum.split)
  then show ?thesis
    by (simp add: collect_device_contexts_def collect_kinds_ok required_present_def)
qed

lemma collect_contexts_value:
  assumes "collect_device_contexts policy cfg pci = Inr ctxs"
  shows "ctxs = passthrough_contexts policy cfg pci"
  unfolding passthrough_contexts_def
  by (rule collect_kinds_value [OF _ assms [unfolded collect_device_contexts_def]])
    (auto simp: collect_device_contexts_for_kind_def kind_list_def present_functions_def map_filter_simps
      dest!: resolve_configured_value split: option.splits if_splits sum.splits)

subsection \<open>The policy, stated on the functions of the inventory\<close>

text \<open>Functions with the same key are all passed through or all left to the host.\<close>

definition uniform_ownership ::
  "(pci_function \<Rightarrow> 'k option) \<Rightarrow> string list \<Rightarrow> pci_function list \<Rightarrow> bool" where
  "uniform_ownership key pts fs =
     list_all (\<lambda>f. list_all (\<lambda>g.
       if key f \<noteq> None \<and> key f = key g then (pf_bdf f \<in> set pts) = (pf_bdf g \<in> set pts) else True) fs) fs"

definition apart_from_host_gpus :: "string list \<Rightarrow> pci_function list \<Rightarrow> bool" where
  "apart_from_host_gpus pts fs =
     list_all (\<lambda>f. list_all (\<lambda>g.
       \<not> (pf_iommu_group f \<noteq> None \<and> pf_iommu_group f = pf_iommu_group g \<and>
          pf_bdf f \<in> set pts \<and> gpu_safety_class g = Some HostOwned)) fs) fs"

definition level_respected ::
  "isolation_policy_config \<Rightarrow> string list \<Rightarrow> pci_function list \<Rightarrow> device_isolation_context \<Rightarrow> bool" where
  "level_respected policy pts fs ctx =
     (case dx_effective_level ctx of
        Forbidden \<Rightarrow> False
      | SharedWithHost \<Rightarrow> True
      | Dedicated \<Rightarrow>
          if ip_require_iommu_exclusive policy then True
          else list_all (\<lambda>m. if pf_iommu_group m \<noteq> None \<and> pf_iommu_group m = pf_iommu_group (dx_func ctx)
                             then pf_bdf m \<in> set pts else True) fs)"

definition numa_respected :: "vm_config \<Rightarrow> device_isolation_context \<Rightarrow> bool" where
  "numa_respected cfg ctx =
     (case (Option.bind (vc_numa cfg) nc_node, pf_numa_node (dx_func ctx)) of
        (Some node, Some n) \<Rightarrow> dx_effective_level ctx \<noteq> Dedicated \<or> n < 0 \<or> n mod 65536 = int node
      | _ \<Rightarrow> True)"

lemma list_ex_group_by_key:
  "list_ex (\<lambda>g. P (snd g)) (group_by_key key fs) \<longleftrightarrow>
     (\<exists>k. P (filter (\<lambda>f. key f = Some k) fs) \<and> filter (\<lambda>f. key f = Some k) fs \<noteq> [])"
  by (auto simp: list_ex_iff in_group_by_key Bex_def)

lemma mixed_group_iff:
  "list_ex (\<lambda>g. mixed_members pts (snd g)) (group_by_key key fs) \<longleftrightarrow> \<not> uniform_ownership key pts fs"
proof -
  have "(\<exists>k. mixed_members pts (filter (\<lambda>f. key f = Some k) fs)) \<longleftrightarrow> \<not> uniform_ownership key pts fs"
    unfolding mixed_members_def uniform_ownership_def list_ex_iff list_all_iff by auto metis+
  then show ?thesis
    unfolding list_ex_group_by_key [of "mixed_members pts"] by (auto simp: mixed_members_def)
qed

lemma host_gpu_group_iff:
  "list_ex (\<lambda>g. host_gpu_shared pts (snd g)) (by_iommu_group pci) \<longleftrightarrow>
     \<not> apart_from_host_gpus pts (inv_functions pci)"
proof -
  have "(\<exists>k. host_gpu_shared pts (filter (\<lambda>f. pf_iommu_group f = Some k) (inv_functions pci))) \<longleftrightarrow>
      \<not> apart_from_host_gpus pts (inv_functions pci)"
    unfolding host_gpu_shared_def apart_from_host_gpus_def list_ex_iff list_all_iff by auto metis+
  then show ?thesis
    unfolding by_iommu_group_def list_ex_group_by_key [of "host_gpu_shared pts"]
    by (auto simp: host_gpu_shared_def)
qed

lemma level_violated_iff:
  "level_violated policy (by_iommu_group pci) pts ctx \<longleftrightarrow>
     \<not> level_respected policy pts (inv_functions pci) ctx"
  by (auto simp: level_violated_def level_respected_def by_iommu_group_def map_of_group_by_key Let_def
      list_ex_iff list_all_iff filter_empty_conv split: isolation_level.splits option.splits)

definition policy_respected :: "vm_config \<Rightarrow> pci_inventory \<Rightarrow> bool" where
  "policy_respected cfg pci =
     (let policy = vc_isolation cfg; fs = inv_functions pci;
          pts = passthrough_set cfg pci; ctxs = passthrough_contexts policy cfg pci
      in (if ip_require_iommu_exclusive policy then uniform_ownership pf_iommu_group pts fs else True) \<and>
         (if ip_require_multifunction_consistency policy
          then uniform_ownership (\<lambda>f. parse_slot_key (pf_bdf f)) pts fs else True) \<and>
         (if ip_forbid_host_critical_in_group policy then apart_from_host_gpus pts fs else True) \<and>
         list_all (level_respected policy pts fs) ctxs \<and>
         list_all (numa_respected cfg) ctxs)"

lemma numa_violated_iff:
  assumes "ip_mode (vc_isolation cfg) = Enforce"
  shows "list_ex is_violation (evaluate_numa_placement vm (vc_isolation cfg) cfg ctxs) \<longleftrightarrow>
    \<not> list_all (numa_respected cfg) ctxs"
proof (cases "Option.bind (vc_numa cfg) nc_node")
  case None
  then show ?thesis by (simp add: evaluate_numa_placement_def numa_respected_def list_all_iff)
next
  case (Some node)
  have "numa_violated (vc_isolation cfg) node ctx \<longleftrightarrow> \<not> numa_respected cfg ctx" for ctx
    using assms Some by (auto simp: numa_violated_def numa_respected_def split: option.splits)
  then have "list_ex (numa_violated (vc_isolation cfg) node) ctxs \<longleftrightarrow> \<not> list_all (numa_respected cfg) ctxs"
    by (auto simp: list_ex_iff list_all_iff)
  with Some show ?thesis
    using numa_rule.report_violates [of vm "vc_isolation cfg" node ctxs]
    by (cases "ctxs = []") (simp_all add: evaluate_numa_placement_def)
qed

lemma level_report_iff:
  "list_ex is_violation (evaluate_per_device_isolation_levels vm policy pci ctxs pts) \<longleftrightarrow>
    \<not> list_all (level_respected policy pts (inv_functions pci)) ctxs"
  using level_rule.report_violates [of vm policy "by_iommu_group pci" pts ctxs]
  by (cases "ctxs = []")
    (auto simp: evaluate_per_device_isolation_levels_def level_violated_iff list_ex_iff list_all_iff)

lemma findings_iff:
  assumes "ip_mode (vc_isolation cfg) = Enforce"
  shows "list_ex is_violation (isolation_findings vm cfg pci (passthrough_set cfg pci)
      (passthrough_contexts (vc_isolation cfg) cfg pci)) \<longleftrightarrow> \<not> policy_respected cfg pci"
proof -
  let ?pts = "passthrough_set cfg pci" and ?ctxs = "passthrough_contexts (vc_isolation cfg) cfg pci"
  have iommu: "list_ex is_violation (evaluate_iommu_exclusivity vm pci ?pts) \<longleftrightarrow>
      \<not> uniform_ownership pf_iommu_group ?pts (inv_functions pci)"
    by (simp add: evaluate_iommu_exclusivity_def iommu_rule.report_violates by_iommu_group_def mixed_group_iff)
  have slots: "list_ex is_violation (evaluate_multifunction_consistency vm pci ?pts) \<longleftrightarrow>
      \<not> uniform_ownership (\<lambda>f. parse_slot_key (pf_bdf f)) ?pts (inv_functions pci)"
    by (simp add: evaluate_multifunction_consistency_def slot_rule.report_violates mixed_group_iff)
  have host: "list_ex is_violation (evaluate_host_critical_sharing vm pci ?pts) \<longleftrightarrow>
      \<not> apart_from_host_gpus ?pts (inv_functions pci)"
    by (simp add: evaluate_host_critical_sharing_def host_gpu_rule.report_violates host_gpu_group_iff)
  show ?thesis
    unfolding isolation_findings_def policy_respected_def Let_def list_ex_append
    using iommu slots host level_report_iff numa_violated_iff [OF assms]
    by auto
qed

lemma evaluate_isolation_cases:
  "is_ok (evaluate_isolation_for_vm vm cfg pci) \<longleftrightarrow>
     (case ip_mode (vc_isolation cfg) of
        Disabled \<Rightarrow> True
      | Audit \<Rightarrow> required_present cfg pci
      | Enforce \<Rightarrow> required_present cfg pci \<and> policy_respected cfg pci)"
proof (cases "collect_passthrough_bdfs cfg pci")
  case (Inl e)
  then have "\<not> required_present cfg pci" using collect_passthrough_ok [of cfg pci] by simp
  with Inl show ?thesis
    by (auto simp: evaluate_isolation_for_vm_def Let_def split: isolation_mode.split)
next
  case (Inr pts)
  then have req: "required_present cfg pci" using collect_passthrough_ok [of cfg pci] by simp
  then obtain ctxs where ctxs: "collect_device_contexts (vc_isolation cfg) cfg pci = Inr ctxs"
    using collect_contexts_ok [of "vc_isolation cfg" cfg pci] by (auto simp: is_ok_iff)
  note vals = collect_passthrough_value [OF Inr] collect_contexts_value [OF ctxs]
  show ?thesis
  proof (cases "ip_mode (vc_isolation cfg)")
    case Enforce
    then show ?thesis
      using findings_iff [OF Enforce, of vm pci]
      by (simp add: evaluate_isolation_for_vm_def Let_def Inr ctxs vals req has_violations_def)
  qed (simp_all add: evaluate_isolation_for_vm_def Let_def Inr ctxs req)
qed

lemma present_functions_mem: "f \<in> set (present_functions pci cfgs) \<Longrightarrow> f \<in> set (inv_functions pci)"
  by (auto simp: present_functions_def map_filter_def find_by_bdf_mem)

lemma device_context_func: "ctx \<in> set (device_context policy cfgs f) \<Longrightarrow> dx_func ctx = f"
  by (auto simp: device_context_def split: option.splits)

lemma passthrough_context_func:
  assumes "ctx \<in> set (passthrough_contexts policy cfg pci)"
  shows "pf_bdf (dx_func ctx) \<in> set (passthrough_set cfg pci)" "dx_func ctx \<in> set (inv_functions pci)"
proof -
  from assms obtain c f where c: "c \<in> set (device_kinds (vc_devices cfg))"
    "f \<in> set (present_functions pci (kind_list c))" "ctx \<in> set (device_context policy (kind_list c) f)"
    unfolding passthrough_contexts_def by auto
  then have "dx_func ctx = f" by (simp add: device_context_func)
  then show "dx_func ctx \<in> set (inv_functions pci)" using c present_functions_mem by simp
  show "pf_bdf (dx_func ctx) \<in> set (passthrough_set cfg pci)"
    unfolding passthrough_set_def \<open>dx_func ctx = f\<close> set_concat set_map image_image
    using c(1,2) by blast
qed

lemma uniform_ownershipD:
  assumes "uniform_ownership key pts fs" "f \<in> set fs" "g \<in> set fs" "key f = Some y" "key g = Some y"
  shows "pf_bdf f \<in> set pts \<longleftrightarrow> pf_bdf g \<in> set pts"
proof -
  have "if key f \<noteq> None \<and> key f = key g then (pf_bdf f \<in> set pts) = (pf_bdf g \<in> set pts) else True"
    using assms(1-3) unfolding uniform_ownership_def list_all_iff by blast
  then show ?thesis using assms(4,5) by simp
qed

lemma respected_context:
  assumes P: "policy_respected cfg pci" and c: "ctx \<in> set (passthrough_contexts (vc_isolation cfg) cfg pci)"
  shows "dx_effective_level ctx \<noteq> Forbidden"
    and "\<lbrakk>dx_effective_level ctx = Dedicated; m \<in> set (inv_functions pci); pf_iommu_group m = Some y;
      pf_iommu_group (dx_func ctx) = Some y\<rbrakk> \<Longrightarrow> pf_bdf m \<in> set (passthrough_set cfg pci)"
proof -
  let ?pts = "passthrough_set cfg pci" and ?fs = "inv_functions pci"
  have lv: "level_respected (vc_isolation cfg) ?pts ?fs ctx"
    using P c by (simp add: policy_respected_def Let_def list_all_iff)
  then show "dx_effective_level ctx \<noteq> Forbidden" by (auto simp: level_respected_def)
  assume m: "dx_effective_level ctx = Dedicated" "m \<in> set ?fs" "pf_iommu_group m = Some y"
    "pf_iommu_group (dx_func ctx) = Some y"
  show "pf_bdf m \<in> set ?pts"
  proof (cases "ip_require_iommu_exclusive (vc_isolation cfg)")
    case True
    then have "uniform_ownership pf_iommu_group ?pts ?fs"
      using P by (simp add: policy_respected_def Let_def)
    then have "pf_bdf m \<in> set ?pts \<longleftrightarrow> pf_bdf (dx_func ctx) \<in> set ?pts"
      using m passthrough_context_func [OF c] by (intro uniform_ownershipD [of pf_iommu_group])
    then show ?thesis using passthrough_context_func [OF c] by simp
  next
    case False
    then show ?thesis using lv m by (simp add: level_respected_def list_all_iff)
  qed
qed

lemma parse_slot_key_eq: "parse_slot_key = parse_bdf_slot"
  by (intro ext) (simp add: parse_slot_key_def parse_bdf_slot_def)

subsection \<open>Properties of the policy\<close>

text \<open>
  C1. Staging is let through exactly in these cases: always when the mode is \<open>Disabled\<close>; when
  every required device is present when it is \<open>Audit\<close>; and in \<open>Enforce\<close> when moreover the
  policy holds of the inventory, that is, under each flag that is set: no IOMMU group and no slot
  mixes passed-through functions with others, no passed-through function shares its group with a
  GPU the host drives, and for each device its level and its NUMA node are respected.
\<close>

theorem isolation_verdict:
  "is_ok (evaluate_isolation_for_vm vm cfg pci) =
     (case ip_mode (vc_isolation cfg) of
        Disabled \<Rightarrow> True
      | Audit \<Rightarrow> required_present cfg pci
      | Enforce \<Rightarrow> required_present cfg pci \<and> policy_respected cfg pci)"
  by (rule evaluate_isolation_cases)

text \<open>
  C17. In \<open>Enforce\<close> mode a device whose effective level is \<open>Dedicated\<close> never shares its IOMMU
  group with a function left to the host once staging is let through, whether the group check of
  the whole VM is switched on or off.
\<close>

theorem enforce_dedicated_exclusive:
  "case evaluate_isolation_for_vm vm cfg pci of
     Inl e \<Rightarrow> True
   | Inr _ \<Rightarrow>
       (if ip_mode (vc_isolation cfg) = Enforce then
          list_all (\<lambda>ctx. if dx_effective_level ctx = Dedicated then
              list_all (\<lambda>m. if pf_iommu_group m \<noteq> None \<and> pf_iommu_group m = pf_iommu_group (dx_func ctx)
                            then pf_bdf m \<in> set (passthrough_set cfg pci) else True) (inv_functions pci)
            else dx_effective_level ctx \<noteq> Forbidden)
            (passthrough_contexts (vc_isolation cfg) cfg pci)
        else True)"
proof (cases "evaluate_isolation_for_vm vm cfg pci")
  case (Inr u)
  have pol: "policy_respected cfg pci" if "ip_mode (vc_isolation cfg) = Enforce"
    using evaluate_isolation_cases [of vm cfg pci] that Inr by simp
  then show ?thesis
    using Inr respected_context(1) [OF pol] respected_context(2) [OF pol]
    by (auto simp: list_all_iff dest!: sym [of "Some _"])
qed simp

end
