(* ===== verification/Chalybs_Vfio.thy ===== *)
theory Chalybs_Vfio
  imports Chalybs_GpuPolicy Chalybs_Isolation "HOL-Library.Multiset"
begin

text \<open>
  VFIO staging and restoring, from \<^verbatim>\<open>core/src/vfio/{plan,execute,verify,mod}.rs\<close>: the plan of
  unbind and bind actions, its execution with the transitions it records, the verification against
  a fresh scan, the whole staging step, and the restore of the recorded drivers (live and dry).
\<close>

subsection \<open>The plan\<close>

datatype vfio_action_kind = UnbindFromCurrentDriver | BindToVfio

record vfio_action =
  va_bdf :: string
  va_kind :: vfio_action_kind
  va_reason :: string

record vfio_plan =
  vp_vm_name :: string
  vp_actions :: "vfio_action list"

text \<open>The two vectors the plan is collected in: unbinds and binds.\<close>

type_synonym action_lists = "vfio_action list \<times> vfio_action list"

definition action_append :: "action_lists \<Rightarrow> action_lists \<Rightarrow> action_lists" where
  "action_append a b = (fst a @ fst b, snd a @ snd b)"

definition append_actions_for_function :: "string \<Rightarrow> string \<Rightarrow> pci_function \<Rightarrow> action_lists" where
  "append_actions_for_function vm_name kind_label func =
     ((case pf_driver func of
         Some d \<Rightarrow>
           if d \<noteq> ''vfio-pci'' then
             [\<lparr>va_bdf = pf_bdf func, va_kind = UnbindFromCurrentDriver,
               va_reason = kind_label @ '' '' @ pf_bdf func @ '': unbinding from current driver '' @
                 backquoted d @ '' before binding to vfio-pci for VM '' @ vm_name\<rparr>]
           else []
       | None \<Rightarrow> []),
      [\<lparr>va_bdf = pf_bdf func, va_kind = BindToVfio,
        va_reason = kind_label @ '' device bound to vfio-pci for VM '' @ vm_name\<rparr>])"

definition gpu_function_actions ::
  "string \<Rightarrow> pci_inventory \<Rightarrow> (string \<Rightarrow> gpu_unbind_assessment option) \<Rightarrow> pci_function \<Rightarrow> action_lists result" where
  "gpu_function_actions vm_name pci by_bdf func =
     (let bdf = pf_bdf func
      in if is_display_controller func then
           (case by_bdf bdf of
              None \<Rightarrow> Inl (Vfio (''VM '' @ vm_name @ '': no GPU unbind assessment available for '' @ bdf))
            | Some assessment \<Rightarrow>
                (case ga_feasibility assessment of
                   Safe \<Rightarrow> Inr (append_actions_for_function vm_name ''GPU'' func)
                 | Risky msg \<Rightarrow>
                     Inl (Vfio (''VM '' @ vm_name @ '': GPU '' @ bdf @ '' is classified as RISKY to unbind: '' @ msg))
                 | Unsafe msg \<Rightarrow>
                     Inl (Vfio (''VM '' @ vm_name @ '': GPU '' @ bdf @ '' is classified as UNSAFE to unbind: '' @ msg))))
         else if is_bdf_in_gpu_complex pci bdf then Inr (append_actions_for_function vm_name ''GPU'' func)
         else
           Inl (Vfio (''VM '' @ vm_name @ '': device '' @ bdf @
             '' is listed under devices.gpu but PCI class base is not 0x03 (display controller) and it does not share a PCI slot with a display controller'')))"

fun gpu_functions_actions ::
  "string \<Rightarrow> pci_inventory \<Rightarrow> (string \<Rightarrow> gpu_unbind_assessment option) \<Rightarrow> pci_function list \<Rightarrow> action_lists result" where
  "gpu_functions_actions vm_name pci by_bdf [] = Inr ([], [])"
| "gpu_functions_actions vm_name pci by_bdf (f # fs) =
     (case gpu_function_actions vm_name pci by_bdf f of
        Inl e \<Rightarrow> Inl e
      | Inr a \<Rightarrow>
          (case gpu_functions_actions vm_name pci by_bdf fs of
             Inl e \<Rightarrow> Inl e | Inr b \<Rightarrow> Inr (action_append a b)))"

definition build_gpu_actions :: "string \<Rightarrow> vm_config \<Rightarrow> pci_inventory \<Rightarrow> action_lists result" where
  "build_gpu_actions vm_name cfg pci =
     (case dv_gpu (vc_devices cfg) of
        None \<Rightarrow> Inr ([], [])
      | Some gpu_cfgs \<Rightarrow>
          if gpu_cfgs = [] then Inr ([], [])
          else case resolve_configured pci gpu_cfgs of
              Inl e \<Rightarrow> Inl e
            | Inr gpu_funcs \<Rightarrow>
                gpu_functions_actions vm_name pci
                  (assessment_by_bdf (assess_gpu_unbind_safety pci)) gpu_funcs)"

definition stage_device_list ::
  "string \<Rightarrow> string \<Rightarrow> pci_device_config list option \<Rightarrow> pci_inventory \<Rightarrow> action_lists result" where
  "stage_device_list vm_name kind_label cfgs_opt pci =
     (case cfgs_opt of
        None \<Rightarrow> Inr ([], [])
      | Some cfgs \<Rightarrow>
          if cfgs = [] then Inr ([], [])
          else case find (\<lambda>d. pd_level d = Some Forbidden) cfgs of
              Some d \<Rightarrow>
                Inl (Vfio (''VM '' @ vm_name @ '': device '' @ pd_pci_address d @ '' is forbidden for passthrough by policy''))
            | None \<Rightarrow>
                (case resolve_configured pci cfgs of
                   Inl e \<Rightarrow> Inl e
                 | Inr funcs \<Rightarrow>
                     Inr (foldr action_append (map (append_actions_for_function vm_name kind_label) funcs) ([], []))))"

definition build_non_gpu_actions :: "string \<Rightarrow> vm_config \<Rightarrow> pci_inventory \<Rightarrow> action_lists result" where
  "build_non_gpu_actions vm_name cfg pci =
     (case stage_device_list vm_name ''NVMe'' (dv_nvme (vc_devices cfg)) pci of
        Inl e \<Rightarrow> Inl e
      | Inr a \<Rightarrow>
          (case stage_device_list vm_name ''NIC'' (dv_nic (vc_devices cfg)) pci of
             Inl e \<Rightarrow> Inl e
           | Inr b \<Rightarrow>
               (case stage_device_list vm_name ''USB'' (dv_usb (vc_devices cfg)) pci of
                  Inl e \<Rightarrow> Inl e
                | Inr c \<Rightarrow> Inr (action_append a (action_append b c)))))"

definition build_plan_for_vm :: "string \<Rightarrow> vm_config \<Rightarrow> pci_inventory \<Rightarrow> vfio_plan result" where
  "build_plan_for_vm vm_name cfg pci =
     (case build_gpu_actions vm_name cfg pci of
        Inl e \<Rightarrow> Inl e
      | Inr g \<Rightarrow>
          (case build_non_gpu_actions vm_name cfg pci of
             Inl e \<Rightarrow> Inl e
           | Inr n \<Rightarrow>
               (let lists = action_append g n
                in Inr \<lparr>vp_vm_name = vm_name, vp_actions = fst lists @ snd lists\<rparr>)))"

subsection \<open>Execution\<close>

text \<open>The transitions vector and the outside world are the state.\<close>

definition execute_action ::
  "os \<Rightarrow> pci_inventory \<Rightarrow> vfio_action \<Rightarrow> (vfio_transition list \<times> trace, unit result) act" where
  "execute_action os pci action =
     (case find_by_bdf pci (va_bdf action) of
        None \<Rightarrow> errR (Vfio (''VFIO plan references unknown PCI device '' @ va_bdf action))
      | Some func \<Rightarrow>
          (case va_kind action of
             UnbindFromCurrentDriver \<Rightarrow> onOs (unbind_current_driver os func)
           | BindToVfio \<Rightarrow>
               andThen
                 (if pf_driver func \<noteq> Some ''vfio-pci'' then
                    modify (\<lambda>ts. ts @ [\<lparr>vt_bdf = va_bdf action, vt_from_driver = pf_driver func,
                                        vt_iommu_group = pf_iommu_group func\<rparr>])
                  else ret ())
                 (\<lambda>_. onOs (bind_to_vfio_pci os func))))"

definition execute_plan ::
  "os \<Rightarrow> vfio_plan \<Rightarrow> pci_inventory \<Rightarrow> (vfio_transition list \<times> trace, unit result) act" where
  "execute_plan os plan pci = eachR (vp_actions plan) (execute_action os pci)"

subsection \<open>Verification\<close>

datatype device_kind = KindGpu | KindGeneric

definition verify_single_device ::
  "string \<Rightarrow> string \<Rightarrow> device_kind option \<Rightarrow> pci_inventory \<Rightarrow> pci_function \<Rightarrow> unit result" where
  "verify_single_device vm_name kind_label kind pci func =
     (let bdf = pf_bdf func
      in if kind = Some KindGpu \<and> \<not> is_display_controller func \<and> \<not> is_bdf_in_gpu_complex pci bdf then
           Inl (Vfio (''VM '' @ vm_name @ '': device '' @ bdf @
             '' configured as GPU, but PCI class base is not 0x03 (display controller)''))
         else case pf_driver func of
             Some d \<Rightarrow>
               if d = ''vfio-pci'' then Inr ()
               else
                 Inl (Vfio (''VM '' @ vm_name @ '': '' @ kind_label @ '' device '' @ bdf @ '' is bound to '' @
                   backquoted d @ '', expected '' @ backquoted ''vfio-pci'' @ '' after VFIO staging''))
           | None \<Rightarrow>
               Inl (Vfio (''VM '' @ vm_name @ '': '' @ kind_label @ '' device '' @ bdf @
                 '' has no bound driver, expected '' @ backquoted ''vfio-pci'' @ '' after VFIO staging'')))"

fun verify_devices ::
  "string \<Rightarrow> string \<Rightarrow> device_kind option \<Rightarrow> pci_inventory \<Rightarrow> pci_function list \<Rightarrow> unit result" where
  "verify_devices vm_name kind_label kind pci [] = Inr ()"
| "verify_devices vm_name kind_label kind pci (f # fs) =
     (case verify_single_device vm_name kind_label kind pci f of
        Inl e \<Rightarrow> Inl e | Inr _ \<Rightarrow> verify_devices vm_name kind_label kind pci fs)"

definition verify_device_list ::
  "string \<Rightarrow> string \<Rightarrow> pci_device_config list option \<Rightarrow> pci_inventory \<Rightarrow> device_kind option \<Rightarrow> unit result" where
  "verify_device_list vm_name kind_label cfgs_opt pci kind =
     (case cfgs_opt of
        None \<Rightarrow> Inr ()
      | Some cfgs \<Rightarrow>
          if cfgs = [] then Inr ()
          else case resolve_configured pci cfgs of
              Inl e \<Rightarrow> Inl e | Inr funcs \<Rightarrow> verify_devices vm_name kind_label kind pci funcs)"

definition verify_with_inventory :: "string \<Rightarrow> vm_config \<Rightarrow> pci_inventory \<Rightarrow> unit result" where
  "verify_with_inventory vm_name cfg pci =
     (case verify_device_list vm_name ''GPU'' (dv_gpu (vc_devices cfg)) pci (Some KindGpu) of
        Inl e \<Rightarrow> Inl e
      | Inr _ \<Rightarrow>
      (case verify_device_list vm_name ''NVMe'' (dv_nvme (vc_devices cfg)) pci (Some KindGeneric) of
        Inl e \<Rightarrow> Inl e
      | Inr _ \<Rightarrow>
      (case verify_device_list vm_name ''NIC'' (dv_nic (vc_devices cfg)) pci (Some KindGeneric) of
        Inl e \<Rightarrow> Inl e
      | Inr _ \<Rightarrow>
          verify_device_list vm_name ''USB'' (dv_usb (vc_devices cfg)) pci (Some KindGeneric))))"

definition verify_vm_vfio_bindings :: "os \<Rightarrow> string \<Rightarrow> vm_config \<Rightarrow> unit result io" where
  "verify_vm_vfio_bindings os vm_name cfg =
     bindR (scan os) (\<lambda>pci.
       case verify_with_inventory vm_name cfg pci of Inl e \<Rightarrow> errR e | Inr _ \<Rightarrow> okR ())"

subsection \<open>Staging\<close>

text \<open>Running the transition recorder on the runtime's field.\<close>

definition onTransitions :: "(vfio_transition list \<times> trace, 'a) act \<Rightarrow> 'a rt_act" where
  "onTransitions m =
     (\<lambda>(rt, t). case m (rt_vfio_transitions rt, t) of (x, (ts, t')) \<Rightarrow> (x, (rt\<lparr>rt_vfio_transitions := ts\<rparr>, t')))"

definition stage_pci_devices_for_vm :: "os \<Rightarrow> unit result rt_act" where
  "stage_pci_devices_for_vm os =
     andThen peek (\<lambda>rt.
     bindR (onOs (scan os)) (\<lambda>pci.
       case evaluate_isolation_for_vm (rt_name rt) (rt_cfg rt) pci of
         Inl e \<Rightarrow> errR e
       | Inr _ \<Rightarrow>
           (case build_plan_for_vm (rt_name rt) (rt_cfg rt) pci of
              Inl e \<Rightarrow> errR e
            | Inr plan \<Rightarrow>
                bindR (onTransitions (execute_plan os plan pci)) (\<lambda>_.
                  onOs (verify_vm_vfio_bindings os (rt_name rt) (rt_cfg rt))))))"

subsection \<open>Restoring\<close>

datatype restore_mode = Live | DryRun

datatype restore_result_kind =
    RestoreSucceeded
  | DryRunPlanned
  | SkippedOriginallyUnbound
  | SkippedOriginallyVfio
  | SkippedDeviceMissing
  | RestoreFailed

record restore_outcome =
  ro_bdf :: string
  ro_original_driver :: "string option"
  ro_target_driver :: "string option"
  ro_iommu_group :: "nat option"
  ro_result :: restore_result_kind
  ro_reason :: "string option"

record restore_summary =
  rs_vm_name :: string
  rs_mode :: restore_mode
  rs_outcomes :: "restore_outcome list"

definition restored_count :: "restore_summary \<Rightarrow> nat" where
  "restored_count s = length (filter (\<lambda>r. ro_result r = RestoreSucceeded) (rs_outcomes s))"

definition failed_count :: "restore_summary \<Rightarrow> nat" where
  "failed_count s = length (filter (\<lambda>r. ro_result r = RestoreFailed) (rs_outcomes s))"

text \<open>One round of the loop of \<^verbatim>\<open>restore_group\<close>; the vendor-reset hooks only log.\<close>

definition restore_one ::
  "os \<Rightarrow> restore_mode \<Rightarrow> vfio_transition \<times> pci_function \<Rightarrow> restore_outcome list io" where
  "restore_one os mode item =
     (case item of (t, func) \<Rightarrow>
       (let original_driver_opt =
              (case vt_from_driver t of None \<Rightarrow> None | Some s \<Rightarrow> if trim s = [] then None else Some (trim s));
            iommu_group = (case vt_iommu_group t of None \<Rightarrow> pf_iommu_group func | Some g \<Rightarrow> Some g)
        in case original_driver_opt of
             None \<Rightarrow>
               ret [\<lparr>ro_bdf = vt_bdf t, ro_original_driver = None, ro_target_driver = None,
                     ro_iommu_group = iommu_group, ro_result = SkippedOriginallyUnbound,
                     ro_reason = Some ''original driver was None; leaving device unbound''\<rparr>]
           | Some original_driver \<Rightarrow>
               (let outcome = (\<lambda>res why.
                      [\<lparr>ro_bdf = vt_bdf t, ro_original_driver = Some original_driver,
                        ro_target_driver = Some original_driver, ro_iommu_group = iommu_group,
                        ro_result = res, ro_reason = why\<rparr>])
                in if original_driver = ''vfio-pci'' then
                     ret (outcome SkippedOriginallyVfio
                       (Some ''device was originally bound to vfio-pci; no restore needed''))
                   else case mode of
                       DryRun \<Rightarrow> ret (outcome DryRunPlanned (Some ''dry-run: no sysfs writes performed''))
                     | Live \<Rightarrow>
                         andThen (bind_to_driver os func original_driver) (\<lambda>res.
                           case res of
                             Inr _ \<Rightarrow> ret (outcome RestoreSucceeded None)
                           | Inl e \<Rightarrow>
                               ret (outcome RestoreFailed
                                 (Some (''failed to restore driver: '' @ show_error e)))))))"

definition restore_group ::
  "os \<Rightarrow> restore_mode \<Rightarrow> (vfio_transition \<times> pci_function) list \<Rightarrow> restore_outcome list io" where
  "restore_group os mode items = gatherA items (restore_one os mode)"

datatype restore_class = RGpu | RNvme | RNic | RUsb | RMisc

definition restore_class_of :: "pci_function \<Rightarrow> restore_class" where
  "restore_class_of func =
     (if is_display_controller func then RGpu
      else if is_nvme func then RNvme
      else if is_network_controller func then RNic
      else if is_usb_controller func then RUsb
      else RMisc)"

text \<open>The transitions whose device is found, and those whose device is missing, in order.\<close>

definition found_items :: "pci_inventory \<Rightarrow> vfio_transition list \<Rightarrow> (vfio_transition \<times> pci_function) list" where
  "found_items pci ts = List.map_filter (\<lambda>t. map_option (\<lambda>f. (t, f)) (find_by_bdf pci (vt_bdf t))) ts"

definition missing_items :: "pci_inventory \<Rightarrow> vfio_transition list \<Rightarrow> vfio_transition list" where
  "missing_items pci ts = filter (\<lambda>t. find_by_bdf pci (vt_bdf t) = None) ts"

definition class_items ::
  "restore_class \<Rightarrow> (vfio_transition \<times> pci_function) list \<Rightarrow> (vfio_transition \<times> pci_function) list" where
  "class_items c items = filter (\<lambda>(t, f). restore_class_of f = c) items"

definition missing_outcome :: "vfio_transition \<Rightarrow> restore_outcome" where
  "missing_outcome t =
     \<lparr>ro_bdf = vt_bdf t, ro_original_driver = vt_from_driver t, ro_target_driver = vt_from_driver t,
      ro_iommu_group = vt_iommu_group t, ro_result = SkippedDeviceMissing,
      ro_reason = Some ''device from VFIO transition not found in inventory at restore time''\<rparr>"

definition restore_impl :: "os \<Rightarrow> vm_runtime \<Rightarrow> restore_mode \<Rightarrow> restore_summary result io" where
  "restore_impl os rt mode =
     (let summary = (\<lambda>outs. \<lparr>rs_vm_name = rt_name rt, rs_mode = mode, rs_outcomes = outs\<rparr>)
      in if rt_vfio_transitions rt = [] then okR (summary [])
         else
           andThen (scan os) (\<lambda>r.
             case r of
               Inl e \<Rightarrow> okR (summary [])
             | Inr pci \<Rightarrow>
                 (let items = found_items pci (rt_vfio_transitions rt);
                      miss = map missing_outcome (missing_items pci (rt_vfio_transitions rt))
                  in andThen (restore_group os mode (class_items RGpu items)) (\<lambda>gpu.
                     andThen (restore_group os mode (class_items RNvme items)) (\<lambda>nvme.
                     andThen (restore_group os mode (class_items RNic items)) (\<lambda>nic.
                     andThen (restore_group os mode (class_items RUsb items)) (\<lambda>usb.
                     andThen (restore_group os mode (class_items RMisc items)) (\<lambda>misc.
                     andThen (if mode = Live then rescan_pci_bus os else okR ()) (\<lambda>_.
                       okR (summary (miss @ gpu @ nvme @ nic @ usb @ misc)))))))))))"

definition simulate_restore_pci_devices_for_vm :: "os \<Rightarrow> vm_runtime \<Rightarrow> restore_summary result io" where
  "simulate_restore_pci_devices_for_vm os rt = restore_impl os rt DryRun"

definition restore_pci_devices_for_vm :: "os \<Rightarrow> vm_runtime \<Rightarrow> unit result io" where
  "restore_pci_devices_for_vm os rt = bindR (restore_impl os rt Live) (\<lambda>summary. okR ())"

subsection \<open>What a plan holds\<close>

definition needs_unbind :: "pci_function \<Rightarrow> bool" where
  "needs_unbind f \<longleftrightarrow> pf_driver f \<noteq> None \<and> pf_driver f \<noteq> Some ''vfio-pci''"

definition action_key :: "vfio_action \<Rightarrow> vfio_action_kind \<times> string" where
  "action_key a = (va_kind a, va_bdf a)"

definition planned_unbinds :: "pci_function list \<Rightarrow> (vfio_action_kind \<times> string) list" where
  "planned_unbinds fs = map (\<lambda>f. (UnbindFromCurrentDriver, pf_bdf f)) (filter needs_unbind fs)"

definition planned_binds :: "pci_function list \<Rightarrow> (vfio_action_kind \<times> string) list" where
  "planned_binds fs = map (\<lambda>f. (BindToVfio, pf_bdf f)) fs"

definition list_keys :: "action_lists \<Rightarrow> (vfio_action_kind \<times> string) list \<times> (vfio_action_kind \<times> string) list" where
  "list_keys a = (map action_key (fst a), map action_key (snd a))"

definition planned :: "pci_function list \<Rightarrow> (vfio_action_kind \<times> string) list \<times> (vfio_action_kind \<times> string) list" where
  "planned fs = (planned_unbinds fs, planned_binds fs)"

text \<open>The functions a VM's configuration names, in the order the code stages them.\<close>

definition configured_functions :: "vm_config \<Rightarrow> pci_inventory \<Rightarrow> pci_function list" where
  "configured_functions cfg pci =
     concat (map (\<lambda>c. present_functions pci (kind_list c)) (device_kinds (vc_devices cfg)))"

lemmas planned_defs = planned_def planned_unbinds_def planned_binds_def

lemma list_keys_append: "list_keys (action_append a b) =
    (fst (list_keys a) @ fst (list_keys b), snd (list_keys a) @ snd (list_keys b))"
  by (simp add: list_keys_def action_append_def)

lemma planned_append: "planned (fs @ gs) = (fst (planned fs) @ fst (planned gs), snd (planned fs) @ snd (planned gs))"
  by (simp add: planned_def planned_unbinds_def planned_binds_def)

lemma planned_Nil [simp]: "planned [] = ([], [])" "list_keys ([], []) = ([], [])"
  by (simp_all add: planned_def planned_unbinds_def planned_binds_def list_keys_def)

lemma list_keys_function: "list_keys (append_actions_for_function vm k f) = planned [f]"
  by (auto simp: append_actions_for_function_def list_keys_def planned_def planned_unbinds_def
      planned_binds_def needs_unbind_def action_key_def split: option.split)

lemma planned_Cons: "planned (f # fs) = (fst (planned [f]) @ fst (planned fs), snd (planned [f]) @ snd (planned fs))"
  using planned_append [of "[f]" fs] by simp

lemma gpu_function_actions_value:
  "gpu_function_actions vm pci by f = Inr a \<Longrightarrow> list_keys a = planned [f]"
  unfolding gpu_function_actions_def Let_def
  by (simp add: list_keys_function split: if_split_asm option.split_asm gpu_unbind_feasibility.split_asm)
     (metis list_keys_function)+

lemma gpu_functions_actions_value:
  "gpu_functions_actions vm pci by fs = Inr a \<Longrightarrow> list_keys a = planned fs"
proof (induction fs arbitrary: a)
  case (Cons f fs)
  then show ?case
    by (auto simp: list_keys_append planned_Cons [of f fs] gpu_function_actions_value split: sum.splits)
qed simp

lemma stage_list_value:
  "stage_device_list vm k c pci = Inr a \<Longrightarrow> list_keys a = planned (present_functions pci (kind_list c))"
proof -
  have fold: "list_keys (foldr action_append (map (append_actions_for_function vm k) fs) ([], [])) = planned fs" for fs
    by (induction fs) (simp_all add: list_keys_append list_keys_function planned_defs)
  show "stage_device_list vm k c pci = Inr a \<Longrightarrow> ?thesis"
    by (auto simp: stage_device_list_def kind_list_def present_functions_def map_filter_simps fold
        dest!: resolve_configured_value split: option.splits if_splits sum.splits)
qed

lemma build_gpu_value:
  "build_gpu_actions vm cfg pci = Inr a \<Longrightarrow>
   list_keys a = planned (present_functions pci (kind_list (dv_gpu (vc_devices cfg))))"
  by (auto simp: build_gpu_actions_def kind_list_def present_functions_def map_filter_simps
      dest!: resolve_configured_value gpu_functions_actions_value split: option.splits if_splits sum.splits)

lemma build_plan_value:
  assumes "build_plan_for_vm vm cfg pci = Inr plan"
  shows "map action_key (vp_actions plan) =
    planned_unbinds (configured_functions cfg pci) @ planned_binds (configured_functions cfg pci)"
proof -
  from assms obtain g a b c where
    parts: "build_gpu_actions vm cfg pci = Inr g"
      "stage_device_list vm ''NVMe'' (dv_nvme (vc_devices cfg)) pci = Inr a"
      "stage_device_list vm ''NIC'' (dv_nic (vc_devices cfg)) pci = Inr b"
      "stage_device_list vm ''USB'' (dv_usb (vc_devices cfg)) pci = Inr c"
    and plan: "vp_actions plan = fst (action_append g (action_append a (action_append b c))) @
      snd (action_append g (action_append a (action_append b c)))"
    by (auto simp: build_plan_for_vm_def build_non_gpu_actions_def Let_def split: sum.splits)
  note keys = build_gpu_value [OF parts(1)] stage_list_value [OF parts(2)]
    stage_list_value [OF parts(3)] stage_list_value [OF parts(4)]
  have "list_keys (action_append g (action_append a (action_append b c))) = planned (configured_functions cfg pci)"
    by (simp only: list_keys_append keys configured_functions_def device_kinds_def)
      (simp add: planned_append)
  then show ?thesis
    by (simp add: plan list_keys_def planned_def)
qed

subsection \<open>When a plan exists\<close>

definition gpu_stageable :: "pci_inventory \<Rightarrow> pci_function \<Rightarrow> bool" where
  "gpu_stageable pci f =
     (if is_display_controller f then pf_driver f = Some ''vfio-pci''
      else is_bdf_in_gpu_complex pci (pf_bdf f))"

definition no_forbidden :: "pci_device_config list option \<Rightarrow> bool" where
  "no_forbidden c = list_all (\<lambda>d. pd_level d \<noteq> Some Forbidden) (kind_list c)"

lemma gpu_function_actions_ok:
  assumes "inv_wf pci" "f \<in> set (inv_functions pci)"
  shows "is_ok (gpu_function_actions vm pci (assessment_by_bdf (assess_gpu_unbind_safety pci)) f) \<longleftrightarrow>
    gpu_stageable pci f"
proof (cases "is_display_controller f")
  case True
  note a = assessment_by_bdf_wf [OF assms True]
  show ?thesis
    using True assess_gpu_Safe [OF True, of "by_iommu_group pci"]
    by (auto simp: gpu_function_actions_def gpu_stageable_def Let_def a split: gpu_unbind_feasibility.splits)
qed (simp add: gpu_function_actions_def gpu_stageable_def Let_def)

lemma gpu_functions_actions_ok:
  assumes "inv_wf pci" "set fs \<subseteq> set (inv_functions pci)"
  shows "is_ok (gpu_functions_actions vm pci (assessment_by_bdf (assess_gpu_unbind_safety pci)) fs) \<longleftrightarrow>
    list_all (gpu_stageable pci) fs"
  using assms(2)
proof (induction fs)
  case (Cons f fs)
  then have "is_ok (gpu_function_actions vm pci (assessment_by_bdf (assess_gpu_unbind_safety pci)) f) \<longleftrightarrow>
      gpu_stageable pci f"
    by (intro gpu_function_actions_ok assms(1)) simp
  with Cons show ?case by (auto split: sum.splits)
qed simp

lemma present_functions_subset: "set (present_functions pci cfgs) \<subseteq> set (inv_functions pci)"
  using present_functions_mem by blast

lemma build_gpu_ok:
  assumes "inv_wf pci"
  shows "is_ok (build_gpu_actions vm cfg pci) \<longleftrightarrow>
    is_ok (resolve_configured pci (kind_list (dv_gpu (vc_devices cfg)))) \<and>
    list_all (gpu_stageable pci) (present_functions pci (kind_list (dv_gpu (vc_devices cfg))))"
proof (cases "resolve_configured pci (kind_list (dv_gpu (vc_devices cfg)))")
  case (Inl e)
  then show ?thesis by (auto simp: build_gpu_actions_def kind_list_def split: option.splits)
next
  case (Inr fs)
  note fs = resolve_configured_value [OF Inr]
  show ?thesis
    using gpu_functions_actions_ok [OF assms present_functions_subset,
        of vm "kind_list (dv_gpu (vc_devices cfg))"] Inr fs
    by (auto simp: build_gpu_actions_def kind_list_def present_functions_def map_filter_simps
        split: option.splits)
qed

lemma stage_list_ok:
  "is_ok (stage_device_list vm k c pci) \<longleftrightarrow> no_forbidden c \<and> is_ok (resolve_configured pci (kind_list c))"
  by (auto simp: stage_device_list_def no_forbidden_def kind_list_def list_all_iff find_None_iff find_Some_iff
      split: option.split sum.split intro: nth_mem)

lemma build_plan_ok:
  assumes "inv_wf pci"
  shows "is_ok (build_plan_for_vm vm cfg pci) \<longleftrightarrow>
    required_present cfg pci \<and>
    list_all (gpu_stageable pci) (present_functions pci (kind_list (dv_gpu (vc_devices cfg)))) \<and>
    list_all no_forbidden [dv_nvme (vc_devices cfg), dv_nic (vc_devices cfg), dv_usb (vc_devices cfg)]"
proof -
  have "is_ok (build_plan_for_vm vm cfg pci) \<longleftrightarrow>
      is_ok (build_gpu_actions vm cfg pci) \<and>
      is_ok (stage_device_list vm ''NVMe'' (dv_nvme (vc_devices cfg)) pci) \<and>
      is_ok (stage_device_list vm ''NIC'' (dv_nic (vc_devices cfg)) pci) \<and>
      is_ok (stage_device_list vm ''USB'' (dv_usb (vc_devices cfg)) pci)"
    by (auto simp: build_plan_for_vm_def build_non_gpu_actions_def Let_def split: sum.split)
  then show ?thesis
    by (auto simp: build_gpu_ok [OF assms] stage_list_ok required_present_def device_kinds_def
        resolve_configured_ok)
qed

subsection \<open>What executing a plan does\<close>

definition action_writes :: "pci_inventory \<Rightarrow> vfio_action_kind \<times> string \<Rightarrow> (path \<times> string \<times> bool) list" where
  "action_writes pci a =
     (case find_by_bdf pci (snd a) of
        None \<Rightarrow> []
      | Some f \<Rightarrow>
          (case fst a of
             UnbindFromCurrentDriver \<Rightarrow>
               (case pf_driver f of
                  Some d \<Rightarrow> if d = ''vfio-pci'' then [] else [(driver_file d ''unbind'', pf_bdf f @ newline, True)]
                | None \<Rightarrow> [])
           | BindToVfio \<Rightarrow>
               if pf_driver f = Some ''vfio-pci'' then []
               else [(driver_file ''vfio-pci'' ''bind'', pf_bdf f @ newline, True)]))"

definition transition_of :: "pci_function \<Rightarrow> vfio_transition" where
  "transition_of f = \<lparr>vt_bdf = pf_bdf f, vt_from_driver = pf_driver f, vt_iommu_group = pf_iommu_group f\<rparr>"

definition action_transitions :: "pci_inventory \<Rightarrow> vfio_action_kind \<times> string \<Rightarrow> vfio_transition list" where
  "action_transitions pci a =
     (case find_by_bdf pci (snd a) of
        None \<Rightarrow> []
      | Some f \<Rightarrow>
          if fst a = BindToVfio \<and> pf_driver f \<noteq> Some ''vfio-pci'' then [transition_of f] else [])"

lemma execute_action_ok:
  assumes "execute_action os pci a (ts, t) = (Inr u, (ts', t'))"
  shows "find_by_bdf pci (va_bdf a) \<noteq> None" "ts' = ts @ action_transitions pci (action_key a)"
    "writes t' = writes t @ action_writes pci (action_key a)"
  using assms
  by (auto simp: execute_action_def act_simps call_defs action_transitions_def action_writes_def action_key_def
      unbind_current_driver_def bind_to_vfio_pci_def Let_def transition_of_def find_by_bdf_key
      split: option.splits vfio_action_kind.splits if_splits sum.splits prod.splits)

lemma execute_actions_ok:
  assumes "eachR as (execute_action os pci) (ts, t) = (Inr u, (ts', t'))"
  shows "list_all (\<lambda>a. find_by_bdf pci (va_bdf a) \<noteq> None) as \<and>
    ts' = ts @ concat (map (action_transitions pci) (map action_key as)) \<and>
    writes t' = writes t @ concat (map (action_writes pci) (map action_key as))"
  using assms
proof (induction as arbitrary: ts t)
  case (Cons a as)
  from Cons.prems obtain v ts1 t1 where
    1: "execute_action os pci a (ts, t) = (Inr v, (ts1, t1))" and
    2: "eachR as (execute_action os pci) (ts1, t1) = (Inr u, (ts', t'))"
    by (auto elim!: bindR_ok)
  show ?case using execute_action_ok [OF 1] Cons.IH [OF 2] by simp
qed simp

text \<open>Every bind that was ever attempted has its transition on record, on error paths too.\<close>

definition recorded :: "vfio_transition list \<Rightarrow> (path \<times> string \<times> bool) list \<Rightarrow> bool" where
  "recorded ts ws =
     list_all (\<lambda>(p, c, ok). if p = driver_file ''vfio-pci'' ''bind''
       then list_ex (\<lambda>t. c = vt_bdf t @ newline) ts else True) ws"

lemma unbind_not_bind: "driver_file d ''unbind'' \<noteq> driver_file e ''bind''"
proof
  assume "driver_file d ''unbind'' = driver_file e ''bind''"
  then have "rev (driver_file d ''unbind'') ! 4 = rev (driver_file e ''bind'') ! 4" by simp
  then show False by (simp add: driver_file_def)
qed

lemma recorded_append: "recorded ts (a @ b) \<longleftrightarrow> recorded ts a \<and> recorded ts b"
  by (simp add: recorded_def)

lemma recorded_mono: "recorded ts ws \<Longrightarrow> recorded (ts @ us) ws"
  by (auto simp: recorded_def list_all_iff split: if_splits)

lemma recorded_Nil [simp]: "recorded ts []"
  by (simp add: recorded_def)

lemma recorded_unbind [simp]: "recorded ts [(driver_file d ''unbind'', c, ok)]"
  by (simp add: recorded_def unbind_not_bind)

lemma execute_action_recorded:
  assumes "execute_action os pci a (ts, t) = (r, (ts', t'))" "recorded ts (writes t)"
  shows "recorded ts' (writes t')"
proof (cases "find_by_bdf pci (va_bdf a)")
  case (Some f)
  note key = find_by_bdf_key [OF Some]
  show ?thesis
  proof (cases "va_kind a")
    case UnbindFromCurrentDriver
    with assms(1) Some have "unbind_current_driver os f t = (r, t')" "ts' = ts"
      by (auto simp: execute_action_def onOs_def split: prod.splits)
    from unbind_current_driver_trace [OF this(1)] show ?thesis
      using assms(2) \<open>ts' = ts\<close> by (auto simp: recorded_append)
  next
    case BindToVfio
    let ?new = "if pf_driver f \<noteq> Some ''vfio-pci''
      then [\<lparr>vt_bdf = va_bdf a, vt_from_driver = pf_driver f, vt_iommu_group = pf_iommu_group f\<rparr>] else []"
    from BindToVfio assms(1) Some have b: "bind_to_vfio_pci os f t = (r, t')" "ts' = ts @ ?new"
      by (auto simp: execute_action_def onOs_def andThen_def modify_def ret_def split: prod.splits if_splits)
    have "recorded ts' (writes t)" using b(2) recorded_mono [OF assms(2)] by simp
    with bind_to_vfio_pci_trace [OF b(1)] b(2) key show ?thesis
      by (auto simp: recorded_append) (auto simp: recorded_def)
  qed
qed (use assms in \<open>auto simp: execute_action_def errR_def\<close>)

lemma execute_actions_recorded:
  assumes "eachR as (execute_action os pci) (ts, t) = (r, (ts', t'))" "recorded ts (writes t)"
  shows "recorded ts' (writes t')"
  using assms
proof (induction as arbitrary: ts t)
  case (Cons a as)
  obtain v ts1 t1 where 1: "execute_action os pci a (ts, t) = (v, (ts1, t1))" by (metis prod.exhaust)
  note R = execute_action_recorded [OF 1 Cons.prems(2)]
  show ?case
  proof (cases v)
    case (Inl e)
    with 1 Cons.prems R show ?thesis by (simp add: bindR_def)
  next
    case (Inr u)
    with 1 Cons.prems(1) have "eachR as (execute_action os pci) (ts1, t1) = (r, (ts', t'))"
      by (simp add: bindR_def)
    from Cons.IH [OF this R] show ?thesis .
  qed
qed (simp add: okR_def)

subsection \<open>What verification establishes\<close>

definition verified :: "vm_config \<Rightarrow> pci_inventory \<Rightarrow> bool" where
  "verified cfg pci \<longleftrightarrow>
     required_present cfg pci \<and>
     list_all (\<lambda>f. pf_driver f = Some ''vfio-pci'') (configured_functions cfg pci) \<and>
     list_all (\<lambda>f. is_display_controller f \<or> is_bdf_in_gpu_complex pci (pf_bdf f))
       (present_functions pci (kind_list (dv_gpu (vc_devices cfg))))"

lemma verify_single_ok:
  "is_ok (verify_single_device vm k kind pci f) \<longleftrightarrow>
    pf_driver f = Some ''vfio-pci'' \<and>
    (kind = Some KindGpu \<longrightarrow> is_display_controller f \<or> is_bdf_in_gpu_complex pci (pf_bdf f))"
  by (auto simp: verify_single_device_def Let_def split: option.split)

lemma verify_devices_ok:
  "is_ok (verify_devices vm k kind pci fs) \<longleftrightarrow> list_all (\<lambda>f. is_ok (verify_single_device vm k kind pci f)) fs"
  by (induction fs) (auto split: sum.splits)

lemma verify_list_ok:
  "is_ok (verify_device_list vm k c pci kind) \<longleftrightarrow>
    is_ok (resolve_configured pci (kind_list c)) \<and>
    list_all (\<lambda>f. is_ok (verify_single_device vm k kind pci f)) (present_functions pci (kind_list c))"
proof (cases "resolve_configured pci (kind_list c)")
  case (Inl e)
  then show ?thesis by (auto simp: verify_device_list_def kind_list_def split: option.splits)
next
  case (Inr fs)
  then show ?thesis
    using resolve_configured_value [OF Inr]
    by (auto simp: verify_device_list_def kind_list_def verify_devices_ok split: option.splits)
qed

lemma verify_with_inventory_ok: "is_ok (verify_with_inventory vm cfg pci) \<longleftrightarrow> verified cfg pci"
proof -
  have "is_ok (verify_with_inventory vm cfg pci) \<longleftrightarrow>
      is_ok (verify_device_list vm ''GPU'' (dv_gpu (vc_devices cfg)) pci (Some KindGpu)) \<and>
      is_ok (verify_device_list vm ''NVMe'' (dv_nvme (vc_devices cfg)) pci (Some KindGeneric)) \<and>
      is_ok (verify_device_list vm ''NIC'' (dv_nic (vc_devices cfg)) pci (Some KindGeneric)) \<and>
      is_ok (verify_device_list vm ''USB'' (dv_usb (vc_devices cfg)) pci (Some KindGeneric))"
    by (auto simp: verify_with_inventory_def split: sum.split)
  then show ?thesis
    by (auto simp: verify_list_ok verify_single_ok verified_def required_present_def configured_functions_def
        device_kinds_def resolve_configured_ok list_all_iff)
qed

lemma verify_bindings_ok:
  assumes "verify_vm_vfio_bindings os vm cfg t = (Inr u, t')"
  shows "\<exists>pci. scan os t = (Inr pci, t') \<and> verified cfg pci"
  using assms verify_with_inventory_ok [of vm cfg]
  by (fastforce simp: verify_vm_vfio_bindings_def is_ok_iff elim!: bindR_ok split: sum.splits)

subsection \<open>Staging and its frame\<close>

lemma configured_function_found:
  "f \<in> set (configured_functions cfg pci) \<Longrightarrow> find_by_bdf pci (pf_bdf f) = Some f"
  by (auto simp: configured_functions_def present_functions_def map_filter_def) (metis find_by_bdf_key)

lemma planned_effects:
  assumes "\<And>f. f \<in> set fs \<Longrightarrow> find_by_bdf pci (pf_bdf f) = Some f"
  shows "concat (map (action_transitions pci) (planned_unbinds fs)) = []"
    "concat (map (action_transitions pci) (planned_binds fs)) =
      map transition_of (filter (\<lambda>f. pf_driver f \<noteq> Some ''vfio-pci'') fs)"
    "concat (map (action_writes pci) (planned_unbinds fs)) =
      map (\<lambda>f. (driver_file (the (pf_driver f)) ''unbind'', pf_bdf f @ newline, True)) (filter needs_unbind fs)"
    "concat (map (action_writes pci) (planned_binds fs)) =
      map (\<lambda>f. (driver_file ''vfio-pci'' ''bind'', pf_bdf f @ newline, True))
        (filter (\<lambda>f. pf_driver f \<noteq> Some ''vfio-pci'') fs)"
  using assms
  by (induction fs)
    (auto simp: planned_unbinds_def planned_binds_def action_transitions_def action_writes_def needs_unbind_def)

lemma verify_readonly [emits_intros]: "io_emits is_readonly (verify_vm_vfio_bindings os vm cfg)"
  unfolding verify_vm_vfio_bindings_def by (intro emits_intros)

lemma onTransitions_eq:
  assumes "onTransitions m (rt, t) = (x, (rt', t'))"
  shows "m (rt_vfio_transitions rt, t) = (x, (rt_vfio_transitions rt', t'))"
    "rt' = rt\<lparr>rt_vfio_transitions := rt_vfio_transitions rt'\<rparr>"
  using assms by (auto simp: onTransitions_def split: prod.splits)

text \<open>A successful staging: the inventory it planned on, and the scan that verified it.\<close>

lemma stage_ok:
  assumes "stage_pci_devices_for_vm os (rt, t) = (Inr u, (rt', t'))"
  obtains pci t1 t2 pci2 where
    "scan os t = (Inr pci, t1)" "is_ok (evaluate_isolation_for_vm (rt_name rt) (rt_cfg rt) pci)"
    "rt_vfio_transitions rt' = rt_vfio_transitions rt @
       map transition_of (filter (\<lambda>f. pf_driver f \<noteq> Some ''vfio-pci'') (configured_functions (rt_cfg rt) pci))"
    "writes t' = writes t @
       map (\<lambda>f. (driver_file (the (pf_driver f)) ''unbind'', pf_bdf f @ newline, True))
         (filter needs_unbind (configured_functions (rt_cfg rt) pci)) @
       map (\<lambda>f. (driver_file ''vfio-pci'' ''bind'', pf_bdf f @ newline, True))
         (filter (\<lambda>f. pf_driver f \<noteq> Some ''vfio-pci'') (configured_functions (rt_cfg rt) pci))"
    "scan os t2 = (Inr pci2, t')" "writes t2 = writes t'" "verified (rt_cfg rt) pci2"
proof -
  let ?verify = "\<lambda>_. onOs (verify_vm_vfio_bindings os (rt_name rt) (rt_cfg rt))"
  from assms obtain pci s1 where scan: "onOs (scan os) (rt, t) = (Inr pci, s1)" and
    rest: "(case evaluate_isolation_for_vm (rt_name rt) (rt_cfg rt) pci of
         Inl e \<Rightarrow> errR e
       | Inr _ \<Rightarrow>
           (case build_plan_for_vm (rt_name rt) (rt_cfg rt) pci of
              Inl e \<Rightarrow> errR e
            | Inr plan \<Rightarrow> bindR (onTransitions (execute_plan os plan pci)) ?verify)) s1 = (Inr u, (rt', t'))"
    unfolding stage_pci_devices_for_vm_def
    by (auto simp: peek_def elim!: bindR_ok andThen_eq)
  from scan obtain t1 where t1: "scan os t = (Inr pci, t1)" "s1 = (rt, t1)"
    by (auto simp: onOs_def split: prod.splits)
  from rest obtain plan where iso: "is_ok (evaluate_isolation_for_vm (rt_name rt) (rt_cfg rt) pci)"
    and plan: "build_plan_for_vm (rt_name rt) (rt_cfg rt) pci = Inr plan"
    and run: "bindR (onTransitions (execute_plan os plan pci)) ?verify s1 = (Inr u, (rt', t'))"
    by (auto split: sum.splits)
  from run obtain v s2 where ex: "onTransitions (execute_plan os plan pci) (rt, t1) = (Inr v, s2)"
    and ver: "onOs (verify_vm_vfio_bindings os (rt_name rt) (rt_cfg rt)) s2 = (Inr u, (rt', t'))"
    using t1(2) by (auto elim!: bindR_ok)
  obtain t2 where t2: "s2 = (rt', t2)" "verify_vm_vfio_bindings os (rt_name rt) (rt_cfg rt) t2 = (Inr u, t')"
    using ver by (cases s2) (auto simp: onOs_def split: prod.splits)
  note run = onTransitions_eq(1) [OF ex [unfolded t2(1)]]
  have eff: "rt_vfio_transitions rt' = rt_vfio_transitions rt @
      concat (map (action_transitions pci) (map action_key (vp_actions plan)))"
    "writes t2 = writes t1 @ concat (map (action_writes pci) (map action_key (vp_actions plan)))"
    using execute_actions_ok [OF run [unfolded execute_plan_def]] by simp_all
  note acts = build_plan_value [OF plan]
  have found: "\<And>f. f \<in> set (configured_functions (rt_cfg rt) pci) \<Longrightarrow> find_by_bdf pci (pf_bdf f) = Some f"
    by (rule configured_function_found)
  have w1: "writes t1 = writes t"
    using emits_readonly_writes [OF scan_readonly t1(1)] by simp
  obtain pci2 where v: "scan os t2 = (Inr pci2, t')" "verified (rt_cfg rt) pci2"
    using verify_bindings_ok [OF t2(2)] by blast
  have w2: "writes t2 = writes t'"
    using emits_readonly_writes [OF scan_readonly v(1)] by simp
  show ?thesis
    by (rule that [OF t1(1) iso _ _ v(1) w2 v(2)])
      (use eff acts w1 w2 planned_effects [OF found] in \<open>simp_all\<close>)
qed

lemma stage_recorded:
  assumes "stage_pci_devices_for_vm os (rt, t) = (r, (rt', t'))" "recorded (rt_vfio_transitions rt) (writes t)"
  shows "recorded (rt_vfio_transitions rt') (writes t')"
proof -
  obtain r1 t1 where s: "scan os t = (r1, t1)" by (metis prod.exhaust)
  have w: "writes t1 = writes t" using emits_readonly_writes [OF scan_readonly s] by simp
  show ?thesis
  proof (cases "\<exists>pci plan. r1 = Inr pci \<and> is_ok (evaluate_isolation_for_vm (rt_name rt) (rt_cfg rt) pci) \<and>
      build_plan_for_vm (rt_name rt) (rt_cfg rt) pci = Inr plan")
    case False
    then have "rt' = rt \<and> t' = t1"
      using assms(1) s
      by (auto simp: stage_pci_devices_for_vm_def act_simps split: sum.splits prod.splits)
    with w assms(2) show ?thesis by simp
  next
    case True
    then obtain pci plan where pp: "r1 = Inr pci"
      "is_ok (evaluate_isolation_for_vm (rt_name rt) (rt_cfg rt) pci)"
      "build_plan_for_vm (rt_name rt) (rt_cfg rt) pci = Inr plan" by blast
    obtain v rt2 t2 where ex: "onTransitions (execute_plan os plan pci) (rt, t1) = (v, (rt2, t2))"
      by (metis prod.exhaust)
    have R: "recorded (rt_vfio_transitions rt2) (writes t2)"
      using execute_actions_recorded [OF onTransitions_eq(1) [OF ex, unfolded execute_plan_def]] assms(2) w by simp
    obtain w2 t3 where ver: "verify_vm_vfio_bindings os (rt_name rt) (rt_cfg rt) t2 = (w2, t3)"
      by (metis prod.exhaust)
    have "writes t3 = writes t2" using emits_readonly_writes [OF verify_readonly ver] by simp
    moreover have "(rt', t') = (rt2, t2) \<or> (rt', t') = (rt2, t3)"
      using assms(1) s pp ex ver
      by (auto simp: stage_pci_devices_for_vm_def peek_def andThen_def bindR_def onOs_def is_ok_iff
          split: sum.splits)
    ultimately show ?thesis using R by auto
  qed
qed

subsection \<open>Restoring: outcomes and effects\<close>

text \<open>
  The only writes of a restore: the bus rescan, and binding a recorded device to its recorded driver.
\<close>

fun is_restore_event :: "vfio_transition list \<Rightarrow> os_event \<Rightarrow> bool" where
  "is_restore_event ts (EvWrite p c ok) =
     (p = ''/sys/bus/pci/rescan'' \<or>
      list_ex (\<lambda>t. c = vt_bdf t @ newline \<and>
        (case vt_from_driver t of None \<Rightarrow> False | Some d \<Rightarrow> p = driver_file (trim d) ''bind'')) ts)"
| "is_restore_event ts e = is_readonly e"

lemma readonly_restore_event: "is_readonly e \<Longrightarrow> is_restore_event ts e"
  by (cases e) simp_all

lemma scan_restore_event: "io_emits (is_restore_event ts) (scan os)"
  by (rule emits_mono [OF scan_readonly readonly_restore_event])

lemma restore_write_event:
  assumes "t \<in> set ts" "vt_from_driver t = Some d"
  shows "is_restore_event ts (EvWrite (driver_file (trim d) ''bind'') (vt_bdf t @ newline) ok)"
  using assms by (auto simp: list_ex_iff intro!: bexI [of _ t])

lemma bind_to_driver_emits:
  assumes "P (EvExists (driver_file d ''bind''))" "\<And>b. P (EvWrite (driver_file d ''bind'') (pf_bdf f @ newline) b)"
  shows "io_emits P (bind_to_driver os f d)"
  unfolding bind_to_driver_def Let_def using assms by (intro emits_intros)

lemma restore_one_event:
  assumes "fst item \<in> set ts" "pf_bdf (snd item) = vt_bdf (fst item)"
  shows "io_emits (is_restore_event ts) (restore_one os mode item)"
proof -
  have "io_emits (is_restore_event ts) (bind_to_driver os (snd item) (trim d))"
    if "vt_from_driver (fst item) = Some d" for d
    using restore_write_event [OF assms(1) that] assms(2) by (intro bind_to_driver_emits) simp_all
  then show ?thesis
    unfolding restore_one_def Let_def
    by (cases mode) (auto intro!: emits_intros split: prod.split option.split)
qed

lemma found_items_mem:
  "item \<in> set (class_items c (found_items pci ts)) \<Longrightarrow> fst item \<in> set ts \<and> pf_bdf (snd item) = vt_bdf (fst item)"
  by (auto simp: class_items_def found_items_def map_filter_def dest: find_by_bdf_key)

lemma restore_group_event:
  "io_emits (is_restore_event ts) (restore_group os mode (class_items c (found_items pci ts)))"
  unfolding restore_group_def
  by (intro emits_gatherA restore_one_event) (use found_items_mem in blast)+

lemma restore_one_dry [emits_intros]: "io_emits is_readonly (restore_one os DryRun item)"
  unfolding restore_one_def Let_def by (auto intro!: emits_intros split: prod.split option.split)

lemma restore_impl_event: "io_emits (is_restore_event (rt_vfio_transitions rt)) (restore_impl os rt mode)"
  unfolding restore_impl_def rescan_pci_bus_def Let_def
  by (intro emits_intros scan_restore_event restore_group_event) auto

lemma restore_impl_dry: "io_emits is_readonly (restore_impl os rt DryRun)"
  unfolding restore_impl_def restore_group_def Let_def
  by (intro emits_intros) auto

lemma summary_outcomes:
  "s = \<lparr>rs_vm_name = a, rs_mode = b, rs_outcomes = c\<rparr> \<Longrightarrow> rs_outcomes s = c"
  by simp

lemma restore_impl_total: "\<exists>s. fst (restore_impl os rt mode t) = Inr s \<and> rs_mode s = mode"
  by (auto simp: restore_impl_def Let_def okR_def andThen_def split: prod.split sum.split)

lemma gatherA_length:
  assumes "\<And>x s ys s'. f x s = (ys, s') \<Longrightarrow> map k ys = [h x]" "gatherA xs f s = (ys, s')"
  shows "map k ys = map h xs"
  using assms(2)
proof (induction xs arbitrary: s ys)
  case (Cons x xs)
  then obtain y1 s1 y2 where "f x s = (y1, s1)" "gatherA xs f s1 = (y2, s')" "ys = y1 @ y2"
    by (auto simp: andThen_def split: prod.splits)
  then show ?case using assms(1) Cons.IH by simp
qed simp

lemma restore_one_bdf: "restore_one os mode item t = (ys, t') \<Longrightarrow> map ro_bdf ys = [vt_bdf (fst item)]"
  by (auto simp: restore_one_def Let_def andThen_def split: prod.splits option.splits if_splits
      restore_mode.splits sum.splits)

lemma restore_group_bdf:
  "restore_group os mode items t = (ys, t') \<Longrightarrow> map ro_bdf ys = map (\<lambda>i. vt_bdf (fst i)) items"
  unfolding restore_group_def by (rule gatherA_length [where f = "restore_one os mode"]) (rule restore_one_bdf)

lemma class_items_mset:
  "mset (class_items RGpu xs) + mset (class_items RNvme xs) + mset (class_items RNic xs) +
   mset (class_items RUsb xs) + mset (class_items RMisc xs) = mset xs"
proof (induction xs)
  case (Cons x xs)
  obtain t f where x: "x = (t, f)" by (cases x)
  show ?case
    using Cons by (cases "restore_class_of f") (simp_all add: class_items_def x)
qed (simp add: class_items_def)

lemma items_mset:
  "mset (map vt_bdf (missing_items pci ts)) + mset (map (\<lambda>i. vt_bdf (fst i)) (found_items pci ts)) =
   mset (map vt_bdf ts)"
  by (induction ts) (auto simp: missing_items_def found_items_def map_filter_simps split: option.split)

lemma restore_impl_outcomes:
  assumes "restore_impl os rt mode t = (Inr s, t')" "scan os t = (Inr pci, t1)"
  shows "mset (map ro_bdf (rs_outcomes s)) = mset (map vt_bdf (rt_vfio_transitions rt))"
proof (cases "rt_vfio_transitions rt = []")
  case True
  with assms show ?thesis by (auto simp: restore_impl_def)
next
  case False
  let ?items = "found_items pci (rt_vfio_transitions rt)"
  from assms False obtain g tg n tn c tc u tu m tm where
    groups: "restore_group os mode (class_items RGpu ?items) t1 = (g, tg)"
      "restore_group os mode (class_items RNvme ?items) tg = (n, tn)"
      "restore_group os mode (class_items RNic ?items) tn = (c, tc)"
      "restore_group os mode (class_items RUsb ?items) tc = (u, tu)"
      "restore_group os mode (class_items RMisc ?items) tu = (m, tm)"
    and outs: "rs_outcomes s = map missing_outcome (missing_items pci (rt_vfio_transitions rt)) @ g @ n @ c @ u @ m"
    by (auto simp: restore_impl_def Let_def andThen_def okR_def split: prod.splits)
  have split: "mset (map (\<lambda>i. vt_bdf (fst i)) ?items) =
      mset (map ro_bdf g) + mset (map ro_bdf n) + mset (map ro_bdf c) + mset (map ro_bdf u) + mset (map ro_bdf m)"
    using arg_cong [OF class_items_mset [of ?items], of "image_mset (\<lambda>i. vt_bdf (fst i))"]
    by (simp add: groups [THEN restore_group_bdf])
  have miss: "map ro_bdf (map missing_outcome xs) = map vt_bdf xs" for xs
    by (simp add: missing_outcome_def)
  have "mset (map ro_bdf (rs_outcomes s)) =
      mset (map vt_bdf (missing_items pci (rt_vfio_transitions rt))) +
      (mset (map ro_bdf g) + mset (map ro_bdf n) + mset (map ro_bdf c) + mset (map ro_bdf u) + mset (map ro_bdf m))"
    unfolding outs map_append mset_append miss by (simp only: add.assoc)
  then show ?thesis
    unfolding split [symmetric] items_mset .
qed

subsection \<open>Properties of staging and restoring\<close>

text \<open>
  C15. A plan unbinds first and binds afterwards: its actions are, in this order, one unbind for each
  configured and present function that has a driver other than \<^verbatim>\<open>vfio-pci\<close>, and one bind for
  each configured and present function, both in the order GPU, NVMe, NIC, USB of the lists.
\<close>

theorem plan_unbinds_then_binds:
  "case build_plan_for_vm vm cfg pci of
     Inl e \<Rightarrow> True
   | Inr plan \<Rightarrow>
       map action_key (vp_actions plan) =
         planned_unbinds (configured_functions cfg pci) @ planned_binds (configured_functions cfg pci)"
  using build_plan_value by (auto split: sum.split)

text \<open>
  C14. On an inventory with unique addresses a plan exists exactly when every required device is
  present, every display controller listed as a GPU is already on \<^verbatim>\<open>vfio-pci\<close> (a host GPU is
  never taken away), every other function listed there shares a slot with a display controller, and
  no NVMe, NIC or USB entry is forbidden.
\<close>

theorem plan_exists_iff:
  "if inv_wf pci then
     is_ok (build_plan_for_vm vm cfg pci) =
       (required_present cfg pci \<and>
        list_all (gpu_stageable pci) (present_functions pci (kind_list (dv_gpu (vc_devices cfg)))) \<and>
        list_all no_forbidden [dv_nvme (vc_devices cfg), dv_nic (vc_devices cfg), dv_usb (vc_devices cfg)])
   else True"
  using build_plan_ok [of pci vm cfg] by simp

text \<open>
  C3. When staging succeeds, it scanned an inventory that passed the isolation policy, wrote exactly
  the unbinds and then the binds of that inventory's configured functions (every write successful),
  recorded one transition with the original driver for each function it rebound, and a last scan
  with no write after it shows every configured function on \<^verbatim>\<open>vfio-pci\<close>.
\<close>

theorem staging_success:
  "case stage_pci_devices_for_vm os (rt, t) of
     (Inl e, s') \<Rightarrow> True
   | (Inr u, (rt', t')) \<Rightarrow>
       (\<exists>pci t1 t2 pci2.
          scan os t = (Inr pci, t1) \<and>
          is_ok (evaluate_isolation_for_vm (rt_name rt) (rt_cfg rt) pci) \<and>
          rt_vfio_transitions rt' = rt_vfio_transitions rt @
            map transition_of (filter (\<lambda>f. pf_driver f \<noteq> Some ''vfio-pci'') (configured_functions (rt_cfg rt) pci)) \<and>
          writes t' = writes t @
            map (\<lambda>f. (driver_file (the (pf_driver f)) ''unbind'', pf_bdf f @ newline, True))
              (filter needs_unbind (configured_functions (rt_cfg rt) pci)) @
            map (\<lambda>f. (driver_file ''vfio-pci'' ''bind'', pf_bdf f @ newline, True))
              (filter (\<lambda>f. pf_driver f \<noteq> Some ''vfio-pci'') (configured_functions (rt_cfg rt) pci)) \<and>
          scan os t2 = (Inr pci2, t') \<and> writes t2 = writes t' \<and>
          list_all (\<lambda>f. pf_driver f = Some ''vfio-pci'') (configured_functions (rt_cfg rt) pci2))"
proof -
  obtain r rt' t' where run: "stage_pci_devices_for_vm os (rt, t) = (r, (rt', t'))" by (metis prod.exhaust)
  show ?thesis
  proof (cases r)
    case (Inr u)
    from stage_ok [OF run [unfolded Inr]] obtain pci t1 t2 pci2 where st:
      "scan os t = (Inr pci, t1)" "is_ok (evaluate_isolation_for_vm (rt_name rt) (rt_cfg rt) pci)"
      "rt_vfio_transitions rt' = rt_vfio_transitions rt @
         map transition_of (filter (\<lambda>f. pf_driver f \<noteq> Some ''vfio-pci'') (configured_functions (rt_cfg rt) pci))"
      "writes t' = writes t @
         map (\<lambda>f. (driver_file (the (pf_driver f)) ''unbind'', pf_bdf f @ newline, True))
           (filter needs_unbind (configured_functions (rt_cfg rt) pci)) @
         map (\<lambda>f. (driver_file ''vfio-pci'' ''bind'', pf_bdf f @ newline, True))
           (filter (\<lambda>f. pf_driver f \<noteq> Some ''vfio-pci'') (configured_functions (rt_cfg rt) pci))"
      "scan os t2 = (Inr pci2, t')" "writes t2 = writes t'" "verified (rt_cfg rt) pci2" .
    show ?thesis
      unfolding run Inr prod.case sum.case
      by (intro exI [of _ pci] exI [of _ t1] exI [of _ t2] exI [of _ pci2] conjI)
        (use st in \<open>simp_all only: verified_def\<close>)
  qed (simp add: run)
qed

text \<open>
  However staging ends, each attempt to bind a device to \<^verbatim>\<open>vfio-pci\<close> has a recorded
  transition of that device, so that a restore knows about it.
\<close>

theorem staging_records_binds:
  "case stage_pci_devices_for_vm os (rt, t) of
     (r, (rt', t')) \<Rightarrow>
       if recorded (rt_vfio_transitions rt) (writes t) then recorded (rt_vfio_transitions rt') (writes t')
       else True"
  using stage_recorded by (auto split: prod.split)

text \<open>
  C16. A restore never fails as a whole.  It yields exactly one outcome per recorded transition when
  the inventory can be scanned and none when it cannot, in live mode it writes nothing but binds of
  recorded devices to their recorded drivers and the bus rescan (so it never unbinds anything), and
  a dry run writes nothing at all.
\<close>

theorem restore_best_effort:
  "case restore_impl os rt mode t of
     (Inl e, t') \<Rightarrow> False
   | (Inr s, t') \<Rightarrow>
       rs_mode s = mode \<and>
       mset (map ro_bdf (rs_outcomes s)) =
         (if is_ok (fst (scan os t)) then mset (map vt_bdf (rt_vfio_transitions rt)) else {#}) \<and>
       (\<exists>ev. t' = t @ ev \<and>
         list_all (if mode = DryRun then is_readonly else is_restore_event (rt_vfio_transitions rt)) ev)"
proof -
  obtain r t' where run: "restore_impl os rt mode t = (r, t')" by (metis prod.exhaust)
  with restore_impl_total [of os rt mode t] obtain s where s: "r = Inr s" "rs_mode s = mode" by auto
  have ev: "\<exists>ev. t' = t @ ev \<and>
      list_all (if mode = DryRun then is_readonly else is_restore_event (rt_vfio_transitions rt)) ev"
  proof (cases "mode = DryRun")
    case True
    from emitsE [OF restore_impl_dry run [unfolded True]] True show ?thesis by auto
  next
    case False
    from emitsE [OF restore_impl_event run] False show ?thesis by auto
  qed
  have "mset (map ro_bdf (rs_outcomes s)) =
      (if is_ok (fst (scan os t)) then mset (map vt_bdf (rt_vfio_transitions rt)) else {#})"
  proof (cases "fst (scan os t)")
    case (Inl e)
    with run s show ?thesis
      by (auto simp: restore_impl_def Let_def andThen_def okR_def dest!: sym [of _ s] intro: summary_outcomes
          split: if_splits prod.splits)
  next
    case (Inr pci)
    then have "scan os t = (Inr pci, snd (scan os t))" by (metis prod.collapse)
    from restore_impl_outcomes [OF run [unfolded s(1)] this] Inr show ?thesis by simp
  qed
  with ev run s show ?thesis by simp
qed

end
