(* ===== verification/Chalybs_Hugepages.thy ===== *)
theory Chalybs_Hugepages
  imports Chalybs_Model
begin

text \<open>
  The hugepage manager of \<^verbatim>\<open>core/src/hugepages.rs\<close>: the node it picks, the page count it
  computes on 64-bit words, the hugetlbfs mount, the provisioning loop with its three attempts, and
  the cleanup.
\<close>

definition HUGEPAGES_MOUNT :: path where "HUGEPAGES_MOUNT = ''/dev/hugepages''"
definition HUGEPAGES_MARKER :: path where "HUGEPAGES_MARKER = ''/run/chalybs/.hugepages''"
definition PROC_MOUNTS :: path where "PROC_MOUNTS = ''/proc/mounts''"
definition PROC_DROP_CACHES :: path where "PROC_DROP_CACHES = ''/proc/sys/vm/drop_caches''"
definition PROC_COMPACT_MEMORY :: path where "PROC_COMPACT_MEMORY = ''/proc/sys/vm/compact_memory''"
definition PROC_NR_HUGEPAGES :: path where "PROC_NR_HUGEPAGES = ''/proc/sys/vm/nr_hugepages''"

lemmas hugepage_paths =
  HUGEPAGES_MOUNT_def HUGEPAGES_MARKER_def PROC_MOUNTS_def PROC_DROP_CACHES_def
  PROC_COMPACT_MEMORY_def PROC_NR_HUGEPAGES_def

definition nl :: string where "nl = [CHR 0x0A]"

subsection \<open>Counters\<close>

definition node_hugepages_dir :: "nat \<Rightarrow> path" where
  "node_hugepages_dir node =
     ''/sys/devices/system/node'' @ ''/node'' @ show_nat node @ ''/hugepages'' @ ''/hugepages-2048kB''"

definition read_u64 :: "os \<Rightarrow> path \<Rightarrow> string \<Rightarrow> 64 word result io" where
  "read_u64 os p label =
     bindR (mapErr (\<lambda>e. Other (''hugepages: failed to read '' @ label @ '' from '' @ p @ '': '' @ io_error_msg e))
              (read_to_string os p)) (\<lambda>raw.
       case parse_u64 (trim raw) of
         Inl e \<Rightarrow> errR (Other (''hugepages: failed to parse '' @ label @ '' from '' @ p @ '': '' @ show_parse_int_error e))
       | Inr v \<Rightarrow> okR (of_nat v))"

definition read_node_hugepage_counters :: "os \<Rightarrow> nat \<Rightarrow> (64 word \<times> 64 word) result io" where
  "read_node_hugepage_counters os node =
     (let dir = node_hugepages_dir node
      in bindR (read_u64 os (dir @ ''/nr_hugepages'') ''nr_hugepages'') (\<lambda>nr_total.
         bindR (read_u64 os (dir @ ''/free_hugepages'') ''free_hugepages'') (\<lambda>free_pages.
           okR (nr_total, free_pages))))"

definition nr_hugepages_path :: "nat \<Rightarrow> path" where
  "nr_hugepages_path node = node_hugepages_dir node @ ''/nr_hugepages''"

definition write_node_nr_hugepages :: "os \<Rightarrow> nat \<Rightarrow> 64 word \<Rightarrow> unit result io" where
  "write_node_nr_hugepages os node pages =
     (let p = nr_hugepages_path node
      in mapErr (\<lambda>e. Other (''hugepages: failed to write nr_hugepages for node '' @ show_nat node @
             '' at '' @ p @ '': '' @ io_error_msg e))
           (write_file os p (show_nat (unat pages) @ nl)))"

subsection \<open>The mount\<close>

definition is_mounted_line :: "string \<Rightarrow> bool" where
  "is_mounted_line line =
     (case split_whitespace line of _ # mp # _ \<Rightarrow> mp = HUGEPAGES_MOUNT | _ \<Rightarrow> False)"

definition mount_hugetlbfs :: "os \<Rightarrow> unit result io" where
  "mount_hugetlbfs os =
     andThen (mount_fs os HUGEPAGES_MOUNT) (\<lambda>r.
       case r of
         Inr _ \<Rightarrow>
           andThen (bindR (create_dir_all os ''/run/chalybs'') (\<lambda>_.
                      write_file os HUGEPAGES_MARKER (''chalybs'' @ nl)))
             (\<lambda>_. okR ())
       | Inl EBUSY \<Rightarrow> okR ()
       | Inl (MountErr e) \<Rightarrow>
           errR (Other (''hugepages: failed to mount hugetlbfs on '' @ HUGEPAGES_MOUNT @ '': '' @ e)))"

definition ensure_hugetlbfs_mount :: "os \<Rightarrow> unit result io" where
  "ensure_hugetlbfs_mount os =
     andThen (path_exists os HUGEPAGES_MOUNT) (\<lambda>ex.
     bindR (if \<not> ex then
              mapErr (\<lambda>e. Other (''hugepages: failed to create '' @ HUGEPAGES_MOUNT @ '': '' @ io_error_msg e))
                (create_dir_all os HUGEPAGES_MOUNT)
            else okR ()) (\<lambda>_.
     andThen (read_to_string os PROC_MOUNTS) (\<lambda>r.
       (let already_mounted =
              (case r of Inr contents \<Rightarrow> list_ex is_mounted_line (str_lines contents) | Inl e \<Rightarrow> False)
        in if already_mounted then okR () else mount_hugetlbfs os))))"

definition cleanup_hugetlbfs_mount :: "os \<Rightarrow> unit result io" where
  "cleanup_hugetlbfs_mount os =
     andThen (path_exists os HUGEPAGES_MARKER) (\<lambda>ex.
       if \<not> ex then okR ()
       else andThen (umount_fs os HUGEPAGES_MOUNT) (\<lambda>_.
            andThen (remove_file os HUGEPAGES_MARKER) (\<lambda>_. okR ())))"

definition drop_caches_and_compact :: "os \<Rightarrow> unit result io" where
  "drop_caches_and_compact os =
     andThen (write_file os PROC_DROP_CACHES (''3'' @ nl)) (\<lambda>_.
     andThen (write_file os PROC_COMPACT_MEMORY (''1'' @ nl)) (\<lambda>_. okR ()))"

subsection \<open>The node\<close>

definition node_root :: path where
  "node_root = ''/sys/devices/system/node''"

text \<open>One entry of the scan: the candidate node with its overlap, or nothing.\<close>

definition node_candidate :: "os \<Rightarrow> nat list \<Rightarrow> dir_entry \<Rightarrow> (nat \<times> nat) list io" where
  "node_candidate os host_cpus ent =
     (case ent of
        EntryErr m \<Rightarrow> ret []
      | EntryNonUtf8 \<Rightarrow> ret []
      | Entry name \<Rightarrow>
          if \<not> starts_with ''node'' name then ret []
          else case parse_u16 (drop 4 name) of
              Inl e \<Rightarrow> ret []
            | Inr node_id \<Rightarrow>
                andThen (read_to_string os (node_root @ ''/'' @ name @ ''/cpulist'')) (\<lambda>r.
                  case r of
                    Inl e \<Rightarrow> ret []
                  | Inr cpulist_str \<Rightarrow>
                      (case parse_cpu_list (trim cpulist_str) of
                         Inl e \<Rightarrow> ret []
                       | Inr node_cpus \<Rightarrow>
                           ret [(node_id, length (filter (\<lambda>cpu. cpu \<in> set node_cpus) host_cpus))])))"

definition best_node_step :: "nat option \<times> nat \<Rightarrow> nat \<times> nat \<Rightarrow> nat option \<times> nat" where
  "best_node_step best cand =
     (if snd best < snd cand then (Some (fst cand), snd cand) else best)"

definition best_node :: "(nat \<times> nat) list \<Rightarrow> nat option \<times> nat" where
  "best_node cands = foldl best_node_step (None, 0) cands"

definition select_hugepage_node :: "os \<Rightarrow> vm_config \<Rightarrow> nat result io" where
  "select_hugepage_node os cfg =
     (case Option.bind (vc_numa cfg)
             (\<lambda>ncfg. case nc_hugepage_node ncfg of Some n \<Rightarrow> Some n | None \<Rightarrow> nc_node ncfg) of
        Some n \<Rightarrow> okR n
      | None \<Rightarrow>
          (case parse_cpu_list (trim (cc_host_cpus (vc_cpu cfg))) of
             Inl e \<Rightarrow>
               errR (Other (''hugepages: failed to parse host CPU list '' @ quoted (cc_host_cpus (vc_cpu cfg)) @
                 '' for NUMA detection: '' @ show_error e))
           | Inr host_cpus \<Rightarrow>
               bindR (mapErr (\<lambda>e. Other (''hugepages: failed to list NUMA nodes in '' @ node_root @ '': '' @ io_error_msg e))
                        (read_dir os node_root)) (\<lambda>entries.
               andThen (gatherA entries (node_candidate os host_cpus)) (\<lambda>cands.
                 case fst (best_node cands) of
                   Some node \<Rightarrow> okR node
                 | None \<Rightarrow>
                     errR (Other ''hugepages: failed to determine NUMA node (no overlap between host CPUs and NUMA nodes)'')))))"

subsection \<open>Sizes\<close>

text \<open>\<^verbatim>\<open>u64\<close> arithmetic, wrapping as in a release build.\<close>

definition hugepage_size_bytes :: "64 word" where
  "hugepage_size_bytes = 2 * 1024 * 1024"

definition required_pages :: "64 word \<Rightarrow> 64 word" where
  "required_pages mem_mb =
     (let mem_bytes = mem_mb * 1024 * 1024
      in (mem_bytes + hugepage_size_bytes - 1) div hugepage_size_bytes)"

text \<open>
  \<^verbatim>\<open>{:.1}\<close> of the size in GiB: a multiple of 2 MiB below \<open>2 ^ 64\<close> is exact as a double, so
  only the printing rounds, to even on a tie.
\<close>

definition show_gib :: "64 word \<Rightarrow> string" where
  "show_gib total_bytes =
     (let n = unat total_bytes * 10; d = 1073741824; q = n div d; r = n mod d;
          tenths = (if d < 2 * r \<or> (d = 2 * r \<and> odd q) then q + 1 else q)
      in show_nat (tenths div 10) @ ''.'' @ show_nat (tenths mod 10))"

subsection \<open>Provisioning\<close>

definition clear_hugepages :: "vm_runtime \<Rightarrow> vm_runtime" where
  "clear_hugepages rt =
     rt\<lparr>rt_hugepages_active := False, rt_hugepages_node := None, rt_hugepages_pages := 0,
        rt_hugepages_bytes := 0\<rparr>"

definition record_hugepages :: "nat \<Rightarrow> 64 word \<Rightarrow> string \<Rightarrow> vm_runtime \<Rightarrow> vm_runtime" where
  "record_hugepages node pages message rt =
     push_info message
       (rt\<lparr>rt_hugepages_node := Some node, rt_hugepages_pages := pages,
          rt_hugepages_bytes := pages * hugepage_size_bytes, rt_hugepages_active := True\<rparr>)"

definition pages_text :: "64 word \<Rightarrow> nat \<Rightarrow> string \<Rightarrow> string" where
  "pages_text pages node vm =
     show_nat (unat pages) @ '' x 2MiB pages ('' @ show_gib (pages * hugepage_size_bytes) @
     '' GiB) on NUMA node '' @ show_nat node @ '' for VM '' @ vm"

text \<open>The attempts that are left, with the last counters seen for the final message.\<close>

fun provision_attempts ::
  "os \<Rightarrow> nat \<Rightarrow> 64 word \<Rightarrow> nat list \<Rightarrow> 64 word \<Rightarrow> 64 word \<Rightarrow> unit result rt_act" where
  "provision_attempts os node pages [] nr_total free_pages =
     errR (Other (''hugepages: insufficient 2MiB hugepages on NUMA node '' @ show_nat node @
       '' after compaction/raise attempts: required '' @ show_nat (unat pages) @ '', nr_hugepages='' @
       show_nat (unat nr_total) @ '', free_hugepages='' @ show_nat (unat free_pages) @
       ''. Consider increasing large-page capacity or reducing VM RAM.''))"
| "provision_attempts os node pages (attempt # later) nr_total free_pages =
     bindR (onOs (drop_caches_and_compact os)) (\<lambda>_.
     bindR (onOs (read_node_hugepage_counters os node)) (\<lambda>(nr_before, free_before).
     bindR (onOs (if nr_before < pages then write_node_nr_hugepages os node pages else okR ())) (\<lambda>_.
     bindR (onOs (read_node_hugepage_counters os node)) (\<lambda>(nr_total2, free_pages2).
       if pages \<le> free_pages2 then
         andThen (modify (\<lambda>rt. record_hugepages node pages
             (''hugepages: provisioned '' @ pages_text pages node (rt_name rt) @ '' after '' @
              show_nat attempt @ '' attempt(s)'') rt)) (\<lambda>_. okR ())
       else provision_attempts os node pages later nr_total2 free_pages2))))"

definition MAX_ATTEMPTS :: nat where
  "MAX_ATTEMPTS = 3"

definition provision_for_vm :: "os \<Rightarrow> unit result rt_act" where
  "provision_for_vm os =
     andThen peek (\<lambda>rt.
       if \<not> qc_hugepages (vc_qemu (rt_cfg rt)) then
         andThen (modify clear_hugepages) (\<lambda>_. okR ())
       else
         bindR (onOs (select_hugepage_node os (rt_cfg rt))) (\<lambda>node.
           (let pages = required_pages (qc_mem_mb (vc_qemu (rt_cfg rt)))
            in bindR (onOs (ensure_hugetlbfs_mount os)) (\<lambda>_.
               bindR (onOs (read_node_hugepage_counters os node)) (\<lambda>(nr_total, free_pages).
                 if pages \<le> free_pages then
                   andThen (modify (\<lambda>rt. record_hugepages node pages
                       (''hugepages: using existing '' @ pages_text pages node (rt_name rt)) rt)) (\<lambda>_. okR ())
                 else provision_attempts os node pages [1..<MAX_ATTEMPTS + 1] nr_total free_pages)))))"

subsection \<open>Cleanup\<close>

definition cleanup_for_vm :: "os \<Rightarrow> unit result rt_act" where
  "cleanup_for_vm os =
     andThen peek (\<lambda>rt.
       if \<not> rt_hugepages_active rt then okR ()
       else
         andThen (case rt_hugepages_node rt of
                    Some node \<Rightarrow> onOs (write_node_nr_hugepages os node 0)
                  | None \<Rightarrow> okR ()) (\<lambda>_.
         andThen (onOs (write_file os PROC_NR_HUGEPAGES (''0'' @ nl))) (\<lambda>_.
         andThen (onOs (drop_caches_and_compact os)) (\<lambda>_.
         andThen (onOs (cleanup_hugetlbfs_mount os)) (\<lambda>_.
         andThen (modify (\<lambda>rt. push_info ''hugepages: cleanup completed for VM'' (clear_hugepages rt))) (\<lambda>_.
           okR ()))))))"

subsection \<open>Lemmas\<close>

text \<open>The page count as a number: half the megabytes, rounded up, while nothing wraps.\<close>

lemma required_pages_nat:
  "unat (required_pages m) =
     (let k = unat m mod 2 ^ 44 in if k = 2 ^ 44 - 1 then 0 else (k + 1) div 2)"
proof -
  have bytes: "unat (m * 1024 * 1024) = unat m mod 2 ^ 44 * 2 ^ 20"
  proof -
    have "unat (m * 1024 * 1024) = unat m * 2 ^ 20 mod 2 ^ 64"
      by (simp add: unat_word_ariths mod_mult_left_eq mult.assoc)
    also have "\<dots> = unat m * 2 ^ 20 mod (2 ^ 44 * 2 ^ 20)" by simp
    also have "\<dots> = unat m mod 2 ^ 44 * 2 ^ 20" by (rule mult_mod_left [symmetric])
    finally show ?thesis .
  qed
  define k where "k = unat m mod 2 ^ 44"
  define w where "w = m * 1024 * 1024"
  have k: "k < 2 ^ 44" by (simp add: k_def)
  have w: "unat w = k * 2 ^ 20" unfolding w_def k_def by (rule bytes)
  have sum: "unat (w + 2097151) = (k * 2 ^ 20 + (2 ^ 21 - 1)) mod 2 ^ 64"
    by (simp add: unat_word_ariths(1) w)
  have size: "unat hugepage_size_bytes = 2 ^ 21" by (simp add: hugepage_size_bytes_def)
  have minus: "w + hugepage_size_bytes - 1 = w + 2097151" by (simp add: hugepage_size_bytes_def)
  have "unat (required_pages m) = unat (w + 2097151) div 2 ^ 21"
    unfolding required_pages_def Let_def w_def [symmetric] unat_div minus size ..
  also have "\<dots> = (if k = 2 ^ 44 - 1 then 0 else (k + 1) div 2)"
  proof (cases "k = 2 ^ 44 - 1")
    case False
    with k have "k * 2 ^ 20 + (2 ^ 21 - 1) < 2 ^ 64" by simp
    then have "unat (w + 2097151) = k * 2 ^ 20 + (2 ^ 21 - 1)"
      unfolding sum by (rule mod_less)
    also have "(k * 2 ^ 20 + (2 ^ 21 - 1)) div 2 ^ 21 = (k + 1) div 2" by simp
    finally show ?thesis using False by simp
  qed (simp add: sum)
  finally show ?thesis by (simp add: k_def Let_def)
qed

text \<open>The node found by the scan has the largest overlap; none is found when all are empty.\<close>

lemma best_node_fold:
  "let b = foldl best_node_step acc cands
   in snd acc \<le> snd b \<and> list_all (\<lambda>c. snd c \<le> snd b) cands \<and>
      (b = acc \<or> (\<exists>n. fst b = Some n \<and> (n, snd b) \<in> set cands \<and> snd acc < snd b))"
proof (induction cands arbitrary: acc)
  case (Cons c cands)
  from Cons.IH [of "best_node_step acc c"] show ?case
    by (cases "snd acc < snd c")
      (auto simp: best_node_step_def Let_def list_all_iff prod_eq_iff intro: le_trans less_le_trans)
qed (simp add: Let_def)

text \<open>
  A look at a node's free pages, made when the trace was \<open>p\<close>: whether the file then held a number that is
  enough, if it held one.  And a series of looks, the last of which ends the trace with the given answer
  while every earlier one had shown too few.
\<close>

definition free_path :: "nat \<Rightarrow> path" where
  "free_path node = node_hugepages_dir node @ ''/free_hugepages''"

definition enough_free :: "os \<Rightarrow> nat \<Rightarrow> 64 word \<Rightarrow> trace \<Rightarrow> bool option" where
  "enough_free os node pages p =
     (case os_read os p (free_path node) of
        Inl e \<Rightarrow> None
      | Inr raw \<Rightarrow> map_option (\<lambda>v. pages \<le> of_nat v) (ok_opt (parse_u64 (trim raw))))"

fun looked :: "os \<Rightarrow> nat \<Rightarrow> 64 word \<Rightarrow> trace \<Rightarrow> trace list \<Rightarrow> bool \<Rightarrow> trace \<Rightarrow> bool" where
  "looked os node pages t [] answer t' = False"
| "looked os node pages t (p # later) answer t' =
     (prefix t p \<and>
      (if later = [] then enough_free os node pages p = Some answer \<and> t' = p @ [EvRead (free_path node)]
       else enough_free os node pages p = Some False \<and> looked os node pages (p @ [EvRead (free_path node)]) later answer t'))"

lemma looked_prefix: "looked os node pages t looks answer t' \<Longrightarrow> prefix t t'"
proof (induction looks arbitrary: t)
  case (Cons p later)
  then show ?case by (auto split: if_splits dest!: Cons.IH dest: append_prefixD intro: prefix_order.trans)
qed simp

lemma looked_earlier: "looked os node pages t looks answer t' \<Longrightarrow> prefix t0 t \<Longrightarrow> looked os node pages t0 looks answer t'"
  by (cases looks) (auto intro: prefix_order.trans)

lemma read_u64_extends: "read_u64 os f label t = (r, t') \<Longrightarrow> t' = t @ [EvRead f]"
  by (auto simp: read_u64_def act_simps call_defs split: sum.splits prod.splits)

lemma read_u64_ok:
  "read_u64 os f label t = (Inr v, t') \<Longrightarrow>
   \<exists>raw n. os_read os t f = Inr raw \<and> parse_u64 (trim raw) = Inr n \<and> v = of_nat n"
  by (cases "os_read os t f") (auto simp: read_u64_def act_simps call_defs split: sum.splits)

lemma counters_look:
  assumes "read_node_hugepage_counters os node t = (Inr (nr, free), t')"
  shows "\<exists>p. prefix t p \<and> t' = p @ [EvRead (free_path node)] \<and> enough_free os node pages p = Some (pages \<le> free)"
proof -
  from assms obtain v t1 where 1: "read_u64 os (nr_hugepages_path node) ''nr_hugepages'' t = (Inr v, t1)"
    and 2: "read_u64 os (free_path node) ''free_hugepages'' t1 = (Inr free, t')"
    by (auto simp: read_node_hugepage_counters_def nr_hugepages_path_def free_path_def Let_def run_simps)
  from read_u64_extends [OF 1] read_u64_extends [OF 2] read_u64_ok [OF 2] show ?thesis
    by (auto simp: enough_free_def ok_opt_def)
qed

text \<open>The attempts at freeing memory, counted by the writes that drop the caches.\<close>

definition drops :: "trace \<Rightarrow> nat" where
  "drops t = length (filter (\<lambda>(p, c). p = PROC_DROP_CACHES) (attempted t))"

lemma drops_append [simp]: "drops (a @ b) = drops a + drops b"
  by (simp add: drops_def)

lemma nr_path_no_drop: "nr_hugepages_path node \<noteq> PROC_DROP_CACHES"
  by (simp add: nr_hugepages_path_def node_hugepages_dir_def PROC_DROP_CACHES_def)

lemma no_drops: "list_all (\<lambda>e. case e of EvWrite p c ok \<Rightarrow> p \<noteq> PROC_DROP_CACHES | _ \<Rightarrow> True) ev \<Longrightarrow> drops ev = 0"
proof (induction ev)
  case (Cons e ev)
  then show ?case by (cases e) (simp_all add: drops_def attempted_def)
qed (simp add: drops_def)

lemma drop_caches_counts: "drop_caches_and_compact os t = (r, t') \<Longrightarrow> r = Inr () \<and> prefix t t' \<and> drops t' = drops t + 1"
  by (auto simp: drop_caches_and_compact_def call_defs act_simps drops_def attempted_def PROC_DROP_CACHES_def
      PROC_COMPACT_MEMORY_def)

text \<open>The calls whose failure ends the provisioning, given the trace before the call.\<close>

definition unreadable :: "os \<Rightarrow> path \<Rightarrow> trace \<Rightarrow> bool" where
  "unreadable os f p = (case os_read os p f of Inl e \<Rightarrow> True | Inr raw \<Rightarrow> \<not> is_ok (parse_u64 (trim raw)))"

fun failing :: "os \<Rightarrow> nat \<Rightarrow> 64 word \<Rightarrow> trace \<Rightarrow> os_event \<Rightarrow> bool" where
  "failing os node pages p (EvCreateDir d ok) = (d = HUGEPAGES_MOUNT \<and> \<not> ok)"
| "failing os node pages p (EvMount d ok) = (d = HUGEPAGES_MOUNT \<and> \<not> ok \<and> os_mount os p d \<noteq> Some EBUSY)"
| "failing os node pages p (EvRead f) = (f \<in> {nr_hugepages_path node, free_path node} \<and> unreadable os f p)"
| "failing os node pages p (EvWrite f c ok) = (f = nr_hugepages_path node \<and> c = show_nat (unat pages) @ nl \<and> \<not> ok)"
| "failing os node pages p e = False"

definition failed_call :: "os \<Rightarrow> nat \<Rightarrow> 64 word \<Rightarrow> trace \<Rightarrow> trace \<Rightarrow> bool" where
  "failed_call os node pages t t' \<longleftrightarrow> (\<exists>p ev. prefix t p \<and> t' = p @ [ev] \<and> failing os node pages p ev)"

lemma failed_earlier: "failed_call os node pages t t' \<Longrightarrow> prefix t0 t \<Longrightarrow> failed_call os node pages t0 t'"
  unfolding failed_call_def by (blast intro: prefix_order.trans)

lemma read_u64_err: "read_u64 os f label t = (Inl e, t') \<Longrightarrow> unreadable os f t"
  by (cases "os_read os t f")
    (auto simp: read_u64_def act_simps call_defs unreadable_def is_ok_def split: sum.splits)

lemma read_u64_fails:
  assumes "read_u64 os f label t = (Inl e, t')" "f \<in> {nr_hugepages_path node, free_path node}"
  shows "failed_call os node pages t t'"
  unfolding failed_call_def
  by (intro exI [of _ t] exI [of _ "EvRead f"])
    (use assms read_u64_extends [OF assms(1)] read_u64_err [OF assms(1)] in simp)

lemma counters_fail:
  assumes "read_node_hugepage_counters os node t = (Inl e, t')"
  shows "failed_call os node pages t t'"
proof -
  obtain r1 t1 where 1: "read_u64 os (nr_hugepages_path node) ''nr_hugepages'' t = (r1, t1)" by (metis prod.exhaust)
  obtain r2 t2 where 2: "read_u64 os (free_path node) ''free_hugepages'' t1 = (r2, t2)" by (metis prod.exhaust)
  have "prefix t t1" using read_u64_extends [OF 1] by simp
  show ?thesis
  proof (cases r1)
    case (Inl e1)
    with assms 1 have "t' = t1"
      by (simp add: read_node_hugepage_counters_def Let_def bindR_def flip: nr_hugepages_path_def free_path_def)
    with read_u64_fails [OF 1 [unfolded Inl]] show ?thesis by simp
  next
    case (Inr n)
    with assms 1 2 obtain e2 where "r2 = Inl e2" "t' = t2"
      by (auto simp: read_node_hugepage_counters_def Let_def bindR_def okR_def split: sum.splits
          simp flip: nr_hugepages_path_def free_path_def)
    with read_u64_fails [of os "free_path node" "''free_hugepages''" t1 e2 t2 node pages] 2
      failed_earlier [OF _ \<open>prefix t t1\<close>]
    show ?thesis by simp
  qed
qed

lemma counters_extend: "read_node_hugepage_counters os node t = (r, t') \<Longrightarrow> prefix t t' \<and> drops t' = drops t"
  by (auto simp: read_node_hugepage_counters_def Let_def bindR_def okR_def drops_def attempted_def
      split: prod.splits sum.splits dest!: read_u64_extends)

lemma write_fails: "write_node_nr_hugepages os node pages t = (Inl e, t') \<Longrightarrow> failed_call os node pages t t'"
  unfolding failed_call_def
  by (intro exI [of _ t] exI [of _ "EvWrite (nr_hugepages_path node) (show_nat (unat pages) @ nl) False"])
    (auto simp: write_node_nr_hugepages_def Let_def run_simps call_defs call_def)

lemma write_extends: "write_node_nr_hugepages os node pages t = (r, t') \<Longrightarrow> prefix t t' \<and> drops t' = drops t"
  by (auto simp: write_node_nr_hugepages_def Let_def act_simps call_defs nr_path_no_drop drops_def attempted_def
      split: prod.splits sum.splits)

lemma mount_fails: "ensure_hugetlbfs_mount os t = (Inl e, t') \<Longrightarrow> failed_call os node pages t t'"
  unfolding failed_call_def
  by (auto simp: ensure_hugetlbfs_mount_def mount_hugetlbfs_def Let_def run_simps call_defs call_def opt_res_def
      split: if_splits sum.splits mount_error.splits option.splits)

lemma mount_extends: "ensure_hugetlbfs_mount os t = (r, t') \<Longrightarrow> prefix t t' \<and> drops t' = drops t"
  by (auto simp: ensure_hugetlbfs_mount_def mount_hugetlbfs_def Let_def act_simps call_defs drops_def attempted_def
      HUGEPAGES_MARKER_def PROC_DROP_CACHES_def
      split: if_splits sum.splits mount_error.splits option.splits prod.splits)

lemma select_extends: "select_hugepage_node os cfg t = (r, t') \<Longrightarrow> prefix t t' \<and> drops t' = drops t"
proof -
  assume run: "select_hugepage_node os cfg t = (r, t')"
  have "io_emits (\<lambda>e. case e of EvWrite p c ok \<Rightarrow> p \<noteq> PROC_DROP_CACHES | _ \<Rightarrow> True) (select_hugepage_node os cfg)"
    unfolding select_hugepage_node_def node_candidate_def by (intro emits_intros) auto
  then obtain ev where "t' = t @ ev" "list_all (\<lambda>e. case e of EvWrite p c ok \<Rightarrow> p \<noteq> PROC_DROP_CACHES | _ \<Rightarrow> True) ev"
    using run by (rule emitsE)
  then show ?thesis by (simp add: no_drops)
qed

text \<open>How the attempts end, the first of them made at \<open>t\<close> and \<open>n\<close> in all.\<close>

definition attempts_end :: "os \<Rightarrow> nat \<Rightarrow> 64 word \<Rightarrow> nat \<Rightarrow> trace \<Rightarrow> unit result \<Rightarrow> trace \<Rightarrow> bool" where
  "attempts_end os node pages n t r t' \<longleftrightarrow>
     (case r of
        Inl e \<Rightarrow> failed_call os node pages t t' \<or>
          (if n = 0 then t' = t
           else \<exists>looks. looked os node pages t looks False t' \<and> length looks = n \<and> drops t' = drops t + n)
      | Inr u \<Rightarrow> \<exists>looks. looked os node pages t looks True t' \<and> length looks \<le> n \<and> drops t' = drops t + length looks)"

lemma attempts_end_later:
  assumes "attempts_end os node pages n t1 r t'" "prefix t p" "t1 = p @ [EvRead (free_path node)]"
    "enough_free os node pages p = Some False" "drops t1 = drops t + 1"
  shows "attempts_end os node pages (Suc n) t r t'"
proof -
  have pre: "prefix t t1" using assms(2,3) by simp
  have more: "looked os node pages t (p # looks) b t'" if "looked os node pages t1 looks b t'" for looks b
    using that assms(2-4) by (cases looks) auto
  show ?thesis
  proof (cases r)
    case (Inr u)
    with assms(1) obtain looks where "looked os node pages t1 looks True t'" "length looks \<le> n"
      "drops t' = drops t1 + length looks" by (auto simp: attempts_end_def)
    with more assms(5) Inr show ?thesis by (auto simp: attempts_end_def intro!: exI [of _ "p # looks"])
  next
    case (Inl e)
    with assms(1) consider "failed_call os node pages t1 t'" | "n = 0" "t' = t1"
      | looks where "looked os node pages t1 looks False t'" "length looks = n" "drops t' = drops t1 + n"
      by (auto simp: attempts_end_def split: if_splits)
    then show ?thesis
    proof cases
      case 1
      with Inl failed_earlier [OF 1 pre] show ?thesis by (simp add: attempts_end_def)
    next
      case 2
      with Inl assms(2-5) show ?thesis by (auto simp: attempts_end_def intro!: exI [of _ "[p]"])
    next
      case 3
      with Inl more assms(5) show ?thesis by (auto simp: attempts_end_def intro!: exI [of _ "p # looks"])
    qed
  qed
qed

lemma attempts_end_failed: "failed_call os node pages t t' \<Longrightarrow> attempts_end os node pages n t (Inl e) t'"
  by (simp add: attempts_end_def)

lemma provision_attempts_run:
  assumes "provision_attempts os node pages as nr fr (rt, t) = (r, (rt', t'))"
  shows "(case r of Inl e \<Rightarrow> rt' = rt | Inr u \<Rightarrow> \<exists>msg. rt' = record_hugepages node pages msg rt) \<and>
    attempts_end os node pages (length as) t r t'"
  using assms
proof (induction as arbitrary: nr fr t)
  case Nil
  then show ?case by (auto simp: errR_def attempts_end_def)
next
  case (Cons a as)
  let ?W = "\<lambda>nb. if nb < pages then write_node_nr_hugepages os node pages else okR ()"
  obtain r1 t1 where 1: "drop_caches_and_compact os t = (r1, t1)" by (metis prod.exhaust)
  obtain r2 t2 where 2: "read_node_hugepage_counters os node t1 = (r2, t2)" by (metis prod.exhaust)
  note d1 = drop_caches_counts [OF 1] and d2 = counters_extend [OF 2]
  show ?case
  proof (cases r2)
    case (Inl e)
    with Cons.prems 1 2 d1 have "r = Inl e" "rt' = rt" "t' = t2" by (auto simp: bindR_def onOs_def)
    with counters_fail [OF 2 [unfolded Inl], of pages] d1 show ?thesis
      by (auto intro: attempts_end_failed failed_earlier)
  next
    case (Inr c)
    obtain nb fb where ok: "r2 = Inr (nb, fb)" using Inr by (cases c) auto
    obtain r3 t3 where 3: "?W nb t2 = (r3, t3)" by (metis prod.exhaust)
    obtain r4 t4 where 4: "read_node_hugepage_counters os node t3 = (r4, t4)" by (metis prod.exhaust)
    have d3: "prefix t2 t3 \<and> drops t3 = drops t2"
      using 3 write_extends by (auto simp: okR_def split: if_splits)
    have p3: "prefix t t2" "prefix t t3" "drops t3 = drops t + 1"
      using d1 d2 d3 by (auto intro: prefix_order.trans)
    show ?thesis
    proof (cases "\<exists>v n4 f4. r3 = Inr v \<and> r4 = Inr (n4, f4)")
      case False
      then obtain e where res: "r = Inl e" "rt' = rt" "r3 = Inl e \<and> t' = t3 \<or> r4 = Inl e \<and> t' = t4"
        using Cons.prems 1 2 ok d1 3 4 by (auto simp: bindR_def onOs_def split: sum.splits)
      from res(3) have "failed_call os node pages t t'"
      proof
        assume a: "r3 = Inl e \<and> t' = t3"
        with 3 have "write_node_nr_hugepages os node pages t2 = (Inl e, t')" by (auto simp: okR_def split: if_splits)
        from failed_earlier [OF write_fails [OF this] p3(1)] show ?thesis .
      next
        assume a: "r4 = Inl e \<and> t' = t4"
        with 4 have "read_node_hugepage_counters os node t3 = (Inl e, t')" by simp
        from failed_earlier [OF counters_fail [OF this] p3(2)] show ?thesis .
      qed
      with res show ?thesis by (simp add: attempts_end_failed)
    next
      case True
      then obtain v n4 f4 where ok2: "r3 = Inr v" "r4 = Inr (n4, f4)" by blast
      obtain p where p: "prefix t3 p" "t4 = p @ [EvRead (free_path node)]" "enough_free os node pages p = Some (pages \<le> f4)"
        using counters_look [OF 4 [unfolded ok2]] by blast
      have pt: "prefix t p" using p3(2) p(1) by (rule prefix_order.trans)
      have d4: "drops t4 = drops t + 1" using counters_extend [OF 4] p3(3) by simp
      show ?thesis
      proof (cases "pages \<le> f4")
        case True
        then have "r = Inr () \<and> t' = t4 \<and> (\<exists>msg. rt' = record_hugepages node pages msg rt)"
          using Cons.prems 1 2 ok d1 3 4 ok2
          by (auto simp: bindR_def onOs_def andThen_def modify_def okR_def)
        with p pt d4 True show ?thesis by (auto simp: attempts_end_def intro!: exI [of _ "[p]"])
      next
        case False
        then have "provision_attempts os node pages as n4 f4 (rt, t4) = (r, (rt', t'))"
          using Cons.prems 1 2 ok d1 3 4 ok2 by (simp add: bindR_def onOs_def)
        note ih = Cons.IH [OF this]
        have "enough_free os node pages p = Some False" using p(3) False by simp
        from attempts_end_later [OF conjunct2 [OF ih] pt p(2) this d4] ih show ?thesis by simp
      qed
    qed
  qed
qed

text \<open>What provisioning may do to the machine.\<close>

fun is_provision_event :: "64 word \<Rightarrow> os_event \<Rightarrow> bool" where
  "is_provision_event pages (EvWrite p c ok) =
     ((\<exists>node. p = nr_hugepages_path node \<and> c = show_nat (unat pages) @ nl) \<or>
      (p, c) \<in> {(PROC_DROP_CACHES, ''3'' @ nl), (PROC_COMPACT_MEMORY, ''1'' @ nl),
                (HUGEPAGES_MARKER, ''chalybs'' @ nl)})"
| "is_provision_event pages (EvMount p ok) = (p = HUGEPAGES_MOUNT)"
| "is_provision_event pages (EvCreateDir p ok) = (p = HUGEPAGES_MOUNT \<or> p = ''/run/chalybs'')"
| "is_provision_event pages e = is_readonly e"

lemma counters_readonly [emits_intros]:
  "io_emits (is_provision_event pages) (read_node_hugepage_counters os node)"
  unfolding read_node_hugepage_counters_def read_u64_def Let_def by (intro emits_intros) auto

lemma drop_caches_event [emits_intros]: "io_emits (is_provision_event pages) (drop_caches_and_compact os)"
  unfolding drop_caches_and_compact_def by (intro emits_intros) auto

lemma write_node_event: "io_emits (is_provision_event pages) (write_node_nr_hugepages os node pages)"
  unfolding write_node_nr_hugepages_def Let_def by (intro emits_intros) auto

lemma mount_event [emits_intros]: "io_emits (is_provision_event pages) (ensure_hugetlbfs_mount os)"
  unfolding ensure_hugetlbfs_mount_def mount_hugetlbfs_def Let_def
  by (auto intro!: emits_intros split: sum.split mount_error.split)

lemma select_event [emits_intros]: "io_emits (is_provision_event pages) (select_hugepage_node os cfg)"
  unfolding select_hugepage_node_def node_candidate_def by (intro emits_intros) auto

lemma attempts_event [emits_intros]:
  "rt_emits (is_provision_event pages) (provision_attempts os node pages as nr fr)"
  by (induction as arbitrary: nr fr) (auto intro!: emits_intros write_node_event)

subsection \<open>Properties of the hugepage manager\<close>

text \<open>
  C31. The number of 2 MiB pages for a VM is half its megabytes, rounded up, as long as the 64-bit
  byte count does not wrap; the exact value for every word is that formula on the megabytes modulo
  \<open>2 ^ 44\<close>, and zero at the last residue, where the rounding itself wraps.
\<close>

theorem required_pages_exact:
  "unat (required_pages m) =
     (let k = unat m mod 2 ^ 44 in if k = 2 ^ 44 - 1 then 0 else (k + 1) div 2)"
  by (rule required_pages_nat)

lemma provision_run:
  "case provision_for_vm os (rt, t) of
     (r, (rt', t')) \<Rightarrow>
       (let cfg = rt_cfg rt; pages = required_pages (qc_mem_mb (vc_qemu cfg))
        in if \<not> qc_hugepages (vc_qemu cfg) then r = Inr () \<and> rt' = clear_hugepages rt \<and> t' = t
           else case select_hugepage_node os cfg t of
               (Inl e, t1) \<Rightarrow> r = Inl e \<and> rt' = rt \<and> t' = t1
             | (Inr node, t1) \<Rightarrow>
                 (case r of
                    Inl e \<Rightarrow>
                      rt' = rt \<and>
                      (failed_call os node pages t1 t' \<or>
                       (\<exists>looks. looked os node pages t1 looks False t' \<and> length looks = 4 \<and> drops t' = drops t1 + 3))
                  | Inr u \<Rightarrow>
                      (\<exists>msg. rt' = record_hugepages node pages msg rt) \<and>
                      (\<exists>looks. looked os node pages t1 looks True t' \<and> length looks \<le> 4 \<and>
                         drops t' + 1 = drops t1 + length looks)))"
proof (cases "qc_hugepages (vc_qemu (rt_cfg rt))")
  case False
  then show ?thesis by (simp add: provision_for_vm_def act_simps Let_def)
next
  case on: True
  let ?pages = "required_pages (qc_mem_mb (vc_qemu (rt_cfg rt)))"
  obtain r rt' t' where run: "provision_for_vm os (rt, t) = (r, (rt', t'))" by (metis prod.exhaust)
  obtain r1 t1 where 1: "select_hugepage_node os (rt_cfg rt) t = (r1, t1)" by (metis prod.exhaust)
  obtain r2 t2 where 2: "ensure_hugetlbfs_mount os t1 = (r2, t2)" by (metis prod.exhaust)
  note unf = provision_for_vm_def peek_def andThen_def bindR_def onOs_def Let_def
  note d2 = mount_extends [OF 2]
  show ?thesis
  proof (cases r1)
    case (Inl e)
    with run on 1 show ?thesis by (simp add: unf)
  next
    case node: (Inr node)
    obtain r3 t3 where 3: "read_node_hugepage_counters os node t2 = (r3, t3)" by (metis prod.exhaust)
    show ?thesis
    proof (cases "\<exists>u c. r2 = Inr u \<and> r3 = Inr c")
      case False
      then obtain e where res: "r = Inl e" "rt' = rt" "r2 = Inl e \<and> t' = t2 \<or> r3 = Inl e \<and> t' = t3"
        using run on 1 2 3 node by (auto simp: unf split: sum.splits)
      from res(3) have "failed_call os node ?pages t1 t'"
      proof
        assume "r2 = Inl e \<and> t' = t2"
        with mount_fails [of os t1 e t2 node ?pages] 2 show ?thesis by simp
      next
        assume "r3 = Inl e \<and> t' = t3"
        with counters_fail [of os node t2 e t' ?pages] 3 have "failed_call os node ?pages t2 t'" by simp
        then show ?thesis using d2 by (blast intro: failed_earlier)
      qed
      with run on 1 node res show ?thesis by (simp add: Let_def)
    next
      case True
      then obtain u nr free where ok: "r2 = Inr u" "r3 = Inr (nr, free)" by auto
      note look = 3 [unfolded ok]
      obtain p where p: "prefix t2 p" "t3 = p @ [EvRead (free_path node)]"
        "enough_free os node ?pages p = Some (?pages \<le> free)"
        using counters_look [OF look] by blast
      have pt: "prefix t1 p" using d2 p(1) by (blast intro: prefix_order.trans)
      have d3: "drops t3 = drops t1" using counters_extend [OF look] d2 by simp
      show ?thesis
      proof (cases "?pages \<le> free")
        case enough: True
        with run on 1 2 look ok node
        have "r = Inr () \<and> t' = t3 \<and> (\<exists>msg. rt' = record_hugepages node ?pages msg rt)"
          by (auto simp: unf modify_def okR_def)
        with run on 1 node p pt d3 enough show ?thesis
          by (auto simp: Let_def intro!: exI [of _ "[p]"])
      next
        case False
        with run on 1 2 look ok node
        have "provision_attempts os node ?pages [1..<MAX_ATTEMPTS + 1] nr free (rt, t3) = (r, (rt', t'))"
          by (simp add: unf)
        from provision_attempts_run [OF this]
        have att: "case r of Inl e \<Rightarrow> rt' = rt | Inr u \<Rightarrow> \<exists>msg. rt' = record_hugepages node ?pages msg rt"
          and fin: "attempts_end os node ?pages 3 t3 r t'"
          by (simp_all add: MAX_ATTEMPTS_def)
        have short: "enough_free os node ?pages p = Some False" using p(3) False by simp
        have more: "looked os node ?pages t1 (p # looks) b t'" if "looked os node ?pages t3 looks b t'" for looks b
          using that p(2) pt short by (cases looks) auto
        show ?thesis
        proof (cases r)
          case (Inl e)
          have "prefix t1 t3" using pt p(2) by simp
          from fin Inl consider "failed_call os node ?pages t3 t'"
            | looks where "looked os node ?pages t3 looks False t'" "length looks = 3" "drops t' = drops t1 + 3"
            by (auto simp: attempts_end_def d3)
          then have "failed_call os node ?pages t1 t' \<or>
             (\<exists>looks. looked os node ?pages t1 looks False t' \<and> length looks = 4 \<and> drops t' = drops t1 + 3)"
          proof cases
            case 1
            with failed_earlier [OF _ \<open>prefix t1 t3\<close>] show ?thesis by blast
          next
            case 2
            with more have "looked os node ?pages t1 (p # looks) False t'" "length (p # looks) = 4" by simp_all
            with 2(3) show ?thesis by blast
          qed
          with att run on 1 node Inl show ?thesis by (simp add: Let_def)
        next
          case (Inr v)
          with fin obtain looks where "looked os node ?pages t3 looks True t'" "length looks \<le> 3"
            "drops t' = drops t1 + length looks" by (auto simp: attempts_end_def d3)
          with att run on 1 node Inr more show ?thesis by (auto simp: Let_def intro!: exI [of _ "p # looks"])
        qed
      qed
    qed
  qed
qed


lemma provision_writes:
  "\<exists>ev. snd (snd (provision_for_vm os (rt, t))) = t @ ev \<and>
     list_all (is_provision_event (required_pages (qc_mem_mb (vc_qemu (rt_cfg rt))))) ev"
proof -
  let ?pages = "required_pages (qc_mem_mb (vc_qemu (rt_cfg rt)))"
  have "rt_emits (is_provision_event ?pages)
      (if \<not> qc_hugepages (vc_qemu (rt_cfg rt)) then
         andThen (modify clear_hugepages) (\<lambda>_. okR ())
       else
         bindR (onOs (select_hugepage_node os (rt_cfg rt))) (\<lambda>node.
           (let pages = ?pages
            in bindR (onOs (ensure_hugetlbfs_mount os)) (\<lambda>_.
               bindR (onOs (read_node_hugepage_counters os node)) (\<lambda>(nr_total, free_pages).
                 if pages \<le> free_pages then
                   andThen (modify (\<lambda>rt. record_hugepages node pages
                       (''hugepages: using existing '' @ pages_text pages node (rt_name rt)) rt)) (\<lambda>_. okR ())
                 else provision_attempts os node pages [1..<MAX_ATTEMPTS + 1] nr_total free_pages)))))"
    unfolding Let_def by (intro emits_intros)
  then show ?thesis
    unfolding provision_for_vm_def emits_def by (simp add: peek_def andThen_def)
qed

text \<open>
  C13. Provisioning: with hugepages off it only clears the record.  With them on it looks at the free pages
  of the chosen node, once at first and once more after each of up to three attempts at freeing memory,
  and stops at the first look that shows enough: then, and only then, it records node, page count and byte
  count.  Every error leaves the runtime as it was, and is that of the choice of the node, that of a mount,
  read or pool write that failed, or the shortage that all four looks showed.  It never writes anything but
  the required page count to a node's pool, the cache drop and compaction triggers and its own marker, and
  mounts nothing but the hugetlbfs directory.
\<close>

theorem provision_outcome:
  "(case provision_for_vm os (rt, t) of
     (r, (rt', t')) \<Rightarrow>
       (let cfg = rt_cfg rt; pages = required_pages (qc_mem_mb (vc_qemu cfg))
        in if \<not> qc_hugepages (vc_qemu cfg) then r = Inr () \<and> rt' = clear_hugepages rt \<and> t' = t
           else case select_hugepage_node os cfg t of
               (Inl e, t1) \<Rightarrow> r = Inl e \<and> rt' = rt \<and> t' = t1
             | (Inr node, t1) \<Rightarrow>
                 (case r of
                    Inl e \<Rightarrow>
                      rt' = rt \<and>
                      (failed_call os node pages t1 t' \<or>
                       (\<exists>looks. looked os node pages t1 looks False t' \<and> length looks = 4 \<and> drops t' = drops t1 + 3))
                  | Inr u \<Rightarrow>
                      (\<exists>msg. rt' = push_info msg
                         (rt\<lparr>rt_hugepages_node := Some node, rt_hugepages_pages := pages,
                            rt_hugepages_bytes := pages * 2097152, rt_hugepages_active := True\<rparr>)) \<and>
                      (\<exists>looks. looked os node pages t1 looks True t' \<and> length looks \<le> 4 \<and>
                         drops t' + 1 = drops t1 + length looks)))) \<and>
   (\<exists>ev. snd (snd (provision_for_vm os (rt, t))) = t @ ev \<and>
     list_all (is_provision_event (required_pages (qc_mem_mb (vc_qemu (rt_cfg rt))))) ev)"
proof -
  have size: "hugepage_size_bytes = 2097152" by (simp add: hugepage_size_bytes_def)
  show ?thesis
    using conjI [OF provision_run [where os = os and rt = rt and t = t] provision_writes]
    unfolding record_hugepages_def size .
qed

text \<open>
  Cleanup never fails.  For a VM without hugepages it does nothing at all; otherwise it resets the
  node's pool when a node is on record, then the global one, drops caches, compacts, and clears the
  record whatever these writes returned.
\<close>

theorem hugepage_cleanup:
  "case cleanup_for_vm os (rt, t) of
     (r, (rt', t')) \<Rightarrow>
       r = Inr () \<and>
       (if \<not> rt_hugepages_active rt then rt' = rt \<and> t' = t
        else
          rt' = push_info ''hugepages: cleanup completed for VM'' (clear_hugepages rt) \<and>
          attempted t' = attempted t @
            (case rt_hugepages_node rt of None \<Rightarrow> [] | Some n \<Rightarrow> [(nr_hugepages_path n, show_nat 0 @ nl)]) @
            [(PROC_NR_HUGEPAGES, ''0'' @ nl), (PROC_DROP_CACHES, ''3'' @ nl), (PROC_COMPACT_MEMORY, ''1'' @ nl)])"
proof (cases "rt_hugepages_active rt")
  case False
  then show ?thesis by (simp add: cleanup_for_vm_def act_simps)
next
  case True
  let ?node = "case rt_hugepages_node rt of Some node \<Rightarrow> onOs (write_node_nr_hugepages os node 0) | None \<Rightarrow> okR ()"
  let ?body = "andThen ?node (\<lambda>_.
    andThen (onOs (write_file os PROC_NR_HUGEPAGES (''0'' @ nl))) (\<lambda>_.
    andThen (onOs (drop_caches_and_compact os)) (\<lambda>_.
    andThen (onOs (cleanup_hugetlbfs_mount os)) (\<lambda>_.
    andThen (modify (\<lambda>rt. push_info ''hugepages: cleanup completed for VM'' (clear_hugepages rt))) (\<lambda>_. okR ())))))"
  have body: "cleanup_for_vm os (rt, t) = ?body (rt, t)"
    using True by (simp add: cleanup_for_vm_def peek_def andThen_def)
  have "attempts (\<lambda>t. t) ([(PROC_DROP_CACHES, ''3'' @ nl)] @ [(PROC_COMPACT_MEMORY, ''1'' @ nl)] @ [])
      (drop_caches_and_compact os)"
    unfolding drop_caches_and_compact_def by (intro attempts_intros)
  then have drop: "attempts (\<lambda>t. t) [(PROC_DROP_CACHES, ''3'' @ nl), (PROC_COMPACT_MEMORY, ''1'' @ nl)]
      (drop_caches_and_compact os)"
    by simp
  have unmount: "attempts (\<lambda>t. t) [] (cleanup_hugetlbfs_mount os)"
    unfolding cleanup_hugetlbfs_mount_def by (rule attempts_silent, intro emits_intros) simp_all
  have node: "attempts snd
      (case rt_hugepages_node rt of None \<Rightarrow> [] | Some n \<Rightarrow> [(nr_hugepages_path n, show_nat 0 @ nl)]) ?node"
  proof (cases "rt_hugepages_node rt")
    case (Some n)
    have "attempts (\<lambda>t. t) [(nr_hugepages_path n, show_nat (unat (0 :: 64 word)) @ nl)]
        (write_node_nr_hugepages os n 0)"
      unfolding write_node_nr_hugepages_def Let_def by (intro attempts_intros)
    with Some show ?thesis by (simp add: attempts_onOs)
  qed (simp add: attempts_okR)
  have all: "attempts snd
      ((case rt_hugepages_node rt of None \<Rightarrow> [] | Some n \<Rightarrow> [(nr_hugepages_path n, show_nat 0 @ nl)]) @
       [(PROC_NR_HUGEPAGES, ''0'' @ nl)] @
       [(PROC_DROP_CACHES, ''3'' @ nl), (PROC_COMPACT_MEMORY, ''1'' @ nl)] @ [] @ [] @ []) ?body"
    by (intro attempts_andThen node attempts_onOs attempts_write drop unmount attempts_modify attempts_okR)
  obtain r rt' t' where start: "cleanup_for_vm os (rt, t) = (r, (rt', t'))" by (metis prod.exhaust)
  then have run: "?body (rt, t) = (r, (rt', t'))" unfolding body .
  have "attempted t' = attempted t @
      (case rt_hugepages_node rt of None \<Rightarrow> [] | Some n \<Rightarrow> [(nr_hugepages_path n, show_nat 0 @ nl)]) @
      [(PROC_NR_HUGEPAGES, ''0'' @ nl), (PROC_DROP_CACHES, ''3'' @ nl), (PROC_COMPACT_MEMORY, ''1'' @ nl)]"
    using attemptsD [OF all run] by simp
  moreover have "r = Inr () \<and> rt' = push_info ''hugepages: cleanup completed for VM'' (clear_hugepages rt)"
    using run by (auto simp: andThen_def onOs_def modify_def okR_def split: prod.splits option.splits)
  ultimately show ?thesis using True by (simp add: start)
qed

end
