(* ===== verification/Chalybs_Cpuset.thy ===== *)
theory Chalybs_Cpuset
  imports Chalybs_Model
begin

text \<open>
  Cpusets, from \<^verbatim>\<open>core/src/cpuset/mod.rs\<close> and \<^verbatim>\<open>status.rs\<close>: NUMA discovery, the derived host
  CPUs, the two cgroup directories with their four files, and the status text.  A
  \<^verbatim>\<open>BTreeMap\<close> is an association list in key order.
\<close>

subsection \<open>NUMA topology\<close>

record numa_topology =
  nt_node_cpus :: "(nat \<times> nat list) list"
  nt_online_cpus :: "nat list"

fun bt_insert :: "nat \<Rightarrow> 'a \<Rightarrow> (nat \<times> 'a) list \<Rightarrow> (nat \<times> 'a) list" where
  "bt_insert k v [] = [(k, v)]"
| "bt_insert k v ((k', v') # m) =
     (if k < k' then (k, v) # (k', v') # m
      else if k = k' then (k, v) # m
      else (k', v') # bt_insert k v m)"

definition io_err :: "(io_error + 'a) io \<Rightarrow> 'a result io" where
  "io_err m = mapErr (\<lambda>e. Io (io_error_msg e)) m"

definition parse_sorted :: "string \<Rightarrow> nat list result" where
  "parse_sorted s =
     (case parse_cpu_list (trim s) of Inl e \<Rightarrow> Inl e | Inr cpus \<Rightarrow> Inr (sort_dedup cpus))"

definition numa_root :: path where
  "numa_root = ''/sys/devices/system/node''"

definition numa_entry :: "os \<Rightarrow> dir_entry \<Rightarrow> (nat \<times> nat list) list result io" where
  "numa_entry os ent =
     (case ent of
        EntryErr m \<Rightarrow> okR []
      | EntryNonUtf8 \<Rightarrow> okR []
      | Entry name \<Rightarrow>
          if \<not> starts_with ''node'' name then okR []
          else case parse_u32 (drop 4 name) of
              Inl e \<Rightarrow> okR []
            | Inr node_id \<Rightarrow>
                (let p = numa_root @ ''/'' @ name @ ''/cpulist''
                 in andThen (path_exists os p) (\<lambda>ex.
                      if \<not> ex then okR []
                      else bindR (io_err (read_to_string os p)) (\<lambda>s.
                        case parse_sorted s of Inl e \<Rightarrow> errR e | Inr cpus \<Rightarrow> okR [(node_id, cpus)]))))"

definition discover_numa_topology :: "os \<Rightarrow> numa_topology result io" where
  "discover_numa_topology os =
     bindR (io_err (read_to_string os ''/sys/devices/system/cpu/online'')) (\<lambda>online_str.
       case parse_sorted online_str of
         Inl e \<Rightarrow> errR e
       | Inr online_cpus \<Rightarrow>
           andThen (path_is_dir os numa_root) (\<lambda>isdir.
           bindR (if isdir then
                    bindR (io_err (read_dir os numa_root)) (\<lambda>entries. gatherR entries (numa_entry os))
                  else okR []) (\<lambda>found.
             (let node_cpus = foldl (\<lambda>m (k, v). bt_insert k v m) [] found
              in okR \<lparr>nt_node_cpus = (if node_cpus = [] then [(0, online_cpus)] else node_cpus),
                      nt_online_cpus = online_cpus\<rparr>))))"

definition nodes_for_cpus :: "numa_topology \<Rightarrow> nat list \<Rightarrow> nat list" where
  "nodes_for_cpus topo cpus =
     map fst (filter (\<lambda>(node, node_cpus). list_ex (\<lambda>c. c \<in> set cpus) node_cpus) (nt_node_cpus topo))"

definition format_node_list :: "nat list \<Rightarrow> string" where
  "format_node_list nodes = join '','' (map show_nat nodes)"

subsection \<open>Derived host CPUs\<close>

definition host_cpus_of :: "numa_topology \<Rightarrow> nat list \<Rightarrow> nat list" where
  "host_cpus_of topo vm_cpus =
     (let vm_nodes = nodes_for_cpus topo vm_cpus;
          host_nodes = filter (\<lambda>n. n \<notin> set vm_nodes) (map fst (nt_node_cpus topo))
      in if host_nodes \<noteq> [] then
           sort_dedup (concat (map (\<lambda>n. case map_of (nt_node_cpus topo) n of None \<Rightarrow> [] | Some cpus \<Rightarrow> cpus) host_nodes))
         else sort_dedup (filter (\<lambda>c. c \<notin> set vm_cpus) (nt_online_cpus topo)))"

definition derive_host_cpus_from_topology :: "os \<Rightarrow> nat list \<Rightarrow> nat list result io" where
  "derive_host_cpus_from_topology os vm_cpus =
     (if vm_cpus = [] then errR (Cgroup ''cannot derive host_cpus from empty vm_cpus'')
      else
        bindR (discover_numa_topology os) (\<lambda>topo.
          if nodes_for_cpus topo vm_cpus = [] then
            errR (Cgroup ''no NUMA nodes found for vm_cpus; topology inconsistent'')
          else
            (let host_cpus = host_cpus_of topo vm_cpus
             in if host_cpus = [] then
                  errR (Cgroup ''derived host_cpus is empty (vm_cpus may consume all CPUs)'')
                else okR host_cpus)))"

subsection \<open>The cgroup directories\<close>

definition preflight :: "os \<Rightarrow> unit result io" where
  "preflight os =
     andThen (path_is_dir os ''/sys/fs/cgroup'') (\<lambda>isdir.
       if \<not> isdir then errR (Cgroup ''/sys/fs/cgroup is not a directory or not mounted'') else okR ())"

definition cgroup_vm_path :: path where "cgroup_vm_path = ''/sys/fs/cgroup/vfio_vm''"
definition cgroup_host_path :: path where "cgroup_host_path = ''/sys/fs/cgroup/vfio_host''"

definition create_cpuset :: "os \<Rightarrow> unit result rt_act" where
  "create_cpuset os =
     andThen peek (\<lambda>rt.
     bindR (onOs (io_err (create_dir_all os cgroup_vm_path))) (\<lambda>_.
     bindR (onOs (io_err (create_dir_all os cgroup_host_path))) (\<lambda>_.
     bindR (onOs (discover_numa_topology os)) (\<lambda>topo.
       (let vm_cpus = vl_vm (rt_cpus rt); host_cpus = vl_host (rt_cpus rt)
        in if vm_cpus = [] then errR (Cgroup ''vm cpuset is empty; cannot create vfio_vm cpuset'')
           else if host_cpus = [] then errR (Cgroup ''host cpuset is empty; cannot create vfio_host cpuset'')
           else
             (let vm_nodes = nodes_for_cpus topo vm_cpus; host_nodes = nodes_for_cpus topo host_cpus
              in if vm_nodes = [] then errR (Cgroup ''no NUMA nodes found for vm_cpus when creating cpuset'')
                 else if host_nodes = [] then errR (Cgroup ''no NUMA nodes found for host_cpus when creating cpuset'')
                 else
                   bindR (onOs (io_err (write_file os (cgroup_vm_path @ ''/cpuset.cpus'') (format_cpu_list vm_cpus)))) (\<lambda>_.
                   bindR (onOs (io_err (write_file os (cgroup_vm_path @ ''/cpuset.mems'') (format_node_list vm_nodes)))) (\<lambda>_.
                   bindR (onOs (io_err (write_file os (cgroup_host_path @ ''/cpuset.cpus'') (format_cpu_list host_cpus)))) (\<lambda>_.
                   bindR (onOs (io_err (write_file os (cgroup_host_path @ ''/cpuset.mems'') (format_node_list host_nodes)))) (\<lambda>_.
                   andThen (modify (\<lambda>rt. rt\<lparr>rt_cgroups :=
                       Some \<lparr>cg_root = ''/sys/fs/cgroup'', cg_vm = cgroup_vm_path, cg_host = cgroup_host_path\<rparr>\<rparr>)) (\<lambda>_.
                     okR ())))))))))))"

definition destroy_cpuset :: "unit result rt_act" where
  "destroy_cpuset = okR ()"

subsection \<open>Status\<close>

definition read_opt :: "os \<Rightarrow> path \<Rightarrow> string option result io" where
  "read_opt os p =
     andThen (path_exists os p) (\<lambda>ex.
       if \<not> ex then okR None
       else bindR (io_err (read_to_string os p)) (\<lambda>s. okR (Some (trim s))))"

definition or_empty :: "string option \<Rightarrow> string" where
  "or_empty r = (case r of None \<Rightarrow> ''<empty>'' | Some s \<Rightarrow> s)"

definition eol :: string where "eol = [CHR 0x0A]"

definition cpuset_section :: "os \<Rightarrow> string \<Rightarrow> path \<Rightarrow> string result io" where
  "cpuset_section os label dir =
     andThen (path_exists os dir) (\<lambda>ex.
       if ex then
         bindR (read_opt os (dir @ ''/cpuset.cpus'')) (\<lambda>cpus.
         bindR (read_opt os (dir @ ''/cpuset.mems'')) (\<lambda>mems.
           okR (label @ '':'' @ eol @ ''  path: '' @ dir @ eol @ ''  cpus: '' @ or_empty cpus @ eol @
                ''  mems: '' @ or_empty mems @ eol)))
       else okR (label @ '':'' @ eol @ ''  <cpuset '' @ dir @ '' not present>'' @ eol))"

definition cpuset_status :: "os \<Rightarrow> string \<Rightarrow> string result io" where
  "cpuset_status os vm =
     bindR (cpuset_section os ''vm'' cgroup_vm_path) (\<lambda>v.
     bindR (cpuset_section os ''host'' cgroup_host_path) (\<lambda>h.
       okR (''VM: '' @ vm @ eol @ ''=== cpuset status ==='' @ eol @ v @ h)))"

subsection \<open>Lemmas\<close>

lemma map_of_bt_insert: "map_of (bt_insert k v m) x = (if x = k then Some v else map_of m x)"
  by (induction k v m rule: bt_insert.induct) auto

lemma keys_bt_insert: "fst ` set (bt_insert k v m) = insert k (fst ` set m)"
  by (induction k v m rule: bt_insert.induct) auto

definition strict_keys :: "(nat \<times> 'a) list \<Rightarrow> bool" where
  "strict_keys m = sorted_wrt (<) (map fst m)"

lemma strict_bt_insert: "strict_keys m \<Longrightarrow> strict_keys (bt_insert k v m)"
  unfolding strict_keys_def
proof (induction k v m rule: bt_insert.induct)
  case (2 k v k' v' m)
  have "fst ` set (bt_insert k v m) = insert k (fst ` set m)" by (rule keys_bt_insert)
  with 2 show ?case by (force simp: image_iff)
qed simp

lemma strict_fold: "strict_keys m \<Longrightarrow> strict_keys (foldl (\<lambda>m (k, v). bt_insert k v m) m xs)"
  by (induction xs arbitrary: m) (auto intro: strict_bt_insert split: prod.split)

lemma discover_strict:
  assumes "discover_numa_topology os t = (Inr topo, t')"
  shows "strict_keys (nt_node_cpus topo)" "sorted (nt_online_cpus topo)" "distinct (nt_online_cpus topo)"
  using assms strict_fold [of "[]"]
  by (auto simp: discover_numa_topology_def Let_def parse_sorted_def strict_keys_def
      elim!: bindR_ok andThen_eq split: sum.splits if_splits)

lemma numa_entry_readonly: "io_emits is_readonly (numa_entry os ent)"
  unfolding numa_entry_def io_err_def Let_def by (intro emits_intros) auto

lemma discover_readonly [emits_intros]: "io_emits is_readonly (discover_numa_topology os)"
  unfolding discover_numa_topology_def io_err_def Let_def
  by (intro emits_intros numa_entry_readonly) auto

lemma nodes_for_cpus_iff:
  "n \<in> set (nodes_for_cpus topo cpus) \<longleftrightarrow> (\<exists>cs. (n, cs) \<in> set (nt_node_cpus topo) \<and> set cs \<inter> set cpus \<noteq> {})"
  by (force simp: nodes_for_cpus_def list_ex_iff)

lemma strict_keys_distinct: "strict_keys m \<Longrightarrow> distinct (map fst m)"
  by (simp add: strict_keys_def strict_sorted_iff)

lemma sorted_nodes_for_cpus:
  assumes "strict_keys (nt_node_cpus topo)"
  shows "sorted_wrt (<) (nodes_for_cpus topo cpus)"
  using assms unfolding strict_keys_def nodes_for_cpus_def by (simp add: sorted_wrt_filter sorted_wrt_map)

lemma map_of_case_mem:
  "x \<in> set (case map_of m n of None \<Rightarrow> [] | Some cs \<Rightarrow> cs) \<Longrightarrow> \<exists>cs. (n, cs) \<in> set m \<and> x \<in> set cs"
  by (cases "map_of m n") (auto dest: map_of_SomeD)

lemma host_cpus_disjoint: "set (host_cpus_of topo vm_cpus) \<inter> set vm_cpus = {}"
proof -
  have False if x: "x \<in> set (host_cpus_of topo vm_cpus)" "x \<in> set vm_cpus" for x
  proof -
    from x obtain n where n: "n \<notin> set (nodes_for_cpus topo vm_cpus)"
      "x \<in> set (case map_of (nt_node_cpus topo) n of None \<Rightarrow> [] | Some cs \<Rightarrow> cs)"
      by (auto simp: host_cpus_of_def Let_def simp del: option.case split: if_splits)
    from map_of_case_mem [OF n(2)] n(1) x(2) show False by (auto simp: nodes_for_cpus_iff)
  qed
  then show ?thesis by blast
qed

lemma host_cpus_sorted: "sorted (host_cpus_of topo vm_cpus)" "distinct (host_cpus_of topo vm_cpus)"
  by (simp_all add: host_cpus_of_def Let_def)

text \<open>A successful creation, step by step.\<close>

lemma io_err_write:
  "io_err (write_file os p c) t = (Inr u, t') \<Longrightarrow> writes t' = writes t @ [(p, c, True)]"
  by (auto simp: io_err_def call_defs act_simps split: sum.splits)

lemma create_cpuset_run:
  assumes "create_cpuset os (rt, t) = (r, (rt', t'))"
  shows "case r of
      Inl e \<Rightarrow> rt' = rt
    | Inr u \<Rightarrow> rt_cgroups rt' = Some \<lparr>cg_root = ''/sys/fs/cgroup'', cg_vm = cgroup_vm_path, cg_host = cgroup_host_path\<rparr> \<and>
        rt' = rt\<lparr>rt_cgroups := rt_cgroups rt'\<rparr> \<and>
        (\<exists>topo t1 t2. discover_numa_topology os t1 = (Inr topo, t2) \<and>
          nodes_for_cpus topo (vl_vm (rt_cpus rt)) \<noteq> [] \<and> nodes_for_cpus topo (vl_host (rt_cpus rt)) \<noteq> [] \<and>
          writes t' = writes t @
            [(cgroup_vm_path @ ''/cpuset.cpus'', format_cpu_list (vl_vm (rt_cpus rt)), True),
             (cgroup_vm_path @ ''/cpuset.mems'', format_node_list (nodes_for_cpus topo (vl_vm (rt_cpus rt))), True),
             (cgroup_host_path @ ''/cpuset.cpus'', format_cpu_list (vl_host (rt_cpus rt)), True),
             (cgroup_host_path @ ''/cpuset.mems'', format_node_list (nodes_for_cpus topo (vl_host (rt_cpus rt))), True)])"
proof (cases r)
  case (Inl e)
  with assms show ?thesis
    by (auto simp: create_cpuset_def Let_def run_simps split: if_splits)
next
  case (Inr u)
  with assms obtain topo t1 t2 ta tb tc td te where
    disc: "discover_numa_topology os t1 = (Inr topo, t2)"
    and ne: "nodes_for_cpus topo (vl_vm (rt_cpus rt)) \<noteq> []" "nodes_for_cpus topo (vl_host (rt_cpus rt)) \<noteq> []"
    and dirs: "io_err (create_dir_all os cgroup_vm_path) t = (Inr (), ta)"
      "io_err (create_dir_all os cgroup_host_path) ta = (Inr (), t1)"
    and ws: "io_err (write_file os (cgroup_vm_path @ ''/cpuset.cpus'') (format_cpu_list (vl_vm (rt_cpus rt)))) t2 = (Inr (), tb)"
      "io_err (write_file os (cgroup_vm_path @ ''/cpuset.mems'') (format_node_list (nodes_for_cpus topo (vl_vm (rt_cpus rt))))) tb = (Inr (), tc)"
      "io_err (write_file os (cgroup_host_path @ ''/cpuset.cpus'') (format_cpu_list (vl_host (rt_cpus rt)))) tc = (Inr (), td)"
      "io_err (write_file os (cgroup_host_path @ ''/cpuset.mems'') (format_node_list (nodes_for_cpus topo (vl_host (rt_cpus rt))))) td = (Inr (), t')"
    and rt': "rt' = rt\<lparr>rt_cgroups := Some \<lparr>cg_root = ''/sys/fs/cgroup'', cg_vm = cgroup_vm_path, cg_host = cgroup_host_path\<rparr>\<rparr>"
    by (auto simp: create_cpuset_def Let_def run_simps split: if_splits)
  have "writes ta = writes t" "writes t1 = writes ta"
    using dirs by (auto simp: io_err_def call_defs act_simps split: sum.splits)
  moreover have "writes t2 = writes t1"
    using emits_readonly_writes [OF discover_readonly disc] by simp
  ultimately show ?thesis
    using Inr rt' disc ne ws [THEN io_err_write] by auto
qed

lemma derive_run:
  assumes "derive_host_cpus_from_topology os vm_cpus t = (Inr hs, t')"
  shows "\<exists>topo. discover_numa_topology os t = (Inr topo, t') \<and> hs = host_cpus_of topo vm_cpus \<and> hs \<noteq> []"
  using assms by (auto simp: derive_host_cpus_from_topology_def Let_def run_simps split: if_splits)

subsection \<open>Properties of cpusets\<close>

text \<open>
  Host CPUs derived from the topology are never empty, are sorted without repetition and never
  include a CPU of the VM; when some node holds no VM CPU they are exactly the CPUs of such nodes,
  and otherwise exactly the online CPUs outside the VM's set.
\<close>

theorem derived_host_cpus:
  "case derive_host_cpus_from_topology os vm_cpus t of
     (Inl e, t') \<Rightarrow> True
   | (Inr hs, t') \<Rightarrow>
       hs \<noteq> [] \<and> sorted hs \<and> distinct hs \<and> set hs \<inter> set vm_cpus = {} \<and>
       (\<exists>topo. discover_numa_topology os t = (Inr topo, t') \<and>
          (let free = filter (\<lambda>(n, cs). set cs \<inter> set vm_cpus = {}) (nt_node_cpus topo)
           in set hs = (if free \<noteq> [] then \<Union>(set ` snd ` set free)
                        else set (nt_online_cpus topo) - set vm_cpus)))"
proof -
  obtain r t' where run: "derive_host_cpus_from_topology os vm_cpus t = (r, t')" by (metis prod.exhaust)
  show ?thesis
  proof (cases r)
    case (Inr hs)
    from derive_run [OF run [unfolded Inr]] obtain topo where
      topo: "discover_numa_topology os t = (Inr topo, t')" and hs: "hs = host_cpus_of topo vm_cpus" "hs \<noteq> []"
      by blast
    have dist: "distinct (map fst (nt_node_cpus topo))"
      using discover_strict(1) [OF topo] by (rule strict_keys_distinct)
    let ?free = "filter (\<lambda>(n, cs). set cs \<inter> set vm_cpus = {}) (nt_node_cpus topo)"
    have unused: "n \<notin> set (nodes_for_cpus topo vm_cpus) \<longleftrightarrow> set cs \<inter> set vm_cpus = {}"
      if "(n, cs) \<in> set (nt_node_cpus topo)" for n cs
    proof -
      have "(n, ds) \<in> set (nt_node_cpus topo) \<longleftrightarrow> ds = cs" for ds
        using that dist by (metis eq_key_imp_eq_value)
      then show ?thesis by (auto simp: nodes_for_cpus_iff)
    qed
    have "filter (\<lambda>x. fst x \<notin> set (nodes_for_cpus topo vm_cpus)) (nt_node_cpus topo) = ?free"
    proof (rule filter_cong [OF refl])
      fix x assume x: "x \<in> set (nt_node_cpus topo)"
      then show "fst x \<notin> set (nodes_for_cpus topo vm_cpus) \<longleftrightarrow> (case x of (n, cs) \<Rightarrow> set cs \<inter> set vm_cpus = {})"
        using unused [of "fst x" "snd x"] by (simp add: case_prod_beta)
    qed
    then have hosts: "filter (\<lambda>n. n \<notin> set (nodes_for_cpus topo vm_cpus)) (map fst (nt_node_cpus topo)) = map fst ?free"
      by (simp add: filter_map comp_def)
    have lookup: "map_of (nt_node_cpus topo) n = Some cs" if "(n, cs) \<in> set ?free" for n cs
      using that dist by (auto intro: map_of_is_SomeI)
    have "set (concat (map (\<lambda>n. case map_of (nt_node_cpus topo) n of None \<Rightarrow> [] | Some cpus \<Rightarrow> cpus) (map fst ?free))) =
        \<Union>(set ` snd ` set ?free)"
      using lookup by (force simp del: set_filter)
    then have "set hs = (if ?free \<noteq> [] then \<Union>(set ` snd ` set ?free)
        else set (nt_online_cpus topo) - set vm_cpus)"
      using hs(1) by (simp add: host_cpus_of_def Let_def hosts del: set_concat) auto
    then show ?thesis
      unfolding run Inr prod.case sum.case Let_def
      using hs topo host_cpus_disjoint host_cpus_sorted by metis
  qed (simp add: run)
qed

text \<open>
  Creating the cpusets either fails and leaves the runtime as it was, or it wrote the VM's and
  the host's CPU lists and the NUMA nodes that hold one of their CPUs, in this order and each
  successfully, and recorded the cgroup paths and nothing else; neither node list is empty.
\<close>

theorem create_cpuset_outcome:
  "case create_cpuset os (rt, t) of
     (Inl e, (rt', t')) \<Rightarrow> rt' = rt
   | (Inr u, (rt', t')) \<Rightarrow>
       rt' = rt\<lparr>rt_cgroups := Some \<lparr>cg_root = ''/sys/fs/cgroup'', cg_vm = cgroup_vm_path, cg_host = cgroup_host_path\<rparr>\<rparr> \<and>
       (\<exists>topo t1 t2. discover_numa_topology os t1 = (Inr topo, t2) \<and>
          nodes_for_cpus topo (vl_vm (rt_cpus rt)) \<noteq> [] \<and> nodes_for_cpus topo (vl_host (rt_cpus rt)) \<noteq> [] \<and>
          writes t' = writes t @
            [(cgroup_vm_path @ ''/cpuset.cpus'', format_cpu_list (vl_vm (rt_cpus rt)), True),
             (cgroup_vm_path @ ''/cpuset.mems'', format_node_list (nodes_for_cpus topo (vl_vm (rt_cpus rt))), True),
             (cgroup_host_path @ ''/cpuset.cpus'', format_cpu_list (vl_host (rt_cpus rt)), True),
             (cgroup_host_path @ ''/cpuset.mems'', format_node_list (nodes_for_cpus topo (vl_host (rt_cpus rt))), True)])"
proof -
  obtain r rt' t' where run: "create_cpuset os (rt, t) = (r, (rt', t'))" by (metis prod.exhaust)
  from create_cpuset_run [OF run] show ?thesis
    unfolding run by (auto split: sum.splits)
qed

end
