(* ===== verification/Chalybs_Affinity.thy ===== *)
theory Chalybs_Affinity
  imports Chalybs_Cpuset
begin

text \<open>
  Pinning vCPU threads, from \<^verbatim>\<open>core/src/affinity.rs\<close>, and the wrappers of
  \<^verbatim>\<open>core/src/cpu/mod.rs\<close>.  The retry loop is a recursion over its 400 iterations.  The map from
  vCPU index to thread is a \<^verbatim>\<open>HashMap\<close>: an association list, walked in an order that is a
  parameter.
\<close>

definition is_ascii_digit :: "char \<Rightarrow> bool" where
  "is_ascii_digit c \<longleftrightarrow> 48 \<le> (of_char c :: nat) \<and> (of_char c :: nat) \<le> 57"

definition parse_vcpu_name :: "string \<Rightarrow> nat option" where
  "parse_vcpu_name name =
     (if \<not> starts_with ''CPU '' name then None
      else
        (let digits = takeWhile is_ascii_digit (drop 4 name)
         in if digits = [] then None else ok_opt (parse_u32 digits)))"

definition vcpu_of_task :: "task_entry \<Rightarrow> (int \<times> nat) list" where
  "vcpu_of_task e =
     (case e of
        TaskErr \<Rightarrow> []
      | TaskNoStat tid \<Rightarrow> []
      | Task tid comm u s \<Rightarrow> (case parse_vcpu_name comm of None \<Rightarrow> [] | Some idx \<Rightarrow> [(tid, idx)]))"

definition discover_vcpus :: "os \<Rightarrow> int \<Rightarrow> (int \<times> nat) list result io" where
  "discover_vcpus os pid =
     bindR (mapErr (\<lambda>e. Affinity (''procfs: failed to open /proc/'' @ show_int pid @ '': '' @ e))
              (proc_open os pid)) (\<lambda>_.
     bindR (mapErr (\<lambda>e. Affinity (''procfs: failed to list tasks for pid '' @ show_int pid @ '': '' @ e))
              (proc_tasks os pid)) (\<lambda>tasks.
       okR (concat (map vcpu_of_task tasks))))"

definition MAX_ITER :: nat where "MAX_ITER = 400"
definition SLEEP_MS :: nat where "SLEEP_MS = 5"

text \<open>\<^verbatim>\<open>indices.len() == expected\<close>, and then no index below \<^verbatim>\<open>expected\<close> missing.\<close>

definition vcpus_complete :: "nat \<Rightarrow> (int \<times> nat) list \<Rightarrow> bool" where
  "vcpus_complete expected threads =
     (let indices = remdups (map snd threads)
      in length indices = expected \<and> filter (\<lambda>v. v \<notin> set indices) [0..<expected] = [])"

fun wait_loop :: "os \<Rightarrow> int \<Rightarrow> nat \<Rightarrow> nat \<Rightarrow> unit result io" where
  "wait_loop os pid expected 0 =
     errR (Affinity (''timed out waiting for '' @ show_nat expected @ '' vCPU threads for QEMU pid '' @
       show_int pid @ '' via procfs''))"
| "wait_loop os pid expected (Suc n) =
     andThen (discover_vcpus os pid) (\<lambda>threads_res.
       if (case threads_res of Inr threads \<Rightarrow> vcpus_complete expected threads | Inl e \<Rightarrow> False) then okR ()
       else andThen (sleep_ms SLEEP_MS) (\<lambda>_. wait_loop os pid expected n))"

definition wait_for_qemu_threads_impl :: "os \<Rightarrow> vm_runtime \<Rightarrow> unit result io" where
  "wait_for_qemu_threads_impl os rt =
     (case rt_qemu rt of
        None \<Rightarrow> errR (Affinity ''QEMU state not present in runtime'')
      | Some q \<Rightarrow> wait_loop os (qs_pid q) (qc_num_vcpus (vc_qemu (rt_cfg rt))) MAX_ITER)"

subsection \<open>Pinning\<close>

text \<open>\<^verbatim>\<open>by_index.insert(idx, tid)\<close> in a loop: the last thread of an index wins.\<close>

definition index_threads :: "(int \<times> nat) list \<Rightarrow> (nat \<times> int) list" where
  "index_threads threads = foldl (\<lambda>m (tid, idx). hm_insert idx tid m) [] threads"

definition pin_one :: "os \<Rightarrow> nat list \<Rightarrow> nat \<times> int \<Rightarrow> unit result io" where
  "pin_one os vm_cpus item =
     (case item of (idx, tid) \<Rightarrow>
       if length vm_cpus \<le> idx then okR ()
       else
         (let host_cpu = vm_cpus ! idx
          in if os_cpu_set_max os \<le> host_cpu then
               errR (Affinity (''failed to build cpuset for vCPU '' @ show_nat idx @ '' (host CPU '' @
                 show_nat host_cpu @ ''): EINVAL: Invalid argument''))
             else
               mapErr (\<lambda>e. Affinity (''failed to set affinity: tid='' @ show_int tid @ '' vcpu='' @
                   show_nat idx @ '' cpu='' @ show_nat host_cpu @ '' err='' @ e))
                 (set_affinity os tid host_cpu)))"

definition pin_vcpus_impl ::
  "os \<Rightarrow> ((nat \<times> int) list \<Rightarrow> (nat \<times> int) list) \<Rightarrow> vm_runtime \<Rightarrow> unit result io" where
  "pin_vcpus_impl os hash_order rt =
     (case rt_qemu rt of
        None \<Rightarrow> errR (Affinity ''QEMU state not present in runtime'')
      | Some q \<Rightarrow>
          (let pid = qs_pid q; expected = qc_num_vcpus (vc_qemu (rt_cfg rt)); vm_cpus = vl_vm (rt_cpus rt)
           in if length vm_cpus < expected then
                errR (Affinity (''vm_cpus length '' @ show_nat (length vm_cpus) @ '' < expected num_vcpus '' @
                  show_nat expected))
              else
                bindR (discover_vcpus os pid) (\<lambda>threads.
                  (let by_index = index_threads threads;
                       missing = filter (\<lambda>idx. map_of by_index idx = None) [0..<expected]
                   in if missing \<noteq> [] then
                        errR (Affinity (''missing vCPU threads for indices: '' @ show_nats_debug missing))
                      else eachR (hash_order by_index) (pin_one os vm_cpus)))))"

subsection \<open>The orchestration layer\<close>

definition reserve_cpus :: "os \<Rightarrow> unit result rt_act" where
  "reserve_cpus os = create_cpuset os"

definition wait_for_qemu_threads :: "os \<Rightarrow> vm_runtime \<Rightarrow> unit result io" where
  "wait_for_qemu_threads os rt = wait_for_qemu_threads_impl os rt"

definition pin_vcpus ::
  "os \<Rightarrow> ((nat \<times> int) list \<Rightarrow> (nat \<times> int) list) \<Rightarrow> vm_runtime \<Rightarrow> unit result io" where
  "pin_vcpus os hash_order rt = pin_vcpus_impl os hash_order rt"

definition cleanup_cpus :: "unit result rt_act" where
  "cleanup_cpus = destroy_cpuset"

subsection \<open>Lemmas\<close>

lemma parse_vcpu_name_qemu:
  assumes "n \<le> u32_max" "case rest of [] \<Rightarrow> True | c # cs \<Rightarrow> \<not> is_ascii_digit c"
  shows "parse_vcpu_name (''CPU '' @ show_nat n @ rest) = Some n"
proof -
  have digits: "\<forall>c \<in> set (show_nat n). is_ascii_digit c"
    using show_nat_chars by (auto simp: is_ascii_digit_def)
  have "takeWhile is_ascii_digit (show_nat n @ rest) = show_nat n"
    using digits assms(2) by (auto simp: takeWhile_append2 split: list.splits)
  then show ?thesis
    using assms(1) by (simp add: parse_vcpu_name_def starts_with_def parse_u32_show_nat)
qed

lemma vcpus_complete_iff:
  "vcpus_complete expected threads \<longleftrightarrow> set (map snd threads) = {0..<expected}"
proof -
  have len: "length (remdups (map snd threads)) = card (set (map snd threads))"
    by (metis length_remdups_card_conv)
  have "set (map snd threads) = {0..<expected}"
    if "card (set (map snd threads)) = expected" "{0..<expected} \<subseteq> set (map snd threads)"
    using that by (metis List.finite_set card_atLeastLessThan card_subset_eq diff_zero)
  then show ?thesis
    by (auto simp: vcpus_complete_def Let_def len filter_empty_conv simp del: set_map)
qed

lemma discover_vcpus_readonly [emits_intros]: "io_emits is_readonly (discover_vcpus os pid)"
  unfolding discover_vcpus_def by (intro emits_intros) auto

lemma wait_loop_readonly [emits_intros]: "io_emits is_readonly (wait_loop os pid expected n)"
  by (induction n) (auto intro!: emits_intros)

lemma index_fold:
  "distinct (map fst m) \<Longrightarrow> distinct (map fst (foldl (\<lambda>m (tid, idx). hm_insert idx tid m) m ths))"
  by (induction ths arbitrary: m) (auto intro: distinct_hm_insert)

lemma index_threads_distinct: "distinct (map fst (index_threads ths))"
  using index_fold [of "[]" ths] by (simp add: index_threads_def)

text \<open>One look of the barrier at the state \<open>p\<close> of the outside world: what it asks, and whether it sees exactly the vCPUs expected.\<close>

definition looked_at :: "os \<Rightarrow> int \<Rightarrow> trace \<Rightarrow> trace" where
  "looked_at os pid p = p @ EvTasks pid # (if os_proc_open os p pid = None then [EvTasks pid] else [])"

definition vcpus_seen :: "os \<Rightarrow> int \<Rightarrow> trace \<Rightarrow> nat set option" where
  "vcpus_seen os pid p =
     (case (os_proc_open os p pid, os_tasks os (p @ [EvTasks pid]) pid) of
        (None, Inr tasks) \<Rightarrow> Some (snd ` set (concat (map vcpu_of_task tasks)))
      | _ \<Rightarrow> None)"

text \<open>The state of the world before look number \<open>k\<close> of a barrier that has not been passed yet.\<close>

primrec before_look :: "os \<Rightarrow> int \<Rightarrow> trace \<Rightarrow> nat \<Rightarrow> trace" where
  "before_look os pid t 0 = t"
| "before_look os pid t (Suc k) = looked_at os pid (before_look os pid t k) @ [EvSleep 5]"

lemma before_look_later: "before_look os pid (looked_at os pid t @ [EvSleep 5]) k = before_look os pid t (Suc k)"
  by (induction k) simp_all

lemma discover_run:
  obtains r where "discover_vcpus os pid t = (r, looked_at os pid t)"
    "(case r of Inr threads \<Rightarrow> vcpus_complete expected threads | Inl e \<Rightarrow> False) \<longleftrightarrow>
       vcpus_seen os pid t = Some {0..<expected}"
proof -
  have "snd (discover_vcpus os pid t) = looked_at os pid t \<and>
    ((case fst (discover_vcpus os pid t) of Inr threads \<Rightarrow> vcpus_complete expected threads | Inl e \<Rightarrow> False) \<longleftrightarrow>
       vcpus_seen os pid t = Some {0..<expected})"
    by (simp add: discover_vcpus_def looked_at_def vcpus_seen_def act_simps call_defs opt_res_def vcpus_complete_iff
        split: option.split sum.split)
  with that show ?thesis by (metis prod.collapse)
qed

lemma wait_loop_exact:
  "case wait_loop os pid expected n t of
     (Inl e, t') \<Rightarrow>
       list_all (\<lambda>k. vcpus_seen os pid (before_look os pid t k) \<noteq> Some {0..<expected}) [0..<n] \<and>
       t' = before_look os pid t n
   | (Inr u, t') \<Rightarrow>
       (\<exists>k. k < n \<and> vcpus_seen os pid (before_look os pid t k) = Some {0..<expected} \<and>
          list_all (\<lambda>j. vcpus_seen os pid (before_look os pid t j) \<noteq> Some {0..<expected}) [0..<k] \<and>
          t' = looked_at os pid (before_look os pid t k))"
proof (induction n arbitrary: t)
  case (Suc n)
  obtain r where 1: "discover_vcpus os pid t = (r, looked_at os pid t)"
    and seen: "(case r of Inr threads \<Rightarrow> vcpus_complete expected threads | Inl e \<Rightarrow> False) \<longleftrightarrow>
       vcpus_seen os pid t = Some {0..<expected}"
    by (rule discover_run)
  show ?case
  proof (cases "vcpus_seen os pid t = Some {0..<expected}")
    case True
    with 1 seen show ?thesis by (auto simp: andThen_def okR_def intro!: exI [of _ 0])
  next
    case False
    let ?t = "looked_at os pid t @ [EvSleep 5]"
    have later: "before_look os pid ?t = (\<lambda>k. before_look os pid t (Suc k))"
      by (rule ext) (rule before_look_later)
    have run: "wait_loop os pid expected (Suc n) t = wait_loop os pid expected n ?t"
      using False 1 seen by (simp add: andThen_def call_defs call_def SLEEP_MS_def)
    have all: "list_all (\<lambda>k. vcpus_seen os pid (before_look os pid t k) \<noteq> Some {0..<expected}) [0..<Suc k]"
      if "list_all (\<lambda>k. vcpus_seen os pid (before_look os pid t (Suc k)) \<noteq> Some {0..<expected}) [0..<k]" for k
      unfolding list_all_iff
    proof
      fix j assume "j \<in> set [0..<Suc k]"
      with that False show "vcpus_seen os pid (before_look os pid t j) \<noteq> Some {0..<expected}"
        by (cases j) (auto simp: list_all_iff simp del: before_look.simps(2))
    qed
    obtain r' t' where res: "wait_loop os pid expected n ?t = (r', t')" by (metis prod.exhaust)
    note ih = Suc.IH [of ?t, unfolded later res]
    show ?thesis
    proof (cases r')
      case (Inl e)
      with ih all [of n] show ?thesis by (simp add: run res del: wait_loop.simps before_look.simps(2) upt_Suc)
    next
      case (Inr u)
      with ih obtain k where "k < n" "vcpus_seen os pid (before_look os pid t (Suc k)) = Some {0..<expected}"
        "list_all (\<lambda>k. vcpus_seen os pid (before_look os pid t (Suc k)) \<noteq> Some {0..<expected}) [0..<k]"
        "t' = looked_at os pid (before_look os pid t (Suc k))" by auto
      with all [of k] Inr show ?thesis
        by (auto simp: run res simp del: wait_loop.simps before_look.simps(2) upt_Suc intro!: exI [of _ "Suc k"])
    qed
  qed
qed (simp add: errR_def)

text \<open>The map from index to thread: of several threads with one index the last one listed is kept.\<close>

lemma index_threads_last: "map_of (index_threads ths) = map_of (rev (map prod.swap ths))"
proof -
  have "map_of (foldl (\<lambda>m (tid, idx). hm_insert idx tid m) m ths) = map_of m ++ map_of (rev (map prod.swap ths))" for m
    by (induction ths arbitrary: m) (auto simp: fun_eq_iff map_add_def split: option.split)
  from this [of "[]"] show ?thesis by (simp add: index_threads_def)
qed

lemma pin_all_events:
  "eachR items (pin_one os cpus) t = (Inr u, t') \<Longrightarrow>
   t' = t @ map (\<lambda>(idx, tid). EvSetAffinity tid (cpus ! idx) True) (filter (\<lambda>(idx, tid). idx < length cpus) items)"
proof (induction items arbitrary: t)
  case (Cons i items)
  obtain idx tid where i: "i = (idx, tid)" by (cases i)
  from Cons.prems obtain v t1 where
    1: "pin_one os cpus (idx, tid) t = (Inr v, t1)" and 2: "eachR items (pin_one os cpus) t1 = (Inr u, t')"
    by (auto simp: i run_simps)
  have "t1 = t @ (if idx < length cpus then [EvSetAffinity tid (cpus ! idx) True] else [])"
    using 1 by (auto simp: pin_one_def Let_def act_simps call_defs split: if_splits sum.splits)
  with Cons.IH [OF 2] show ?case by (simp add: i)
qed (simp add: okR_def)

subsection \<open>Properties of pinning\<close>

text \<open>
  C29. The readiness barrier looks, and sleeps five milliseconds after every look that did not show exactly
  the vCPU indices from 0 to the configured number; at the first look that does it returns success, and
  after 400 looks that did not it gives up.  Looking and sleeping is all it does.
\<close>

theorem vcpu_barrier:
  "case wait_loop os pid expected MAX_ITER t of
     (Inl e, t') \<Rightarrow>
       list_all (\<lambda>k. vcpus_seen os pid (before_look os pid t k) \<noteq> Some {0..<expected}) [0..<400] \<and>
       t' = before_look os pid t 400
   | (Inr u, t') \<Rightarrow>
       (\<exists>k. k < 400 \<and> vcpus_seen os pid (before_look os pid t k) = Some {0..<expected} \<and>
          list_all (\<lambda>j. vcpus_seen os pid (before_look os pid t j) \<noteq> Some {0..<expected}) [0..<k] \<and>
          t' = looked_at os pid (before_look os pid t k))"
  using wait_loop_exact [where n = MAX_ITER] unfolding MAX_ITER_def .

text \<open>
  C30. Pinning that succeeds has listed QEMU's threads once, and done nothing else but put threads on CPUs,
  every call successful: it walks the map of vCPU indices to threads, in whatever order the map has, and
  sets each thread whose index lies within the VM's CPU list to the CPU at that index.  The map has
  every index seen exactly once, with the last thread listed for it, and every index below the
  configured number of vCPUs is in it.
\<close>

theorem pin_vcpus_complete:
  "case pin_vcpus os hash_order rt t of
     (Inl e, t') \<Rightarrow> True
   | (Inr u, t') \<Rightarrow>
       (\<exists>q tasks by_index.
          rt_qemu rt = Some q \<and> os_tasks os (t @ [EvTasks (qs_pid q)]) (qs_pid q) = Inr tasks \<and>
          distinct (map fst by_index) \<and>
          map_of by_index = map_of (rev (map prod.swap (concat (map vcpu_of_task tasks)))) \<and>
          list_all (\<lambda>idx. map_of by_index idx \<noteq> None) [0..<qc_num_vcpus (vc_qemu (rt_cfg rt))] \<and>
          qc_num_vcpus (vc_qemu (rt_cfg rt)) \<le> length (vl_vm (rt_cpus rt)) \<and>
          t' = t @ [EvTasks (qs_pid q), EvTasks (qs_pid q)] @
            map (\<lambda>(idx, tid). EvSetAffinity tid (vl_vm (rt_cpus rt) ! idx) True)
              (filter (\<lambda>(idx, tid). idx < length (vl_vm (rt_cpus rt))) (hash_order by_index)))"
proof -
  obtain r t' where run: "pin_vcpus os hash_order rt t = (r, t')" by (metis prod.exhaust)
  show ?thesis
  proof (cases r)
    case (Inr u)
    with run obtain q :: qemu_state and threads t1 where
      q: "rt_qemu rt = Some q"
      and enough: "qc_num_vcpus (vc_qemu (rt_cfg rt)) \<le> length (vl_vm (rt_cpus rt))"
      and disc: "discover_vcpus os (qs_pid q) t = (Inr threads, t1)"
      and all: "filter (\<lambda>idx. map_of (index_threads threads) idx = None)
          [0..<qc_num_vcpus (vc_qemu (rt_cfg rt))] = []"
      and pins: "eachR (hash_order (index_threads threads)) (pin_one os (vl_vm (rt_cpus rt))) t1 = (Inr u, t')"
      by (auto simp: pin_vcpus_def pin_vcpus_impl_def Let_def run_simps split: option.splits if_splits)
    from disc obtain tasks where tasks: "os_tasks os (t @ [EvTasks (qs_pid q)]) (qs_pid q) = Inr tasks"
      "threads = concat (map vcpu_of_task tasks)" "t1 = t @ [EvTasks (qs_pid q), EvTasks (qs_pid q)]"
      by (auto simp: discover_vcpus_def act_simps call_defs split: sum.splits)
    have "list_all (\<lambda>idx. map_of (index_threads threads) idx \<noteq> None) [0..<qc_num_vcpus (vc_qemu (rt_cfg rt))]"
      using all by (simp add: filter_empty_conv list_all_iff)
    with q enough tasks pin_all_events [OF pins] show ?thesis
      unfolding run Inr prod.case sum.case
      by (intro exI [of _ q] exI [of _ tasks] exI [of _ "index_threads threads"] conjI)
        (simp_all add: index_threads_distinct index_threads_last)
  qed (simp add: run)
qed

end
