(* ===== verification/Chalybs_Qemu.thy ===== *)
theory Chalybs_Qemu
  imports Chalybs_Model
begin

text \<open>
  QEMU, from \<^verbatim>\<open>core/src/qemu.rs\<close>: the preflight, the command builder with its ten sections, the
  CPU argument, the PCI slot allocator, the Looking Glass shared memory file, launch and shutdown.
\<close>

definition qemu_preflight :: "os \<Rightarrow> vm_runtime \<Rightarrow> unit result io" where
  "qemu_preflight os rt =
     (let q = vc_qemu (rt_cfg rt)
      in andThen (path_exists os (qc_binary q)) (\<lambda>b.
           if \<not> b then errR (Qemu (''QEMU binary not found: '' @ qc_binary q))
           else andThen (path_exists os (qc_ovmf_code q)) (\<lambda>c.
             if \<not> c then errR (Qemu (''OVMF code not found: '' @ qc_ovmf_code q))
             else andThen (path_exists os (qc_ovmf_vars q)) (\<lambda>v.
               if \<not> v then errR (Qemu (''OVMF vars not found: '' @ qc_ovmf_vars q)) else okR ()))))"

definition qmp_path_for_vm :: "string \<Rightarrow> string" where
  "qmp_path_for_vm vm_name = ''/run/chalybs/'' @ vm_name @ ''.qmp''"

record qemu_command =
  qx_binary :: string
  qx_args :: "string list"
  qx_qmp_path :: string

subsection \<open>The CPU argument\<close>

definition trimmed :: "string option \<Rightarrow> string" where
  "trimmed s = (case s of None \<Rightarrow> [] | Some v \<Rightarrow> trim v)"

definition cpu_base :: "raw_cpuid option \<Rightarrow> qemu_config \<Rightarrow> string" where
  "cpu_base cpuid q =
     (let raw_model = trimmed (qc_cpu_model q)
      in if raw_model \<noteq> [] then
           (if eq_ignore_ascii_case raw_model ''auto'' then
              (case autodetect_qemu_cpu_model cpuid of Some model \<Rightarrow> model | None \<Rightarrow> ''host'')
            else raw_model)
         else case qc_cpu_extras q of
             Some extra \<Rightarrow> if trimmed (ce_abi extra) \<noteq> [] then trimmed (ce_abi extra) else ''host''
           | None \<Rightarrow> ''host'')"

definition build_cpu_arg :: "raw_cpuid option \<Rightarrow> vm_runtime \<Rightarrow> string" where
  "build_cpu_arg cpuid rt =
     (let q = vc_qemu (rt_cfg rt); base = cpu_base cpuid q
      in case qc_cpu_extras q of
           None \<Rightarrow> base
         | Some extra \<Rightarrow>
             join '','' (base # filter (\<lambda>s. s \<noteq> [])
               [trimmed (ce_topo extra), trimmed (ce_hv_contexts extra), trimmed (ce_vendor_id extra)]))"

subsection \<open>SMBIOS and RTC\<close>

definition smbios_part :: "string \<Rightarrow> string option \<Rightarrow> string list" where
  "smbios_part key v = (case v of None \<Rightarrow> [] | Some s \<Rightarrow> if s = [] then [] else [key @ s])"

definition smbios_args :: "string \<Rightarrow> string list \<Rightarrow> string list" where
  "smbios_args ty parts = (if parts = [] then [] else [''-smbios'', ''type='' @ ty @ '','' @ join '','' parts])"

definition apply_smbios_args :: "vm_runtime \<Rightarrow> string list" where
  "apply_smbios_args rt =
     (case qc_smbios (vc_qemu (rt_cfg rt)) of
        None \<Rightarrow> []
      | Some smb \<Rightarrow>
          smbios_args ''0'' (smbios_part ''vendor='' (sm_bios_vendor smb) @
            smbios_part ''version='' (sm_bios_version smb) @ smbios_part ''date='' (sm_bios_date smb)) @
          smbios_args ''1'' (smbios_part ''manufacturer='' (sm_system_manufacturer smb) @
            smbios_part ''product='' (sm_system_product_name smb) @ smbios_part ''uuid='' (sm_system_uuid smb)) @
          smbios_args ''2'' (smbios_part ''manufacturer='' (sm_baseboard_manufacturer smb) @
            smbios_part ''product='' (sm_baseboard_product smb)))"

definition apply_rtc_args :: "vm_runtime \<Rightarrow> string list" where
  "apply_rtc_args rt =
     (let val = trimmed (qc_rtc (vc_qemu (rt_cfg rt)))
      in [''-rtc'', if val \<noteq> [] then val else ''base=localtime,driftfix=slew''])"

subsection \<open>Slots\<close>

definition parse_rootport_slot :: "string \<Rightarrow> string \<Rightarrow> string \<Rightarrow> nat result" where
  "parse_rootport_slot vm_name bdf addr =
     (let bad = Inl (Config (''vm '' @ vm_name @ '': invalid pci_rootport address '' @ quoted addr @
            '' for device '' @ bdf @ ''; expected '' @ quoted ''0xNN'' @ '' with NN in 00-1f''))
      in if length addr \<noteq> 4 \<or> \<not> (starts_with ''0x'' addr \<or> starts_with ''0X'' addr) then bad
         else case parse_unsigned 16 u8_max (drop 2 addr) of
             Inl e \<Rightarrow> bad
           | Inr slot \<Rightarrow>
               if 31 < slot then
                 Inl (Config (''vm '' @ vm_name @ '': pci_rootport address '' @ quoted addr @ '' for device '' @
                   bdf @ '' is out of range; valid slot range is 0x00-0x1f''))
               else Inr slot)"

definition slot_text :: "nat \<Rightarrow> string" where
  "slot_text slot = ''0x'' @ show_hex_pad 2 slot"

definition kind_entries :: "nat \<Rightarrow> pci_device_config list option \<Rightarrow> (nat \<times> string) list" where
  "kind_entries priority devs =
     (case devs of None \<Rightarrow> [] | Some ds \<Rightarrow> map (\<lambda>d. (priority, pd_pci_address d)) ds)"

definition rootport_entries :: "devices_config \<Rightarrow> (nat \<times> string) list" where
  "rootport_entries d =
     kind_entries 0 (dv_gpu d) @ kind_entries 1 (dv_nvme d) @ kind_entries 2 (dv_nic d) @ kind_entries 3 (dv_usb d)"

text \<open>The overrides, in the map's order: the slot map and the slots in use.\<close>

fun seed_overrides ::
  "string \<Rightarrow> string list \<Rightarrow> (string \<times> string) list \<Rightarrow> (string \<times> nat) list \<Rightarrow> nat list \<Rightarrow>
   ((string \<times> nat) list \<times> nat list) result" where
  "seed_overrides vm configured [] m used = Inr (m, used)"
| "seed_overrides vm configured ((bdf, addr) # rest) m used =
     (if bdf \<notin> set configured then
        Inl (Config (''vm '' @ vm @ '': pci_rootport override for device '' @ bdf @
          '' which is not configured under vm.'' @ vm @ ''.devices''))
      else case parse_rootport_slot vm bdf addr of
          Inl e \<Rightarrow> Inl e
        | Inr slot \<Rightarrow>
            if slot \<in> set used then
              Inl (Config (''vm '' @ vm @ '': pci_rootport slot '' @ quoted addr @
                '' is assigned to more than one device''))
            else seed_overrides vm configured rest (hm_insert bdf slot m) (slot # used))"

text \<open>
  \<^verbatim>\<open>while used_slots.contains(&next_slot)\<close> with \<^verbatim>\<open>saturating_add\<close> on \<^verbatim>\<open>u8\<close>: the loop would
  spin for ever only at 255 in use, which no slot ever is (lemma \<open>next_free_unused\<close>).
\<close>

function next_free :: "nat list \<Rightarrow> nat \<Rightarrow> nat" where
  "next_free used n = (if n \<in> set used \<and> n < u8_max then next_free used (n + 1) else n)"
  by auto
termination by (relation "measure (\<lambda>(used, n). u8_max - n)") auto

declare next_free.simps [simp del]

fun assign_slots ::
  "string \<Rightarrow> string list \<Rightarrow> (string \<times> nat) list \<Rightarrow> nat list \<Rightarrow> nat \<Rightarrow> (string \<times> nat) list result" where
  "assign_slots vm [] m used next_slot = Inr m"
| "assign_slots vm (bdf # rest) m used next_slot =
     (if map_of m bdf \<noteq> None then assign_slots vm rest m used next_slot
      else
        (let slot = next_free used next_slot
         in if 31 < slot then
              Inl (Config (''vm '' @ vm @ '': more passthrough devices than available PCIe root-port slots (0x01-0x1f)''))
            else assign_slots vm rest (hm_insert bdf slot m) (slot # used) (min u8_max (slot + 1))))"

definition rootport_slots :: "vm_runtime \<Rightarrow> (string \<times> nat) list result" where
  "rootport_slots rt =
     (let entries = sort (rootport_entries (vc_devices (rt_cfg rt))); bdfs = map snd entries
      in if entries = [] then Inr []
         else case (case qc_pci_rootport (vc_qemu (rt_cfg rt)) of
                      None \<Rightarrow> Inr ([], [])
                    | Some overrides \<Rightarrow> seed_overrides (rt_name rt) bdfs overrides [] []) of
             Inl e \<Rightarrow> Inl e
           | Inr (m, used) \<Rightarrow> assign_slots (rt_name rt) bdfs m used 1)"

definition build_pci_rootport_map :: "vm_runtime \<Rightarrow> (string \<times> string) list result" where
  "build_pci_rootport_map rt =
     (case rootport_slots rt of Inl e \<Rightarrow> Inl e | Inr m \<Rightarrow> Inr (map (\<lambda>(b, s). (b, slot_text s)) m))"

subsection \<open>VFIO devices\<close>

definition apply_rootport_mapping :: "string \<Rightarrow> (string \<times> string) list \<Rightarrow> string" where
  "apply_rootport_mapping bdf pci_rootport =
     (case map_of pci_rootport bdf of None \<Rightarrow> [] | Some addr \<Rightarrow> '',bus=pcie.0'' @ '',addr='' @ addr)"

definition rombar_part :: "string list \<Rightarrow> string \<Rightarrow> string" where
  "rombar_part rombar_list bdf = (if bdf \<in> set rombar_list then '',rombar=0'' else [])"

definition gpu_device_args ::
  "qemu_config \<Rightarrow> string list \<Rightarrow> (string \<times> string) list \<Rightarrow> nat \<Rightarrow> nat \<times> pci_device_config \<Rightarrow> string list" where
  "gpu_device_args q rombar_list slots count item =
     (case item of (idx, dev) \<Rightarrow>
       [''-device'', ''vfio-pci,'' @ ''host='' @ pd_pci_address dev @
         (if idx = 0 \<and> qc_legacy_primary_gpu q \<and> 1 < count then '',multifunction=on,x-vga=on'' else []) @
         rombar_part rombar_list (pd_pci_address dev) @
         apply_rootport_mapping (pd_pci_address dev) slots])"

definition generic_device_args ::
  "string list \<Rightarrow> (string \<times> string) list \<Rightarrow> pci_device_config list option \<Rightarrow> string list" where
  "generic_device_args rombar_list slots devs =
     (case devs of
        None \<Rightarrow> []
      | Some ds \<Rightarrow>
          concat (map (\<lambda>dev. [''-device'', ''vfio-pci,'' @ ''host='' @ pd_pci_address dev @
              rombar_part rombar_list (pd_pci_address dev) @
              apply_rootport_mapping (pd_pci_address dev) slots]) ds))"

definition add_vfio_pci_devices :: "vm_runtime \<Rightarrow> string list result" where
  "add_vfio_pci_devices rt =
     (let d = vc_devices (rt_cfg rt); q = vc_qemu (rt_cfg rt);
          rombar_list = (case qc_rombar_off q of None \<Rightarrow> [] | Some l \<Rightarrow> l)
      in case build_pci_rootport_map rt of
           Inl e \<Rightarrow> Inl e
         | Inr slots \<Rightarrow>
             Inr ((case dv_gpu d of
                     None \<Rightarrow> []
                   | Some gpus \<Rightarrow>
                       concat (map (gpu_device_args q rombar_list slots (length gpus)) (enumerate 0 gpus))) @
                  generic_device_args rombar_list slots (dv_nvme d) @
                  generic_device_args rombar_list slots (dv_nic d) @
                  generic_device_args rombar_list slots (dv_usb d)))"

subsection \<open>The builder\<close>

definition apply_pre_args :: "vm_runtime \<Rightarrow> string list" where
  "apply_pre_args rt =
     (case qc_pre_args (vc_qemu (rt_cfg rt)) of None \<Rightarrow> [] | Some pre \<Rightarrow> split_whitespace pre)"

definition apply_core_args :: "raw_cpuid option \<Rightarrow> vm_runtime \<Rightarrow> string list" where
  "apply_core_args cpuid rt =
     (let q = vc_qemu (rt_cfg rt)
      in [''-enable-kvm'', ''-cpu'', build_cpu_arg cpuid rt, ''-smp'', show_nat (qc_num_vcpus q),
          ''-m'', show_nat (unat (qc_mem_mb q))] @
         (if rt_hugepages_active rt then [''-mem-prealloc'', ''-mem-path'', ''/dev/hugepages''] else []))"

definition apply_machine_and_firmware :: "vm_runtime \<Rightarrow> string list" where
  "apply_machine_and_firmware rt =
     (let q = vc_qemu (rt_cfg rt)
      in [''-machine'', ''q35,accel=kvm'',
          ''-drive'', ''if=pflash,format=raw,readonly=on,file='' @ qc_ovmf_code q,
          ''-drive'', ''if=pflash,format=raw,file='' @ qc_ovmf_vars q,
          ''-qmp'', ''unix:'' @ qmp_path_for_vm (rt_name rt) @ '',server,nowait''])"

definition looking_glass_of :: "vm_runtime \<Rightarrow> looking_glass_config option" where
  "looking_glass_of rt = Option.bind (vc_peripherals (rt_cfg rt)) pc_looking_glass"

definition spice_of :: "vm_runtime \<Rightarrow> spice_config option" where
  "spice_of rt = Option.bind (vc_peripherals (rt_cfg rt)) pc_spice"

definition apply_looking_glass :: "vm_runtime \<Rightarrow> string list" where
  "apply_looking_glass rt =
     (case looking_glass_of rt of
        None \<Rightarrow> []
      | Some lg \<Rightarrow>
          if lg_mem_mb lg = 0 then []
          else [''-object'', ''memory-backend-file,id=ivshmem,share=on,mem-path='' @ lg_shm_name lg @
                 '',size='' @ show_nat (unat (lg_mem_mb lg)) @ ''M'',
                ''-device'', ''ivshmem-plain,memdev=ivshmem,bus=pcie.0''])"

definition apply_spice :: "vm_runtime \<Rightarrow> string list result" where
  "apply_spice rt =
     (case spice_of rt of
        None \<Rightarrow> Inr []
      | Some spice \<Rightarrow>
          if \<not> sp_enabled spice then Inr []
          else if sp_port spice = 0 then
            Inl (Qemu (''vm '' @ rt_name rt @ '': peripherals.spice.enabled = true but port=0; please set a valid SPICE TCP port''))
          else if trim (sp_addr spice) = [] then
            Inl (Qemu (''vm '' @ rt_name rt @ '': peripherals.spice.enabled = true but addr is empty; please set peripherals.spice.addr''))
          else
            Inr [''-device'', ''virtio-serial-pci,id=virtio-serial0,max_ports=16,bus=pcie.0,addr=0x10'',
                 ''-chardev'', ''spicevmc,name=vdagent,id=vdagent'',
                 ''-device'', ''virtserialport,nr=1,bus=virtio-serial0.0,chardev=vdagent,name=com.redhat.spice.0'',
                 ''-spice'', ''port='' @ show_nat (sp_port spice) @ '',addr='' @ trim (sp_addr spice) @
                   '',disable-ticketing=on''])"

definition apply_mid_args :: "vm_runtime \<Rightarrow> string list" where
  "apply_mid_args rt =
     (let a = qc_args (vc_qemu (rt_cfg rt)) in if trim a = [] then [] else split_whitespace a)"

definition apply_post_args :: "vm_runtime \<Rightarrow> string list" where
  "apply_post_args rt =
     (case qc_post_args (vc_qemu (rt_cfg rt)) of None \<Rightarrow> [] | Some post \<Rightarrow> split_whitespace post)"

text \<open>\<^verbatim>\<open>QemuCommandBuilder\<close>: the ten sections in the order \<^verbatim>\<open>launch\<close> calls them.\<close>

definition build_command :: "raw_cpuid option \<Rightarrow> vm_runtime \<Rightarrow> qemu_command result" where
  "build_command cpuid rt =
     (case add_vfio_pci_devices rt of
        Inl e \<Rightarrow> Inl e
      | Inr vfio \<Rightarrow>
          (case apply_spice rt of
             Inl e \<Rightarrow> Inl e
           | Inr spice \<Rightarrow>
               Inr \<lparr>qx_binary = qc_binary (vc_qemu (rt_cfg rt)),
                    qx_args = apply_pre_args rt @ apply_core_args cpuid rt @ apply_machine_and_firmware rt @
                      apply_rtc_args rt @ apply_smbios_args rt @ vfio @ apply_looking_glass rt @ spice @
                      apply_mid_args rt @ apply_post_args rt,
                    qx_qmp_path = qmp_path_for_vm (rt_name rt)\<rparr>))"

subsection \<open>The desktop user\<close>

fun first_user :: "os \<Rightarrow> string list \<Rightarrow> string option io" where
  "first_user os [] = ret None"
| "first_user os (key # keys) =
     andThen (env_var os key) (\<lambda>r.
       let v = trimmed r
       in if v \<noteq> [] \<and> v \<noteq> ''root'' then ret (Some v) else first_user os keys)"

definition detect_desktop_username :: "os \<Rightarrow> string option io" where
  "detect_desktop_username os = first_user os [''SUDO_USER'', ''DOAS_USER'', ''USER'', ''LOGNAME'']"

definition comment_line :: "string \<Rightarrow> bool" where
  "comment_line line \<longleftrightarrow> line = [] \<or> starts_with ''#'' line"

fun find_user :: "string \<Rightarrow> string list \<Rightarrow> (nat \<times> nat) option" where
  "find_user username [] = None"
| "find_user username (l # ls) =
     (let line = trim l; parts = split_on (CHR '':'') line
      in if comment_line line \<or> length parts < 4 then find_user username ls
         else if parts ! 0 = username then
           (case (parse_u32 (parts ! 2), parse_u32 (parts ! 3)) of
              (Inr uid, Inr gid) \<Rightarrow> Some (uid, gid) | _ \<Rightarrow> None)
         else find_user username ls)"

definition lookup_user :: "os \<Rightarrow> string \<Rightarrow> (nat \<times> nat) option io" where
  "lookup_user os username =
     andThen (read_to_string os ''/etc/passwd'') (\<lambda>r.
       ret (case r of Inl e \<Rightarrow> None | Inr content \<Rightarrow> find_user username (str_lines content)))"

fun find_group :: "string \<Rightarrow> string list \<Rightarrow> nat option" where
  "find_group group_name [] = None"
| "find_group group_name (l # ls) =
     (let line = trim l; parts = split_on (CHR '':'') line
      in if comment_line line \<or> length parts < 3 then find_group group_name ls
         else if parts ! 0 = group_name then ok_opt (parse_u32 (parts ! 2))
         else find_group group_name ls)"

definition lookup_group :: "os \<Rightarrow> string \<Rightarrow> nat option io" where
  "lookup_group os group_name =
     andThen (read_to_string os ''/etc/group'') (\<lambda>r.
       ret (case r of Inl e \<Rightarrow> None | Inr content \<Rightarrow> find_group group_name (str_lines content)))"

text \<open>A path with a zero byte is an error before any call.\<close>

definition chown_path :: "os \<Rightarrow> path \<Rightarrow> nat \<Rightarrow> nat \<Rightarrow> (io_error + unit) io" where
  "chown_path os p uid gid =
     (if CHR 0x00 \<in> set p then errR (IoError OtherKind ''path for chown contains interior NUL'')
      else chown os p uid gid)"

subsection \<open>The shared memory file\<close>

text \<open>\<^verbatim>\<open>Path::parent\<close>: the path without its last component, other insignificant ones dropped.\<close>

fun drop_insignificant :: "bool \<Rightarrow> string list \<Rightarrow> string list" where
  "drop_insignificant relative [] = []"
| "drop_insignificant relative [c] = (if c = [] \<or> (c = ''.'' \<and> \<not> relative) then [] else [c])"
| "drop_insignificant relative (c # d # cs) =
     (if c = [] \<or> c = ''.'' then drop_insignificant relative (d # cs) else c # d # cs)"

definition path_parent :: "path \<Rightarrow> path option" where
  "path_parent p =
     (let absolute = starts_with ''/'' p;
          cs = rev (split_on (CHR ''/'') (if absolute then drop 1 p else p))
      in case drop_insignificant (\<not> absolute) cs of
           [] \<Rightarrow> None
         | c # rest \<Rightarrow>
             Some ((if absolute then ''/'' else []) @ join ''/'' (rev (drop_insignificant (\<not> absolute) rest))))"

definition create_parent :: "os \<Rightarrow> path \<Rightarrow> unit result io" where
  "create_parent os shm_path =
     (case path_parent shm_path of
        None \<Rightarrow> okR ()
      | Some parent \<Rightarrow>
          if parent = [] then okR ()
          else andThen (path_exists os parent) (\<lambda>ex.
            if ex then okR ()
            else mapErr (\<lambda>e. Qemu (''looking-glass: failed to create parent directory '' @ parent @ '': '' @ io_error_msg e))
                   (create_dir_all os parent)))"

definition own_shm :: "os \<Rightarrow> path \<Rightarrow> unit result io" where
  "own_shm os shm_path =
     andThen (detect_desktop_username os) (\<lambda>user.
       case user of
         None \<Rightarrow> okR ()
       | Some username \<Rightarrow>
           andThen (lookup_user os username) (\<lambda>pair.
             case pair of
               None \<Rightarrow> okR ()
             | Some (uid, primary_gid) \<Rightarrow>
                 andThen (lookup_group os ''kvm'') (\<lambda>g.
                 andThen (chown_path os shm_path uid (case g of None \<Rightarrow> primary_gid | Some gid \<Rightarrow> gid))
                   (\<lambda>_. okR ()))))"

definition prepare_looking_glass_shm :: "os \<Rightarrow> vm_runtime \<Rightarrow> unit result io" where
  "prepare_looking_glass_shm os rt =
     (case looking_glass_of rt of
        None \<Rightarrow> okR ()
      | Some lg \<Rightarrow>
          if lg_mem_mb lg = 0 then okR ()
          else
            (let shm_path = lg_shm_name lg; mem_bytes = unat (lg_mem_mb lg * 1024 * 1024)
             in bindR (create_parent os shm_path) (\<lambda>_.
                bindR (mapErr (\<lambda>e. Qemu (''looking-glass: failed to create shm file '' @ shm_path @ '': '' @ io_error_msg e))
                         (open_truncate os shm_path)) (\<lambda>_.
                bindR (mapErr (\<lambda>e. Qemu (''looking-glass: failed to size shm file '' @ shm_path @ '' to '' @
                           show_nat mem_bytes @ '' bytes: '' @ io_error_msg e))
                         (set_len os shm_path mem_bytes)) (\<lambda>_.
                  own_shm os shm_path)))))"

definition cleanup_looking_glass_shm :: "os \<Rightarrow> vm_runtime \<Rightarrow> unit io" where
  "cleanup_looking_glass_shm os rt =
     (case looking_glass_of rt of
        None \<Rightarrow> ret ()
      | Some lg \<Rightarrow>
          if lg_mem_mb lg = 0 then ret () else andThen (remove_file os (lg_shm_name lg)) (\<lambda>_. ret ()))"

subsection \<open>Launch and shutdown\<close>

definition move_to_cpuset :: "os \<Rightarrow> vm_runtime \<Rightarrow> int \<Rightarrow> unit result io" where
  "move_to_cpuset os rt pid =
     (case rt_cgroups rt of
        None \<Rightarrow> okR ()
      | Some cg \<Rightarrow>
          (let procs_path = cg_vm cg @ ''/cgroup.procs''
           in andThen (path_exists os procs_path) (\<lambda>ex.
                if ex then
                  mapErr (\<lambda>e. Qemu (''failed to write QEMU pid to '' @ procs_path @ '': '' @ io_error_msg e))
                    (write_file os procs_path (show_int pid @ [CHR 0x0A]))
                else okR ())))"

definition launch :: "os \<Rightarrow> raw_cpuid option \<Rightarrow> unit result rt_act" where
  "launch os cpuid =
     andThen peek (\<lambda>rt.
     bindR (onOs (mapErr (\<lambda>e. Qemu (''failed to create /run/chalybs: '' @ io_error_msg e))
                    (create_dir_all os ''/run/chalybs''))) (\<lambda>_.
     bindR (onOs (prepare_looking_glass_shm os rt)) (\<lambda>_.
       case build_command cpuid rt of
         Inl e \<Rightarrow> errR e
       | Inr cmd \<Rightarrow>
           bindR (onOs (mapErr (\<lambda>e. Qemu (''failed to spawn QEMU: '' @ io_error_msg e))
                          (spawn_process os (qx_binary cmd) (qx_args cmd)))) (\<lambda>pid.
           bindR (onOs (move_to_cpuset os rt pid)) (\<lambda>_.
           andThen (modify (\<lambda>rt. rt\<lparr>rt_qemu := Some \<lparr>qs_pid = pid\<rparr>\<rparr>)) (\<lambda>_. okR ()))))))"

definition qemu_shutdown :: "os \<Rightarrow> unit result rt_act" where
  "qemu_shutdown os =
     andThen peek (\<lambda>rt.
       case rt_qemu rt of
         None \<Rightarrow> okR ()
       | Some q \<Rightarrow>
           andThen (modify (\<lambda>rt. rt\<lparr>rt_qemu := None\<rparr>)) (\<lambda>_.
           bindR (onOs (mapErr (\<lambda>e. Qemu (''failed to send SIGTERM to QEMU '' @ show_int (qs_pid q) @ '': '' @ e))
                          (kill_term os (qs_pid q)))) (\<lambda>_.
           bindR (onOs (mapErr (\<lambda>e. Qemu (''failed to wait for QEMU '' @ show_int (qs_pid q) @ '' to exit: '' @ io_error_msg e))
                          (wait_child os (qs_pid q)))) (\<lambda>_.
           andThen (onOs (cleanup_looking_glass_shm os rt)) (\<lambda>_. okR ())))))"

subsection \<open>Slot allocation: lemmas\<close>

text \<open>
  The invariant of the two loops: the slots in the map are distinct, in range and in the used set.
\<close>

definition slots_ok :: "(string \<times> nat) list \<Rightarrow> nat list \<Rightarrow> bool" where
  "slots_ok m used \<longleftrightarrow> distinct (map fst m) \<and> distinct (map snd m) \<and> snd ` set m \<subseteq> set used \<and>
     (\<forall>s \<in> set used. s \<le> 31)"

lemma hm_insert_vals: "snd ` set (hm_insert k v m) \<subseteq> insert v (snd ` set m)"
  by (induction k v m rule: hm_insert.induct) auto

lemma distinct_vals_hm_insert:
  "distinct (map snd m) \<Longrightarrow> v \<notin> snd ` set m \<Longrightarrow> distinct (map snd (hm_insert k v m))"
proof (induction k v m rule: hm_insert.induct)
  case (2 k v k' v' m)
  then show ?case using hm_insert_vals [of k v m] by (auto simp: image_iff)
qed simp

lemma slots_ok_insert:
  assumes "slots_ok m used" "s \<notin> set used" "s \<le> 31"
  shows "slots_ok (hm_insert b s m) (s # used)"
  using assms distinct_hm_insert [of m b s] distinct_vals_hm_insert [of m s b] hm_insert_vals [of b s m]
  unfolding slots_ok_def by auto

lemma parse_rootport_slot_range: "parse_rootport_slot vm bdf addr = Inr s \<Longrightarrow> s \<le> 31"
  by (auto simp: parse_rootport_slot_def Let_def split: if_splits sum.splits)

lemma seed_overrides_ok:
  assumes "seed_overrides vm conf ovs m used = Inr (m', used')" "slots_ok m used"
  shows "slots_ok m' used'"
  using assms
  by (induction vm conf ovs m used rule: seed_overrides.induct)
    (auto split: if_splits sum.splits dest: parse_rootport_slot_range intro: slots_ok_insert)

lemma next_free_ge: "n \<le> next_free used n"
proof (induction used n rule: next_free.induct)
  case (1 used n)
  then show ?case by (subst next_free.simps) auto
qed

lemma next_free_unused:
  assumes "\<forall>s \<in> set used. s \<le> 31" "n \<le> u8_max"
  shows "next_free used n \<notin> set used"
  using assms
proof (induction used n rule: next_free.induct)
  case (1 used n)
  show ?case
  proof (cases "n \<in> set used")
    case True
    then have "n \<le> 31" using "1.prems" by blast
    then have "n < u8_max" by (simp add: u8_max_def)
    with True "1.IH" "1.prems" show ?thesis by (simp add: next_free.simps [of used n])
  qed (simp add: next_free.simps [of used n])
qed

lemma next_free_least:
  "n \<le> k \<Longrightarrow> k < next_free used n \<Longrightarrow> k \<in> set used"
proof (induction used n rule: next_free.induct)
  case (1 used n)
  show ?case
  proof (cases "n \<in> set used \<and> n < u8_max")
    case True
    with "1.prems" have "k < next_free used (n + 1)" by (simp add: next_free.simps [of used n])
    with "1.IH" [OF True] True "1.prems" show ?thesis by (cases "n = k") auto
  next
    case False
    with "1.prems" show ?thesis by (simp add: next_free.simps [of used n])
  qed
qed

lemma assign_slots_ok:
  assumes "assign_slots vm bdfs m used nxt = Inr m'" "slots_ok m used" "1 \<le> nxt" "nxt \<le> u8_max"
  shows "distinct (map fst m') \<and> distinct (map snd m') \<and> snd ` set m' \<subseteq> {0..31} \<and>
    (\<forall>b s. map_of m b = Some s \<longrightarrow> map_of m' b = Some s) \<and>
    fst ` set m' = fst ` set m \<union> set bdfs \<and>
    (\<forall>b s. map_of m' b = Some s \<longrightarrow> map_of m b = None \<longrightarrow> 1 \<le> s)"
  using assms
proof (induction vm bdfs m used nxt rule: assign_slots.induct)
  case (1 vm m used nxt)
  then show ?case by (auto simp: slots_ok_def)
next
  case (2 vm bdf rest m used nxt)
  show ?case
  proof (cases "map_of m bdf = None")
    case False
    then have "bdf \<in> fst ` set m" by (simp add: map_of_eq_None_iff)
    with 2 False show ?thesis by auto
  next
    case True
    let ?s = "next_free used nxt"
    from "2.prems" True have s: "?s \<le> 31" and
      rec: "assign_slots vm rest (hm_insert bdf ?s m) (?s # used) (min u8_max (?s + 1)) = Inr m'"
      by (auto simp: Let_def split: if_splits)
    have free: "?s \<notin> set used"
      using "2.prems" by (intro next_free_unused) (auto simp: slots_ok_def)
    have ok: "slots_ok (hm_insert bdf ?s m) (?s # used)"
      by (rule slots_ok_insert [OF "2.prems"(2) free s])
    have ge: "1 \<le> ?s" using next_free_ge [of nxt used] "2.prems"(3) by simp
    have ih: "distinct (map fst m') \<and> distinct (map snd m') \<and> snd ` set m' \<subseteq> {0..31} \<and>
      (\<forall>b s. map_of (hm_insert bdf ?s m) b = Some s \<longrightarrow> map_of m' b = Some s) \<and>
      fst ` set m' = fst ` set (hm_insert bdf ?s m) \<union> set rest \<and>
      (\<forall>b s. map_of m' b = Some s \<longrightarrow> map_of (hm_insert bdf ?s m) b = None \<longrightarrow> 1 \<le> s)"
      by (rule "2.IH"(2) [OF _ refl]) (use True s rec ok in \<open>simp_all add: u8_max_def\<close>)
    then show ?thesis
      using True ge
      by (auto simp: keys_hm_insert split: if_splits)
        (metis One_nat_def not_None_eq option.inject option.distinct(1) map_of_is_SomeI)+
  qed
qed


lemma rootport_slots_ok:
  assumes "rootport_slots rt = Inr m"
  shows "distinct (map fst m) \<and> distinct (map snd m) \<and> snd ` set m \<subseteq> {0..31} \<and>
    fst ` set m = snd ` set (rootport_entries (vc_devices (rt_cfg rt)))"
proof (cases "sort (rootport_entries (vc_devices (rt_cfg rt))) = []")
  case True
  then have "rootport_entries (vc_devices (rt_cfg rt)) = []" by (metis length_0_conv length_sort)
  with assms True show ?thesis by (simp add: rootport_slots_def Let_def)
next
  case False
  let ?bdfs = "map snd (sort (rootport_entries (vc_devices (rt_cfg rt))))"
  from assms False obtain m0 used where
    seed: "(case qc_pci_rootport (vc_qemu (rt_cfg rt)) of None \<Rightarrow> Inr ([], [])
       | Some overrides \<Rightarrow> seed_overrides (rt_name rt) ?bdfs overrides [] []) = Inr (m0, used)"
    and run: "assign_slots (rt_name rt) ?bdfs m0 used 1 = Inr m"
    by (auto simp: rootport_slots_def Let_def split: sum.splits option.splits)
  have init: "slots_ok [] []" by (simp add: slots_ok_def)
  have ok: "slots_ok m0 used"
    using seed seed_overrides_ok [OF _ init] init by (auto split: option.splits)
  have sub: "fst ` set m0 \<subseteq> set ?bdfs"
  proof -
    have "seed_overrides vm conf ovs m used = Inr (m', used') \<Longrightarrow> fst ` set m \<subseteq> set conf \<Longrightarrow>
        fst ` set m' \<subseteq> set conf" for vm conf ovs m used m' used'
      by (induction vm conf ovs m used rule: seed_overrides.induct)
        (auto simp: keys_hm_insert split: if_splits sum.splits)
    from this [of "rt_name rt" ?bdfs _ "[]" "[]" m0 used] seed show ?thesis
      by (auto split: option.splits)
  qed
  from assign_slots_ok [OF run ok] have A: "distinct (map fst m) \<and> distinct (map snd m) \<and>
      snd ` set m \<subseteq> {0..31} \<and> fst ` set m = fst ` set m0 \<union> set ?bdfs"
    by (simp add: u8_max_def)
  with sub show ?thesis by auto
qed

lemma seed_overrides_entries:
  "seed_overrides vm conf ovs m used = Inr (m', used') \<Longrightarrow> distinct (map fst ovs) \<Longrightarrow>
   (\<forall>b a. (b, a) \<in> set ovs \<longrightarrow> (\<exists>s. parse_rootport_slot vm b a = Inr s \<and> map_of m' b = Some s)) \<and>
   (\<forall>b. b \<notin> fst ` set ovs \<longrightarrow> map_of m' b = map_of m b)"
proof (induction vm conf ovs m used rule: seed_overrides.induct)
  case (2 vm conf bdf addr rest m used)
  from "2.prems" obtain slot where slot: "parse_rootport_slot vm bdf addr = Inr slot"
    and rec: "seed_overrides vm conf rest (hm_insert bdf slot m) (slot # used) = Inr (m', used')"
    and cond: "bdf \<in> set conf" "slot \<notin> set used"
    by (auto split: if_splits sum.splits)
  from "2.prems"(2) have nb: "bdf \<notin> fst ` set rest" "distinct (map fst rest)" by auto
  have ih: "(\<forall>b a. (b, a) \<in> set rest \<longrightarrow> (\<exists>s. parse_rootport_slot vm b a = Inr s \<and> map_of m' b = Some s)) \<and>
      (\<forall>b. b \<notin> fst ` set rest \<longrightarrow> map_of m' b = map_of (hm_insert bdf slot m) b)"
    by (rule "2.IH") (use slot cond rec nb in auto)
  with slot nb show ?case by auto
qed simp

text \<open>A slot text names its slot: printing in two digits loses nothing below 256.\<close>

lemma slot_text_inj:
  assumes "slot_text a = slot_text b" "a \<le> 31" "b \<le> 31"
  shows "a = b"
proof -
  from assms(1) have "show_hex_pad 2 a = show_hex_pad 2 b" by (simp add: slot_text_def)
  then have "parse_unsigned 16 31 (show_hex_pad 2 a) = parse_unsigned 16 31 (show_hex_pad 2 b)"
    by (rule arg_cong)
  then have "Inr a = (Inr b :: parse_int_error + nat)"
    unfolding parse_unsigned_show_hex_pad [OF assms(2)] parse_unsigned_show_hex_pad [OF assms(3)] .
  then show ?thesis by simp
qed

subsection \<open>The allocator without overrides\<close>

text \<open>The addresses in the order of their first occurrence.\<close>

fun first_seen :: "string list \<Rightarrow> string list \<Rightarrow> string list" where
  "first_seen seen [] = seen"
| "first_seen seen (b # bs) = first_seen (if b \<in> set seen then seen else seen @ [b]) bs"

definition numbered :: "string list \<Rightarrow> (string \<times> nat) list" where
  "numbered bs = zip bs [1..<length bs + 1]"

lemma numbered_keys: "fst ` set (numbered bs) = set bs"
proof -
  have "map fst (numbered bs) = bs" by (simp add: numbered_def del: upt_Suc)
  then show ?thesis by (metis set_map)
qed

lemma numbered_snoc: "b \<notin> set bs \<Longrightarrow> hm_insert b (length bs + 1) (numbered bs) = numbered (bs @ [b])"
proof -
  have app: "b \<notin> fst ` set m \<Longrightarrow> hm_insert b v m = m @ [(b, v)]" for v :: nat and m
    by (induction b v m rule: hm_insert.induct) auto
  assume "b \<notin> set bs"
  then have "b \<notin> fst ` set (numbered bs)" by (simp add: numbered_keys)
  moreover have "[1..<length (bs @ [b]) + 1] = [1..<length bs + 1] @ [length bs + 1]" by simp
  ultimately show ?thesis using app by (simp add: numbered_def del: upt_Suc)
qed

lemma first_seen_length: "length seen \<le> length (first_seen seen bs)"
  by (induction seen bs rule: first_seen.induct) (auto split: if_splits)

lemma next_free_fresh: "n \<notin> set used \<Longrightarrow> next_free used n = n"
  by (simp add: next_free.simps [of used n])

definition slots_exhausted :: "string \<Rightarrow> chalybs_error" where
  "slots_exhausted vm =
     Config (''vm '' @ vm @ '': more passthrough devices than available PCIe root-port slots (0x01-0x1f)'')"

lemma assign_without_overrides:
  assumes "length seen \<le> 31" "set used = {1..length seen}"
  shows "assign_slots vm bs (numbered seen) used (length seen + 1) =
    (if length (first_seen seen bs) \<le> 31 then Inr (numbered (first_seen seen bs)) else Inl (slots_exhausted vm))"
  using assms
proof (induction bs arbitrary: seen used)
  case (Cons b bs)
  have known: "map_of (numbered seen) b \<noteq> None \<longleftrightarrow> b \<in> set seen"
    by (metis map_of_eq_None_iff numbered_keys)
  show ?case
  proof (cases "b \<in> set seen")
    case True
    with Cons known show ?thesis by simp
  next
    case False
    have free: "next_free used (length seen + 1) = length seen + 1"
      using Cons.prems(2) by (intro next_free_fresh) auto
    show ?thesis
    proof (cases "length seen = 31")
      case True
      then have "\<not> length (first_seen (seen @ [b]) bs) \<le> 31"
        using first_seen_length [of "seen @ [b]" bs] by simp
      moreover have "assign_slots vm (b # bs) (numbered seen) used (length seen + 1) = Inl (slots_exhausted vm)"
        using False known free True by (simp add: slots_exhausted_def Let_def)
      ultimately show ?thesis using False by simp
    next
      case room: False
      then have lt: "length seen < 31" using Cons.prems(1) by simp
      have used: "set ((length seen + 1) # used) = {1..length (seen @ [b])}"
        using Cons.prems(2) by (simp add: atLeastAtMostSuc_conv)
      have "assign_slots vm (b # bs) (numbered seen) used (length seen + 1) =
          assign_slots vm bs (numbered (seen @ [b])) ((length seen + 1) # used) (length (seen @ [b]) + 1)"
        using False known free lt numbered_snoc [OF False] by (simp add: Let_def u8_max_def)
      also have "\<dots> = (if length (first_seen (seen @ [b]) bs) \<le> 31
          then Inr (numbered (first_seen (seen @ [b]) bs)) else Inl (slots_exhausted vm))"
        by (rule Cons.IH) (use lt used in simp_all)
      finally show ?thesis using False by simp
    qed
  qed
qed simp

subsection \<open>What a launch starts\<close>

text \<open>The processes started in a stretch of a trace, with their arguments.\<close>

fun start_of :: "os_event \<Rightarrow> (string \<times> string list) option" where
  "start_of (EvSpawn b as True) = Some (b, as)"
| "start_of e = None"

definition started :: "trace \<Rightarrow> (string \<times> string list) list" where
  "started ev = List.map_filter start_of ev"

lemma started_simps [simp]:
  "started [] = []" "started (a @ b) = started a @ started b"
  "started (EvSpawn bin as True # ev) = (bin, as) # started ev"
  "start_of e = None \<Longrightarrow> started (e # ev) = started ev"
  by (simp_all add: started_def map_filter_def)

lemma nothing_started: "list_all (\<lambda>e. start_of e = None) ev \<Longrightarrow> started ev = []"
  by (induction ev) simp_all

lemma first_user_starts_nothing [emits_intros]: "io_emits (\<lambda>e. start_of e = None) (first_user os ks)"
  by (induction ks) (auto simp: Let_def intro!: emits_intros)

lemma prepare_starts_nothing [emits_intros]: "io_emits (\<lambda>e. start_of e = None) (prepare_looking_glass_shm os rt)"
  unfolding prepare_looking_glass_shm_def create_parent_def own_shm_def detect_desktop_username_def lookup_user_def
    lookup_group_def chown_path_def Let_def
  by (intro emits_intros) simp_all

lemma move_starts_nothing [emits_intros]: "io_emits (\<lambda>e. start_of e = None) (move_to_cpuset os rt pid)"
  unfolding move_to_cpuset_def Let_def by (intro emits_intros) simp_all

text \<open>The move into the cpuset, call by call.\<close>

definition procs_file :: "cgroup_paths \<Rightarrow> path" where
  "procs_file cg = cg_vm cg @ ''/cgroup.procs''"

lemma move_ok:
  assumes "move_to_cpuset os rt pid t = (Inr u, t')"
  shows "t' = t @ (case rt_cgroups rt of None \<Rightarrow> [] | Some cg \<Rightarrow>
    EvExists (procs_file cg) #
    (if os_exists os t (procs_file cg) then [EvWrite (procs_file cg) (show_int pid @ [CHR 0x0A]) True] else []))"
  using assms
  by (auto simp: move_to_cpuset_def procs_file_def Let_def run_simps call_defs call_def split: option.splits if_splits)

lemma move_err:
  assumes "move_to_cpuset os rt pid t = (Inl e, t')"
  shows "\<exists>cg. rt_cgroups rt = Some cg \<and>
    t' = t @ [EvExists (procs_file cg), EvWrite (procs_file cg) (show_int pid @ [CHR 0x0A]) False]"
  using assms
  by (auto simp: move_to_cpuset_def procs_file_def Let_def run_simps call_defs call_def opt_res_def
      split: option.splits if_splits)

text \<open>A launch up to the process: what precedes it starts nothing.\<close>

lemma launch_run:
  assumes "launch os cpuid (rt, t) = (r, (rt', t'))"
  shows "(\<exists>e ev. r = Inl e \<and> rt' = rt \<and> t' = t @ ev \<and> started ev = []) \<or>
    (\<exists>cmd pid pre. build_command cpuid rt = Inr cmd \<and> started pre = [] \<and>
       os_spawn os (t @ pre) (qx_binary cmd) (qx_args cmd) = Inr pid \<and>
       (case move_to_cpuset os rt pid (t @ pre @ [EvSpawn (qx_binary cmd) (qx_args cmd) True]) of
          (Inl e, t1) \<Rightarrow> r = Inl e \<and> rt' = rt \<and> t' = t1
        | (Inr u, t1) \<Rightarrow> r = Inr () \<and> rt' = rt\<lparr>rt_qemu := Some \<lparr>qs_pid = pid\<rparr>\<rparr> \<and> t' = t1))"
proof -
  let ?new = "\<lambda>ev. list_all (\<lambda>e. start_of e = None) ev"
  let ?dir = "mapErr (\<lambda>e. Qemu (''failed to create /run/chalybs: '' @ io_error_msg e)) (create_dir_all os ''/run/chalybs'')"
  obtain r1 t1 where 1: "?dir t = (r1, t1)" by (metis prod.exhaust)
  obtain r2 t2 where 2: "prepare_looking_glass_shm os rt t1 = (r2, t2)" by (metis prod.exhaust)
  have "io_emits (\<lambda>e. start_of e = None) ?dir" by (intro emits_intros) simp_all
  then obtain e1 where e1: "t1 = t @ e1" "?new e1" using 1 by (rule emitsE)
  obtain e2 where e2: "t2 = t1 @ e2" "?new e2" using prepare_starts_nothing 2 by (rule emitsE)
  note quiet = nothing_started [OF e1(2)] nothing_started [OF e2(2)]
  note unf = launch_def andThen_def peek_def bindR_def onOs_def
  show ?thesis
  proof (cases "\<exists>u v cmd. r1 = Inr u \<and> r2 = Inr v \<and> build_command cpuid rt = Inr cmd")
    case False
    with assms 1 2 e1 e2 quiet have "\<exists>e ev. r = Inl e \<and> rt' = rt \<and> t' = t @ ev \<and> started ev = []"
      by (auto simp: unf errR_def split: sum.splits)
    then show ?thesis ..
  next
    case True
    then obtain u v cmd where ok: "r1 = Inr u" "r2 = Inr v" "build_command cpuid rt = Inr cmd" by blast
    show ?thesis
    proof (cases "os_spawn os t2 (qx_binary cmd) (qx_args cmd)")
      case (Inl e)
      with assms 1 2 ok have "\<exists>e. r = Inl e \<and> rt' = rt" "t' = t @ e1 @ e2 @ [EvSpawn (qx_binary cmd) (qx_args cmd) False]"
        by (auto simp: unf mapErr_def spawn_process_def call_def e1 e2)
      with quiet show ?thesis by (intro disjI1) auto
    next
      case (Inr pid)
      with assms 1 2 ok e1 e2 quiet show ?thesis
        by (intro disjI2 exI [of _ cmd] exI [of _ pid] exI [of _ "e1 @ e2"])
          (auto simp: unf mapErr_def spawn_process_def call_def modify_def okR_def split: prod.splits sum.splits)
    qed
  qed
qed

lemma launch_error_keeps:
  assumes "launch os cpuid (rt, t) = (Inl e, (rt', t'))"
  shows "rt' = rt"
  using launch_run [OF assms]
proof (elim disjE exE conjE)
  fix cmd :: qemu_command and pid pre
  let ?s = "t @ pre @ [EvSpawn (qx_binary cmd) (qx_args cmd) True]"
  assume "case move_to_cpuset os rt pid ?s of
      (Inl e', t1) \<Rightarrow> Inl e = Inl e' \<and> rt' = rt \<and> t' = t1
    | (Inr u, t1) \<Rightarrow> Inl e = Inr () \<and> rt' = rt\<lparr>rt_qemu := Some \<lparr>qs_pid = pid\<rparr>\<rparr> \<and> t' = t1"
  then show ?thesis by (cases "move_to_cpuset os rt pid ?s"; cases "fst (move_to_cpuset os rt pid ?s)") auto
qed

subsection \<open>Properties of the QEMU command and its lifetime\<close>

text \<open>
  C18. A slot map gives every configured passthrough address exactly one slot, no two addresses the
  same slot text, and every slot lies between \<^verbatim>\<open>0x00\<close> and \<^verbatim>\<open>0x1f\<close>.
\<close>

theorem rootport_map_injective:
  "case build_pci_rootport_map rt of
     Inl e \<Rightarrow> True
   | Inr m \<Rightarrow>
       set (map fst m) = set (map snd (rootport_entries (vc_devices (rt_cfg rt)))) \<and>
       distinct (map fst m) \<and> distinct (map snd m) \<and>
       list_all (\<lambda>(b, a). a \<in> set (map slot_text [0..<32])) m"
proof (cases "rootport_slots rt")
  case (Inr m)
  note ok = rootport_slots_ok [OF Inr]
  have vals: "map snd (map (\<lambda>(b, s). (b, slot_text s)) m) = map slot_text (map snd m)"
    and keys: "map fst (map (\<lambda>(b, s). (b, slot_text s)) m) = map fst m"
    by (simp_all add: case_prod_beta)
  have "inj_on slot_text (set (map snd m))"
    using ok by (intro inj_onI slot_text_inj) auto
  then have "distinct (map slot_text (map snd m))"
    using ok distinct_map [of slot_text "map snd m"] by blast
  with ok Inr show ?thesis
    by (fastforce simp: build_pci_rootport_map_def vals keys list_all_iff simp del: map_map)
qed (simp add: build_pci_rootport_map_def)

text \<open>
  Without overrides the slots are handed out in order: the configured addresses, sorted by kind
  and then by address and taken once each, get the slots 1, 2, 3 and so on, and the build fails
  exactly when there are more than 31 of them.
\<close>

theorem rootport_default_slots:
  "if qc_pci_rootport (vc_qemu (rt_cfg rt)) = None then
     rootport_slots rt =
       (let bs = first_seen [] (map snd (sort (rootport_entries (vc_devices (rt_cfg rt)))))
        in if length bs \<le> 31 then Inr (zip bs [1..<length bs + 1]) else Inl (slots_exhausted (rt_name rt)))
   else True"
  using assign_without_overrides [of "[]" "[]" "rt_name rt"
      "map snd (sort (rootport_entries (vc_devices (rt_cfg rt))))"]
  by (simp add: rootport_slots_def Let_def numbered_def)

text \<open>
  Every override in the configuration is honoured: in a map that was built, an overridden address
  has the slot its text names, and every other address has a slot from 1 on.
\<close>

theorem rootport_overrides_honoured:
  "case (rootport_slots rt, qc_pci_rootport (vc_qemu (rt_cfg rt))) of
     (Inr m, Some ovs) \<Rightarrow>
       (if distinct (map fst ovs) \<and> rootport_entries (vc_devices (rt_cfg rt)) \<noteq> [] then
          list_all (\<lambda>(b, a). map Inr (case map_of m b of None \<Rightarrow> [] | Some s \<Rightarrow> [s]) = [parse_rootport_slot (rt_name rt) b a]) ovs \<and>
          list_all (\<lambda>(b, s). b \<in> set (map fst ovs) \<or> 1 \<le> s) m
        else True)
   | _ \<Rightarrow> True"
proof (cases "\<exists>m ovs. rootport_slots rt = Inr m \<and> qc_pci_rootport (vc_qemu (rt_cfg rt)) = Some ovs \<and>
    distinct (map fst ovs) \<and> rootport_entries (vc_devices (rt_cfg rt)) \<noteq> []")
  case True
  then obtain m ovs where m: "rootport_slots rt = Inr m" "qc_pci_rootport (vc_qemu (rt_cfg rt)) = Some ovs"
    "distinct (map fst ovs)" and ne: "rootport_entries (vc_devices (rt_cfg rt)) \<noteq> []" by blast
  let ?bdfs = "map snd (sort (rootport_entries (vc_devices (rt_cfg rt))))"
  have "sort (rootport_entries (vc_devices (rt_cfg rt))) \<noteq> []"
    using ne by (metis length_0_conv length_sort)
  with m obtain m0 used where seed: "seed_overrides (rt_name rt) ?bdfs ovs [] [] = Inr (m0, used)"
    and run: "assign_slots (rt_name rt) ?bdfs m0 used 1 = Inr m"
    by (auto simp: rootport_slots_def Let_def split: sum.splits)
  have ok: "slots_ok m0 used" by (rule seed_overrides_ok [OF seed]) (simp add: slots_ok_def)
  from assign_slots_ok [OF run ok] have A: "distinct (map fst m)"
    "\<forall>b s. map_of m0 b = Some s \<longrightarrow> map_of m b = Some s"
    "\<forall>b s. map_of m b = Some s \<longrightarrow> map_of m0 b = None \<longrightarrow> 1 \<le> s"
    by (simp_all add: u8_max_def)
  from seed_overrides_entries [OF seed m(3)] have B:
    "\<forall>b a. (b, a) \<in> set ovs \<longrightarrow> (\<exists>s. parse_rootport_slot (rt_name rt) b a = Inr s \<and> map_of m0 b = Some s)"
    "\<forall>b. b \<notin> fst ` set ovs \<longrightarrow> map_of m0 b = None"
    by simp_all
  have "list_all (\<lambda>(b, a). map Inr (case map_of m b of None \<Rightarrow> [] | Some s \<Rightarrow> [s]) =
      [parse_rootport_slot (rt_name rt) b a]) ovs"
    using A(2) B(1) by (fastforce simp: list_all_iff)
  moreover have "list_all (\<lambda>(b, s). b \<in> set (map fst ovs) \<or> 1 \<le> s) m"
    unfolding list_all_iff using A(1,3) B(2) by (auto simp: image_iff)
  ultimately show ?thesis using m by simp
qed (auto split: sum.split option.split)

text \<open>
  C12. A launch that fails leaves the runtime untouched, and has started nothing, or just the built command
  whose pid the kernel then refused to take into the VM's cpuset.  One that succeeds has started exactly the
  built command, then, where the runtime has a cgroup whose process file exists, written the new pid into it
  with success, and records that pid and nothing else.
\<close>

theorem launch_outcome:
  "case launch os cpuid (rt, t) of
     (Inl e, (rt', t')) \<Rightarrow>
       rt' = rt \<and>
       (\<exists>ev. t' = t @ ev \<and>
          (started ev = [] \<or>
           (\<exists>cmd cg pid. build_command cpuid rt = Inr cmd \<and> rt_cgroups rt = Some cg \<and>
              started ev = [(qx_binary cmd, qx_args cmd)] \<and>
              last ev = EvWrite (cg_vm cg @ ''/cgroup.procs'') (show_int pid @ [CHR 0x0A]) False)))
   | (Inr u, (rt', t')) \<Rightarrow>
       (\<exists>cmd pid pre.
          build_command cpuid rt = Inr cmd \<and> started pre = [] \<and>
          os_spawn os (t @ pre) (qx_binary cmd) (qx_args cmd) = Inr pid \<and>
          t' = t @ pre @ EvSpawn (qx_binary cmd) (qx_args cmd) True #
            (case rt_cgroups rt of
               None \<Rightarrow> []
             | Some cg \<Rightarrow>
                 EvExists (cg_vm cg @ ''/cgroup.procs'') #
                 (if os_exists os (t @ pre @ [EvSpawn (qx_binary cmd) (qx_args cmd) True]) (cg_vm cg @ ''/cgroup.procs'')
                  then [EvWrite (cg_vm cg @ ''/cgroup.procs'') (show_int pid @ [CHR 0x0A]) True] else [])) \<and>
          rt' = rt\<lparr>rt_qemu := Some \<lparr>qs_pid = pid\<rparr>\<rparr>)"
proof -
  obtain r rt' t' where run: "launch os cpuid (rt, t) = (r, (rt', t'))" by (metis prod.exhaust)
  from launch_run [OF run] show ?thesis
  proof (elim disjE exE conjE)
    fix e ev assume "r = Inl e" "rt' = rt" "t' = t @ ev" "started ev = []"
    then show ?thesis by (auto simp: run)
  next
    fix cmd :: qemu_command and pid pre
    let ?s = "t @ pre @ [EvSpawn (qx_binary cmd) (qx_args cmd) True]"
    assume cmd: "build_command cpuid rt = Inr cmd" "started pre = []"
      "os_spawn os (t @ pre) (qx_binary cmd) (qx_args cmd) = Inr pid"
      and moved: "case move_to_cpuset os rt pid ?s of
          (Inl e, t1) \<Rightarrow> r = Inl e \<and> rt' = rt \<and> t' = t1
        | (Inr u, t1) \<Rightarrow> r = Inr () \<and> rt' = rt\<lparr>rt_qemu := Some \<lparr>qs_pid = pid\<rparr>\<rparr> \<and> t' = t1"
    show ?thesis
    proof (cases "fst (move_to_cpuset os rt pid ?s)")
      case (Inl e)
      then have m: "move_to_cpuset os rt pid ?s = (Inl e, t')" "r = Inl e" "rt' = rt"
        using moved by (auto split: prod.splits)
      from move_err [OF m(1)] cmd(1,2) show ?thesis
        by (auto simp: run m procs_file_def)
    next
      case (Inr u)
      then have m: "move_to_cpuset os rt pid ?s = (Inr u, t')" "r = Inr ()"
        "rt' = rt\<lparr>rt_qemu := Some \<lparr>qs_pid = pid\<rparr>\<rparr>"
        using moved by (auto split: prod.splits)
      from move_ok [OF m(1)] cmd show ?thesis
        unfolding run m(2) prod.case sum.case
        by (intro exI [of _ cmd] exI [of _ pid] exI [of _ pre]) (simp add: m procs_file_def split: option.split)
    qed
  qed
qed

text \<open>
  C32. Shutdown always gives up the QEMU handle, also when the signal or the wait fails; without a
  handle it does nothing, and success with one means the process took the signal and was waited for.
\<close>

theorem qemu_shutdown_outcome:
  "case qemu_shutdown os (rt, t) of
     (r, (rt', t')) \<Rightarrow>
       rt' = rt\<lparr>rt_qemu := None\<rparr> \<and>
       (case (rt_qemu rt, r) of
          (None, _) \<Rightarrow> r = Inr () \<and> t' = t
        | (Some q, Inl e) \<Rightarrow> True
        | (Some q, Inr u) \<Rightarrow> (\<exists>ev. t' = t @ EvKill (qs_pid q) True # EvWait (qs_pid q) True # ev))"
proof (cases "rt_qemu rt")
  case None
  then have "rt\<lparr>rt_qemu := None\<rparr> = rt" by (cases rt) simp
  with None show ?thesis by (simp add: qemu_shutdown_def act_simps)
next
  case (Some q)
  obtain r rt' t' where run: "qemu_shutdown os (rt, t) = (r, (rt', t'))" by (metis prod.exhaust)
  show ?thesis
  proof (cases r)
    case (Inl e)
    with run Some have "rt' = rt\<lparr>rt_qemu := None\<rparr>"
      by (auto simp: qemu_shutdown_def run_simps)
    with Inl Some show ?thesis by (simp add: run)
  next
    case (Inr u)
    with run Some have "rt' = rt\<lparr>rt_qemu := None\<rparr> \<and>
        (\<exists>ev. t' = t @ EvKill (qs_pid q) True # EvWait (qs_pid q) True # ev)"
      by (auto simp: qemu_shutdown_def cleanup_looking_glass_shm_def run_simps call_defs call_def
          split: option.splits if_splits)
    with Inr Some show ?thesis by (simp add: run)
  qed
qed

end
