(* ===== verification/Chalybs_Peripherals.thy ===== *)
theory Chalybs_Peripherals
  imports Chalybs_Model
begin

text \<open>
  The peripherals of \<^verbatim>\<open>core/src/peripherals/\<close>: the DDC/CI input switch on bytes, the Tasmota
  relay over MQTT, the Looking Glass and SPICE hooks, and the two sequences the state machine runs.
  The trait \<^verbatim>\<open>PeripheralHook\<close> is the locale \<open>peripheral_hook\<close>.
\<close>

unbundle bit_operations_syntax

subsection \<open>DDC/CI\<close>

definition DDC_I2C_ADDRESS_7BIT :: nat where "DDC_I2C_ADDRESS_7BIT = 0x37"
definition DDC_DEST_ADDRESS_8BIT :: "8 word" where "DDC_DEST_ADDRESS_8BIT = 0x6e"
definition VCP_CODE_INPUT_SOURCE :: "8 word" where "VCP_CODE_INPUT_SOURCE = 0x60"
definition CMD_SET_VCP_FEATURE :: "8 word" where "CMD_SET_VCP_FEATURE = 0x03"
definition CMD_GET_VCP_FEATURE :: "8 word" where "CMD_GET_VCP_FEATURE = 0x01"

definition compute_ddc_checksum :: "8 word \<Rightarrow> 8 word list \<Rightarrow> 8 word" where
  "compute_ddc_checksum dest_8bit payload = foldl (\<lambda>cs b. cs XOR b) dest_8bit payload"

definition set_vcp_frame :: "8 word \<Rightarrow> 8 word \<Rightarrow> 8 word list" where
  "set_vcp_frame vcp_code input_value =
     (let p = [0x51, 0x84, CMD_SET_VCP_FEATURE, vcp_code, 0x00, input_value]
      in p @ [compute_ddc_checksum DDC_DEST_ADDRESS_8BIT p])"

definition get_vcp_frame :: "8 word \<Rightarrow> 8 word list" where
  "get_vcp_frame vcp_code =
     (let p = [0x51, 0x82, CMD_GET_VCP_FEATURE, vcp_code]
      in p @ [compute_ddc_checksum DDC_DEST_ADDRESS_8BIT p])"

text \<open>The reply is read into sixteen zero bytes.\<close>

definition read_buffer :: "8 word list \<Rightarrow> 8 word list" where
  "read_buffer reply = take 16 (reply @ replicate 16 0)"

definition check_reply :: "8 word \<Rightarrow> 8 word \<Rightarrow> 8 word list \<Rightarrow> unit result" where
  "check_reply vcp_code input_value read_buf =
     (if length read_buf < 9 then Inr ()
      else if read_buf ! 0 \<noteq> DDC_DEST_ADDRESS_8BIT then Inr ()
      else if read_buf ! 2 \<noteq> 0x00 then Inr ()
      else if read_buf ! 3 \<noteq> vcp_code then Inr ()
      else if read_buf ! 4 \<noteq> 0x00 then Inr ()
      else
        (let reported_lo = read_buf ! 8
         in if reported_lo \<noteq> input_value then
              Inl (Peripheral (''DDC: verification failed: monitor returned 0x'' @
                show_hex_pad 2 (unat reported_lo) @ '', expected 0x'' @ show_hex_pad 2 (unat input_value)))
            else Inr ()))"

definition send_ddc_set_input :: "os \<Rightarrow> 8 word \<Rightarrow> 8 word \<Rightarrow> 8 word \<Rightarrow> unit result io" where
  "send_ddc_set_input os bus vcp_code input_value =
     (let p = ''/dev/i2c-'' @ show_nat (unat bus)
      in bindR (mapErr (\<lambda>e. Peripheral (''DDC: failed to open '' @ p @ '': '' @ io_error_msg e)) (i2c_open os p)) (\<lambda>_.
         bindR (mapErr (\<lambda>e. Peripheral (''DDC: ioctl(I2C_SLAVE) on '' @ p @ '' failed: '' @ io_error_msg e))
                  (i2c_slave os p DDC_I2C_ADDRESS_7BIT)) (\<lambda>_.
         bindR (mapErr (\<lambda>e. Peripheral (''DDC: ioctl(I2C_RDWR) write transaction failed: '' @ io_error_msg e))
                  (i2c_write os p (set_vcp_frame vcp_code input_value))) (\<lambda>_.
         bindR (mapErr (\<lambda>e. Peripheral (''DDC: ioctl(I2C_RDWR) write(GET_VCP) failed: '' @ io_error_msg e))
                  (i2c_write os p (get_vcp_frame vcp_code))) (\<lambda>_.
         bindR (mapErr (\<lambda>e. Peripheral (''DDC: ioctl(I2C_RDWR) read(GET_VCP) failed: '' @ io_error_msg e))
                  (i2c_read os p)) (\<lambda>reply.
           case check_reply vcp_code input_value (read_buffer reply) of
             Inl e \<Rightarrow> errR e | Inr _ \<Rightarrow> okR ()))))))"

definition ddc_set_input :: "os \<Rightarrow> ddc_config \<Rightarrow> 8 word \<Rightarrow> unit result io" where
  "ddc_set_input os cfg input =
     andThen (send_ddc_set_input os (dc_monitor_i2c_bus cfg) VCP_CODE_INPUT_SOURCE input) (\<lambda>ll.
       case ll of
         Inr _ \<Rightarrow> okR ()
       | Inl e \<Rightarrow> if dc_fatal_on_error cfg then errR e else okR ())"

definition ddc_vm_up :: "os \<Rightarrow> ddc_config \<Rightarrow> unit result rt_act" where
  "ddc_vm_up os cfg = onOs (ddc_set_input os cfg (dc_vm_input cfg))"

definition ddc_vm_down :: "os \<Rightarrow> ddc_config \<Rightarrow> unit result rt_act" where
  "ddc_vm_down os cfg = onOs (ddc_set_input os cfg (dc_host_input cfg))"

definition switch_to_vm_input_after_irq :: "os \<Rightarrow> ddc_config \<Rightarrow> unit result io" where
  "switch_to_vm_input_after_irq os cfg = ddc_set_input os cfg (dc_vm_input cfg)"

subsection \<open>Tasmota\<close>

definition parse_mqtt_host :: "tasmota_config \<Rightarrow> (string \<times> nat) result" where
  "parse_mqtt_host cfg =
     (let raw = trim (tc_mqtt_host cfg)
      in if raw = [] then Inl (Peripheral ''tasmota: mqtt_host is empty'')
         else
           (let parts = split_on (CHR '':'') raw; host = trim (hd parts)
            in if host = [] then Inl (Peripheral (''tasmota: invalid mqtt_host '' @ backquoted raw))
               else case tl parts of
                   [] \<Rightarrow> Inl (Peripheral (''tasmota: mqtt_host missing port '' @ backquoted raw))
                 | port_str # _ \<Rightarrow>
                     (case parse_u16 port_str of
                        Inl e \<Rightarrow> Inl (Peripheral (''tasmota: mqtt_host has invalid port '' @ backquoted raw))
                      | Inr port \<Rightarrow> Inr (host, port))))"

text \<open>The twenty polls that wait for the connection to be acknowledged.\<close>

fun await_connack :: "os \<Rightarrow> nat \<Rightarrow> bool result io" where
  "await_connack os 0 = okR False"
| "await_connack os (Suc n) =
     andThen (mqtt_poll os) (\<lambda>ev.
       case ev of
         MqttConnAck \<Rightarrow> okR True
       | MqttOther \<Rightarrow> await_connack os n
       | MqttErr e \<Rightarrow> errR (Peripheral (''tasmota: connection error before publish: '' @ e))
       | MqttEnd \<Rightarrow> okR False)"

definition CONNACK_POLLS :: nat where "CONNACK_POLLS = 20"

definition power_topic :: "tasmota_config \<Rightarrow> string" where
  "power_topic cfg = ''cmnd/'' @ tc_device_id cfg @ ''/POWER''"

definition power_payload :: "bool \<Rightarrow> string" where
  "power_payload on = (if on then ''ON'' else ''OFF'')"

definition publish_power :: "os \<Rightarrow> tasmota_config \<Rightarrow> bool \<Rightarrow> unit result io" where
  "publish_power os cfg on =
     (case parse_mqtt_host cfg of
        Inl e \<Rightarrow> errR e
      | Inr (host, port) \<Rightarrow>
          andThen (mqtt_connect host port (''chalybs-'' @ tc_device_id cfg)) (\<lambda>_.
          bindR (await_connack os CONNACK_POLLS) (\<lambda>connected.
            if \<not> connected then errR (Peripheral ''tasmota: never received ConnAck before publish'')
            else
              bindR (mapErr (\<lambda>e. Peripheral (''tasmota: publish error on '' @ backquoted (power_topic cfg) @ '': '' @ e))
                       (mqtt_publish os (power_topic cfg) (power_payload on))) (\<lambda>_.
              andThen (mqtt_poll os) (\<lambda>res.
                case res of
                  MqttErr e \<Rightarrow> errR (Peripheral (''tasmota: eventloop error after publish: '' @ e))
                | _ \<Rightarrow> okR ())))))"

definition tasmota_vm_up :: "os \<Rightarrow> tasmota_config \<Rightarrow> unit result rt_act" where
  "tasmota_vm_up os cfg =
     andThen (onOs (publish_power os cfg True)) (\<lambda>r.
       case r of
         Inr _ \<Rightarrow> andThen (modify (\<lambda>rt. rt\<lparr>rt_tasmota_powered := True\<rparr>)) (\<lambda>_. okR ())
       | Inl e \<Rightarrow>
           andThen (modify (\<lambda>rt. push_warning (''tasmota: MQTT POWER ON failed: '' @ show_error e)
             (rt\<lparr>rt_tasmota_powered := False\<rparr>))) (\<lambda>_. okR ()))"

definition tasmota_vm_down :: "os \<Rightarrow> tasmota_config \<Rightarrow> unit result rt_act" where
  "tasmota_vm_down os cfg =
     andThen (onOs (publish_power os cfg False)) (\<lambda>r.
       case r of
         Inr _ \<Rightarrow> andThen (modify (\<lambda>rt. rt\<lparr>rt_tasmota_powered := False\<rparr>)) (\<lambda>_. okR ())
       | Inl e \<Rightarrow>
           andThen (modify (\<lambda>rt. push_warning (''tasmota: MQTT POWER OFF failed: '' @ show_error e)
             (rt\<lparr>rt_tasmota_powered := False\<rparr>))) (\<lambda>_. okR ()))"

subsection \<open>Looking Glass and SPICE\<close>

definition lg_vm_up :: "looking_glass_config \<Rightarrow> unit result rt_act" where
  "lg_vm_up cfg = okR ()"
definition lg_vm_down :: "looking_glass_config \<Rightarrow> unit result rt_act" where
  "lg_vm_down cfg = okR ()"

definition spice_vm_up :: "spice_config \<Rightarrow> unit result rt_act" where
  "spice_vm_up cfg = (if \<not> sp_enabled cfg then okR () else okR ())"
definition spice_vm_down :: "spice_config \<Rightarrow> unit result rt_act" where
  "spice_vm_down cfg = (if \<not> sp_enabled cfg then okR () else okR ())"

subsection \<open>The sequences\<close>

definition opt_hook :: "'c option \<Rightarrow> ('c \<Rightarrow> unit result rt_act) \<Rightarrow> unit result rt_act" where
  "opt_hook c hook = (case c of None \<Rightarrow> okR () | Some cfg \<Rightarrow> hook cfg)"

definition ddc_gate :: "os \<Rightarrow> ddc_config \<Rightarrow> unit result rt_act" where
  "ddc_gate os d =
     andThen peek (\<lambda>rt.
       if rt_irq_pinning_complete rt then ddc_vm_up os d
       else andThen (modify (push_info ''peripherals/ddc: IRQ pinning not yet complete; deferring DDC vm_up''))
              (\<lambda>_. okR ()))"

definition apply_vm_up :: "os \<Rightarrow> unit result rt_act" where
  "apply_vm_up os =
     andThen peek (\<lambda>rt.
       case vc_peripherals (rt_cfg rt) of
         None \<Rightarrow> okR ()
       | Some cfg \<Rightarrow>
           bindR (opt_hook (pc_tasmota cfg) (tasmota_vm_up os)) (\<lambda>_.
           bindR (opt_hook (pc_ddc cfg) (ddc_gate os)) (\<lambda>_.
           bindR (opt_hook (pc_looking_glass cfg) lg_vm_up) (\<lambda>_.
             opt_hook (pc_spice cfg) spice_vm_up))))"

definition apply_vm_down :: "os \<Rightarrow> unit result rt_act" where
  "apply_vm_down os =
     andThen peek (\<lambda>rt.
       case vc_peripherals (rt_cfg rt) of
         None \<Rightarrow> okR ()
       | Some cfg \<Rightarrow>
           bindR (opt_hook (pc_tasmota cfg) (tasmota_vm_down os)) (\<lambda>_.
           bindR (opt_hook (pc_ddc cfg) (ddc_vm_down os)) (\<lambda>_.
           bindR (opt_hook (pc_looking_glass cfg) lg_vm_down) (\<lambda>_.
             opt_hook (pc_spice cfg) spice_vm_down))))"

subsection \<open>The trait as an interface\<close>

text \<open>
  What the state machine relies on in a hook: it leaves the lifecycle of the VM alone, whatever it
  does to the relay flag and the event list.
\<close>

definition lifecycle :: "vm_runtime \<Rightarrow> vm_runtime" where
  "lifecycle rt = rt\<lparr>rt_events := [], rt_tasmota_powered := False\<rparr>"

lemma lifecycle_push [simp]: "lifecycle (push_event k m rt) = lifecycle rt"
  by (simp add: lifecycle_def push_event_def)

locale peripheral_hook =
  fixes vm_up vm_down :: "unit result rt_act"
  assumes up_keeps: "keeps lifecycle vm_up"
    and down_keeps: "keeps lifecycle vm_down"
begin

lemma up_then: "keeps lifecycle m \<Longrightarrow> keeps lifecycle (bindR vm_up (\<lambda>_. m))"
  by (intro keeps_intros up_keeps)

lemma down_then: "keeps lifecycle m \<Longrightarrow> keeps lifecycle (bindR vm_down (\<lambda>_. m))"
  by (intro keeps_intros down_keeps)

lemma up_run: "vm_up (rt, t) = (r, (rt', t')) \<Longrightarrow> lifecycle rt' = lifecycle rt"
  using up_keeps by (rule keepsE)

lemma down_run: "vm_down (rt, t) = (r, (rt', t')) \<Longrightarrow> lifecycle rt' = lifecycle rt"
  using down_keeps by (rule keepsE)

end

lemma tasmota_keeps: "keeps lifecycle (tasmota_vm_up os cfg)" "keeps lifecycle (tasmota_vm_down os cfg)"
  unfolding tasmota_vm_up_def tasmota_vm_down_def
  by (intro keeps_intros; simp add: lifecycle_def push_warning_def push_event_def)+

interpretation tasmota: peripheral_hook "tasmota_vm_up os cfg" "tasmota_vm_down os cfg" for os cfg
  by unfold_locales (rule tasmota_keeps)+

interpretation ddc: peripheral_hook "ddc_gate os cfg" "ddc_vm_down os cfg" for os cfg
  by unfold_locales
    (auto simp: ddc_gate_def ddc_vm_up_def ddc_vm_down_def push_info_def intro!: keeps_intros)

interpretation lg: peripheral_hook "lg_vm_up cfg" "lg_vm_down cfg" for cfg
  by unfold_locales (simp_all add: lg_vm_up_def lg_vm_down_def keeps_okR)

interpretation spice: peripheral_hook "spice_vm_up cfg" "spice_vm_down cfg" for cfg
  by unfold_locales (simp_all add: spice_vm_up_def spice_vm_down_def keeps_okR)

lemma opt_hook_keeps: "(\<And>cfg. keeps v (hook cfg)) \<Longrightarrow> keeps v (opt_hook c hook)"
  by (simp add: opt_hook_def keeps_okR split: option.split)

lemma apply_vm_up_keeps: "keeps lifecycle (apply_vm_up os)"
  unfolding apply_vm_up_def
  by (intro keeps_intros opt_hook_keeps tasmota.up_keeps ddc.up_keeps lg.up_keeps spice.up_keeps)

lemma apply_vm_down_keeps: "keeps lifecycle (apply_vm_down os)"
  unfolding apply_vm_down_def
  by (intro keeps_intros opt_hook_keeps tasmota.down_keeps ddc.down_keeps lg.down_keeps spice.down_keeps)

subsection \<open>Events of the hooks\<close>

definition ddc_path :: "ddc_config \<Rightarrow> path" where
  "ddc_path cfg = ''/dev/i2c-'' @ show_nat (unat (dc_monitor_i2c_bus cfg))"

fun is_ddc_event :: "path \<Rightarrow> 8 word \<Rightarrow> os_event \<Rightarrow> bool" where
  "is_ddc_event p input (EvI2cOpen q ok) = (q = p)"
| "is_ddc_event p input (EvI2cSlave q a ok) = (q = p \<and> a = DDC_I2C_ADDRESS_7BIT)"
| "is_ddc_event p input (EvI2cWrite q bs ok) =
     (q = p \<and> bs \<in> {set_vcp_frame VCP_CODE_INPUT_SOURCE input, get_vcp_frame VCP_CODE_INPUT_SOURCE})"
| "is_ddc_event p input (EvI2cRead q) = (q = p)"
| "is_ddc_event p input e = False"

lemma send_ddc_event: "io_emits (is_ddc_event (''/dev/i2c-'' @ show_nat (unat bus)) input)
    (send_ddc_set_input os bus VCP_CODE_INPUT_SOURCE input)"
  unfolding send_ddc_set_input_def Let_def by (intro emits_intros) auto

lemma ddc_set_input_event: "io_emits (is_ddc_event (ddc_path cfg) input) (ddc_set_input os cfg input)"
  unfolding ddc_set_input_def ddc_path_def by (intro emits_intros send_ddc_event)

lemma run_result: "(case r of Inl e \<Rightarrow> errR e | Inr u \<Rightarrow> okR ()) s = (x, s') \<longleftrightarrow> x = r \<and> s' = s"
  by (cases r) (auto simp: run_simps)

lemma send_ddc_ok:
  assumes "send_ddc_set_input os bus vcp input t = (Inr u, t')"
  shows "\<exists>ev. t' = t @ ev \<and>
    EvI2cWrite (''/dev/i2c-'' @ show_nat (unat bus)) (set_vcp_frame vcp input) True \<in> set ev"
  using assms
  by (auto simp: send_ddc_set_input_def Let_def run_simps run_result call_defs call_def)

lemma ddc_set_input_err:
  assumes "ddc_set_input os cfg input t = (Inl e, t')"
  shows "dc_fatal_on_error cfg"
proof -
  obtain x t1 where x: "send_ddc_set_input os (dc_monitor_i2c_bus cfg) VCP_CODE_INPUT_SOURCE input t = (x, t1)"
    by (metis prod.exhaust)
  show ?thesis
  proof (rule ccontr)
    assume "\<not> dc_fatal_on_error cfg"
    with assms x show False by (cases x) (simp_all add: ddc_set_input_def act_simps)
  qed
qed

text \<open>The messages published in a trace: topic, payload and outcome.\<close>

definition published :: "trace \<Rightarrow> (string \<times> string \<times> bool) list" where
  "published t = List.map_filter (\<lambda>e. case e of EvMqttPublish tp pl ok \<Rightarrow> Some (tp, pl, ok) | _ \<Rightarrow> None) t"

lemma published_append [simp]: "published (a @ b) = published a @ published b"
  by (simp add: published_def map_filter_def)

lemma await_published: "await_connack os n t = (r, t') \<Longrightarrow> published t' = published t"
  by (induction n arbitrary: t)
    (auto simp: run_simps call_defs call_def published_def map_filter_def split: mqtt_event.splits)

lemma publish_power_published:
  assumes "publish_power os cfg on t = (r, t')"
  shows "case r of
      Inr u \<Rightarrow> published t' = published t @ [(power_topic cfg, power_payload on, True)]
    | Inl e \<Rightarrow> published t' = published t \<or>
        (\<exists>ok. published t' = published t @ [(power_topic cfg, power_payload on, ok)])"
proof (cases "parse_mqtt_host cfg")
  case (Inl e)
  with assms show ?thesis by (auto simp: publish_power_def run_simps)
next
  case (Inr hp)
  obtain host port where hp: "hp = (host, port)" by (cases hp)
  define t1 where "t1 = t @ [EvMqttConnect host port (''chalybs-'' @ tc_device_id cfg)]"
  have p1: "published t1 = published t" by (simp add: t1_def published_def map_filter_def)
  let ?K = "\<lambda>connected. if \<not> connected then errR (Peripheral ''tasmota: never received ConnAck before publish'')
      else
        bindR (mapErr (\<lambda>e. Peripheral (''tasmota: publish error on '' @ backquoted (power_topic cfg) @ '': '' @ e))
                 (mqtt_publish os (power_topic cfg) (power_payload on))) (\<lambda>_.
        andThen (mqtt_poll os) (\<lambda>res.
          case res of
            MqttErr e \<Rightarrow> errR (Peripheral (''tasmota: eventloop error after publish: '' @ e))
          | _ \<Rightarrow> okR ()))"
  have body: "bindR (await_connack os CONNACK_POLLS) ?K t1 = (r, t')"
    using assms Inr hp by (simp add: publish_power_def andThen_def mqtt_connect_def call_def t1_def)
  obtain w t2 where 2: "await_connack os CONNACK_POLLS t1 = (w, t2)" by (metis prod.exhaust)
  have p2: "published t2 = published t" using await_published [OF 2] p1 by simp
  show ?thesis
  proof (cases "w = Inr True")
    case False
    then have "(\<exists>e. r = Inl e) \<and> t' = t2"
      using body 2 by (cases w) (auto simp: bindR_def errR_def)
    with p2 show ?thesis by auto
  next
    case True
    let ?pub = "mqtt_publish os (power_topic cfg) (power_payload on)"
    obtain x t3 where 3: "?pub t2 = (x, t3)" by (metis prod.exhaust)
    then have p3: "published t3 = published t @ [(power_topic cfg, power_payload on, is_ok x)]"
      using p2 by (auto simp: call_defs call_def published_def map_filter_def)
    show ?thesis
    proof (cases x)
      case (Inl e)
      then have "(\<exists>e. r = Inl e) \<and> t' = t3"
        using body 2 True 3 by (auto simp: bindR_def mapErr_def)
      with p3 show ?thesis by auto
    next
      case (Inr u)
      then have t': "t' = t3 @ [EvMqttPoll]"
        using body 2 True 3
        by (auto simp: andThen_def bindR_def mapErr_def mqtt_poll_def call_def okR_def errR_def
            split: mqtt_event.splits)
      then have "published t' = published t @ [(power_topic cfg, power_payload on, True)]"
        using p3 Inr by (simp add: published_def map_filter_def)
      then show ?thesis by (auto split: sum.split)
    qed
  qed
qed

fun is_i2c :: "os_event \<Rightarrow> bool" where
  "is_i2c (EvI2cOpen p ok) = True"
| "is_i2c (EvI2cSlave p a ok) = True"
| "is_i2c (EvI2cWrite p bs ok) = True"
| "is_i2c (EvI2cRead p) = True"
| "is_i2c e = False"

lemma publish_no_i2c: "io_emits (\<lambda>e. \<not> is_i2c e) (publish_power os cfg on)"
proof -
  have "io_emits (\<lambda>e. \<not> is_i2c e) (await_connack os n)" for n
    by (induction n) (auto intro!: emits_intros split: mqtt_event.split)
  then show ?thesis
    unfolding publish_power_def by (auto intro!: emits_intros split: mqtt_event.split)
qed

lemma tasmota_up_no_i2c: "rt_emits (\<lambda>e. \<not> is_i2c e) (tasmota_vm_up os cfg)"
  unfolding tasmota_vm_up_def by (intro emits_intros publish_no_i2c)

lemma tasmota_up_run:
  assumes "tasmota_vm_up os cfg (rt, t) = (r, (rt', t'))"
  shows "r = Inr ()" "t' = snd (publish_power os cfg True t)"
    "rt_tasmota_powered rt' \<longleftrightarrow> is_ok (fst (publish_power os cfg True t))"
proof -
  obtain p t1 where p: "publish_power os cfg True t = (p, t1)" by (metis prod.exhaust)
  show "r = Inr ()" "t' = snd (publish_power os cfg True t)"
    "rt_tasmota_powered rt' \<longleftrightarrow> is_ok (fst (publish_power os cfg True t))"
    using assms p by (cases p; simp add: tasmota_vm_up_def run_simps push_warning_def)+
qed

lemma tasmota_down_run:
  assumes "tasmota_vm_down os cfg (rt, t) = (r, (rt', t'))"
  shows "r = Inr ()" "t' = snd (publish_power os cfg False t)" "\<not> rt_tasmota_powered rt'"
proof -
  obtain p t1 where p: "publish_power os cfg False t = (p, t1)" by (metis prod.exhaust)
  show "r = Inr ()" "t' = snd (publish_power os cfg False t)"
    "\<not> rt_tasmota_powered rt'"
    using assms p by (cases p; simp add: tasmota_vm_down_def run_simps push_warning_def)+
qed

lemma dropWhile_stop: "b \<noteq> [] \<Longrightarrow> \<not> P (hd b) \<Longrightarrow> \<exists>u. dropWhile P (a @ b) = u @ b"
proof (induction a)
  case Nil
  then have "dropWhile P b = b" by (cases b) auto
  then show ?case by auto
next
  case (Cons x a)
  then show ?case by (auto intro: exI [of _ "x # a"])
qed

lemma mqtt_bad_port:
  assumes "trim (tc_mqtt_host cfg) = raw" "split_on (CHR '':'') raw = h # p # ps" "parse_u16 p = Inl e"
  shows "\<not> is_ok (parse_mqtt_host cfg)"
  by (simp add: parse_mqtt_host_def Let_def assms)

subsection \<open>Properties of the peripherals\<close>

text \<open>
  Both DDC frames end in the checksum the protocol asks for: the destination address and all
  bytes of a frame, the checksum included, have exclusive-or zero.
\<close>

theorem ddc_frame_checksums:
  "foldl (\<lambda>a b. a XOR b) DDC_DEST_ADDRESS_8BIT (set_vcp_frame vcp input) = 0 \<and>
   foldl (\<lambda>a b. a XOR b) DDC_DEST_ADDRESS_8BIT (get_vcp_frame vcp) = 0 \<and>
   length (set_vcp_frame vcp input) = 7 \<and> length (get_vcp_frame vcp) = 5"
proof -
  have "foldl (\<lambda>a b. a XOR b) d (p @ [compute_ddc_checksum d p]) = 0" for d :: "8 word" and p
    by (simp add: compute_ddc_checksum_def)
  then show ?thesis
    by (simp only: set_vcp_frame_def get_vcp_frame_def Let_def) simp
qed

text \<open>
  C33. An input switch sends nothing but the two frames for that input to the configured bus; it fails
  only when errors are configured to be fatal, and then success means that the frame that sets the
  input was written.
\<close>

theorem ddc_switch_outcome:
  "case ddc_set_input os cfg input t of
     (r, t') \<Rightarrow>
       (\<exists>ev. t' = t @ ev \<and> list_all (is_ddc_event (ddc_path cfg) input) ev \<and>
          (case r of
             Inl e \<Rightarrow> dc_fatal_on_error cfg
           | Inr u \<Rightarrow>
               if dc_fatal_on_error cfg
               then EvI2cWrite (ddc_path cfg) (set_vcp_frame VCP_CODE_INPUT_SOURCE input) True \<in> set ev
               else True))"
proof -
  obtain r t' where run: "ddc_set_input os cfg input t = (r, t')" by (metis prod.exhaust)
  obtain ev where ev: "t' = t @ ev" "list_all (is_ddc_event (ddc_path cfg) input) ev"
    using emitsE [OF ddc_set_input_event run] by blast
  obtain w t1 where w: "send_ddc_set_input os (dc_monitor_i2c_bus cfg) VCP_CODE_INPUT_SOURCE input t = (w, t1)"
    by (metis prod.exhaust)
  have "case r of Inl e \<Rightarrow> dc_fatal_on_error cfg
      | Inr u \<Rightarrow> (dc_fatal_on_error cfg \<longrightarrow>
          EvI2cWrite (ddc_path cfg) (set_vcp_frame VCP_CODE_INPUT_SOURCE input) True \<in> set ev)"
  proof (cases w)
    case (Inl e)
    with run w show ?thesis by (cases "dc_fatal_on_error cfg") (auto simp: ddc_set_input_def run_simps)
  next
    case (Inr u)
    with run w have "r = Inr () \<and> t' = t1" by (simp add: ddc_set_input_def run_simps)
    with send_ddc_ok [OF w [unfolded Inr]] ev(1) show ?thesis by (auto simp: ddc_path_def)
  qed
  with ev run show ?thesis by (auto split: sum.splits)
qed

text \<open>
  The relay hooks never fail.  Each publishes at most one message, ON going up and OFF going down,
  on the device's topic; the powered flag is set exactly when ON was published and confirmed, and is
  clear after going down.
\<close>

theorem tasmota_soft_fail:
  "case (tasmota_vm_up os cfg (rt, t), tasmota_vm_down os cfg (rt, t)) of
     ((ru, (rtu, tu)), (rd, (rtd, td))) \<Rightarrow>
       ru = Inr () \<and> rd = Inr () \<and> \<not> rt_tasmota_powered rtd \<and>
       published tu \<in> insert (published t) (range (\<lambda>ok. published t @ [(power_topic cfg, ''ON'', ok)])) \<and>
       published td \<in> insert (published t) (range (\<lambda>ok. published t @ [(power_topic cfg, ''OFF'', ok)])) \<and>
       (if rt_tasmota_powered rtu then published tu = published t @ [(power_topic cfg, ''ON'', True)]
        else \<not> is_ok (fst (publish_power os cfg True t)))"
proof -
  obtain ru rtu tu where up: "tasmota_vm_up os cfg (rt, t) = (ru, (rtu, tu))" by (metis prod.exhaust)
  obtain rd rtd td where down: "tasmota_vm_down os cfg (rt, t) = (rd, (rtd, td))" by (metis prod.exhaust)
  have pub: "case fst (publish_power os cfg on t) of
      Inr u \<Rightarrow> published (snd (publish_power os cfg on t)) = published t @ [(power_topic cfg, power_payload on, True)]
    | Inl e \<Rightarrow> published (snd (publish_power os cfg on t)) = published t \<or>
        (\<exists>ok. published (snd (publish_power os cfg on t)) = published t @ [(power_topic cfg, power_payload on, ok)])" for on
    by (rule publish_power_published) simp
  show ?thesis
    using tasmota_up_run [OF up] tasmota_down_run [OF down] pub [of True] pub [of False]
    by (auto simp: up down power_payload_def image_iff is_ok_iff split: sum.splits)
qed

text \<open>
  Bringing the peripherals up leaves the VM's lifecycle alone, can fail only through a DDC switch
  whose errors are fatal, and while IRQ pinning is not known to be complete it touches no I2C bus.
\<close>

lemma peripherals_up_run:
  "case apply_vm_up os (rt, t) of
     (r, (rt', t')) \<Rightarrow>
       lifecycle rt' = lifecycle rt \<and>
       (case r of
          Inl e \<Rightarrow> rt_irq_pinning_complete rt \<and>
            (case Option.bind (vc_peripherals (rt_cfg rt)) pc_ddc of None \<Rightarrow> False | Some d \<Rightarrow> dc_fatal_on_error d)
        | Inr u \<Rightarrow> True) \<and>
       (if rt_irq_pinning_complete rt then True
        else (\<exists>ev. t' = t @ ev \<and> list_all (\<lambda>e. \<not> is_i2c e) ev))"
proof -
  obtain r rt' t' where run: "apply_vm_up os (rt, t) = (r, (rt', t'))" by (metis prod.exhaust)
  have keep: "lifecycle rt' = lifecycle rt" by (rule keepsE [OF apply_vm_up_keeps run])
  show ?thesis
  proof (cases "vc_peripherals (rt_cfg rt)")
    case None
    with run keep show ?thesis by (auto simp: apply_vm_up_def run_simps)
  next
    case (Some cfg)
    let ?tas = "opt_hook (pc_tasmota cfg) (tasmota_vm_up os)"
    obtain r1 rt1 t1 where 1: "?tas (rt, t) = (r1, (rt1, t1))" by (metis prod.exhaust)
    have ok1: "r1 = Inr ()"
      using 1 tasmota_up_run(1) by (cases "pc_tasmota cfg") (auto simp: opt_hook_def okR_def)
    have "lifecycle rt1 = lifecycle rt"
      by (rule keepsE [OF opt_hook_keeps 1]) (rule tasmota.up_keeps)
    then have irq: "rt_irq_pinning_complete rt1 = rt_irq_pinning_complete rt"
      unfolding lifecycle_def by (metis vm_runtime.select_convs(8) vm_runtime.update_convs(10,16) vm_runtime.surjective)
    have quiet: "\<exists>ev. t1 = t @ ev \<and> list_all (\<lambda>e. \<not> is_i2c e) ev"
    proof (cases "pc_tasmota cfg")
      case None
      with 1 show ?thesis by (simp add: opt_hook_def okR_def)
    next
      case (Some c)
      with 1 have "tasmota_vm_up os c (rt, t) = (r1, (rt1, t1))" by (simp add: opt_hook_def)
      from emitsE [OF tasmota_up_no_i2c this] show ?thesis by auto
    qed
    have rest: "bindR (opt_hook (pc_ddc cfg) (ddc_gate os)) (\<lambda>_.
        bindR (opt_hook (pc_looking_glass cfg) lg_vm_up) (\<lambda>_. opt_hook (pc_spice cfg) spice_vm_up)) (rt1, t1) = (r, (rt', t'))"
      using run Some 1 ok1 by (simp add: apply_vm_up_def peek_def andThen_def bindR_def)
    have tail: "bindR (opt_hook (pc_looking_glass cfg) lg_vm_up) (\<lambda>_. opt_hook (pc_spice cfg) spice_vm_up) s = (Inr (), s)" for s
      by (simp add: opt_hook_def lg_vm_up_def spice_vm_up_def bindR_def okR_def split: option.split)
    show ?thesis
    proof (cases "pc_ddc cfg")
      case None
      have skip: "bindR (opt_hook None h) F s = F () s"
        for h :: "ddc_config \<Rightarrow> unit result rt_act" and F :: "unit \<Rightarrow> unit result rt_act" and s
        by (simp add: opt_hook_def bindR_def okR_def)
      from rest have "r = Inr () \<and> t' = t1" unfolding None skip tail by simp
      with keep quiet run Some show ?thesis by simp
    next
      case ddc: (Some d)
      show ?thesis
      proof (cases "rt_irq_pinning_complete rt")
        case False
        then have skipped: "\<exists>rt2. bindR (opt_hook (Some d) (ddc_gate os)) F (rt1, t1) = F () (rt2, t1)"
          for F :: "unit \<Rightarrow> unit result rt_act"
          using irq by (auto simp: opt_hook_def ddc_gate_def bindR_def peek_def andThen_def modify_def okR_def)
        from rest have "r = Inr () \<and> t' = t1"
          unfolding ddc
          using skipped [of "\<lambda>_. bindR (opt_hook (pc_looking_glass cfg) lg_vm_up) (\<lambda>_. opt_hook (pc_spice cfg) spice_vm_up)"]
          unfolding tail by auto
        with keep quiet run False show ?thesis by simp
      next
        case True
        have "dc_fatal_on_error d" if "r = Inl e" for e
        proof -
          obtain x t2 where x: "ddc_set_input os d (dc_vm_input d) t1 = (x, t2)" by (metis prod.exhaust)
          then have gate: "ddc_gate os d (rt1, t1) = (x, (rt1, t2))"
            using True irq by (simp add: ddc_gate_def ddc_vm_up_def act_simps)
          have "x = Inl e"
            using rest that gate tail by (cases x) (simp_all add: ddc opt_hook_def bindR_def)
          with x have "ddc_set_input os d (dc_vm_input d) t1 = (Inl e, t2)" by simp
          then show ?thesis by (rule ddc_set_input_err)
        qed
        with keep run True Some ddc show ?thesis by (auto split: sum.split)
      qed
    qed
  qed
qed

text \<open>
  A broker address of the documented form \<^verbatim>\<open>mqtt://host:port\<close> is never accepted: the text
  before the first colon is taken for the host and what follows for the port.
\<close>

theorem mqtt_url_rejected:
  "\<not> is_ok (parse_mqtt_host (cfg\<lparr>tc_mqtt_host := ''mqtt://'' @ rest\<rparr>))"
proof -
  obtain tail where trim: "trim (''mqtt://'' @ rest) = ''mqtt'' @ CHR '':'' # CHR ''/'' # tail"
  proof -
    have "trim (''mqtt://'' @ rest) = rev (dropWhile is_ws (rev rest @ rev ''mqtt://''))"
      by (simp add: trim_def is_ws_def)
    moreover obtain u where "dropWhile is_ws (rev rest @ rev ''mqtt://'') = u @ rev ''mqtt://''"
      using dropWhile_stop [of "rev ''mqtt://''" is_ws "rev rest"] by (auto simp: is_ws_def)
    ultimately show thesis using that [of "CHR ''/'' # rev u"] by simp
  qed
  obtain p ps where p: "split_on (CHR '':'') (CHR ''/'' # tail) = (CHR ''/'' # p) # ps"
    by (cases "split_on (CHR '':'') tail") auto
  have "split_on (CHR '':'') (''mqtt'' @ CHR '':'' # CHR ''/'' # tail) =
      ''mqtt'' # split_on (CHR '':'') (CHR ''/'' # tail)"
    by (rule split_on_append) simp
  then have pieces: "split_on (CHR '':'') (''mqtt'' @ CHR '':'' # CHR ''/'' # tail) =
      ''mqtt'' # (CHR ''/'' # p) # ps"
    unfolding p .
  have port: "parse_u16 (CHR ''/'' # p) = Inl InvalidDigit"
    by (simp add: parse_u16_def parse_unsigned_def to_digit_def)
  have host: "trim (tc_mqtt_host (cfg\<lparr>tc_mqtt_host := ''mqtt://'' @ rest\<rparr>)) =
      ''mqtt'' @ CHR '':'' # CHR ''/'' # tail"
    using trim by simp
  show ?thesis by (rule mqtt_bad_port [OF host pieces port])
qed

end
