(* ===== verification/Chalybs_Irq.thy ===== *)
theory Chalybs_Irq
  imports Chalybs_Peripherals
begin

text \<open>
  Interrupt pinning, from \<^verbatim>\<open>core/src/irq/pin.rs\<close>: the choice of target CPUs, the discovery of
  a device's MSI interrupts, the synchronous \<^verbatim>\<open>pin_irqs\<close>, and the background worker.  The
  worker polls for as long as QEMU lives, so its loop is a \<open>partial_function\<close>: a run that never
  ends is \<open>None\<close>.  Spawning yields an event and the job the thread gets; the thread runs beside the
  rest of the program, which the arbitrary answers of the outside world cover on both sides.
\<close>

subsection \<open>Devices and target CPUs\<close>

definition collect_devices :: "vm_config \<Rightarrow> pci_device_config list" where
  "collect_devices cfg =
     (let d = vc_devices cfg
      in (case dv_gpu d of None \<Rightarrow> [] | Some v \<Rightarrow> v) @ (case dv_nvme d of None \<Rightarrow> [] | Some v \<Rightarrow> v) @
         (case dv_nic d of None \<Rightarrow> [] | Some v \<Rightarrow> v) @ (case dv_usb d of None \<Rightarrow> [] | Some v \<Rightarrow> v))"

definition msi_irqs_dir :: "string \<Rightarrow> path" where
  "msi_irqs_dir pci_addr = ''/sys/bus/pci/devices/'' @ pci_addr @ ''/msi_irqs''"

definition device_numa_node :: "os \<Rightarrow> string \<Rightarrow> int option io" where
  "device_numa_node os pci_addr =
     andThen (read_to_string os (''/sys/bus/pci/devices/'' @ pci_addr @ ''/numa_node'')) (\<lambda>r.
       ret (case r of Inr s \<Rightarrow> ok_opt (parse_i32 (trim s)) | Inl e \<Rightarrow> None))"

definition node_cpus :: "os \<Rightarrow> int \<Rightarrow> nat list result io" where
  "node_cpus os node =
     (let path = ''/sys/devices/system/node/node'' @ show_int node @ ''/cpulist''
      in bindR (mapErr (\<lambda>e. Irq (''failed to read NUMA node cpulist from '' @ path @ '': '' @ io_error_msg e))
                  (read_to_string os path)) (\<lambda>data.
           case parse_cpu_list (trim data) of
             Inl e \<Rightarrow> errR (Irq (''failed to parse NUMA node cpulist '' @ path @ '': '' @ show_error e))
           | Inr cs \<Rightarrow> okR cs))"

definition intersect :: "nat list \<Rightarrow> nat list \<Rightarrow> nat list" where
  "intersect a b = filter (\<lambda>v. v \<in> set b) a"

definition target_cpus_for_device :: "os \<Rightarrow> nat list \<Rightarrow> pci_device_config \<Rightarrow> nat list result io" where
  "target_cpus_for_device os vm_cpus dev =
     andThen (device_numa_node os (pd_pci_address dev)) (\<lambda>n.
       let node = (case n of None \<Rightarrow> -1 | Some v \<Rightarrow> v)
       in if 0 \<le> node then
            bindR (node_cpus os node) (\<lambda>node_cpus.
              let subset = intersect vm_cpus node_cpus
              in if subset = [] then
                   errR (Irq (''no VM CPUs on NUMA node '' @ show_int node @ '' for device '' @
                     pd_pci_address dev @ ''; vm_cpus='' @ show_nats_debug vm_cpus @ '', node_cpus='' @
                     show_nats_debug node_cpus))
                 else okR subset)
          else okR vm_cpus)"

subsection \<open>Discovery\<close>

text \<open>The entries whose names are interrupt numbers; unreadable and non-UTF-8 ones are skipped.\<close>

definition irq_entry :: "dir_entry \<Rightarrow> nat list" where
  "irq_entry e =
     (case e of
        EntryErr m \<Rightarrow> []
      | EntryNonUtf8 \<Rightarrow> []
      | Entry name \<Rightarrow> (case parse_u32 name of Inr irq \<Rightarrow> [irq] | Inl _ \<Rightarrow> []))"

definition device_irqs :: "os \<Rightarrow> pci_device_config \<Rightarrow> nat list result io" where
  "device_irqs os dev =
     (let dir = msi_irqs_dir (pd_pci_address dev)
      in andThen (path_exists os dir) (\<lambda>there.
           if \<not> there then
             (if pd_required dev then
                errR (Irq (''required device '' @ pd_pci_address dev @ '' has no msi_irqs directory at '' @ dir))
              else okR [])
           else
             bindR (mapErr (\<lambda>e. Irq (''failed to read msi_irqs for '' @ pd_pci_address dev @ '': '' @ io_error_msg e))
                      (read_dir os dir)) (\<lambda>entries.
               let irqs = concat (map irq_entry entries)
               in if irqs = [] \<and> pd_required dev then
                    errR (Irq (''required device '' @ pd_pci_address dev @ '' has empty msi_irqs directory''))
                  else okR irqs)))"

definition device_irqs_best_effort :: "os \<Rightarrow> pci_device_config \<Rightarrow> nat list io" where
  "device_irqs_best_effort os dev =
     (let dir = msi_irqs_dir (pd_pci_address dev)
      in andThen (path_exists os dir) (\<lambda>there.
           if \<not> there then ret []
           else
             andThen (read_dir os dir) (\<lambda>r.
               ret (case r of Inr entries \<Rightarrow> concat (map irq_entry entries) | Inl e \<Rightarrow> []))))"

subsection \<open>Pinning one interrupt\<close>

definition affinity_path :: "nat \<Rightarrow> path" where
  "affinity_path irq = ''/proc/irq/'' @ show_nat irq @ ''/smp_affinity_list''"

definition pin_single_irq :: "os \<Rightarrow> nat \<Rightarrow> nat list \<Rightarrow> unit result io" where
  "pin_single_irq os irq cpus =
     (let irq_dir = ''/proc/irq/'' @ show_nat irq
      in andThen (path_exists os irq_dir) (\<lambda>there.
           if \<not> there then
             errR (Irq (''IRQ '' @ show_nat irq @ '' directory '' @ irq_dir @ '' does not exist''))
           else
             andThen (path_exists os (affinity_path irq)) (\<lambda>listed.
               if \<not> listed then
                 errR (Irq (''smp_affinity_list not found for IRQ '' @ show_nat irq @ '' at '' @ affinity_path irq @
                   '' (kernel may be too old or not support cpulist interface)''))
               else
                 mapErr (\<lambda>e. Irq (''failed to write IRQ affinity for '' @ show_nat irq @ '' to '' @
                     affinity_path irq @ '': '' @ io_error_msg e))
                   (write_file os (affinity_path irq) (format_cpu_list_irq cpus)))))"

definition process_exists :: "os \<Rightarrow> int \<Rightarrow> bool io" where
  "process_exists os pid = path_exists os (''/proc/'' @ show_int pid)"

subsection \<open>Auxiliary GPU functions\<close>

definition parse_bdf_slot_and_func :: "string \<Rightarrow> (string \<times> nat) option" where
  "parse_bdf_slot_and_func bdf =
     (case split_on (CHR '':'') bdf of
        [domain_str, bus_str, devfunc_str] \<Rightarrow>
          (case split_on (CHR ''.'') devfunc_str of
             [dev_str, func_str] \<Rightarrow>
               if length domain_str \<noteq> 4 \<or> length bus_str \<noteq> 2 \<or> length dev_str \<noteq> 2 \<or> func_str = []
               then None
               else
                 (case (ok_opt (parse_unsigned 16 u16_max domain_str),
                        ok_opt (parse_unsigned 16 u8_max bus_str),
                        ok_opt (parse_unsigned 16 u8_max dev_str),
                        ok_opt (parse_u8 func_str)) of
                    (Some domain, Some bus, Some dev, Some func) \<Rightarrow>
                      Some (show_hex_pad 4 domain @ '':'' @ show_hex_pad 2 bus @ '':'' @ show_hex_pad 2 dev, func)
                  | _ \<Rightarrow> None)
           | _ \<Rightarrow> None)
      | _ \<Rightarrow> None)"

definition slot_functions :: "string \<Rightarrow> pci_device_config list \<Rightarrow> nat list" where
  "slot_functions slot gpus =
     List.map_filter
       (\<lambda>g. case parse_bdf_slot_and_func (pd_pci_address g) of
              None \<Rightarrow> None
            | Some (g_slot, g_func) \<Rightarrow> if g_slot = slot then Some g_func else None)
       gpus"

definition is_aux_gpu_function :: "pci_device_config \<Rightarrow> vm_config \<Rightarrow> bool" where
  "is_aux_gpu_function dev cfg =
     (case parse_bdf_slot_and_func (pd_pci_address dev) of
        None \<Rightarrow> False
      | Some (slot, func) \<Rightarrow>
          (case dv_gpu (vc_devices cfg) of
             None \<Rightarrow> False
           | Some gpu_cfgs \<Rightarrow>
               if gpu_cfgs = [] then False
               else
                 (let same_slot = slot_functions slot gpu_cfgs
                  in 1 < length same_slot \<and> 0 \<in> set same_slot \<and> func \<noteq> 0)))"

subsection \<open>The worker\<close>

record device_work =
  dw_dev :: pci_device_config
  dw_target_cpus :: "nat list"
  dw_is_aux_gpu :: bool
  dw_done :: bool

definition prepare_work :: "os \<Rightarrow> nat list \<Rightarrow> vm_config \<Rightarrow> pci_device_config \<Rightarrow> device_work list io" where
  "prepare_work os vm_cpus cfg dev =
     (if is_aux_gpu_function dev cfg then ret []
      else
        andThen (target_cpus_for_device os vm_cpus dev) (\<lambda>r.
          ret (case r of
                 Inr cpus \<Rightarrow> [\<lparr>dw_dev = dev, dw_target_cpus = cpus, dw_is_aux_gpu = False, dw_done = False\<rparr>]
               | Inl e \<Rightarrow> [])))"

text \<open>One device of a pass: the item afterwards and whether its interrupts were found.\<close>

definition work_device :: "os \<Rightarrow> device_work \<Rightarrow> (device_work \<times> bool) io" where
  "work_device os w =
     (if dw_done w then ret (w, False)
      else
        andThen (device_irqs_best_effort os (dw_dev w)) (\<lambda>irqs.
          if irqs = [] then ret (w, False)
          else
            andThen (eachA irqs (\<lambda>irq. andThen (pin_single_irq os irq (dw_target_cpus w)) (\<lambda>r. ret ()))) (\<lambda>_.
              ret (w\<lparr>dw_done := True\<rparr>, True))))"

fun work_pass :: "os \<Rightarrow> device_work list \<Rightarrow> (device_work list \<times> bool) io" where
  "work_pass os [] = ret ([], False)"
| "work_pass os (w # ws) =
     andThen (work_device os w) (\<lambda>(w', p).
     andThen (work_pass os ws) (\<lambda>(ws', q). ret (w' # ws', p \<or> q)))"

definition completed_devices :: "device_work list \<Rightarrow> nat" where
  "completed_devices ws = length (filter dw_done ws)"

definition POLL_SLEEP_MS :: nat where "POLL_SLEEP_MS = 5"

text \<open>The loop: \<open>aborted_early\<close>, the items and the trace at its end, or no end at all.\<close>

partial_function (option) irq_loop ::
  "os \<Rightarrow> int \<Rightarrow> device_work list \<Rightarrow> trace \<Rightarrow> (bool \<times> device_work list \<times> trace) option" where
  "irq_loop os pid ws t =
     (if length ws \<le> completed_devices ws then Some (False, ws, t)
      else
        (case process_exists os pid t of (alive, t1) \<Rightarrow>
          if \<not> alive then Some (True, ws, t1)
          else
            (case work_pass os ws t1 of ((ws', made_progress), t2) \<Rightarrow>
              if length ws \<le> completed_devices ws' then Some (False, ws', t2)
              else
                irq_loop os pid ws' (if made_progress then t2 else snd (sleep_ms POLL_SLEEP_MS t2)))))"

definition ddc_of :: "vm_config \<Rightarrow> ddc_config option" where
  "ddc_of cfg = (case vc_peripherals cfg of None \<Rightarrow> None | Some p \<Rightarrow> pc_ddc p)"

text \<open>The body of the thread; the result is the trace at its end.\<close>

definition irq_worker :: "os \<Rightarrow> nat list \<Rightarrow> pci_device_config list \<Rightarrow> int \<Rightarrow> vm_config \<Rightarrow> trace \<Rightarrow> trace option" where
  "irq_worker os vm_cpus devices qemu_pid vm_cfg t =
     (if devices = [] then Some t
      else
        (case gatherA devices (prepare_work os vm_cpus vm_cfg) t of (work_items, t1) \<Rightarrow>
          if work_items = [] then Some t1
          else
            (case irq_loop os qemu_pid work_items t1 of
               None \<Rightarrow> None
             | Some (aborted_early, ws, t2) \<Rightarrow>
                 if aborted_early then Some t2
                 else
                   (case ddc_of vm_cfg of
                      None \<Rightarrow> Some t2
                    | Some ddc_cfg \<Rightarrow> Some (snd (switch_to_vm_input_after_irq os ddc_cfg t2))))))"

subsection \<open>Entry points\<close>

record irq_job =
  ij_vm_cpus :: "nat list"
  ij_devices :: "pci_device_config list"
  ij_qemu_pid :: int
  ij_vm_cfg :: vm_config

text \<open>What \<^verbatim>\<open>spawn_irq_pin_worker\<close> hands to the thread, when it starts one.\<close>

definition irq_job_of :: "vm_runtime \<Rightarrow> irq_job option" where
  "irq_job_of rt =
     (let devices = collect_devices (rt_cfg rt)
      in if devices = [] then None
         else
           (case rt_qemu rt of
              None \<Rightarrow> None
            | Some q \<Rightarrow>
                Some \<lparr>ij_vm_cpus = vl_vm (rt_cpus rt), ij_devices = devices, ij_qemu_pid = qs_pid q,
                      ij_vm_cfg = rt_cfg rt\<rparr>))"

definition spawn_irq_pin_worker :: "os \<Rightarrow> vm_runtime \<Rightarrow> unit result io" where
  "spawn_irq_pin_worker os rt =
     (case irq_job_of rt of
        None \<Rightarrow> okR ()
      | Some job \<Rightarrow> andThen (spawn_thread ''irq_worker'') (\<lambda>_. okR ()))"

definition run_irq_job :: "os \<Rightarrow> irq_job \<Rightarrow> trace \<Rightarrow> trace option" where
  "run_irq_job os j = irq_worker os (ij_vm_cpus j) (ij_devices j) (ij_qemu_pid j) (ij_vm_cfg j)"

definition pin_device :: "os \<Rightarrow> nat list \<Rightarrow> pci_device_config \<Rightarrow> unit result io" where
  "pin_device os vm_cpus dev =
     bindR (target_cpus_for_device os vm_cpus dev) (\<lambda>target_cpus.
     bindR (device_irqs os dev) (\<lambda>irqs.
       if irqs = [] then okR ()
       else eachR irqs (\<lambda>irq. pin_single_irq os irq target_cpus)))"

definition pin_irqs :: "os \<Rightarrow> vm_runtime \<Rightarrow> unit result io" where
  "pin_irqs os rt =
     (let devices = collect_devices (rt_cfg rt)
      in if devices = [] then okR () else eachR devices (pin_device os (vl_vm (rt_cpus rt))))"

subsection \<open>Targets\<close>

lemma node_cpus_readonly [emits_intros]: "io_emits is_readonly (node_cpus os node)"
  unfolding node_cpus_def Let_def by (intro emits_intros) auto

lemma target_cpus_readonly [emits_intros]: "io_emits is_readonly (target_cpus_for_device os cpus dev)"
  unfolding target_cpus_for_device_def device_numa_node_def Let_def by (intro emits_intros) auto

lemma target_cpus_ok:
  assumes "target_cpus_for_device os vm_cpus dev t = (Inr cpus, t')"
  shows "cpus = vm_cpus \<or> cpus \<noteq> [] \<and> (\<exists>ns. cpus = intersect vm_cpus ns)"
  using assms
  by (auto simp: target_cpus_for_device_def Let_def run_simps split: if_splits)

definition good_target :: "nat list \<Rightarrow> nat list \<Rightarrow> bool" where
  "good_target vm_cpus cpus \<longleftrightarrow> set cpus \<subseteq> set vm_cpus \<and> (cpus = [] \<longrightarrow> vm_cpus = [])"

lemma target_cpus_good: "target_cpus_for_device os vm_cpus dev t = (Inr cpus, t') \<Longrightarrow> good_target vm_cpus cpus"
  using target_cpus_ok [of os vm_cpus dev t cpus t'] by (auto simp: good_target_def intersect_def)

subsection \<open>What pinning touches\<close>

fun is_irq_event :: "(nat list \<Rightarrow> bool) \<Rightarrow> os_event \<Rightarrow> bool" where
  "is_irq_event T (EvWrite p c ok) = (\<exists>irq cpus. p = affinity_path irq \<and> c = format_cpu_list cpus \<and> T cpus)"
| "is_irq_event T e = is_readonly e"

lemma readonly_irq_event: "is_readonly e \<Longrightarrow> is_irq_event T e"
  by (cases e) simp_all

lemma pin_single_event: "T cpus \<Longrightarrow> io_emits (is_irq_event T) (pin_single_irq os irq cpus)"
  unfolding pin_single_irq_def Let_def format_cpu_list_irq_eq by (intro emits_intros) auto

lemma best_effort_readonly: "io_emits is_readonly (device_irqs_best_effort os dev)"
  unfolding device_irqs_best_effort_def Let_def by (intro emits_intros) auto

lemma work_device_event: "T (dw_target_cpus w) \<Longrightarrow> io_emits (is_irq_event T) (work_device os w)"
  unfolding work_device_def
  by (intro emits_intros pin_single_event emits_mono [OF best_effort_readonly readonly_irq_event]) auto

lemma work_pass_event: "\<forall>w \<in> set ws. T (dw_target_cpus w) \<Longrightarrow> io_emits (is_irq_event T) (work_pass os ws)"
  by (induction ws) (auto intro!: emits_intros work_device_event)

subsection \<open>Progress of the worker\<close>

lemma work_device_step:
  assumes "work_device os w t = ((w', p), t')"
  shows "dw_dev w' = dw_dev w" "dw_target_cpus w' = dw_target_cpus w" "dw_done w' \<longleftrightarrow> dw_done w \<or> p"
  using assms by (auto simp: work_device_def run_simps split: if_splits)

lemma work_pass_step:
  "work_pass os ws t = ((ws', p), t') \<Longrightarrow>
   map dw_dev ws' = map dw_dev ws \<and> map dw_target_cpus ws' = map dw_target_cpus ws \<and> length ws' = length ws"
  by (induction ws arbitrary: ws' p t) (auto simp: run_simps dest: work_device_step)

lemma completed_all: "length ws \<le> completed_devices ws \<longleftrightarrow> list_all dw_done ws"
proof -
  have "length (filter dw_done ws) \<le> length ws" by simp
  then have "length ws \<le> completed_devices ws \<longleftrightarrow> length (filter dw_done ws) = length ws"
    unfolding completed_devices_def by linarith
  also have "\<dots> \<longleftrightarrow> list_all dw_done ws"
    by (induction ws) (auto simp: le_imp_less_Suc less_imp_neq)
  finally show ?thesis .
qed

lemma process_exists_event: "io_emits (is_irq_event T) (process_exists os pid)"
  unfolding process_exists_def by (intro emits_intros) simp

lemma sleep_event: "snd (sleep_ms n t) = t @ [EvSleep n]"
  by (simp add: call_defs call_def)

text \<open>A loop that ends has only written affinity lists.\<close>

definition loop_end_ok :: "(nat list \<Rightarrow> bool) \<Rightarrow> device_work list \<Rightarrow> trace \<Rightarrow> bool \<times> device_work list \<times> trace \<Rightarrow> bool" where
  "loop_end_ok T ws t res \<longleftrightarrow>
     (case res of (aborted, ws', t') \<Rightarrow>
        \<exists>ev. t' = t @ ev \<and> list_all (is_irq_event T) ev)"

lemma loop_end_later:
  assumes "loop_end_ok T ws' t2 res" "t2 = t @ ev" "list_all (is_irq_event T) ev" "map dw_dev ws' = map dw_dev ws"
  shows "loop_end_ok T ws t res"
  using assms by (auto simp: loop_end_ok_def)

lemma targets_kept:
  assumes "work_pass os ws t = ((ws', p), t')" "\<forall>w \<in> set ws. T (dw_target_cpus w)"
  shows "\<forall>w \<in> set ws'. T (dw_target_cpus w)"
proof -
  have "dw_target_cpus ` set ws' = dw_target_cpus ` set ws"
    using work_pass_step [OF assms(1)] by (metis list.set_map)
  with assms(2) show ?thesis by (metis image_iff)
qed

lemma irq_loop_end:
  "irq_loop os pid ws t = Some res \<Longrightarrow> \<forall>w \<in> set ws. T (dw_target_cpus w) \<Longrightarrow> loop_end_ok T ws t res"
proof (induction rule: irq_loop.raw_induct [rotated, consumes 1, case_names again])
  case (again loop os pid ws t res)
  show ?case
  proof (cases "length ws \<le> completed_devices ws")
    case True
    with again(2) show ?thesis by (auto simp: loop_end_ok_def completed_all)
  next
    case unfinished: False
    obtain alive t1 where a: "process_exists os pid t = (alive, t1)" by (metis prod.exhaust)
    obtain e1 where e1: "t1 = t @ e1" "list_all (is_irq_event T) e1"
      using emitsE [OF process_exists_event a] by metis
    show ?thesis
    proof (cases alive)
      case False
      with again(2) unfinished a e1 show ?thesis by (auto simp: loop_end_ok_def completed_all)
    next
      case True
      obtain ws' p t2 where w: "work_pass os ws t1 = ((ws', p), t2)" by (metis prod.exhaust)
      obtain e2 where e2: "t2 = t1 @ e2" "list_all (is_irq_event T) e2"
        using emitsE [OF work_pass_event [OF again(3)] w] by metis
      note kept = work_pass_step [OF w]
      define t3 where "t3 = (if p then t2 else snd (sleep_ms POLL_SLEEP_MS t2))"
      have e3: "t3 = t @ e1 @ e2 @ (if p then [] else [EvSleep POLL_SLEEP_MS])"
        by (simp add: t3_def sleep_event e1 e2)
      show ?thesis
      proof (cases "length ws \<le> completed_devices ws'")
        case True
        with again(2) unfinished a \<open>alive\<close> w e1 e2 kept show ?thesis
          by (auto simp: loop_end_ok_def simp flip: completed_all)
      next
        case False
        with again(2) unfinished a \<open>alive\<close> w have "loop os pid ws' t3 = Some res"
          by (simp add: t3_def)
        from again(1) [OF this targets_kept [OF w again(3)]] show ?thesis
          by (rule loop_end_later [OF _ e3]) (use e1 e2 kept in auto)
      qed
    qed
  qed
qed

text \<open>Every pass begins with a look at \<^verbatim>\<open>/proc\<close>; once that has failed the worker ends.\<close>

definition polls :: "int \<Rightarrow> trace \<Rightarrow> nat" where
  "polls pid t = length (filter (\<lambda>e. e = EvExists (''/proc/'' @ show_int pid)) t)"

lemma polls_append [simp]: "polls pid (a @ b) = polls pid a + polls pid b"
  by (simp add: polls_def)

lemma irq_loop_ends:
  assumes "\<And>t. n < polls pid t \<Longrightarrow> \<not> os_exists os t (''/proc/'' @ show_int pid)"
  shows "irq_loop os pid ws t \<noteq> None"
proof (induction "Suc n - polls pid t" arbitrary: ws t rule: less_induct)
  case less
  show ?case
  proof (cases "length ws \<le> completed_devices ws \<or> \<not> os_exists os t (''/proc/'' @ show_int pid)")
    case True
    then show ?thesis by (subst irq_loop.simps) (auto simp: process_exists_def call_defs call_def)
  next
    case False
    define t1 where "t1 = t @ [EvExists (''/proc/'' @ show_int pid)]"
    have alive: "process_exists os pid t = (True, t1)"
      using False by (simp add: t1_def process_exists_def call_defs call_def)
    obtain ws' p t2 where w: "work_pass os ws t1 = ((ws', p), t2)" by (metis prod.exhaust)
    have "io_emits (is_irq_event (\<lambda>_. True)) (work_pass os ws)" by (rule work_pass_event) simp
    then obtain e2 where e2: "t2 = t1 @ e2" using w by (rule emitsE)
    define t3 where "t3 = (if p then t2 else snd (sleep_ms POLL_SLEEP_MS t2))"
    have "polls pid t1 = Suc (polls pid t)" by (simp add: t1_def polls_def)
    then have "polls pid t < polls pid t3" by (auto simp: t3_def e2 sleep_event)
    moreover have "polls pid t \<le> n" using False assms [of t] by (meson linorder_not_le)
    ultimately have "irq_loop os pid ws' t3 \<noteq> None" by (intro less.hyps) simp
    then show ?thesis
      using False alive w by (subst irq_loop.simps) (auto simp: t3_def)
  qed
qed
lemma prepare_work_items:
  assumes "prepare_work os vm_cpus cfg dev t = (ws, t')" "w \<in> set ws"
  shows "good_target vm_cpus (dw_target_cpus w) \<and> dw_dev w = dev \<and> \<not> is_aux_gpu_function dev cfg"
proof -
  obtain r t1 where r: "target_cpus_for_device os vm_cpus dev t = (r, t1)" by (metis prod.exhaust)
  show ?thesis
    using assms r target_cpus_good [of os vm_cpus dev t _ t1]
    by (cases r) (auto simp: prepare_work_def act_simps split: if_splits)
qed

lemma prepare_all_items:
  assumes "gatherA devs (prepare_work os vm_cpus cfg) t = (ws, t')"
  shows "\<forall>w \<in> set ws. good_target vm_cpus (dw_target_cpus w) \<and> dw_dev w \<in> set devs \<and>
    \<not> is_aux_gpu_function (dw_dev w) cfg"
  using assms
proof (induction devs arbitrary: ws t)
  case (Cons d devs)
  then obtain a t1 b where 1: "prepare_work os vm_cpus cfg d t = (a, t1)"
    and 2: "gatherA devs (prepare_work os vm_cpus cfg) t1 = (b, t')" and ws: "ws = a @ b"
    by (auto simp: run_simps)
  show ?case using prepare_work_items [OF 1] Cons.IH [OF 2] by (auto simp: ws)
qed (simp add: run_simps)

lemma prepare_readonly: "io_emits is_readonly (gatherA devs (prepare_work os vm_cpus cfg))"
  unfolding prepare_work_def by (intro emits_intros)

text \<open>
  The interrupts of a device, as the kernel lists them when the trace is \<open>p\<close>, and the trace afterwards.
\<close>

definition listing :: "os \<Rightarrow> pci_device_config \<Rightarrow> trace \<Rightarrow> (nat list \<times> trace) option" where
  "listing os dev p =
     (let dir = ''/sys/bus/pci/devices/'' @ pd_pci_address dev @ ''/msi_irqs''
      in if \<not> os_exists os p dir then Some ([], p @ [EvExists dir])
         else case os_read_dir os (p @ [EvExists dir]) dir of
             Inl e \<Rightarrow> None
           | Inr entries \<Rightarrow> Some (concat (map irq_entry entries), p @ [EvExists dir, EvReadDir dir]))"

subsection \<open>What the worker has done when it ends\<close>

definition try_pin :: "os \<Rightarrow> nat list \<Rightarrow> trace \<Rightarrow> nat \<Rightarrow> trace" where
  "try_pin os cpus p irq =
     (let dir = ''/proc/irq/'' @ show_nat irq; file = affinity_path irq
      in p @ EvExists dir #
         (if \<not> os_exists os p dir then []
          else EvExists file #
            (if \<not> os_exists os (p @ [EvExists dir]) file then []
             else [EvWrite file (format_cpu_list cpus)
                     (os_write os (p @ [EvExists dir, EvExists file]) file (format_cpu_list cpus) = None)])))"

text \<open>Between two traces the interrupts of a device were listed, and a pin of each of them tried.\<close>

definition irqs_tried :: "os \<Rightarrow> pci_device_config \<Rightarrow> nat list \<Rightarrow> trace \<Rightarrow> trace \<Rightarrow> bool" where
  "irqs_tried os dev cpus t t' \<longleftrightarrow>
     (\<exists>p irqs p1. prefix t p \<and> listing os dev p = Some (irqs, p1) \<and> irqs \<noteq> [] \<and>
        prefix (foldl (try_pin os cpus) p1 irqs) t')"

lemma irqs_tried_wider: "irqs_tried os dev cpus t1 t2 \<Longrightarrow> prefix t t1 \<Longrightarrow> prefix t2 t' \<Longrightarrow> irqs_tried os dev cpus t t'"
  unfolding irqs_tried_def by (blast intro: prefix_order.trans)

lemma pin_single_trace: "snd (pin_single_irq os irq cpus t) = try_pin os cpus t irq"
  by (auto simp: pin_single_irq_def try_pin_def Let_def act_simps call_defs opt_res_def format_cpu_list_irq_eq
      split: option.split)

lemma pin_single_trace_eq: "pin_single_irq os irq cpus t = (r, t') \<Longrightarrow> t' = try_pin os cpus t irq"
  by (metis pin_single_trace snd_conv)

lemma pin_each_trace:
  "eachA irqs (\<lambda>irq. andThen (pin_single_irq os irq cpus) (\<lambda>r. ret ())) t = ((), foldl (try_pin os cpus) t irqs)"
  by (induction irqs arbitrary: t) (auto simp: andThen_def ret_def dest: pin_single_trace_eq split: prod.split)

lemma best_effort_listing:
  assumes "device_irqs_best_effort os dev t = (irqs, t')" "irqs \<noteq> []"
  shows "listing os dev t = Some (irqs, t')"
  using assms
  by (auto simp: device_irqs_best_effort_def listing_def msi_irqs_dir_def Let_def act_simps call_defs
      split: if_splits sum.splits)

lemma work_device_extends: "work_device os w t = ((w', p), t') \<Longrightarrow> prefix t t'"
  using emitsE [OF work_device_event [where T = "\<lambda>_. True"]] by (metis prefix_def)

lemma work_pass_extends: "work_pass os ws t = ((ws', p), t') \<Longrightarrow> prefix t t'"
  using emitsE [OF work_pass_event [where T = "\<lambda>_. True"]] by (metis prefix_def)

lemma work_device_tried:
  assumes "work_device os w t = ((w', p), t')"
  shows "dw_done w' \<longrightarrow> dw_done w \<or> irqs_tried os (dw_dev w) (dw_target_cpus w) t t'"
proof (cases "dw_done w")
  case False
  obtain irqs t1 where 1: "device_irqs_best_effort os (dw_dev w) t = (irqs, t1)" by (metis prod.exhaust)
  show ?thesis
  proof (cases "irqs = []")
    case True
    with False 1 assms show ?thesis by (auto simp: work_device_def andThen_def ret_def)
  next
    case found: False
    with False 1 assms have "t' = foldl (try_pin os (dw_target_cpus w)) t1 irqs"
      by (simp add: work_device_def andThen_def ret_def pin_each_trace [unfolded andThen_def ret_def])
    with best_effort_listing [OF 1 found] found show ?thesis unfolding irqs_tried_def by blast
  qed
qed simp

definition works_on :: "os \<Rightarrow> trace \<Rightarrow> trace \<Rightarrow> device_work \<Rightarrow> device_work \<Rightarrow> bool" where
  "works_on os t t' w w' \<longleftrightarrow>
     dw_dev w' = dw_dev w \<and> dw_target_cpus w' = dw_target_cpus w \<and>
     (dw_done w' \<longrightarrow> dw_done w \<or> irqs_tried os (dw_dev w) (dw_target_cpus w) t t')"

lemma works_on_wider: "works_on os t1 t2 w w' \<Longrightarrow> prefix t t1 \<Longrightarrow> prefix t2 t' \<Longrightarrow> works_on os t t' w w'"
  by (auto simp: works_on_def intro: irqs_tried_wider)

lemma work_pass_tried: "work_pass os ws t = ((ws', p), t') \<Longrightarrow> list_all2 (works_on os t t') ws ws'"
proof (induction ws arbitrary: ws' p t)
  case (Cons w ws)
  obtain w1 p1 t1 where 1: "work_device os w t = ((w1, p1), t1)" by (metis prod.exhaust)
  obtain ws1 p2 t2 where pass: "work_pass os ws t1 = ((ws1, p2), t2)" by (metis prod.exhaust)
  with Cons.prems 1 have 2: "work_pass os ws t1 = ((ws1, p2), t')" and ws': "ws' = w1 # ws1"
    by (auto simp: andThen_def ret_def)
  have "works_on os t t1 w w1"
    using work_device_step [OF 1] work_device_tried [OF 1] by (simp add: works_on_def)
  then have "works_on os t t' w w1" using work_pass_extends [OF 2] by (auto intro: works_on_wider)
  moreover have "list_all2 (works_on os t t') ws ws1"
    using Cons.IH [OF 2] work_device_extends [OF 1] by (auto elim!: list.rel_mono_strong intro: works_on_wider)
  ultimately show ?case by (simp add: ws')
qed (simp add: run_simps)

text \<open>How the loop ends: with QEMU seen gone, or with every item done before or tried since.\<close>

definition loop_ends :: "os \<Rightarrow> int \<Rightarrow> device_work list \<Rightarrow> trace \<Rightarrow> bool \<times> device_work list \<times> trace \<Rightarrow> bool" where
  "loop_ends os pid ws t res \<longleftrightarrow>
     (case res of (aborted, ws', t') \<Rightarrow>
        prefix t t' \<and>
        (if aborted then \<exists>p. t' = p @ [EvExists (''/proc/'' @ show_int pid)] \<and> \<not> os_exists os p (''/proc/'' @ show_int pid)
         else list_all (\<lambda>w. dw_done w \<or> irqs_tried os (dw_dev w) (dw_target_cpus w) t t') ws))"

lemma loop_ends_later:
  assumes "loop_ends os pid ws' t3 res" "list_all2 (works_on os t t2) ws ws'" "prefix t t3" "prefix t2 t3"
  shows "loop_ends os pid ws t res"
proof -
  obtain aborted ws'' t' where res: "res = (aborted, ws'', t')" by (cases res)
  have pre: "prefix t t'" "prefix t2 t'" using assms(1,3,4) by (auto simp: loop_ends_def res intro: prefix_order.trans)
  have "dw_done w \<or> irqs_tried os (dw_dev w) (dw_target_cpus w) t t'"
    if w: "works_on os t t2 w w'" "dw_done w' \<or> irqs_tried os (dw_dev w') (dw_target_cpus w') t3 t'" for w w'
    using w pre assms(3) by (auto simp: works_on_def intro: irqs_tried_wider)
  with assms(2) have "list_all (\<lambda>w. dw_done w \<or> irqs_tried os (dw_dev w) (dw_target_cpus w) t3 t') ws' \<Longrightarrow>
      list_all (\<lambda>w. dw_done w \<or> irqs_tried os (dw_dev w) (dw_target_cpus w) t t') ws"
    by (induction rule: list_all2_induct) auto
  with assms(1) pre show ?thesis by (auto simp: loop_ends_def res split: if_splits)
qed

lemma irq_loop_ends_so: "irq_loop os pid ws t = Some res \<Longrightarrow> loop_ends os pid ws t res"
proof (induction rule: irq_loop.raw_induct [rotated, consumes 1, case_names again])
  case (again loop os pid ws t res)
  let ?proc = "''/proc/'' @ show_int pid"
  have a: "process_exists os pid t = (os_exists os t ?proc, t @ [EvExists ?proc])"
    by (simp add: process_exists_def call_defs call_def)
  show ?case
  proof (cases "length ws \<le> completed_devices ws \<or> \<not> os_exists os t ?proc")
    case True
    with again(2) a show ?thesis by (auto simp: loop_ends_def completed_all list_all_iff split: if_splits)
  next
    case False
    obtain ws' p t2 where w: "work_pass os ws (t @ [EvExists ?proc]) = ((ws', p), t2)" by (metis prod.exhaust)
    have pre: "prefix (t @ [EvExists ?proc]) t2" by (rule work_pass_extends [OF w])
    have on: "list_all2 (works_on os t t2) ws ws'"
      using work_pass_tried [OF w] by (auto elim!: list.rel_mono_strong intro: works_on_wider)
    have pt: "prefix t t2" using pre by (auto dest: append_prefixD)
    show ?thesis
    proof (cases "length ws \<le> completed_devices ws'")
      case True
      with on have "list_all dw_done ws'" by (simp add: list_all2_lengthD flip: completed_all)
      with pt have "loop_ends os pid ws' t2 (False, ws', t2)" by (auto simp: loop_ends_def list_all_iff)
      with loop_ends_later [OF _ on pt] True again(2) False a w show ?thesis by auto
    next
      case unfinished: False
      define t3 where "t3 = (if p then t2 else snd (sleep_ms POLL_SLEEP_MS t2))"
      have "prefix t2 t3" by (simp add: t3_def sleep_event)
      with pt have "prefix t t3" by (rule prefix_order.trans)
      have "loop os pid ws' t3 = Some res" using again(2) False unfinished a w by (simp add: t3_def)
      from loop_ends_later [OF again(1) [OF this] on] \<open>prefix t t3\<close> \<open>prefix t2 t3\<close> show ?thesis .
    qed
  qed
qed

lemma prepare_covers:
  assumes "gatherA devs (prepare_work os vm_cpus cfg) t = (items, t')"
  shows "list_all (\<lambda>d. is_aux_gpu_function d cfg \<or> d \<in> set (map dw_dev items) \<or>
      (\<exists>p e. prefix t p \<and> fst (target_cpus_for_device os vm_cpus d p) = Inl e)) devs \<and>
    list_all (\<lambda>w. dw_done w = False) (items :: device_work list)"
  using assms
proof (induction devs arbitrary: items t)
  case (Cons d devs)
  then obtain a t1 b where 1: "prepare_work os vm_cpus cfg d t = (a, t1)"
    and 2: "gatherA devs (prepare_work os vm_cpus cfg) t1 = (b, t')" and items: "items = a @ b"
    by (auto simp: run_simps)
  have "io_emits is_readonly (prepare_work os vm_cpus cfg d)"
    unfolding prepare_work_def by (intro emits_intros)
  then obtain ev where "t1 = t @ ev" using 1 by (rule emitsE)
  then have pre: "prefix t t1" by simp
  obtain r t2 where r: "target_cpus_for_device os vm_cpus d t = (r, t2)" by (metis prod.exhaust)
  have head: "is_aux_gpu_function d cfg \<or> d \<in> set (map dw_dev a) \<or>
      (\<exists>p e. prefix t p \<and> fst (target_cpus_for_device os vm_cpus d p) = Inl e)" "list_all (\<lambda>w. dw_done w = False) a"
    using 1 r by (cases r; auto simp: prepare_work_def act_simps split: if_splits intro!: exI [of _ t])+
  from head Cons.IH [OF 2] pre show ?case
    by (auto simp: items list_all_iff intro: prefix_order.trans)
qed (simp add: run_simps)

subsection \<open>Properties of interrupt pinning\<close>

text \<open>
  The CPUs chosen for a device's interrupts are the VM's own, in the VM's order; where the device
  has a NUMA node they are exactly those of the VM's CPUs that its node lists, and never none.
\<close>

theorem irq_targets:
  "case target_cpus_for_device os vm_cpus dev t of
     (r, t') \<Rightarrow>
       writes t' = writes t \<and>
       (case r of
          Inl e \<Rightarrow> True
        | Inr cpus \<Rightarrow>
            (case fst (device_numa_node os (pd_pci_address dev) t) of
               None \<Rightarrow> cpus = vm_cpus
             | Some node \<Rightarrow>
                 if node < 0 then cpus = vm_cpus
                 else cpus \<noteq> [] \<and> (\<exists>t1 ns. fst (node_cpus os node t1) = Inr ns \<and>
                   cpus = filter (\<lambda>c. c \<in> set ns) vm_cpus)))"
proof -
  obtain r t' where run: "target_cpus_for_device os vm_cpus dev t = (r, t')" by (metis prod.exhaust)
  obtain n t1 where n: "device_numa_node os (pd_pci_address dev) t = (n, t1)" by (metis prod.exhaust)
  have "writes t' = writes t"
    using emits_readonly_writes [OF target_cpus_readonly run] by simp
  moreover have "case n of
      None \<Rightarrow> cpus = vm_cpus
    | Some node \<Rightarrow>
        if node < 0 then cpus = vm_cpus
        else cpus \<noteq> [] \<and> (\<exists>t1 ns. fst (node_cpus os node t1) = Inr ns \<and>
          cpus = filter (\<lambda>c. c \<in> set ns) vm_cpus)" if "r = Inr cpus" for cpus
  proof (cases n)
    case None
    with run n that show ?thesis by (simp add: target_cpus_for_device_def Let_def run_simps)
  next
    case (Some node)
    show ?thesis
    proof (cases "node < 0")
      case True
      with run n that Some show ?thesis by (simp add: target_cpus_for_device_def Let_def run_simps)
    next
      case False
      with run n that Some obtain ns t2 where "node_cpus os node t1 = (Inr ns, t2)"
        "cpus = intersect vm_cpus ns" "cpus \<noteq> []"
        by (auto simp: target_cpus_for_device_def Let_def run_simps split: if_splits)
      with False Some show ?thesis by (auto simp: intersect_def intro!: exI [of _ t1] exI [of _ ns])
    qed
  qed
  ultimately show ?thesis by (cases r) (simp_all add: run n)
qed

text \<open>What the switch of the monitor does.\<close>

lemma switch_events:
  "\<exists>ev. snd (switch_to_vm_input_after_irq os d t) = t @ ev \<and> list_all (is_ddc_event (ddc_path d) (dc_vm_input d)) ev"
proof -
  obtain r t' where s: "ddc_set_input os d (dc_vm_input d) t = (r, t')" by (metis prod.exhaust)
  obtain ev where "t' = t @ ev" "list_all (is_ddc_event (ddc_path d) (dc_vm_input d)) ev"
    using ddc_set_input_event s by (rule emitsE)
  with s show ?thesis by (simp add: switch_to_vm_input_after_irq_def)
qed

text \<open>
  C26. A worker that ends has done so in one of three ways.  Either it had no device to work on; or its last
  call showed that QEMU's process is gone; or for every device it took on the kernel listed interrupts, and
  a pin of each of them was tried, whatever came of it.  Only in the last case, when DDC is configured, it
  then runs one switch of the monitor to the VM's input.  Up to the switch it writes nothing but CPU lists
  of the VM's own CPUs into interrupt affinity files.  The devices it takes on are those configured, but
  for the auxiliary GPU functions and those whose target CPUs could not be told.
\<close>

theorem irq_worker_outcome:
  "case irq_worker os vm_cpus devices pid cfg t of
     None \<Rightarrow> True
   | Some t' \<Rightarrow>
       (\<exists>(items :: device_work list) t2 switch.
          t' = t2 @ switch \<and>
          (\<exists>ev. t2 = t @ ev \<and> list_all (is_irq_event (good_target vm_cpus)) ev) \<and>
          list_all (\<lambda>w. dw_dev w \<in> set devices \<and> is_aux_gpu_function (dw_dev w) cfg = False \<and>
            good_target vm_cpus (dw_target_cpus w)) items \<and>
          list_all (\<lambda>d. is_aux_gpu_function d cfg \<or> d \<in> set (map dw_dev items) \<or>
            (\<exists>p e. prefix t p \<and> fst (target_cpus_for_device os vm_cpus d p) = Inl e)) devices \<and>
          ((items = [] \<and> switch = []) \<or>
           (switch = [] \<and> (\<exists>p. t2 = p @ [EvExists (''/proc/'' @ show_int pid)] \<and>
              os_exists os p (''/proc/'' @ show_int pid) = False)) \<or>
           (items \<noteq> [] \<and> list_all (\<lambda>w. irqs_tried os (dw_dev w) (dw_target_cpus w) t t2) items \<and>
            (case ddc_of cfg of
               None \<Rightarrow> switch = []
             | Some d \<Rightarrow>
                 t' = snd (ddc_set_input os d (dc_vm_input d) t2) \<and>
                 list_all (is_ddc_event (ddc_path d) (dc_vm_input d)) switch))))"
proof (cases "irq_worker os vm_cpus devices pid cfg t")
  case (Some t')
  let ?T = "good_target vm_cpus"
  obtain items t1 where i: "gatherA devices (prepare_work os vm_cpus cfg) t = (items, t1)" by (metis prod.exhaust)
  obtain e1 where e1: "t1 = t @ e1" "list_all is_readonly e1"
    using prepare_readonly i by (rule emitsE)
  have e1': "list_all (is_irq_event ?T) e1"
    using e1(2) by (rule list.pred_mono_strong) (rule readonly_irq_event)
  have taken: "list_all (\<lambda>w. dw_dev w \<in> set devices \<and> is_aux_gpu_function (dw_dev w) cfg = False \<and>
      good_target vm_cpus (dw_target_cpus w)) items"
    using prepare_all_items [OF i] by (simp add: list_all_iff)
  note all = prepare_covers [OF i]
  show ?thesis
  proof (cases "items = []")
    case True
    then have "t' = t1" using Some i by (cases devices) (auto simp: irq_worker_def ret_def)
    with True e1(1) e1' all show ?thesis
      unfolding Some option.case by (intro exI [of _ "[]"] exI [of _ t1]) auto
  next
    case False
    then have "devices \<noteq> []" using i by (auto simp: ret_def)
    with Some i False obtain aborted ws t2 where loop: "irq_loop os pid items t1 = Some (aborted, ws, t2)"
      by (auto simp: irq_worker_def split: option.splits)
    have "loop_end_ok ?T items t1 (aborted, ws, t2)"
      using prepare_all_items [OF i] by (intro irq_loop_end [OF loop]) blast
    then obtain e2 where e2: "t2 = t1 @ e2" "list_all (is_irq_event ?T) e2" by (auto simp: loop_end_ok_def)
    have ev: "\<exists>ev. t2 = t @ ev \<and> list_all (is_irq_event ?T) ev" using e1' e1 e2 by auto
    note ends = irq_loop_ends_so [OF loop]
    show ?thesis
    proof (cases aborted)
      case True
      with Some i False loop have "t' = t2" by (auto simp: irq_worker_def split: if_splits)
      moreover have "\<exists>p. t2 = p @ [EvExists (''/proc/'' @ show_int pid)] \<and> os_exists os p (''/proc/'' @ show_int pid) = False"
        using True ends by (simp add: loop_ends_def)
      ultimately show ?thesis
        unfolding Some option.case using ev taken conjunct1 [OF all]
        by (intro exI [of _ items] exI [of _ t2] exI [of _ "[] :: trace"], simp)
    next
      case ended: False
      have tried: "list_all (\<lambda>w. irqs_tried os (dw_dev w) (dw_target_cpus w) t t2) items"
        using ends ended all e1(1) by (auto simp: loop_ends_def list_all_iff intro: irqs_tried_wider)
      have fin: "t' = (case ddc_of cfg of None \<Rightarrow> t2 | Some d \<Rightarrow> snd (ddc_set_input os d (dc_vm_input d) t2))"
        using Some i False \<open>devices \<noteq> []\<close> loop ended
        by (auto simp: irq_worker_def switch_to_vm_input_after_irq_def split: option.splits)
      obtain switch where "t' = t2 @ switch" "case ddc_of cfg of
               None \<Rightarrow> switch = []
             | Some d \<Rightarrow>
                 t' = snd (ddc_set_input os d (dc_vm_input d) t2) \<and>
                 list_all (is_ddc_event (ddc_path d) (dc_vm_input d)) switch"
      proof (cases "ddc_of cfg")
        case (Some d)
        from switch_events [of os d t2] obtain sw where "snd (ddc_set_input os d (dc_vm_input d) t2) = t2 @ sw"
          "list_all (is_ddc_event (ddc_path d) (dc_vm_input d)) sw"
          by (auto simp: switch_to_vm_input_after_irq_def)
        with Some fin that show ?thesis by simp
      qed (use fin that in simp)
      then show ?thesis
        unfolding Some option.case using False ev taken conjunct1 [OF all] tried
        by (intro exI [of _ items] exI [of _ t2] exI [of _ switch], simp)
    qed
  qed
qed simp

text \<open>
  C27. The worker ends once QEMU's process is gone: when the kernel stops showing it after some number of
  looks, every run returns.
\<close>

theorem irq_worker_returns:
  assumes "\<And>t. n < polls pid t \<Longrightarrow> \<not> os_exists os t (''/proc/'' @ show_int pid)"
  shows "irq_worker os vm_cpus devices pid cfg t \<noteq> None"
proof -
  obtain items t1 where i: "gatherA devices (prepare_work os vm_cpus cfg) t = (items, t1)" by (metis prod.exhaust)
  obtain aborted ws t2 where "irq_loop os pid items t1 = Some (aborted, ws, t2)"
    using irq_loop_ends [of n pid os items t1] assms by (cases "irq_loop os pid items t1") auto
  with i show ?thesis by (simp add: irq_worker_def split: option.split)
qed

lemma irq_worker_returns_witness:
  "\<exists>os. os_exists os [] (''/proc/'' @ show_int 42) \<and>
    (\<forall>vm_cpus devices cfg t. irq_worker os vm_cpus devices 42 cfg t \<noteq> None)"
proof (intro exI conjI allI)
  let ?os = "silent_os\<lparr>os_exists := \<lambda>t p. p = ''/proc/'' @ show_int 42 \<and> polls 42 t \<le> 3\<rparr>"
  show "os_exists ?os [] (''/proc/'' @ show_int 42)" by (simp add: polls_def)
  show "irq_worker ?os vm_cpus devices 42 cfg t \<noteq> None" for vm_cpus devices cfg t
    by (rule irq_worker_returns [of 3]) simp
qed

subsection \<open>The synchronous entry point\<close>

text \<open>One interrupt pinned: the two looks for its files, and the write of the CPU list, when the trace is \<open>p\<close>.\<close>

definition irq_pinning :: "nat list \<Rightarrow> nat \<Rightarrow> trace" where
  "irq_pinning cpus irq =
     [EvExists (''/proc/irq/'' @ show_nat irq), EvExists (affinity_path irq),
      EvWrite (affinity_path irq) (format_cpu_list cpus) True]"

lemma device_irqs_run:
  assumes "device_irqs os dev t = (Inr irqs, t')"
  shows "listing os dev t = Some (irqs, t') \<and> (irqs = [] \<longrightarrow> \<not> pd_required dev)"
  using assms
  by (auto simp: device_irqs_def listing_def msi_irqs_dir_def Let_def run_simps call_defs call_def
      split: if_splits sum.splits)

lemma pin_single_run:
  "pin_single_irq os irq cpus t = (Inr u, t') \<Longrightarrow> t' = t @ irq_pinning cpus irq"
  by (auto simp: pin_single_irq_def Let_def run_simps call_defs call_def irq_pinning_def format_cpu_list_irq_eq
      split: if_splits)

lemma pin_list_run:
  "eachR irqs (\<lambda>irq. pin_single_irq os irq cpus) t = (Inr u, t') \<Longrightarrow> t' = t @ concat (map (irq_pinning cpus) irqs)"
proof (induction irqs arbitrary: t)
  case (Cons i irqs)
  then obtain v t1 where 1: "pin_single_irq os i cpus t = (Inr v, t1)"
    and 2: "eachR irqs (\<lambda>irq. pin_single_irq os irq cpus) t1 = (Inr u, t')"
    by (auto simp: run_simps)
  show ?case using pin_single_run [OF 1] Cons.IH [OF 2] by simp
qed (simp add: run_simps)

text \<open>
  A device done: its target CPUs chosen, its interrupts listed, and each of them pinned, from the trace
  \<open>t\<close> to \<open>t'\<close> and with nothing else in between.
\<close>

definition device_pinned :: "os \<Rightarrow> nat list \<Rightarrow> pci_device_config \<Rightarrow> trace \<Rightarrow> trace \<Rightarrow> bool" where
  "device_pinned os vm_cpus dev t t' \<longleftrightarrow>
     (\<exists>cpus t1 irqs t2.
        target_cpus_for_device os vm_cpus dev t = (Inr cpus, t1) \<and> good_target vm_cpus cpus \<and>
        listing os dev t1 = Some (irqs, t2) \<and> (if pd_required dev then irqs \<noteq> [] else True) \<and>
        t' = t2 @ concat (map (irq_pinning cpus) irqs))"

fun devices_pinned :: "os \<Rightarrow> nat list \<Rightarrow> pci_device_config list \<Rightarrow> trace \<Rightarrow> trace \<Rightarrow> bool" where
  "devices_pinned os vm_cpus [] t t' = (t' = t)"
| "devices_pinned os vm_cpus (dev # devs) t t' =
     (\<exists>t1. device_pinned os vm_cpus dev t t1 \<and> devices_pinned os vm_cpus devs t1 t')"

lemma pin_device_run:
  assumes "pin_device os vm_cpus dev t = (Inr u, t')"
  shows "device_pinned os vm_cpus dev t t'"
proof -
  from assms obtain cpus t1 irqs t2 where
    1: "target_cpus_for_device os vm_cpus dev t = (Inr cpus, t1)" and
    2: "device_irqs os dev t1 = (Inr irqs, t2)" and
    3: "(if irqs = [] then okR () else eachR irqs (\<lambda>irq. pin_single_irq os irq cpus)) t2 = (Inr u, t')"
    by (auto simp: pin_device_def run_simps)
  have "t' = t2 @ concat (map (irq_pinning cpus) irqs)"
    using 3 by (cases "irqs = []") (auto simp: run_simps dest: pin_list_run)
  with 1 device_irqs_run [OF 2] target_cpus_good [OF 1] show ?thesis
    unfolding device_pinned_def by (intro exI [of _ cpus] exI [of _ t1] exI [of _ irqs] exI [of _ t2]) auto
qed

text \<open>
  C28. Synchronous pinning that succeeds has done, device by device in configuration order and nothing
  besides: chosen the target CPUs, which are CPUs of the VM; listed the device's interrupts, of which a
  required device has at least one; and written the list of the target CPUs into the affinity file of
  every interrupt listed, in the order of the listing and with success.
\<close>

theorem pin_irqs_complete:
  "case pin_irqs os rt t of
     (Inl e, t') \<Rightarrow> True
   | (Inr u, t') \<Rightarrow> devices_pinned os (vl_vm (rt_cpus rt)) (collect_devices (rt_cfg rt)) t t'"
proof -
  obtain r t' where run: "pin_irqs os rt t = (r, t')" by (metis prod.exhaust)
  let ?cpus = "vl_vm (rt_cpus rt)"
  have devs: "eachR ds (pin_device os ?cpus) t = (Inr u, t') \<Longrightarrow> devices_pinned os ?cpus ds t t'" for ds u t
    by (induction ds arbitrary: t) (auto simp: run_simps intro: pin_device_run)
  have whole: "eachR (collect_devices (rt_cfg rt)) (pin_device os ?cpus) t = (r, t')"
    using run by (auto simp: pin_irqs_def Let_def split: if_splits)
  then show ?thesis by (cases r) (simp_all add: run devs)
qed

end
