(* ===== verification/Chalybs_State.thy ===== *)
theory Chalybs_State
  imports Chalybs_GpuPolicy Chalybs_Vfio Chalybs_Hugepages Chalybs_Affinity Chalybs_Qemu Chalybs_Irq
begin

text \<open>
  The VM state machine of \<^verbatim>\<open>core/src/state.rs\<close>: one step of the bring-up and one of the
  shutdown, each with the handler of every state, and the two blocking loops.  A handler that fails
  returns early, so the machine stays in the state whose work failed.

  The order of the states is that of the source's enumeration, as an instance of \<open>linorder\<close>.  The
  locale \<open>stepper\<close> is what the callers of a segmented machine rely on (every successful step
  brings it nearer to its goal); it is interpreted for the bring-up and for the shutdown, and gives
  the termination of both loops.
\<close>

subsection \<open>States\<close>

datatype vm_state =
    Init | Validate | PrepareHugepages | PreparePci | ReserveCpus | LaunchQemu | DetectThreads
  | PinVcpus | DetectMsi | PinIrqs | PeripheralHooks | Steady | Shutdown | Cleanup | Idle

fun state_index :: "vm_state \<Rightarrow> nat" where
  "state_index Init = 0"
| "state_index Validate = 1"
| "state_index PrepareHugepages = 2"
| "state_index PreparePci = 3"
| "state_index ReserveCpus = 4"
| "state_index LaunchQemu = 5"
| "state_index DetectThreads = 6"
| "state_index PinVcpus = 7"
| "state_index DetectMsi = 8"
| "state_index PinIrqs = 9"
| "state_index PeripheralHooks = 10"
| "state_index Steady = 11"
| "state_index Shutdown = 12"
| "state_index Cleanup = 13"
| "state_index Idle = 14"

lemma state_index_inject: "state_index a = state_index b \<longleftrightarrow> a = b"
  by (cases a; cases b; simp)

instantiation vm_state :: linorder
begin

definition less_eq_vm_state :: "vm_state \<Rightarrow> vm_state \<Rightarrow> bool" where
  "a \<le> b \<longleftrightarrow> state_index a \<le> state_index b"

definition less_vm_state :: "vm_state \<Rightarrow> vm_state \<Rightarrow> bool" where
  "a < b \<longleftrightarrow> state_index a < state_index b"

instance
  by standard (auto simp: less_eq_vm_state_def less_vm_state_def state_index_inject)

end

lemmas state_order = less_eq_vm_state_def less_vm_state_def

text \<open>\<^verbatim>\<open>{:?}\<close> of a state.\<close>

fun show_state :: "vm_state \<Rightarrow> string" where
  "show_state Init = ''Init''"
| "show_state Validate = ''Validate''"
| "show_state PrepareHugepages = ''PrepareHugepages''"
| "show_state PreparePci = ''PreparePci''"
| "show_state ReserveCpus = ''ReserveCpus''"
| "show_state LaunchQemu = ''LaunchQemu''"
| "show_state DetectThreads = ''DetectThreads''"
| "show_state PinVcpus = ''PinVcpus''"
| "show_state DetectMsi = ''DetectMsi''"
| "show_state PinIrqs = ''PinIrqs''"
| "show_state PeripheralHooks = ''PeripheralHooks''"
| "show_state Steady = ''Steady''"
| "show_state Shutdown = ''Shutdown''"
| "show_state Cleanup = ''Cleanup''"
| "show_state Idle = ''Idle''"

record machine =
  sm_state :: vm_state
  sm_rt :: vm_runtime

definition machine_new :: "vm_runtime \<Rightarrow> machine" where
  "machine_new rt = \<lparr>sm_state = Init, sm_rt = rt\<rparr>"

text \<open>What the handlers take from outside: the world, CPUID, and the order of a hash map's walk.\<close>

record host_env =
  he_os :: os
  he_cpuid :: "raw_cpuid option"
  he_hash_order :: "(nat \<times> int) list \<Rightarrow> (nat \<times> int) list"

type_synonym 'a sm_act = "(machine \<times> trace, 'a) act"

definition onRt :: "'a rt_act \<Rightarrow> 'a sm_act" where
  "onRt m = (\<lambda>(sm, t). case m (sm_rt sm, t) of (x, (rt, t')) \<Rightarrow> (x, (sm\<lparr>sm_rt := rt\<rparr>, t')))"

definition goto :: "vm_state \<Rightarrow> vm_state result sm_act" where
  "goto next_state = (\<lambda>(sm, t). (Inr next_state, (sm\<lparr>sm_state := next_state\<rparr>, t)))"

definition current :: "vm_state result sm_act" where
  "current = (\<lambda>(sm, t). (Inr (sm_state sm), (sm, t)))"

definition note_rt :: "(vm_runtime \<Rightarrow> vm_runtime) \<Rightarrow> unit result rt_act" where
  "note_rt f = andThen (modify f) (\<lambda>_. okR ())"

text \<open>A call that reads the runtime and acts on the outside world only.\<close>

definition reading_rt :: "(vm_runtime \<Rightarrow> 'a io) \<Rightarrow> 'a rt_act" where
  "reading_rt f = andThen peek (\<lambda>rt. onOs (f rt))"

subsection \<open>Bring-up\<close>

fun show_finding :: "cpu_plan_validation_error \<Rightarrow> string" where
  "show_finding (HostCpuOutsideTopology cpu) =
     ''host CPU '' @ show_nat cpu @ '' listed in host_cpus is not present in any discovered NUMA node''"
| "show_finding (VmCpuOutsideTopology cpu) =
     ''VM CPU '' @ show_nat cpu @ '' listed in vm_cpus is not present in any discovered NUMA node''"

definition findings_message :: "cpu_plan_validation_error list \<Rightarrow> string" where
  "findings_message findings =
     ''cpuplan: structural CPU plan validation failed; VM bring-up aborted. Findings: '' @
     join ''; '' (map show_finding findings)"

definition plan_cpus :: "host_env \<Rightarrow> unit result rt_act" where
  "plan_cpus he =
     (case detect_cpu_identity (he_cpuid he) of
        None \<Rightarrow>
          note_rt (push_warning ''cpuplan: host CPU identity could not be detected via CPUID; skipping CPU plan construction for this VM'')
      | Some ident \<Rightarrow>
          (let arch = classify ident
           in andThen (onOs (topology_from_sysfs (he_os he))) (\<lambda>r.
                case r of
                  Inl e \<Rightarrow>
                    note_rt (push_warning (''cpuplan: failed to read host NUMA topology from sysfs; skipping CPU plan construction for this VM: '' @
                      io_error_msg e))
                | Inr topo \<Rightarrow>
                    andThen peek (\<lambda>rt.
                      (let plan = build_cpu_plan \<lparr>pi_ident = ident, pi_arch = arch, pi_topology = topo,
                                                 pi_vm_layout = rt_cpus rt\<rparr>;
                           findings = validate_cpu_plan plan
                       in if findings \<noteq> [] then
                            (let msg = findings_message findings
                             in andThen (modify (push_error msg)) (\<lambda>_. errR (State msg)))
                          else
                            bindR (note_rt (\<lambda>rt. rt\<lparr>rt_cpu_plan := Some plan\<rparr>)) (\<lambda>_.
                              note_rt (push_info ''cpuplan: host CPU identity, NUMA topology, and VM CPU layout validated successfully'')))))))"

definition do_validate :: "host_env \<Rightarrow> unit result rt_act" where
  "do_validate he =
     bindR (note_rt (push_system ''state=Validate'')) (\<lambda>_.
     bindR (onOs (preflight (he_os he))) (\<lambda>_.
     bindR (note_rt (push_info ''cpuset: preflight checks completed successfully'')) (\<lambda>_.
     bindR (reading_rt (qemu_preflight (he_os he))) (\<lambda>_.
     bindR (note_rt (push_info ''qemu: preflight checks completed successfully'')) (\<lambda>_.
     bindR (reading_rt (\<lambda>rt. preflight_gpu_policy (he_os he) (rt_name rt) (rt_cfg rt))) (\<lambda>_.
     bindR (note_rt (push_info ''pci: GPU policy preflight completed successfully'')) (\<lambda>_.
       plan_cpus he)))))))"

definition do_hugepages :: "host_env \<Rightarrow> unit result rt_act" where
  "do_hugepages he =
     bindR (note_rt (push_system ''state=PrepareHugepages'')) (\<lambda>_. provision_for_vm (he_os he))"

definition do_prepare_pci :: "host_env \<Rightarrow> unit result rt_act" where
  "do_prepare_pci he =
     bindR (note_rt (push_system ''state=PreparePci'')) (\<lambda>_.
     bindR (stage_pci_devices_for_vm (he_os he)) (\<lambda>_.
       note_rt (push_info ''vfio: PCI staging completed for VM passthrough devices'')))"

definition do_reserve_cpus :: "host_env \<Rightarrow> unit result rt_act" where
  "do_reserve_cpus he =
     bindR (note_rt (push_system ''state=ReserveCpus'')) (\<lambda>_.
     bindR (reserve_cpus (he_os he)) (\<lambda>_.
       note_rt (push_info ''cpuset: VM/host cpuset hierarchy created'')))"

definition do_launch :: "host_env \<Rightarrow> unit result rt_act" where
  "do_launch he =
     bindR (note_rt (push_system ''state=LaunchQemu'')) (\<lambda>_.
     bindR (launch (he_os he) (he_cpuid he)) (\<lambda>_.
       note_rt (\<lambda>rt. case rt_qemu rt of
           Some q \<Rightarrow> push_info (''qemu: launched with pid '' @ show_int (qs_pid q)) rt
         | None \<Rightarrow> push_warning ''qemu: launch completed but QemuState pid not recorded'' rt)))"

definition do_detect_threads :: "host_env \<Rightarrow> unit result rt_act" where
  "do_detect_threads he =
     bindR (note_rt (push_system ''state=DetectThreads'')) (\<lambda>_.
     bindR (reading_rt (wait_for_qemu_threads (he_os he))) (\<lambda>_.
       note_rt (push_info ''affinity: QEMU threads discovered for pinning'')))"

definition do_pin_vcpus :: "host_env \<Rightarrow> unit result rt_act" where
  "do_pin_vcpus he =
     bindR (note_rt (push_system ''state=PinVcpus'')) (\<lambda>_.
     bindR (reading_rt (pin_vcpus (he_os he) (he_hash_order he))) (\<lambda>_.
       note_rt (\<lambda>rt. push_info ''affinity: vCPU threads pinned to VM cpuset'' (rt\<lparr>rt_pinned_threads := True\<rparr>))))"

definition do_detect_msi :: "host_env \<Rightarrow> unit result rt_act" where
  "do_detect_msi he =
     bindR (note_rt (push_system ''state=DetectMsi'')) (\<lambda>_.
     bindR (reading_rt (spawn_irq_pin_worker (he_os he))) (\<lambda>_.
       note_rt (push_info ''irq: background worker spawned for MSI/MSI-X detection and IRQ pinning'')))"

definition do_pin_irqs :: "unit result rt_act" where
  "do_pin_irqs =
     bindR (note_rt (push_system ''state=PinIrqs'')) (\<lambda>_.
       note_rt (\<lambda>rt. push_info ''irq: IRQ pinning delegated to background worker'' (rt\<lparr>rt_pinned_irqs := True\<rparr>)))"

definition do_peripherals :: "host_env \<Rightarrow> unit result rt_act" where
  "do_peripherals he =
     bindR (note_rt (push_system ''state=PeripheralHooks'')) (\<lambda>_.
     bindR (apply_vm_up (he_os he)) (\<lambda>_.
       note_rt (push_info ''peripherals: VM up hooks applied successfully'')))"

definition advance :: "unit result rt_act \<Rightarrow> vm_state \<Rightarrow> vm_state result sm_act" where
  "advance m next_state = bindR (onRt m) (\<lambda>_. goto next_state)"

definition invalid_bring_up :: "vm_state \<Rightarrow> chalybs_error" where
  "invalid_bring_up s = State (''step() called in invalid bring-up state: '' @ show_state s)"

definition step :: "host_env \<Rightarrow> vm_state result sm_act" where
  "step he = (\<lambda>(sm, t).
     (case sm_state sm of
        Init \<Rightarrow> advance (note_rt (push_system ''state=Init'')) Validate
      | Validate \<Rightarrow> advance (do_validate he) PrepareHugepages
      | PrepareHugepages \<Rightarrow> advance (do_hugepages he) PreparePci
      | PreparePci \<Rightarrow> advance (do_prepare_pci he) ReserveCpus
      | ReserveCpus \<Rightarrow> advance (do_reserve_cpus he) LaunchQemu
      | LaunchQemu \<Rightarrow> advance (do_launch he) DetectThreads
      | DetectThreads \<Rightarrow> advance (do_detect_threads he) PinVcpus
      | PinVcpus \<Rightarrow> advance (do_pin_vcpus he) DetectMsi
      | DetectMsi \<Rightarrow> advance (do_detect_msi he) PinIrqs
      | PinIrqs \<Rightarrow> advance do_pin_irqs PeripheralHooks
      | PeripheralHooks \<Rightarrow> advance (do_peripherals he) Steady
      | Steady \<Rightarrow>
          bindR (onRt (note_rt (\<lambda>rt. push_info ''vm: already in steady-state (all bring-up phases complete)''
            (push_system ''state=Steady'' rt)))) (\<lambda>_. current)
      | s \<Rightarrow> errR (invalid_bring_up s)) (sm, t))"

subsection \<open>Shutdown\<close>

definition do_stop :: "host_env \<Rightarrow> string \<Rightarrow> string \<Rightarrow> unit result rt_act" where
  "do_stop he entered requested =
     bindR (note_rt (push_system entered)) (\<lambda>_.
     bindR (qemu_shutdown (he_os he)) (\<lambda>_. note_rt (push_info requested)))"

definition do_teardown :: "host_env \<Rightarrow> unit result rt_act" where
  "do_teardown he =
     bindR (note_rt (push_system ''state=RestorePci (restore PCI driver bindings)'')) (\<lambda>_.
     bindR (reading_rt (restore_pci_devices_for_vm (he_os he))) (\<lambda>_.
     bindR (note_rt (push_info ''vfio: restore of PCI driver bindings requested for VM devices'')) (\<lambda>_.
     bindR (note_rt (push_system ''state=Cleanup'')) (\<lambda>_.
     bindR cleanup_cpus (\<lambda>_.
     bindR (note_rt (push_info ''cpuset: VM/host cpuset hierarchy cleaned up'')) (\<lambda>_.
     bindR (cleanup_for_vm (he_os he)) (\<lambda>_.
     bindR (note_rt (push_info ''hugepages: teardown completed for VM instance'')) (\<lambda>_.
     bindR (apply_vm_down (he_os he)) (\<lambda>_.
       note_rt (push_info ''peripherals: VM down hooks applied successfully''))))))))))"

definition step_shutdown :: "host_env \<Rightarrow> vm_state result sm_act" where
  "step_shutdown he = (\<lambda>(sm, t).
     (case sm_state sm of
        Shutdown \<Rightarrow> advance (do_teardown he) Cleanup
      | Cleanup \<Rightarrow>
          bindR (goto Idle) (\<lambda>_.
          bindR (onRt (note_rt (push_system ''state=Idle (VM shutdown sequence completed)''))) (\<lambda>_. current))
      | Idle \<Rightarrow>
          bindR (onRt (note_rt (push_system ''state=Idle (shutdown already completed)''))) (\<lambda>_. current)
      | s \<Rightarrow>
          if s \<in> {Steady, PinIrqs, PeripheralHooks} then
            advance (do_stop he ''state=Shutdown'' ''qemu: shutdown requested for VM instance'') Shutdown
          else
            advance (do_stop he (''state=Shutdown (from '' @ show_state s @ '')'')
              ''qemu: shutdown requested for VM instance (from non-steady state)'') Shutdown) (sm, t))"

subsection \<open>What a step does to the state\<close>

fun next_up :: "vm_state \<Rightarrow> vm_state" where
  "next_up Init = Validate"
| "next_up Validate = PrepareHugepages"
| "next_up PrepareHugepages = PreparePci"
| "next_up PreparePci = ReserveCpus"
| "next_up ReserveCpus = LaunchQemu"
| "next_up LaunchQemu = DetectThreads"
| "next_up DetectThreads = PinVcpus"
| "next_up PinVcpus = DetectMsi"
| "next_up DetectMsi = PinIrqs"
| "next_up PinIrqs = PeripheralHooks"
| "next_up PeripheralHooks = Steady"
| "next_up s = s"

fun next_down :: "vm_state \<Rightarrow> vm_state" where
  "next_down Shutdown = Cleanup"
| "next_down Cleanup = Idle"
| "next_down Idle = Idle"
| "next_down s = Shutdown"

lemma onRt_run:
  "onRt m (sm, t) = (x, s') \<longleftrightarrow> (\<exists>rt t'. m (sm_rt sm, t) = (x, (rt, t')) \<and> s' = (sm\<lparr>sm_rt := rt\<rparr>, t'))"
  by (auto simp: onRt_def split: prod.split)

lemma advance_run:
  "advance m n (sm, t) = (r, s') \<longleftrightarrow>
     (\<exists>x rt t'. m (sm_rt sm, t) = (x, (rt, t')) \<and>
        (case x of
           Inl e \<Rightarrow> r = Inl e \<and> s' = (sm\<lparr>sm_rt := rt\<rparr>, t')
         | Inr u \<Rightarrow> r = Inr n \<and> s' = (sm\<lparr>sm_rt := rt, sm_state := n\<rparr>, t')))"
  by (auto simp: advance_def bindR_def onRt_def goto_def split: prod.splits sum.splits)

lemma note_rt_run: "note_rt f (rt, t) = (r, s') \<longleftrightarrow> r = Inr () \<and> s' = (f rt, t)"
  by (auto simp: note_rt_def run_simps)

lemma reading_rt_run: "reading_rt f (rt, t) = (r, s') \<longleftrightarrow> (\<exists>t'. f rt t = (r, t') \<and> s' = (rt, t'))"
  by (auto simp: reading_rt_def run_simps)

text \<open>A step that succeeds moves to the successor and reports it; one that fails stays.\<close>

lemma advance_state:
  assumes "advance m n (sm, t) = (r, (sm', t'))"
  shows "case r of Inl e \<Rightarrow> sm_state sm' = sm_state sm | Inr x \<Rightarrow> x = n \<and> sm_state sm' = n"
proof -
  obtain x rt t1 where 1: "m (sm_rt sm, t) = (x, (rt, t1))" by (metis prod.exhaust)
  show ?thesis using assms 1 by (cases x) (auto simp: advance_run)
qed

lemma step_run:
  assumes "step he (sm, t) = (r, (sm', t'))"
  shows "case r of
      Inl e \<Rightarrow> sm_state sm' = sm_state sm
    | Inr x \<Rightarrow> x = sm_state sm' \<and> sm_state sm' = next_up (sm_state sm) \<and> sm_state sm \<le> Steady"
proof (cases "sm_state sm \<in> {Steady, Shutdown, Cleanup, Idle}")
  case True
  with assms show ?thesis
    by (auto simp: step_def bindR_def onRt_def current_def note_rt_def act_simps errR_def state_order)
next
  case False
  then obtain m where "advance m (next_up (sm_state sm)) (sm, t) = (r, (sm', t'))"
    using assms by (cases "sm_state sm") (simp_all add: step_def)
  from advance_state [OF this] False show ?thesis
    by (cases r; cases "sm_state sm") (simp_all add: state_order)
qed

lemma step_shutdown_run:
  assumes "step_shutdown he (sm, t) = (r, (sm', t'))"
  shows "case r of
      Inl e \<Rightarrow> sm_state sm' = sm_state sm
    | Inr x \<Rightarrow> x = sm_state sm' \<and> sm_state sm' = next_down (sm_state sm)"
proof (cases "sm_state sm \<in> {Cleanup, Idle}")
  case True
  with assms show ?thesis
    by (auto simp: step_shutdown_def bindR_def onRt_def current_def goto_def note_rt_def act_simps)
next
  case False
  then obtain m where "advance m (next_down (sm_state sm)) (sm, t) = (r, (sm', t'))"
    using assms by (cases "sm_state sm") (simp_all add: step_shutdown_def)
  from advance_state [OF this] show ?thesis by (cases r) simp_all
qed

subsection \<open>Segmented machines\<close>

text \<open>
  A caller that ticks a machine: at most \<open>n\<close> steps, until the goal or an error; the result says
  whether the goal was met.
\<close>

primrec drive :: "('s, 'e + 'r) act \<Rightarrow> ('s \<Rightarrow> bool) \<Rightarrow> nat \<Rightarrow> ('s, 'e + bool) act" where
  "drive stp goal 0 = (\<lambda>s. (Inr (goal s), s))"
| "drive stp goal (Suc n) = (\<lambda>s. if goal s then (Inr True, s) else bindR stp (\<lambda>_. drive stp goal n) s)"

locale stepper =
  fixes stp :: "('s, 'e + 'r) act" and dist :: "'s \<Rightarrow> nat"
  assumes nearer: "stp s = (Inr r, s') \<Longrightarrow> 0 < dist s \<Longrightarrow> dist s' < dist s"
begin

lemma drive_reaches:
  "dist s \<le> n \<Longrightarrow> drive stp (\<lambda>s. dist s = 0) n s = (Inr b, s') \<Longrightarrow> b \<and> dist s' = 0"
proof (induction n arbitrary: s)
  case (Suc n)
  show ?case
  proof (cases "dist s = 0")
    case False
    with Suc.prems(2) obtain r s1 where 1: "stp s = (Inr r, s1)"
      and 2: "drive stp (\<lambda>s. dist s = 0) n s1 = (Inr b, s')"
      by (auto simp: run_simps)
    from nearer [OF 1] False Suc.prems(1) have "dist s1 \<le> n" by linarith
    from Suc.IH [OF this 2] show ?thesis .
  qed (use Suc.prems in auto)
qed auto

lemma drive_enough:
  "dist s \<le> n \<Longrightarrow> drive stp (\<lambda>s. dist s = 0) n s = drive stp (\<lambda>s. dist s = 0) (dist s) s"
proof (induction "dist s" arbitrary: s n rule: less_induct)
  case less
  show ?case
  proof (cases "dist s = 0")
    case True
    then show ?thesis by (cases n) simp_all
  next
    case False
    with less.prems obtain m d where m: "n = Suc m" and d: "dist s = Suc d"
      by (metis Suc_le_D not0_implies_Suc)
    obtain r s1 where 1: "stp s = (r, s1)" by (metis prod.exhaust)
    show ?thesis
    proof (cases r)
      case (Inl e)
      with 1 show ?thesis by (simp add: m d bindR_def)
    next
      case (Inr x)
      from nearer [OF 1 [unfolded Inr]] False have "dist s1 < dist s" by simp
      with less.prems m d have "dist s1 \<le> m" "dist s1 \<le> d" by simp_all
      with less.hyps \<open>dist s1 < dist s\<close> have "drive stp (\<lambda>s. dist s = 0) m s1 = drive stp (\<lambda>s. dist s = 0) d s1" by metis
      with 1 Inr show ?thesis by (simp add: m d bindR_def)
    qed
  qed
qed

end

definition up_dist :: "machine \<times> trace \<Rightarrow> nat" where
  "up_dist s = (let i = state_index (sm_state (fst s)) in if i \<le> 11 then 11 - i else 0)"

definition down_dist :: "machine \<times> trace \<Rightarrow> nat" where
  "down_dist s = (case sm_state (fst s) of Idle \<Rightarrow> 0 | Cleanup \<Rightarrow> 1 | Shutdown \<Rightarrow> 2 | _ \<Rightarrow> 3)"

lemma step_nearer: "step he s = (Inr r, s') \<Longrightarrow> 0 < up_dist s \<Longrightarrow> up_dist s' < up_dist s"
  using step_run [of he "fst s" "snd s" "Inr r" "fst s'" "snd s'"]
  by (cases "sm_state (fst s)") (simp_all add: up_dist_def)

lemma step_shutdown_nearer:
  "step_shutdown he s = (Inr r, s') \<Longrightarrow> 0 < down_dist s \<Longrightarrow> down_dist s' < down_dist s"
  using step_shutdown_run [of he "fst s" "snd s" "Inr r" "fst s'" "snd s'"]
  by (cases "sm_state (fst s)") (simp_all add: down_dist_def)

interpretation bring_up: stepper "step he" up_dist for he
  by unfold_locales (rule step_nearer)

interpretation tear_down: stepper "step_shutdown he" down_dist for he
  by unfold_locales (rule step_shutdown_nearer)

subsection \<open>The blocking loops\<close>

lemma up_dist_pos: "sm_state sm \<noteq> Steady \<Longrightarrow> sm_state sm \<notin> {Shutdown, Cleanup, Idle} \<Longrightarrow> 0 < up_dist (sm, t)"
  by (cases "sm_state sm") (simp_all add: up_dist_def)

lemma down_dist_pos: "sm_state sm \<noteq> Idle \<Longrightarrow> 0 < down_dist (sm, t)"
  by (cases "sm_state sm") (simp_all add: down_dist_def)

function run_until_steady :: "host_env \<Rightarrow> machine \<times> trace \<Rightarrow> unit result \<times> machine \<times> trace" where
  "run_until_steady he (sm, t) =
     (if sm_state sm = Steady then
        onRt (note_rt (\<lambda>rt. push_info ''vm: reached steady-state (all bring-up phases complete)''
          (push_system ''state=Steady'' rt))) (sm, t)
      else if sm_state sm \<in> {Shutdown, Cleanup, Idle} then
        errR (State (''run_until_steady() called in invalid state: '' @ show_state (sm_state sm))) (sm, t)
      else
        (case step he (sm, t) of
           (Inl e, s') \<Rightarrow> (Inl e, s')
         | (Inr _, s') \<Rightarrow> run_until_steady he s'))"
  by pat_completeness auto

termination run_until_steady
  by (relation "measure (\<lambda>(he, s). up_dist s)")
    (auto intro: step_nearer [OF sym] up_dist_pos)

function run_shutdown :: "host_env \<Rightarrow> machine \<times> trace \<Rightarrow> unit result \<times> machine \<times> trace" where
  "run_shutdown he (sm, t) =
     (if sm_state sm = Idle then (Inr (), (sm, t))
      else
        (case step_shutdown he (sm, t) of
           (Inl e, s') \<Rightarrow> (Inl e, s')
         | (Inr _, s') \<Rightarrow> if sm_state (fst s') = Idle then (Inr (), s') else run_shutdown he s'))"
  by pat_completeness auto

termination run_shutdown
  by (relation "measure (\<lambda>(he, s). down_dist s)")
    (auto intro: step_shutdown_nearer [OF sym] down_dist_pos)

end
