(* ===== verification/Chalybs_Lifecycle.thy ===== *)
theory Chalybs_Lifecycle
  imports Chalybs_State
begin

text \<open>
  The life of a machine: a frame rule for each handler (what it leaves alone on success and on
  failure), the effect of each handler the invariant speaks of, the invariant and its preservation by
  both step functions, runs as an inductive relation, the protocol of states they refine, and the
  equivalence of the blocking loops with ticking.
\<close>

subsection \<open>What each handler may change\<close>

text \<open>
  One frame rule per handler: the runtime without its event list and without the fields the handler
  is there to set stays as it is, whether the handler succeeds or fails.
\<close>

definition quiet :: "vm_runtime \<Rightarrow> vm_runtime" where
  "quiet rt = rt\<lparr>rt_events := []\<rparr>"

lemma quiet_push [simp]: "quiet (push_event k m rt) = quiet rt"
  by (simp add: quiet_def push_event_def)

named_theorems handler_frames "what the handlers leave alone"

lemma keeps_note: "(\<And>rt. v (f rt) = v rt) \<Longrightarrow> keeps v (note_rt f)"
  unfolding note_rt_def by (intro keeps_intros)

lemma keeps_reading [keeps_intros]: "keeps v (reading_rt f)"
  unfolding reading_rt_def by (intro keeps_intros)

lemma keeps_note_push [keeps_intros]:
  "(\<And>k m rt. v (push_event k m rt) = v rt) \<Longrightarrow> keeps v (note_rt (push_info s))"
  "(\<And>k m rt. v (push_event k m rt) = v rt) \<Longrightarrow> keeps v (note_rt (push_system s))"
  "(\<And>k m rt. v (push_event k m rt) = v rt) \<Longrightarrow> keeps v (note_rt (push_warning s))"
  by (intro keeps_note; simp add: push_abbrevs)+

lemma keeps_weaken: "keeps v m \<Longrightarrow> (\<And>rt rt'. v rt = v rt' \<Longrightarrow> w rt = w rt') \<Longrightarrow> keeps w m"
  unfolding keeps_def by blast

lemma validate_frame [handler_frames]: "keeps (\<lambda>rt. quiet (rt\<lparr>rt_cpu_plan := None\<rparr>)) (do_validate he)"
  unfolding do_validate_def plan_cpus_def Let_def
  by (intro keeps_intros keeps_note) (simp_all add: quiet_def push_abbrevs push_event_def)

lemma provision_attempts_frame:
  "keeps (\<lambda>rt. quiet (clear_hugepages rt)) (provision_attempts os node pages later nr free)"
  by (induction os node pages later nr free rule: provision_attempts.induct)
    (auto simp: Let_def quiet_def clear_hugepages_def record_hugepages_def push_abbrevs push_event_def
      intro!: keeps_intros)

lemma hugepages_frame [handler_frames]: "keeps (\<lambda>rt. quiet (clear_hugepages rt)) (do_hugepages he)"
  unfolding do_hugepages_def provision_for_vm_def Let_def
  by (intro keeps_intros provision_attempts_frame)
    (simp_all add: quiet_def clear_hugepages_def record_hugepages_def push_abbrevs push_event_def)

lemma onTransitions_frame: "keeps (\<lambda>rt. quiet (rt\<lparr>rt_vfio_transitions := []\<rparr>)) (onTransitions m)"
  by (auto simp: keeps_def onTransitions_def quiet_def split: prod.split)

lemma prepare_pci_frame [handler_frames]:
  "keeps (\<lambda>rt. quiet (rt\<lparr>rt_vfio_transitions := []\<rparr>)) (do_prepare_pci he)"
  unfolding do_prepare_pci_def stage_pci_devices_for_vm_def
  by (intro keeps_intros onTransitions_frame) (simp_all add: quiet_def push_event_def)

lemma reserve_cpus_frame [handler_frames]: "keeps (\<lambda>rt. quiet (rt\<lparr>rt_cgroups := None\<rparr>)) (do_reserve_cpus he)"
  unfolding do_reserve_cpus_def reserve_cpus_def create_cpuset_def Let_def
  by (intro keeps_intros) (simp_all add: quiet_def push_event_def)

lemma launch_frame [handler_frames]: "keeps (\<lambda>rt. quiet (rt\<lparr>rt_qemu := None\<rparr>)) (do_launch he)"
  unfolding do_launch_def launch_def
  by (intro keeps_intros keeps_note) (auto simp: quiet_def push_abbrevs push_event_def split: option.split)

lemma detect_threads_frame [handler_frames]: "keeps quiet (do_detect_threads he)"
  unfolding do_detect_threads_def by (intro keeps_intros) simp_all

lemma pin_vcpus_frame [handler_frames]:
  "keeps (\<lambda>rt. quiet (rt\<lparr>rt_pinned_threads := False\<rparr>)) (do_pin_vcpus he)"
  unfolding do_pin_vcpus_def
  by (intro keeps_intros keeps_note) (auto simp: quiet_def push_abbrevs push_event_def)

lemma detect_msi_frame [handler_frames]: "keeps quiet (do_detect_msi he)"
  unfolding do_detect_msi_def by (intro keeps_intros) simp_all

lemma pin_irqs_frame [handler_frames]: "keeps (\<lambda>rt. quiet (rt\<lparr>rt_pinned_irqs := False\<rparr>)) do_pin_irqs"
  unfolding do_pin_irqs_def
  by (intro keeps_intros keeps_note) (auto simp: quiet_def push_abbrevs push_event_def)

lemma lifecycle_quiet: "lifecycle rt = quiet (rt\<lparr>rt_tasmota_powered := False\<rparr>)"
  by (simp add: lifecycle_def quiet_def)

lemma peripherals_frame [handler_frames]: "keeps lifecycle (do_peripherals he)"
  unfolding do_peripherals_def
  by (intro keeps_intros apply_vm_up_keeps) (simp_all add: lifecycle_def push_event_def)

lemma stop_frame [handler_frames]: "keeps (\<lambda>rt. quiet (rt\<lparr>rt_qemu := None\<rparr>)) (do_stop he a b)"
  unfolding do_stop_def qemu_shutdown_def
  by (intro keeps_intros) (auto simp: quiet_def push_event_def)

lemma teardown_frame [handler_frames]: "keeps (\<lambda>rt. lifecycle (clear_hugepages rt)) (do_teardown he)"
proof -
  have down: "keeps (\<lambda>rt. lifecycle (clear_hugepages rt)) (apply_vm_down os)" for os
  proof (rule keeps_weaken [OF apply_vm_down_keeps])
    have "lifecycle (clear_hugepages rt) = clear_hugepages (lifecycle rt)" for rt
      by (simp add: lifecycle_def clear_hugepages_def)
    then show "lifecycle rt = lifecycle rt' \<Longrightarrow> lifecycle (clear_hugepages rt) = lifecycle (clear_hugepages rt')" for rt rt'
      by simp
  qed
  show ?thesis
    unfolding do_teardown_def cleanup_cpus_def destroy_cpuset_def cleanup_for_vm_def
    by (intro keeps_intros down)
      (simp_all add: lifecycle_def clear_hugepages_def push_abbrevs push_event_def)
qed

subsection \<open>The invariant of the machine\<close>

text \<open>
  Its conjuncts, each a fact about the runtime in a range of states: what the VM is called and how it
  is configured never changes; no interrupt completion is ever recorded; there is no QEMU handle
  before the launch and after the stop; hugepages, cpusets and pinning flags are there from the state
  after their handler to the steady state; a recorded CPU plan is a valid plan of the VM's layout.
\<close>

definition inv_identity :: "string \<Rightarrow> vm_config \<Rightarrow> vm_cpu_layout \<Rightarrow> machine \<Rightarrow> bool" where
  "inv_identity name cfg cpus sm \<longleftrightarrow>
     rt_name (sm_rt sm) = name \<and> rt_cfg (sm_rt sm) = cfg \<and> rt_cpus (sm_rt sm) = cpus"

definition inv_irq :: "machine \<Rightarrow> bool" where
  "inv_irq sm \<longleftrightarrow> \<not> rt_irq_pinning_complete (sm_rt sm)"

definition inv_qemu :: "machine \<Rightarrow> bool" where
  "inv_qemu sm \<longleftrightarrow>
     (sm_state sm \<le> LaunchQemu \<or> Shutdown \<le> sm_state sm \<longrightarrow> rt_qemu (sm_rt sm) = None)"

definition inv_hugepages :: "machine \<Rightarrow> bool" where
  "inv_hugepages sm \<longleftrightarrow>
     (sm_state sm \<le> PrepareHugepages \<or> Cleanup \<le> sm_state sm \<longrightarrow> \<not> rt_hugepages_active (sm_rt sm)) \<and>
     (PreparePci \<le> sm_state sm \<and> sm_state sm \<le> Steady \<longrightarrow>
        rt_hugepages_active (sm_rt sm) = qc_hugepages (vc_qemu (rt_cfg (sm_rt sm))))"

definition inv_reserved :: "machine \<Rightarrow> bool" where
  "inv_reserved sm \<longleftrightarrow>
     (LaunchQemu \<le> sm_state sm \<and> sm_state sm \<le> Steady \<longrightarrow> rt_cgroups (sm_rt sm) \<noteq> None) \<and>
     (DetectMsi \<le> sm_state sm \<and> sm_state sm \<le> Steady \<longrightarrow> rt_pinned_threads (sm_rt sm)) \<and>
     (PeripheralHooks \<le> sm_state sm \<and> sm_state sm \<le> Steady \<longrightarrow> rt_pinned_irqs (sm_rt sm)) \<and>
     (sm_state sm \<le> PrepareHugepages \<longrightarrow> rt_vfio_transitions (sm_rt sm) = [])"

definition plan_ok :: "vm_runtime \<Rightarrow> bool" where
  "plan_ok rt \<longleftrightarrow>
     (case rt_cpu_plan rt of None \<Rightarrow> True
      | Some p \<Rightarrow> validate_cpu_plan p = [] \<and> cp_vm_layout p = rt_cpus rt)"

definition vm_inv :: "string \<Rightarrow> vm_config \<Rightarrow> vm_cpu_layout \<Rightarrow> machine \<Rightarrow> bool" where
  "vm_inv name cfg cpus sm \<longleftrightarrow>
     inv_identity name cfg cpus sm \<and> inv_irq sm \<and> inv_qemu sm \<and> inv_hugepages sm \<and> inv_reserved sm \<and>
     plan_ok (sm_rt sm)"

lemmas inv_defs =
  vm_inv_def inv_identity_def inv_irq_def inv_qemu_def inv_hugepages_def inv_reserved_def

lemma vm_inv_new: "vm_inv name cfg cpus (machine_new (vm_runtime_new name cfg cpus))"
  by (simp add: inv_defs plan_ok_def machine_new_def vm_runtime_new_def state_order)

subsection \<open>What the handlers establish\<close>

lemma hugepages_effect:
  assumes "do_hugepages he (rt, t) = (r, (rt', t'))"
  shows "rt_hugepages_active rt' = (case r of Inl e \<Rightarrow> rt_hugepages_active rt | Inr u \<Rightarrow> qc_hugepages (vc_qemu (rt_cfg rt)))"
proof -
  let ?rt = "push_system ''state=PrepareHugepages'' rt"
  from assms have "provision_for_vm (he_os he) (?rt, t) = (r, (rt', t'))"
    by (auto simp: do_hugepages_def bindR_def note_rt_def act_simps)
  moreover obtain r1 t1 where "select_hugepage_node (he_os he) (rt_cfg ?rt) t = (r1, t1)" by (metis prod.exhaust)
  ultimately show ?thesis
    using provision_run [where os = "he_os he" and rt = ?rt and t = t]
    by (cases r; cases r1) (auto simp: push_abbrevs clear_hugepages_def record_hugepages_def Let_def split: if_splits)
qed

lemma reserve_effect:
  assumes "do_reserve_cpus he (rt, t) = (Inr u, (rt', t'))"
  shows "rt_cgroups rt' \<noteq> None"
proof -
  from assms obtain rt1 t1 v where 1: "create_cpuset (he_os he) (push_system ''state=ReserveCpus'' rt, t) = (Inr v, (rt1, t1))"
    and 2: "rt_cgroups rt' = rt_cgroups rt1"
    by (auto simp: do_reserve_cpus_def reserve_cpus_def run_simps note_rt_run push_abbrevs)
  from create_cpuset_run [OF 1] 2 show ?thesis by auto
qed

lemma launch_effect:
  assumes "do_launch he (rt, t) = (Inl e, (rt', t'))"
  shows "rt_qemu rt' = rt_qemu rt"
proof -
  from assms have "launch (he_os he) (he_cpuid he) (push_system ''state=LaunchQemu'' rt, t) = (Inl e, (rt', t'))"
    by (auto simp: do_launch_def bindR_def note_rt_def act_simps split: prod.splits sum.splits option.splits)
  from launch_error_keeps [OF this] show ?thesis by (simp add: push_abbrevs)
qed

lemma pin_effects:
  "do_pin_vcpus he (rt, t) = (Inr u, (rt', t')) \<Longrightarrow> rt_pinned_threads rt'"
  "do_pin_irqs (rt, t) = (Inr u, (rt', t')) \<Longrightarrow> rt_pinned_irqs rt'"
  by (auto simp: do_pin_vcpus_def do_pin_irqs_def run_simps note_rt_run reading_rt_run push_abbrevs)

lemma stop_effect:
  assumes "do_stop he a b (rt, t) = (r, (rt', t'))"
  shows "rt_qemu rt' = None"
proof -
  have sd: "rt_qemu rt2 = None" if "qemu_shutdown os (rt1, t1) = (x, (rt2, t2))" for os rt1 t1 x rt2 t2
    using that
    by (auto simp: qemu_shutdown_def andThen_def bindR_def peek_def modify_def onOs_def okR_def
        split: option.splits prod.splits sum.splits)
  obtain x rt1 t1 where 1: "qemu_shutdown (he_os he) (push_system a rt, t) = (x, (rt1, t1))" by (metis prod.exhaust)
  from assms 1 sd [OF 1] show ?thesis
    by (cases x) (auto simp: do_stop_def bindR_def note_rt_def act_simps push_abbrevs)
qed

lemma teardown_effect:
  assumes "do_teardown he (rt, t) = (Inr u, (rt', t'))"
  shows "\<not> rt_hugepages_active rt'"
proof -
  have cl: "\<not> rt_hugepages_active rt2" if "cleanup_for_vm os (rt1, t1) = (Inr x, (rt2, t2))" for os rt1 t1 x rt2 t2
    using that
    by (auto simp: cleanup_for_vm_def run_simps push_abbrevs clear_hugepages_def split: if_splits)
  have down: "rt_hugepages_active rt2 = rt_hugepages_active rt1"
    if "apply_vm_down os (rt1, t1) = (x, (rt2, t2))" for os rt1 t1 x rt2 t2
    using keepsE [OF apply_vm_down_keeps that]
    unfolding lifecycle_def by (metis vm_runtime.select_convs(14) vm_runtime.update_convs(10,16) vm_runtime.surjective)
  show ?thesis
    using assms
    by (auto simp: do_teardown_def run_simps note_rt_run reading_rt_run push_abbrevs dest!: cl down)
qed


definition plan_view :: "vm_runtime \<Rightarrow> cpu_plan option \<times> vm_cpu_layout" where
  "plan_view rt = (rt_cpu_plan rt, rt_cpus rt)"

lemma plan_view_push [simp]: "plan_view (push_event k m rt) = plan_view rt"
  by (simp add: plan_view_def)

lemma plan_ok_view: "plan_view rt = plan_view rt' \<Longrightarrow> plan_ok rt = plan_ok rt'"
  by (auto simp: plan_view_def plan_ok_def split: option.split)

lemma plan_cpus_ok:
  assumes "plan_cpus he (rt, t) = (r, (rt', t'))" "plan_ok rt"
  shows "plan_ok rt'"
proof (cases "detect_cpu_identity (he_cpuid he)")
  case None
  with assms show ?thesis
    by (auto simp: plan_cpus_def note_rt_run push_abbrevs intro: plan_ok_view [THEN iffD1, rotated])
next
  case (Some ident)
  obtain x t1 where x: "topology_from_sysfs (he_os he) t = (x, t1)" by (metis prod.exhaust)
  show ?thesis
  proof (cases x)
    case (Inl e)
    with assms Some x have "plan_view rt' = plan_view rt"
      by (auto simp: plan_cpus_def Let_def andThen_def onOs_def note_rt_run push_abbrevs)
    with assms(2) show ?thesis using plan_ok_view by blast
  next
    case (Inr topo)
    let ?plan = "build_cpu_plan \<lparr>pi_ident = ident, pi_arch = classify ident, pi_topology = topo, pi_vm_layout = rt_cpus rt\<rparr>"
    have layout: "cp_vm_layout ?plan = rt_cpus rt" by (simp add: build_cpu_plan_def Let_def)
    show ?thesis
    proof (cases "validate_cpu_plan ?plan = []")
      case False
      with assms Some x Inr have "plan_view rt' = plan_view rt"
        by (auto simp: plan_cpus_def Let_def andThen_def onOs_def peek_def modify_def errR_def push_abbrevs)
      with assms(2) show ?thesis using plan_ok_view by blast
    next
      case True
      with assms(1) Some x Inr have "rt_cpu_plan rt' = Some ?plan \<and> rt_cpus rt' = rt_cpus rt"
        by (auto simp: plan_cpus_def Let_def andThen_def onOs_def peek_def bindR_def note_rt_def modify_def okR_def push_abbrevs)
      with True layout show ?thesis by (simp add: plan_ok_def)
    qed
  qed
qed

lemma validate_plan:
  assumes "do_validate he (rt, t) = (r, (rt', t'))" "plan_ok rt"
  shows "plan_ok rt'"
proof -
  define before where "before = (\<lambda>he :: host_env.
     bindR (note_rt (push_system ''state=Validate'')) (\<lambda>_.
     bindR (onOs (preflight (he_os he))) (\<lambda>_.
     bindR (note_rt (push_info ''cpuset: preflight checks completed successfully'')) (\<lambda>_.
     bindR (reading_rt (qemu_preflight (he_os he))) (\<lambda>_.
     bindR (note_rt (push_info ''qemu: preflight checks completed successfully'')) (\<lambda>_.
     bindR (reading_rt (\<lambda>rt. preflight_gpu_policy (he_os he) (rt_name rt) (rt_cfg rt))) (\<lambda>_.
       note_rt (push_info ''pci: GPU policy preflight completed successfully''))))))))"
  have assoc: "bindR (bindR m f) g = bindR m (\<lambda>x. bindR (f x) g)"
    for m :: "unit result rt_act" and f :: "unit \<Rightarrow> unit result rt_act" and g :: "unit \<Rightarrow> unit result rt_act"
    by (auto simp: bindR_def fun_eq_iff split: prod.splits sum.splits)
  have split: "do_validate he = bindR (before he) (\<lambda>_. plan_cpus he)"
    by (simp add: do_validate_def before_def assoc)
  have frame: "keeps plan_view (before he)"
    unfolding before_def by (intro keeps_intros) simp_all
  obtain x rt1 t1 where 1: "before he (rt, t) = (x, (rt1, t1))" by (metis prod.exhaust)
  have ok1: "plan_ok rt1" using keepsE [OF frame 1] assms(2) plan_ok_view by blast
  show ?thesis
  proof (cases x)
    case (Inl e)
    with assms(1) 1 ok1 show ?thesis by (simp add: split bindR_def)
  next
    case (Inr u)
    with assms(1) 1 have "plan_cpus he (rt1, t1) = (r, (rt', t'))" by (simp add: split bindR_def)
    from plan_cpus_ok [OF this ok1] show ?thesis .
  qed
qed

subsection \<open>Every step keeps the invariant\<close>

lemma step_handler:
  assumes "step he (sm, t) = (r, (sm', t'))" "sm_state sm < Steady"
  obtains x where "(case sm_state sm of
        Init \<Rightarrow> note_rt (push_system ''state=Init'')
      | Validate \<Rightarrow> do_validate he
      | PrepareHugepages \<Rightarrow> do_hugepages he
      | PreparePci \<Rightarrow> do_prepare_pci he
      | ReserveCpus \<Rightarrow> do_reserve_cpus he
      | LaunchQemu \<Rightarrow> do_launch he
      | DetectThreads \<Rightarrow> do_detect_threads he
      | PinVcpus \<Rightarrow> do_pin_vcpus he
      | DetectMsi \<Rightarrow> do_detect_msi he
      | PinIrqs \<Rightarrow> do_pin_irqs
      | _ \<Rightarrow> do_peripherals he) (sm_rt sm, t) = (x, (sm_rt sm', t'))"
    "sm_state sm' = (if is_ok x then next_up (sm_state sm) else sm_state sm)"
proof -
  have adv: thesis if "advance m n (sm, t) = (r, (sm', t'))"
    "\<And>x. m (sm_rt sm, t) = (x, (sm_rt sm', t')) \<Longrightarrow> sm_state sm' = (if is_ok x then n else sm_state sm) \<Longrightarrow> thesis"
    for m n
  proof -
    obtain x rt t1 where 1: "m (sm_rt sm, t) = (x, (rt, t1))" by (metis prod.exhaust)
    with that show ?thesis by (cases x) (auto simp: advance_run)
  qed
  show ?thesis
    using assms that by (cases "sm_state sm") (auto simp: step_def state_order elim!: adv)
qed

lemma quiet_eqD:
  assumes "quiet a = quiet b"
  shows "rt_name a = rt_name b" "rt_cfg a = rt_cfg b" "rt_cpus a = rt_cpus b" "rt_cgroups a = rt_cgroups b"
    "rt_qemu a = rt_qemu b" "rt_pinned_threads a = rt_pinned_threads b"
    "rt_pinned_irqs a = rt_pinned_irqs b" "rt_irq_pinning_complete a = rt_irq_pinning_complete b"
    "rt_vfio_transitions a = rt_vfio_transitions b" "rt_hugepages_active a = rt_hugepages_active b"
    "rt_cpu_plan a = rt_cpu_plan b"
proof -
  note sel = arg_cong [OF assms]
  show "rt_name a = rt_name b" "rt_cfg a = rt_cfg b" "rt_cpus a = rt_cpus b" "rt_cgroups a = rt_cgroups b"
    "rt_qemu a = rt_qemu b" "rt_pinned_threads a = rt_pinned_threads b"
    "rt_pinned_irqs a = rt_pinned_irqs b" "rt_irq_pinning_complete a = rt_irq_pinning_complete b"
    "rt_vfio_transitions a = rt_vfio_transitions b" "rt_hugepages_active a = rt_hugepages_active b"
    "rt_cpu_plan a = rt_cpu_plan b"
    using sel [of rt_name] sel [of rt_cfg] sel [of rt_cpus] sel [of rt_cgroups] sel [of rt_qemu]
      sel [of rt_pinned_threads] sel [of rt_pinned_irqs] sel [of rt_irq_pinning_complete]
      sel [of rt_vfio_transitions] sel [of rt_hugepages_active] sel [of rt_cpu_plan]
    by (simp_all add: quiet_def)
qed

lemma plan_ok_push [simp]: "plan_ok (push_event k m rt) = plan_ok rt"
  by (rule plan_ok_view) simp

lemma frame_fields:
  "keeps (\<lambda>rt. quiet (f rt)) m \<Longrightarrow> m (rt, t) = (x, (rt', t')) \<Longrightarrow> quiet (f rt') = quiet (f rt)"
  by (drule keepsE) auto

lemma step_inv:
  assumes "step he (sm, t) = (r, (sm', t'))" "vm_inv name cfg cpus sm"
  shows "vm_inv name cfg cpus sm'"
proof (cases "sm_state sm < Steady")
  case False
  with assms show ?thesis
    by (cases "sm_state sm")
      (auto simp: step_def state_order bindR_def onRt_def note_rt_def act_simps current_def inv_defs
        push_abbrevs)
next
  case True
  obtain x where run: "(case sm_state sm of
        Init \<Rightarrow> note_rt (push_system ''state=Init'')
      | Validate \<Rightarrow> do_validate he
      | PrepareHugepages \<Rightarrow> do_hugepages he
      | PreparePci \<Rightarrow> do_prepare_pci he
      | ReserveCpus \<Rightarrow> do_reserve_cpus he
      | LaunchQemu \<Rightarrow> do_launch he
      | DetectThreads \<Rightarrow> do_detect_threads he
      | PinVcpus \<Rightarrow> do_pin_vcpus he
      | DetectMsi \<Rightarrow> do_detect_msi he
      | PinIrqs \<Rightarrow> do_pin_irqs
      | _ \<Rightarrow> do_peripherals he) (sm_rt sm, t) = (x, (sm_rt sm', t'))"
    and st: "sm_state sm' = (if is_ok x then next_up (sm_state sm) else sm_state sm)"
    using assms(1) True by (rule step_handler)
  note inv = assms(2) [unfolded inv_defs]
  note same = plan_ok_view [of "sm_rt sm'" "sm_rt sm"]
  show ?thesis
  proof (cases "sm_state sm")
    case Init
    with run st inv show ?thesis
      by (auto simp: note_rt_run push_abbrevs inv_defs state_order)
  next
    case Validate
    with run have m: "do_validate he (sm_rt sm, t) = (x, (sm_rt sm', t'))" by simp
    note f = quiet_eqD [OF frame_fields [OF validate_frame m], simplified]
    show ?thesis using f validate_plan [OF m] Validate st inv by (cases x) (simp_all add: inv_defs state_order)
  next
    case PrepareHugepages
    with run have m: "do_hugepages he (sm_rt sm, t) = (x, (sm_rt sm', t'))" by simp
    note f = quiet_eqD [OF frame_fields [OF hugepages_frame m], unfolded clear_hugepages_def, simplified]
    show ?thesis using f same hugepages_effect [OF m] PrepareHugepages st inv
      by (cases x) (simp_all add: inv_defs state_order plan_view_def)
  next
    case PreparePci
    with run have m: "do_prepare_pci he (sm_rt sm, t) = (x, (sm_rt sm', t'))" by simp
    note f = quiet_eqD [OF frame_fields [OF prepare_pci_frame m], simplified]
    show ?thesis using f same PreparePci st inv by (cases x) (simp_all add: inv_defs state_order plan_view_def)
  next
    case ReserveCpus
    with run have m: "do_reserve_cpus he (sm_rt sm, t) = (x, (sm_rt sm', t'))" by simp
    note f = quiet_eqD [OF frame_fields [OF reserve_cpus_frame m], simplified]
    show ?thesis using f same reserve_effect m ReserveCpus st inv by (cases x) (auto simp: inv_defs state_order plan_view_def)
  next
    case LaunchQemu
    with run have m: "do_launch he (sm_rt sm, t) = (x, (sm_rt sm', t'))" by simp
    note f = quiet_eqD [OF frame_fields [OF launch_frame m], simplified]
    show ?thesis using f same launch_effect m LaunchQemu st inv by (cases x) (auto simp: inv_defs state_order plan_view_def)
  next
    case DetectThreads
    with run have m: "do_detect_threads he (sm_rt sm, t) = (x, (sm_rt sm', t'))" by simp
    note f = quiet_eqD [OF keepsE [OF detect_threads_frame m]]
    show ?thesis using f same DetectThreads st inv by (cases x) (simp_all add: inv_defs state_order plan_view_def)
  next
    case PinVcpus
    with run have m: "do_pin_vcpus he (sm_rt sm, t) = (x, (sm_rt sm', t'))" by simp
    note f = quiet_eqD [OF frame_fields [OF pin_vcpus_frame m], simplified]
    show ?thesis using f same pin_effects m PinVcpus st inv by (cases x) (auto simp: inv_defs state_order plan_view_def)
  next
    case DetectMsi
    with run have m: "do_detect_msi he (sm_rt sm, t) = (x, (sm_rt sm', t'))" by simp
    note f = quiet_eqD [OF keepsE [OF detect_msi_frame m]]
    show ?thesis using f same DetectMsi st inv by (cases x) (simp_all add: inv_defs state_order plan_view_def)
  next
    case PinIrqs
    with run have m: "do_pin_irqs (sm_rt sm, t) = (x, (sm_rt sm', t'))" by simp
    note f = quiet_eqD [OF frame_fields [OF pin_irqs_frame m], simplified]
    show ?thesis using f same pin_effects m PinIrqs st inv by (cases x) (auto simp: inv_defs state_order plan_view_def)
  next
    case PeripheralHooks
    with run have m: "do_peripherals he (sm_rt sm, t) = (x, (sm_rt sm', t'))" by simp
    note f = quiet_eqD [OF keepsE [OF peripherals_frame m, unfolded lifecycle_quiet], simplified]
    show ?thesis using f same PeripheralHooks st inv by (cases x) (simp_all add: inv_defs state_order plan_view_def)
  qed (use True in \<open>simp_all add: state_order\<close>)
qed

lemma step_shutdown_inv:
  assumes "step_shutdown he (sm, t) = (r, (sm', t'))" "vm_inv name cfg cpus sm"
  shows "vm_inv name cfg cpus sm'"
proof -
  note inv = assms(2) [unfolded inv_defs]
  note same = plan_ok_view [of "sm_rt sm'" "sm_rt sm"]
  have adv: "\<exists>x. m (sm_rt sm, t) = (x, (sm_rt sm', t')) \<and> sm_state sm' = (if is_ok x then n else sm_state sm)"
    if "advance m n (sm, t) = (r, (sm', t'))" for m n
  proof -
    obtain x rt t1 where 1: "m (sm_rt sm, t) = (x, (rt, t1))" by (metis prod.exhaust)
    with that show ?thesis by (cases x) (auto simp: advance_run)
  qed
  consider "sm_state sm = Shutdown" | "sm_state sm = Cleanup" | "sm_state sm = Idle"
    | a b where "sm_state sm \<le> Steady" "advance (do_stop he a b) Shutdown (sm, t) = (r, (sm', t'))"
    using assms(1) by (cases "sm_state sm") (auto simp: step_shutdown_def state_order)
  then show ?thesis
  proof cases
    case 1
    with assms(1) have "advance (do_teardown he) Cleanup (sm, t) = (r, (sm', t'))" by (simp add: step_shutdown_def)
    from adv [OF this] obtain x where m: "do_teardown he (sm_rt sm, t) = (x, (sm_rt sm', t'))"
      and st: "sm_state sm' = (if is_ok x then Cleanup else sm_state sm)" by blast
    note f = quiet_eqD [OF keepsE [OF teardown_frame m, unfolded lifecycle_quiet], unfolded clear_hugepages_def, simplified]
    show ?thesis using f same teardown_effect m 1 st inv by (cases x) (auto simp: inv_defs state_order plan_view_def)
  next
    case 4
    from adv [OF 4(2)] obtain x where m: "do_stop he a b (sm_rt sm, t) = (x, (sm_rt sm', t'))"
      and st: "sm_state sm' = (if is_ok x then Shutdown else sm_state sm)" by blast
    note f = quiet_eqD [OF frame_fields [OF stop_frame m], simplified]
    show ?thesis using f same stop_effect [OF m] 4 st inv by (cases x) (auto simp: inv_defs state_order plan_view_def)
  qed (use assms(1) inv in \<open>auto simp: step_shutdown_def bindR_def onRt_def note_rt_def act_simps current_def
      goto_def inv_defs push_abbrevs state_order\<close>)
qed

subsection \<open>Runs\<close>

text \<open>
  A transition is one step in either direction, whatever its result: a caller may turn round at any
  time, and may go on after an error.
\<close>

inductive vm_trans :: "host_env \<Rightarrow> machine \<times> trace \<Rightarrow> machine \<times> trace \<Rightarrow> bool" for he where
  bring_up: "step he s = (r, s') \<Longrightarrow> vm_trans he s s'"
| tear_down: "step_shutdown he s = (r, s') \<Longrightarrow> vm_trans he s s'"

inductive_cases vm_transE: "vm_trans he s s'"

definition reachable :: "host_env \<Rightarrow> string \<Rightarrow> vm_config \<Rightarrow> vm_cpu_layout \<Rightarrow> machine \<Rightarrow> bool" where
  "reachable he name cfg cpus sm \<longleftrightarrow>
     (\<exists>t t'. (vm_trans he)\<^sup>*\<^sup>* (machine_new (vm_runtime_new name cfg cpus), t) (sm, t'))"

lemma vm_trans_inv: "vm_trans he s s' \<Longrightarrow> vm_inv name cfg cpus (fst s) \<Longrightarrow> vm_inv name cfg cpus (fst s')"
  by (cases s; cases s') (auto elim!: vm_transE dest: step_inv step_shutdown_inv)

lemma reachable_vm_inv:
  assumes "reachable he name cfg cpus sm"
  shows "vm_inv name cfg cpus sm"
proof -
  from assms obtain t t' where "(vm_trans he)\<^sup>*\<^sup>* (machine_new (vm_runtime_new name cfg cpus), t) (sm, t')"
    by (auto simp: reachable_def)
  then have "vm_inv name cfg cpus (fst (sm, t'))"
    by (induction rule: rtranclp_induct) (auto intro: vm_inv_new vm_trans_inv)
  then show ?thesis by simp
qed

text \<open>The protocol of states, without handlers: stay, one forward below the steady state, or one down.\<close>

inductive protocol :: "vm_state \<Rightarrow> vm_state \<Rightarrow> bool" where
  stay: "protocol s s"
| forward: "s < Steady \<Longrightarrow> protocol s (next_up s)"
| down: "protocol s (next_down s)"

inductive_cases protocolE: "protocol s s'"
inductive_simps protocol_from_Steady: "protocol Steady s'"

lemma vm_trans_protocol:
  assumes "vm_trans he (sm, t) (sm', t')"
  shows "protocol (sm_state sm) (sm_state sm')"
  using assms
proof cases
  case (bring_up r)
  from step_run [OF this] show ?thesis
    by (cases r; cases "sm_state sm = Steady") (auto intro: protocol.intros)
next
  case (tear_down r)
  from step_shutdown_run [OF this] show ?thesis
    by (cases r) (auto intro: protocol.intros)
qed

lemma protocol_index: "protocol s s' \<Longrightarrow> state_index s' \<le> Suc (state_index s) \<or> Shutdown \<le> s'"
  by (erule protocolE; cases s) (auto simp: state_order)

subsection \<open>The blocking loops and the ticks\<close>

definition steady_notes :: "vm_runtime \<Rightarrow> vm_runtime" where
  "steady_notes rt =
     push_info ''vm: reached steady-state (all bring-up phases complete)'' (push_system ''state=Steady'' rt)"

lemma up_dist_0: "sm_state sm \<le> Steady \<Longrightarrow> up_dist (sm, t) = 0 \<longleftrightarrow> sm_state sm = Steady"
  by (cases "sm_state sm") (simp_all add: up_dist_def state_order)

lemma down_dist_0: "down_dist (sm, t) = 0 \<longleftrightarrow> sm_state sm = Idle"
  by (cases "sm_state sm") (simp_all add: down_dist_def)

definition then_notes :: "(chalybs_error + bool) \<times> machine \<times> trace \<Rightarrow> unit result \<times> machine \<times> trace" where
  "then_notes d =
     (case d of (Inl e, s') \<Rightarrow> (Inl e, s') | (Inr b, s') \<Rightarrow> onRt (note_rt steady_notes) s')"

definition then_idle :: "(chalybs_error + bool) \<times> machine \<times> trace \<Rightarrow> unit result \<times> machine \<times> trace" where
  "then_idle d = (case d of (Inl e, s') \<Rightarrow> (Inl e, s') | (Inr b, s') \<Rightarrow> (Inr (), s'))"

lemma run_until_steady_drive:
  "sm_state (fst s) \<le> Steady \<Longrightarrow>
   run_until_steady he s = then_notes (drive (step he) (\<lambda>s. up_dist s = 0) (up_dist s) s)"
proof (induction he s rule: run_until_steady.induct)
  case (1 he sm t)
  show ?case
  proof (cases "sm_state sm = Steady")
    case True
    then show ?thesis
      by (simp add: then_notes_def up_dist_def steady_notes_def [abs_def] note_rt_def)
  next
    case False
    then obtain d where d: "up_dist (sm, t) = Suc d"
      using 1 up_dist_0 [of sm t] by (metis fst_conv not0_implies_Suc)
    have inside: "sm_state sm \<notin> {Shutdown, Cleanup, Idle}"
      using 1(2) by (auto simp: state_order)
    obtain r sm1 t1 where s: "step he (sm, t) = (r, (sm1, t1))" by (metis prod.exhaust)
    show ?thesis
    proof (cases r)
      case (Inl e)
      with False inside s d show ?thesis by (simp add: then_notes_def bindR_def)
    next
      case (Inr x)
      from step_run [OF s] Inr have le: "sm_state sm1 \<le> Steady"
        using False by (cases "sm_state sm") (auto simp: state_order)
      have "up_dist (sm1, t1) \<le> d" using step_nearer [OF s [unfolded Inr]] d by simp
      then have "drive (step he) (\<lambda>s. up_dist s = 0) d (sm1, t1) =
          drive (step he) (\<lambda>s. up_dist s = 0) (up_dist (sm1, t1)) (sm1, t1)"
        by (rule bring_up.drive_enough)
      with 1(1) [OF False inside s [symmetric]] Inr le False inside s d show ?thesis
        by (simp add: bindR_def)
    qed
  qed
qed

lemma run_shutdown_drive:
  "run_shutdown he s = then_idle (drive (step_shutdown he) (\<lambda>s. down_dist s = 0) (down_dist s) s)"
proof (induction he s rule: run_shutdown.induct)
  case (1 he sm t)
  show ?case
  proof (cases "sm_state sm = Idle")
    case True
    then show ?thesis by (simp add: then_idle_def down_dist_def)
  next
    case False
    then obtain d where d: "down_dist (sm, t) = Suc d"
      using down_dist_0 [of sm t] by (metis not0_implies_Suc)
    obtain r sm1 t1 where s: "step_shutdown he (sm, t) = (r, (sm1, t1))" by (metis prod.exhaust)
    show ?thesis
    proof (cases r)
      case (Inl e)
      with False s d show ?thesis by (simp add: then_idle_def bindR_def)
    next
      case (Inr x)
      have "down_dist (sm1, t1) \<le> d" using step_shutdown_nearer [OF s [unfolded Inr]] d by simp
      then have enough: "drive (step_shutdown he) (\<lambda>s. down_dist s = 0) d (sm1, t1) =
          drive (step_shutdown he) (\<lambda>s. down_dist s = 0) (down_dist (sm1, t1)) (sm1, t1)"
        by (rule tear_down.drive_enough)
      show ?thesis
      proof (cases "sm_state sm1 = Idle")
        case True
        then have "drive (step_shutdown he) (\<lambda>s. down_dist s = 0) d (sm1, t1) = (Inr True, (sm1, t1))"
          using down_dist_0 [of sm1 t1] by (cases d) simp_all
        with Inr True False s d show ?thesis by (simp add: bindR_def then_idle_def)
      next
        case False2: False
        with 1 [OF False s [symmetric]] Inr False s d enough show ?thesis by (simp add: bindR_def)
      qed
    qed
  qed
qed

lemma run_shutdown_inv:
  "vm_inv name cfg cpus (fst s) \<Longrightarrow> vm_inv name cfg cpus (fst (snd (run_shutdown he s)))"
proof (induction he s rule: run_shutdown.induct)
  case (1 he sm t)
  obtain r sm1 t1 where s: "step_shutdown he (sm, t) = (r, (sm1, t1))" by (metis prod.exhaust)
  have "vm_inv name cfg cpus sm1" using step_shutdown_inv [OF s] 1(2) by simp
  with 1(1) [OF _ s [symmetric]] 1(2) s show ?case by (cases r) auto
qed

lemma hooks_run:
  assumes "vm_inv name cfg cpus sm" "sm_state sm = PeripheralHooks"
  shows "\<exists>sm' ev. step he (sm, t) = (Inr Steady, (sm', t @ ev)) \<and> sm_state sm' = Steady \<and>
    list_all (\<lambda>e. \<not> is_i2c e) ev"
proof -
  let ?rt = "push_system ''state=PeripheralHooks'' (sm_rt sm)"
  have irq: "\<not> rt_irq_pinning_complete ?rt" using assms(1) by (simp add: inv_defs push_abbrevs)
  obtain r rt1 t1 where 1: "apply_vm_up (he_os he) (?rt, t) = (r, (rt1, t1))" by (metis prod.exhaust)
  from peripherals_up_run [where os = "he_os he" and rt = ?rt and t = t] 1 irq have r: "is_ok r" and "\<exists>ev. t1 = t @ ev \<and> list_all (\<lambda>e. \<not> is_i2c e) ev"
    by (auto split: sum.splits)
  then obtain ev where ev: "t1 = t @ ev" "list_all (\<lambda>e. \<not> is_i2c e) ev" by blast
  from r 1 ev have "do_peripherals he (sm_rt sm, t) =
      (Inr (), (push_info ''peripherals: VM up hooks applied successfully'' rt1, t @ ev))"
    by (cases r) (simp_all add: do_peripherals_def bindR_def note_rt_def act_simps)
  then have "advance (do_peripherals he) Steady (sm, t) =
      (Inr Steady, (sm\<lparr>sm_rt := push_info ''peripherals: VM up hooks applied successfully'' rt1, sm_state := Steady\<rparr>, t @ ev))"
    by (simp add: advance_run)
  with ev assms(2) show ?thesis by (simp add: step_def)
qed

subsection \<open>Properties of the state machine\<close>

text \<open>
  C2. In every state the machine can reach by any sequence of bring-up and shutdown steps, successful
  or not, the invariant holds: name, configuration and CPU layout are those it was created with, no
  interrupt completion is recorded, there is no QEMU handle before the launch or after the stop,
  hugepages are active exactly when configured from the PCI state to the steady state and never in
  the first or last states, cpuset, thread and interrupt flags are set once their handlers have
  succeeded, and a recorded CPU plan is free of findings and made for the VM's layout.
\<close>

theorem machine_invariant:
  assumes "reachable he name cfg cpus sm"
  shows "vm_inv name cfg cpus sm"
  using assms by (rule reachable_vm_inv)

lemma machine_invariant_witness:
  "\<forall>name cfg cpus t.
     vm_inv name cfg cpus (fst (snd (step \<lparr>he_os = silent_os, he_cpuid = None, he_hash_order = rev\<rparr>
       (machine_new (vm_runtime_new name cfg cpus), t))))"
proof (intro allI)
  fix name :: string and cfg :: vm_config and cpus :: vm_cpu_layout and t :: trace
  let ?he = "\<lparr>he_os = silent_os, he_cpuid = None, he_hash_order = rev\<rparr>"
  let ?s = "(machine_new (vm_runtime_new name cfg cpus), t)"
  obtain r sm' t' where s: "step ?he ?s = (r, (sm', t'))" by (metis prod.exhaust)
  then have "vm_trans ?he ?s (sm', t')" by (rule vm_trans.bring_up)
  then have "reachable ?he name cfg cpus sm'" unfolding reachable_def by blast
  with s show "vm_inv name cfg cpus (fst (snd (step ?he ?s)))" using machine_invariant by simp
qed

text \<open>
  C11. Seen through its state alone the machine is the protocol: a bring-up step that succeeds is made
  below or at the steady state, goes to the next state in the order of the enumeration (the steady
  state stays) and returns it, a shutdown step that succeeds goes to the next state downwards, and a
  step that fails in either direction leaves the state alone.
\<close>

theorem steps_refine_protocol:
  "(case step he (sm, t) of
      (Inl e, (sm', t')) \<Rightarrow> sm_state sm' = sm_state sm
    | (Inr x, (sm', t')) \<Rightarrow>
        sm_state sm \<le> Steady \<and> x = next_up (sm_state sm) \<and> sm_state sm' = x \<and>
        protocol (sm_state sm) x) \<and>
   (case step_shutdown he (sm, t) of
      (Inl e, (sm', t')) \<Rightarrow> sm_state sm' = sm_state sm
    | (Inr x, (sm', t')) \<Rightarrow> x = next_down (sm_state sm) \<and> sm_state sm' = x \<and> protocol (sm_state sm) x)"
proof -
  obtain r sm1 t1 where 1: "step he (sm, t) = (r, (sm1, t1))" by (metis prod.exhaust)
  obtain q sm2 t2 where 2: "step_shutdown he (sm, t) = (q, (sm2, t2))" by (metis prod.exhaust)
  note p1 = vm_trans_protocol [OF vm_trans.bring_up [OF 1]]
  note p2 = vm_trans_protocol [OF vm_trans.tear_down [OF 2]]
  show ?thesis
    using step_run [OF 1] step_shutdown_run [OF 2] p1 p2 by (auto simp: 1 2 split: sum.splits)
qed

text \<open>
  C23. The blocking bring-up always returns, and is the ticking of single steps: from a state of the
  bring-up it is at most eleven steps, stopped at the first error, followed by the two closing events
  when the steady state is reached; from a state of the shutdown it refuses.
\<close>

theorem run_until_steady_ticks:
  "run_until_steady he (sm, t) =
     (if sm_state sm \<le> Steady then then_notes (drive (step he) (\<lambda>s. up_dist s = 0) 11 (sm, t))
      else (Inl (State (''run_until_steady() called in invalid state: '' @ show_state (sm_state sm))), (sm, t)))"
proof (cases "sm_state sm \<le> Steady")
  case True
  have "up_dist (sm, t) \<le> 11" by (simp add: up_dist_def Let_def)
  then have "drive (step he) (\<lambda>s. up_dist s = 0) 11 (sm, t) =
      drive (step he) (\<lambda>s. up_dist s = 0) (up_dist (sm, t)) (sm, t)"
    by (rule bring_up.drive_enough)
  with True run_until_steady_drive [of "(sm, t)" he] show ?thesis by simp
next
  case False
  then have "sm_state sm \<in> {Shutdown, Cleanup, Idle}" "sm_state sm \<noteq> Steady"
    by (cases "sm_state sm"; simp add: state_order)+
  with False show ?thesis by (simp add: errR_def)
qed

text \<open>
  C24. The blocking shutdown always returns and is at most three ticks; when it succeeds the machine is
  idle and, if the invariant held before, holds neither a QEMU handle nor hugepages.
\<close>

theorem run_shutdown_ticks:
  "run_shutdown he (sm, t) = then_idle (drive (step_shutdown he) (\<lambda>s. down_dist s = 0) 3 (sm, t)) \<and>
   (case run_shutdown he (sm, t) of
      (Inl e, s') \<Rightarrow> True
    | (Inr u, (sm', t')) \<Rightarrow>
        sm_state sm' = Idle \<and>
        (if vm_inv name cfg cpus sm then rt_qemu (sm_rt sm') = None \<and> \<not> rt_hugepages_active (sm_rt sm')
         else True))"
proof -
  let ?d = "drive (step_shutdown he) (\<lambda>s. down_dist s = 0)"
  have le: "down_dist (sm, t) \<le> 3" by (simp add: down_dist_def split: vm_state.split)
  then have "?d 3 (sm, t) = ?d (down_dist (sm, t)) (sm, t)" by (rule tear_down.drive_enough)
  then have eq: "run_shutdown he (sm, t) = then_idle (?d 3 (sm, t))" by (simp only: run_shutdown_drive)
  obtain r sm' t' where run: "?d 3 (sm, t) = (r, (sm', t'))" by (metis prod.exhaust)
  show ?thesis
  proof (cases r)
    case (Inl e)
    with eq run show ?thesis by (simp add: then_idle_def del: run_shutdown.simps)
  next
    case (Inr b)
    have done_: "sm_state sm' = Idle"
      using tear_down.drive_reaches [OF le run [unfolded Inr]] by (simp add: down_dist_0)
    have "vm_inv name cfg cpus sm'" if "vm_inv name cfg cpus sm"
      using run_shutdown_inv [of name cfg cpus "(sm, t)" he] that eq run Inr
      by (simp add: then_idle_def del: run_shutdown.simps)
    with done_ eq run Inr show ?thesis by (simp add: then_idle_def inv_defs state_order del: run_shutdown.simps)
  qed
qed

text \<open>
  C25. With the invariant, the peripheral step of the bring-up cannot fail and touches no I2C bus,
  whatever is configured: since nothing records that interrupt pinning is complete, the monitor
  switch is always left to the interrupt worker.
\<close>

theorem hooks_step_total:
  assumes "vm_inv name cfg cpus sm" "sm_state sm = PeripheralHooks"
  shows "\<exists>sm' ev. step he (sm, t) = (Inr Steady, (sm', t @ ev)) \<and> sm_state sm' = Steady \<and>
    list_all (\<lambda>e. \<not> is_i2c e) ev"
  using assms by (rule hooks_run)

lemma hooks_step_total_witness:
  "\<forall>name cfg cpus t. \<exists>sm sm' ev. sm_state sm = PeripheralHooks \<and> rt_cfg (sm_rt sm) = cfg \<and>
     step \<lparr>he_os = silent_os, he_cpuid = None, he_hash_order = rev\<rparr> (sm, t) = (Inr Steady, (sm', t @ ev)) \<and>
     list_all (\<lambda>e. \<not> is_i2c e) ev"
proof (intro allI)
  fix name :: string and cfg :: vm_config and cpus :: vm_cpu_layout and t :: trace
  let ?rt = "(vm_runtime_new name cfg cpus)\<lparr>rt_hugepages_active := qc_hugepages (vc_qemu cfg),
      rt_cgroups := Some \<lparr>cg_root = [], cg_vm = [], cg_host = []\<rparr>,
      rt_pinned_threads := True, rt_pinned_irqs := True\<rparr>"
  let ?sm = "\<lparr>sm_state = PeripheralHooks, sm_rt = ?rt\<rparr>"
  have i: "vm_inv name cfg cpus ?sm" by (simp add: inv_defs plan_ok_def vm_runtime_new_def state_order)
  have s: "sm_state ?sm = PeripheralHooks" and c: "rt_cfg (sm_rt ?sm) = cfg" by (simp_all add: vm_runtime_new_def)
  show "\<exists>sm sm' ev. sm_state sm = PeripheralHooks \<and> rt_cfg (sm_rt sm) = cfg \<and>
     step \<lparr>he_os = silent_os, he_cpuid = None, he_hash_order = rev\<rparr> (sm, t) = (Inr Steady, (sm', t @ ev)) \<and>
     list_all (\<lambda>e. \<not> is_i2c e) ev"
    using hooks_step_total [OF i s, of "\<lparr>he_os = silent_os, he_cpuid = None, he_hash_order = rev\<rparr>" t] s c by blast
qed

end
