(* ===== verification/Chalybs_Journal.thy ===== *)
theory Chalybs_Journal
  imports Chalybs_Lifecycle "HOL-Library.Sublist"
begin

text \<open>
  The event list of a runtime is a journal: no operation of the state machine removes or changes an
  entry, each only appends.  The frame predicate \<open>logs\<close> says so of an action, has a rule for every
  combinator, and holds of every handler and so of both step functions.  The daemon relies on it when
  it sends the events behind its cursor.
\<close>

named_theorems logs_intros "which actions only append to the event list"

definition logs :: "'a rt_act \<Rightarrow> bool" where
  "logs m \<longleftrightarrow> (\<forall>s. prefix (rt_events (fst s)) (rt_events (fst (snd (m s)))))"

lemma logsE: "logs m \<Longrightarrow> m (rt, t) = (x, rt', t') \<Longrightarrow> prefix (rt_events rt) (rt_events rt')"
  unfolding logs_def by (metis fst_conv snd_conv)

lemma logs_keeps: "keeps rt_events m \<Longrightarrow> logs m"
  by (simp add: logs_def keeps_def)

lemma logs_basic [logs_intros]:
  "logs (ret x)" "logs (okR y)" "logs (errR e)" "logs (onOs io)" "logs peek"
  by (intro logs_keeps keeps_intros)+

lemma logs_reading [logs_intros]: "logs (reading_rt f)"
  by (intro logs_keeps keeps_intros)

lemma logs_modify [logs_intros]: "(\<And>rt. prefix (rt_events rt) (rt_events (f rt))) \<Longrightarrow> logs (modify f)"
  by (auto simp: logs_def modify_def)

lemma logs_note [logs_intros]: "(\<And>rt. prefix (rt_events rt) (rt_events (f rt))) \<Longrightarrow> logs (note_rt f)"
  by (auto simp: logs_def note_rt_def act_simps)

lemma logs_andThen [logs_intros]: "logs m \<Longrightarrow> (\<And>x. logs (f x)) \<Longrightarrow> logs (andThen m f)"
  unfolding logs_def andThen_def
  by (auto split: prod.splits) (metis fst_conv prefix_order.trans snd_conv)

lemma logs_bindR [logs_intros]: "logs m \<Longrightarrow> (\<And>x. logs (f x)) \<Longrightarrow> logs (bindR m f)"
  unfolding bindR_as_andThen
  by (intro logs_intros) (auto split: sum.split intro: logs_intros)

lemma logs_mapErr [logs_intros]: "logs m \<Longrightarrow> logs (mapErr h m)"
  unfolding mapErr_as_andThen
  by (intro logs_intros) (auto split: sum.split intro: logs_intros)

lemma logs_if [logs_intros]: "(c \<Longrightarrow> logs a) \<Longrightarrow> (\<not> c \<Longrightarrow> logs b) \<Longrightarrow> logs (if c then a else b)"
  by simp
lemma logs_case_sum [logs_intros]:
  "(\<And>e. r = Inl e \<Longrightarrow> logs (a e)) \<Longrightarrow> (\<And>x. r = Inr x \<Longrightarrow> logs (b x)) \<Longrightarrow>
   logs (case r of Inl e \<Rightarrow> a e | Inr x \<Rightarrow> b x)"
  by (cases r) simp_all
lemma logs_case_option [logs_intros]:
  "(r = None \<Longrightarrow> logs a) \<Longrightarrow> (\<And>x. r = Some x \<Longrightarrow> logs (b x)) \<Longrightarrow>
   logs (case r of None \<Rightarrow> a | Some x \<Rightarrow> b x)"
  by (cases r) simp_all
lemma logs_case_prod [logs_intros]:
  "(\<And>x y. r = (x, y) \<Longrightarrow> logs (f x y)) \<Longrightarrow> logs (case r of (x, y) \<Rightarrow> f x y)"
  by (cases r) simp
lemma logs_let [logs_intros]: "(\<And>x. x = w \<Longrightarrow> logs (f x)) \<Longrightarrow> logs (let x = w in f x)"
  by simp
lemma logs_eachR [logs_intros]: "(\<And>x. x \<in> set xs \<Longrightarrow> logs (b x)) \<Longrightarrow> logs (eachR xs b)"
  by (induction xs) (auto intro!: logs_intros)

named_theorems handler_logs "handlers append to the event list"

lemma validate_logs [handler_logs]: "logs (do_validate he)"
  unfolding do_validate_def plan_cpus_def Let_def
  by (intro logs_intros) (simp_all add: push_abbrevs)

lemma provision_attempts_logs: "logs (provision_attempts os node pages later nr free)"
  by (induction os node pages later nr free rule: provision_attempts.induct)
    (auto simp: Let_def clear_hugepages_def record_hugepages_def push_abbrevs intro!: logs_intros)

lemma hugepages_logs [handler_logs]: "logs (do_hugepages he)"
  unfolding do_hugepages_def provision_for_vm_def Let_def
  by (intro logs_intros provision_attempts_logs)
    (simp_all add: clear_hugepages_def record_hugepages_def push_abbrevs)

lemma prepare_pci_logs [handler_logs]: "logs (do_prepare_pci he)"
proof -
  have "keeps rt_events (onTransitions m)" for m :: "(vfio_transition list \<times> trace, 'a) act"
    by (auto simp: keeps_def onTransitions_def split: prod.split)
  from logs_keeps [OF this] show ?thesis
    unfolding do_prepare_pci_def stage_pci_devices_for_vm_def
    by (intro logs_intros) (simp_all add: push_abbrevs)
qed

lemma reserve_cpus_logs [handler_logs]: "logs (do_reserve_cpus he)"
  unfolding do_reserve_cpus_def reserve_cpus_def create_cpuset_def Let_def
  by (intro logs_intros) (simp_all add: push_abbrevs)

lemma launch_logs [handler_logs]: "logs (do_launch he)"
  unfolding do_launch_def launch_def
  by (intro logs_intros) (auto simp: push_abbrevs split: option.split)

lemma short_logs [handler_logs]:
  "logs (do_detect_threads he)" "logs (do_pin_vcpus he)" "logs (do_detect_msi he)" "logs do_pin_irqs"
  unfolding do_detect_threads_def do_pin_vcpus_def do_detect_msi_def do_pin_irqs_def
  by (intro logs_intros; simp add: push_abbrevs)+


lemma hook_logs [logs_intros]:
  "logs (tasmota_vm_up os tc)" "logs (tasmota_vm_down os tc)" "logs (ddc_gate os dc)" "logs (ddc_vm_down os dc)"
  "logs (lg_vm_up lc)" "logs (lg_vm_down lc)" "logs (spice_vm_up sc)" "logs (spice_vm_down sc)"
  unfolding tasmota_vm_up_def tasmota_vm_down_def ddc_gate_def ddc_vm_up_def ddc_vm_down_def lg_vm_up_def
    lg_vm_down_def spice_vm_up_def spice_vm_down_def
  by (intro logs_intros; simp add: push_abbrevs)+

lemma opt_hook_logs [logs_intros]: "(\<And>cfg. logs (hook cfg)) \<Longrightarrow> logs (opt_hook c hook)"
  unfolding opt_hook_def by (intro logs_intros)

lemma peripherals_logs [handler_logs]: "logs (do_peripherals he)"
  unfolding do_peripherals_def apply_vm_up_def
  by (intro logs_intros) (simp_all add: push_abbrevs)

lemma stop_logs [handler_logs]: "logs (do_stop he a b)"
  unfolding do_stop_def qemu_shutdown_def
  by (intro logs_intros) (simp_all add: push_abbrevs)

lemma teardown_logs [handler_logs]: "logs (do_teardown he)"
  unfolding do_teardown_def cleanup_cpus_def destroy_cpuset_def cleanup_for_vm_def apply_vm_down_def
  by (intro logs_intros) (simp_all add: push_abbrevs clear_hugepages_def)

subsection \<open>The step functions\<close>

text \<open>The same for the actions on a machine.\<close>

definition sm_logs :: "'a sm_act \<Rightarrow> bool" where
  "sm_logs m \<longleftrightarrow> (\<forall>s. prefix (rt_events (sm_rt (fst s))) (rt_events (sm_rt (fst (snd (m s))))))"

lemma sm_logsE: "sm_logs m \<Longrightarrow> m (sm, t) = (x, sm', t') \<Longrightarrow> prefix (rt_events (sm_rt sm)) (rt_events (sm_rt sm'))"
  unfolding sm_logs_def by (metis fst_conv snd_conv)

lemma sm_logs_basic [logs_intros]:
  "sm_logs (goto s)" "sm_logs current" "sm_logs (errR e)" "logs m \<Longrightarrow> sm_logs (onRt m)"
  by (auto simp: sm_logs_def logs_def goto_def current_def errR_def onRt_def split: prod.split)
    (metis fst_conv snd_conv)

lemma sm_logs_bindR [logs_intros]: "sm_logs m \<Longrightarrow> (\<And>x. sm_logs (f x)) \<Longrightarrow> sm_logs (bindR m f)"
  unfolding sm_logs_def bindR_def
  by (auto split: prod.splits sum.splits) (metis fst_conv prefix_order.trans snd_conv)+

lemma advance_logs [logs_intros]: "logs m \<Longrightarrow> sm_logs (advance m n)"
  unfolding advance_def by (intro logs_intros)

lemma note_push_logs:
  "logs (note_rt (push_info a))" "logs (note_rt (push_system a))" "logs (note_rt (\<lambda>rt. push_info a (push_system b rt)))"
  by (intro logs_intros; simp add: push_abbrevs)+

lemma sm_logs_here: "(\<And>sm. sm_logs (f sm)) \<Longrightarrow> sm_logs (\<lambda>(sm, t). f sm (sm, t))"
  by (auto simp: sm_logs_def)

lemma sm_logs_step: "sm_logs (step he)"
  unfolding step_def
  by (rule sm_logs_here) (auto split: vm_state.split intro!: logs_intros handler_logs note_push_logs)

lemma sm_logs_step_shutdown: "sm_logs (step_shutdown he)"
  unfolding step_shutdown_def
  by (rule sm_logs_here) (auto split: vm_state.split intro!: logs_intros handler_logs note_push_logs)

lemmas step_logs = sm_logsE [OF sm_logs_step]
lemmas step_shutdown_logs = sm_logsE [OF sm_logs_step_shutdown]

end
