(* ===== verification/Chalybs_Ipc.thy ===== *)
theory Chalybs_Ipc
  imports Chalybs_Prelude
begin

text \<open>
  The messages between the daemon and its clients, from \<^verbatim>\<open>daemon/src/ipc.rs\<close>, and the
  read-only helpers on snapshots of \<^verbatim>\<open>daemon/src/snapshot.rs\<close>.  The latter file is not
  declared as a module of the daemon, so nothing calls it; its functions are here because its comments
  state a contract of the snapshots.
\<close>

datatype ipc_vm_state = IpcStopped | IpcStarting | IpcRunning | IpcShuttingDown

fun show_ipc_state :: "ipc_vm_state \<Rightarrow> string" where
  "show_ipc_state IpcStopped = ''Stopped''"
| "show_ipc_state IpcStarting = ''Starting''"
| "show_ipc_state IpcRunning = ''Running''"
| "show_ipc_state IpcShuttingDown = ''ShuttingDown''"

record ipc_cpu_layout =
  il_host :: "nat list"
  il_vm :: "nat list"

record ipc_hugepages =
  ih_active :: bool
  ih_node :: "nat option"
  ih_pages :: "64 word"
  ih_bytes :: "64 word"

record ipc_cpu_sample =
  ic_indices :: "nat list"
  ic_jiffies :: "nat list"

record ipc_vm_status =
  is_name :: string
  is_state :: ipc_vm_state
  is_cpu_pinned :: bool
  is_irq_pinned :: bool
  is_tasmota_on :: bool
  is_isolation_mode :: string
  is_hugepages :: bool
  is_cpu_layout :: ipc_cpu_layout
  is_hugepages_detail :: ipc_hugepages
  is_cpu_sample :: "ipc_cpu_sample option"

datatype ipc_event_kind = IpcInfo | IpcWarning | IpcError | IpcShell | IpcSystem

record ipc_event =
  ie_kind :: ipc_event_kind
  ie_message :: string

definition ipc_event_of :: "ipc_event_kind \<Rightarrow> string \<Rightarrow> ipc_event" where
  "ipc_event_of k m = \<lparr>ie_kind = k, ie_message = m\<rparr>"

record ipc_vm_events =
  iv_vm_name :: string
  iv_events :: "ipc_event list"

datatype ipc_message =
    ShellCommand string
  | Snapshot "ipc_vm_status list" "ipc_event list" "ipc_vm_events list"

subsection \<open>Helpers on snapshots\<close>

record daemon_snapshot =
  dn_vms :: "ipc_vm_status list"
  dn_events_global :: "ipc_event list"
  dn_events_vm :: "ipc_vm_events list"

definition vm_by_name :: "daemon_snapshot \<Rightarrow> string \<Rightarrow> ipc_vm_status option" where
  "vm_by_name s name = find (\<lambda>vm. is_name vm = name) (dn_vms s)"

definition events_for_vm :: "daemon_snapshot \<Rightarrow> string \<Rightarrow> ipc_event list" where
  "events_for_vm s name =
     (case find (\<lambda>b. iv_vm_name b = name) (dn_events_vm s) of None \<Rightarrow> [] | Some b \<Rightarrow> iv_events b)"

definition vm_host_cpus :: "ipc_vm_status \<Rightarrow> nat list" where
  "vm_host_cpus vm = il_host (is_cpu_layout vm)"

definition vm_vcpus :: "ipc_vm_status \<Rightarrow> nat list" where
  "vm_vcpus vm = il_vm (is_cpu_layout vm)"

definition vm_hugepages_active :: "ipc_vm_status \<Rightarrow> bool" where
  "vm_hugepages_active vm = ih_active (is_hugepages_detail vm)"

definition vm_vcpu_jiffies :: "ipc_vm_status \<Rightarrow> (nat \<times> nat) list option" where
  "vm_vcpu_jiffies vm =
     (case is_cpu_sample vm of
        None \<Rightarrow> None
      | Some sample \<Rightarrow>
          (let len = min (length (ic_indices sample)) (length (ic_jiffies sample))
           in Some (map (\<lambda>i. (ic_indices sample ! i, ic_jiffies sample ! i)) [0..<len])))"

text \<open>\<^verbatim>\<open>u64::saturating_add\<close>.\<close>

definition saturating_add :: "nat \<Rightarrow> nat \<Rightarrow> nat" where
  "saturating_add a b = (if u64_max < a + b then u64_max else a + b)"

definition vm_total_jiffies :: "ipc_vm_status \<Rightarrow> nat option" where
  "vm_total_jiffies vm =
     (case is_cpu_sample vm of
        None \<Rightarrow> None
      | Some sample \<Rightarrow>
          (let len = min (length (ic_indices sample)) (length (ic_jiffies sample))
           in Some (foldl (\<lambda>total i. saturating_add total (ic_jiffies sample ! i)) 0 [0..<len])))"

lemma vm_vcpu_jiffies_zip:
  "vm_vcpu_jiffies vm = map_option (\<lambda>s. zip (ic_indices s) (ic_jiffies s)) (is_cpu_sample vm)"
proof -
  have "map (\<lambda>i. (xs ! i, ys ! i)) [0..<min (length xs) (length ys)] = zip xs ys" for xs ys :: "nat list"
    by (rule nth_equalityI) simp_all
  then show ?thesis by (simp add: vm_vcpu_jiffies_def Let_def split: option.split)
qed

lemma saturating_sum:
  assumes "a \<le> u64_max"
  shows "foldl (\<lambda>total i. saturating_add total (f i)) a is = min u64_max (a + sum_list (map f is))"
  using assms
proof (induction "is" arbitrary: a)
  case (Cons i rest)
  have "saturating_add a (f i) \<le> u64_max" by (simp add: saturating_add_def)
  from Cons.IH [OF this] show ?case by (auto simp: saturating_add_def)
qed simp

lemma vm_total_jiffies_sum:
  "vm_total_jiffies vm =
     map_option (\<lambda>s. min u64_max (sum_list (map snd (zip (ic_indices s) (ic_jiffies s))))) (is_cpu_sample vm)"
proof -
  have "map (\<lambda>i. ys ! i) [0..<min (length xs) (length ys)] = map snd (zip xs ys)" for xs ys :: "nat list"
    by (rule nth_equalityI) simp_all
  then show ?thesis
    by (simp add: vm_total_jiffies_def Let_def saturating_sum split: option.split)
qed

end
