(* ===== verification/Chalybs_Daemon.thy ===== *)
theory Chalybs_Daemon
  imports Chalybs_Lifecycle Chalybs_Ipc "HOL-Library.Char_ord" "HOL-Library.List_Lexorder"
begin

text \<open>
  The daemon's registry of virtual machines, from \<^verbatim>\<open>daemon/src/state.rs\<close>: the entry of a
  VM (its machine, the state a client asked for, the cursor into its events), the startup
  introspection, and one tick, which polls QEMU, drives every machine one step towards what is
  desired of it, and reads the snapshot off.

  A hash map is an association list in its order of iteration; \<^verbatim>\<open>vms\<close> gets a new key at its
  end, which is one of the orders the standard library may choose, and only the order of the event
  batches depends on it.  Log lines are left out.
\<close>

subsection \<open>Debug output\<close>

text \<open>\<^verbatim>\<open>{:?}\<close> of a string: between double quotes, with the escapes of ASCII characters.\<close>

definition debug_char :: "char \<Rightarrow> string" where
  "debug_char c =
     (let n = (of_char c :: nat)
      in if n = 34 \<or> n = 92 then [CHR 0x5C, c]
         else if n = 10 then CHR 0x5C # ''n''
         else if n = 13 then CHR 0x5C # ''r''
         else if n = 9 then CHR 0x5C # ''t''
         else if n = 0 then CHR 0x5C # ''0''
         else if n < 32 \<or> n = 127 then CHR 0x5C # ''u{'' @ show_radix 16 n @ ''}''
         else [c])"

definition debug_str :: "string \<Rightarrow> string" where
  "debug_str s = CHR 0x22 # concat (map debug_char s) @ [CHR 0x22]"

definition dquoted :: "string \<Rightarrow> string" where
  "dquoted s = CHR 0x22 # s @ [CHR 0x22]"

fun show_driver_kind :: "driver_kind \<Rightarrow> string" where
  "show_driver_kind KindVfio = ''Vfio''"
| "show_driver_kind KindAmdGpu = ''AmdGpu''"
| "show_driver_kind KindNvidia = ''Nvidia''"
| "show_driver_kind KindNouveau = ''Nouveau''"
| "show_driver_kind (KindOtherKernel d) = ''OtherKernel('' @ debug_str d @ '')''"
| "show_driver_kind KindUnbound = ''Unbound''"

fun show_safety :: "safety_class \<Rightarrow> string" where
  "show_safety VfioReady = ''VfioReady''"
| "show_safety HostOwned = ''HostOwned''"
| "show_safety SafetyUnknown = ''Unknown''"

fun show_isolation_level :: "isolation_level \<Rightarrow> string" where
  "show_isolation_level Dedicated = ''Dedicated''"
| "show_isolation_level SharedWithHost = ''SharedWithHost''"
| "show_isolation_level Forbidden = ''Forbidden''"

fun isolation_mode_name :: "isolation_mode \<Rightarrow> string" where
  "isolation_mode_name Disabled = ''disabled''"
| "isolation_mode_name Audit = ''audit''"
| "isolation_mode_name Enforce = ''enforce''"

subsection \<open>The registry\<close>

record daemon_vm =
  dm_sm :: machine
  dm_desired :: ipc_vm_state
  dm_cursor :: nat

definition daemon_vm_new :: "string \<Rightarrow> vm_config \<Rightarrow> string + daemon_vm" where
  "daemon_vm_new vm_name vm_cfg =
     (case parse_cpu_list (cc_host_cpus (vc_cpu vm_cfg)) of
        Inl e \<Rightarrow> Inl (''vm '' @ vm_name @ '': failed to parse host_cpus='' @ dquoted (cc_host_cpus (vc_cpu vm_cfg)) @
          '' for runtime construction: '' @ show_error e)
      | Inr host_cpus \<Rightarrow>
          (case parse_cpu_list (cc_vm_cpus (vc_cpu vm_cfg)) of
             Inl e \<Rightarrow> Inl (''vm '' @ vm_name @ '': failed to parse vm_cpus='' @ dquoted (cc_vm_cpus (vc_cpu vm_cfg)) @
               '' for runtime construction: '' @ show_error e)
           | Inr vm_cpus \<Rightarrow>
               Inr \<lparr>dm_sm = machine_new (vm_runtime_new vm_name vm_cfg \<lparr>vl_host = host_cpus, vl_vm = vm_cpus\<rparr>),
                    dm_desired = IpcStopped, dm_cursor = 0\<rparr>))"

record daemon_state =
  ds_root_cfg :: "root_config option"
  ds_pci_inventory :: "pci_inventory option"
  ds_startup_global :: "ipc_event list"
  ds_startup_vm :: "ipc_vm_events list"
  ds_vms :: "(string \<times> daemon_vm) list"

subsection \<open>Startup introspection\<close>

definition default_config_path :: path where
  "default_config_path = ''/etc/chalybs/chalybs.toml''"

text \<open>The fallback to the default path, with the events so far.\<close>

definition load_default_config ::
  "os \<Rightarrow> (string \<Rightarrow> string + root_config) \<Rightarrow> ipc_event list \<Rightarrow> (root_config option \<times> ipc_event list) io" where
  "load_default_config os toml events =
     andThen (path_exists os default_config_path) (\<lambda>there.
       if there then
         andThen (from_path os toml default_config_path) (\<lambda>r.
           case r of
             Inr cfg \<Rightarrow>
               ret (Some cfg, events @
                 [ipc_event_of IpcSystem (''daemon: loaded config from default path '' @ default_config_path)])
           | Inl e \<Rightarrow>
               ret (None, events @
                 [ipc_event_of IpcError (''daemon: failed to load config from '' @ default_config_path @ '': '' @ show_error e)]))
       else
         ret (None, events @
           [ipc_event_of IpcError (''daemon: no config found (CHALYBS_CONFIG unset, '' @ default_config_path @ '' missing)'')]))"

definition load_root_config ::
  "os \<Rightarrow> (string \<Rightarrow> string + root_config) \<Rightarrow> (root_config option \<times> ipc_event list) io" where
  "load_root_config os toml =
     andThen (env_var os ''CHALYBS_CONFIG'') (\<lambda>v.
       case v of
         None \<Rightarrow> load_default_config os toml []
       | Some p \<Rightarrow>
           andThen (from_path os toml p) (\<lambda>r.
             case r of
               Inr cfg \<Rightarrow>
                 ret (Some cfg, [ipc_event_of IpcSystem (''daemon: loaded config from CHALYBS_CONFIG='' @ p)])
             | Inl e \<Rightarrow>
                 load_default_config os toml
                   [ipc_event_of IpcError (''daemon: failed to load config from CHALYBS_CONFIG='' @ p @ '': '' @ show_error e)]))"

definition parsed_event :: "string \<Rightarrow> string \<Rightarrow> string \<Rightarrow> string \<Rightarrow> ipc_event" where
  "parsed_event vm_name field what s =
     (case parse_cpu_list s of
        Inr cpus \<Rightarrow> ipc_event_of IpcInfo (''vm '' @ vm_name @ '': parsed '' @ field @ ''='' @ dquoted s @ '' ('' @
          show_nat (length cpus) @ '' '' @ what @ '')'')
      | Inl e \<Rightarrow> ipc_event_of IpcError (''vm '' @ vm_name @ '': failed to parse '' @ field @ ''='' @ dquoted s @ '': '' @ show_error e))"

definition introspect_vm_config_only :: "string \<Rightarrow> vm_config \<Rightarrow> ipc_event list" where
  "introspect_vm_config_only vm_name vm =
     [parsed_event vm_name ''vm_cpus'' ''vCPUs'' (cc_vm_cpus (vc_cpu vm)),
      parsed_event vm_name ''host_cpus'' ''host CPUs'' (cc_host_cpus (vc_cpu vm)),
      ipc_event_of IpcInfo (''vm '' @ vm_name @ '': isolation mode='' @ isolation_mode_name (ip_mode (vc_isolation vm)) @
        '', default_level='' @ show_isolation_level (ip_default_level (vc_isolation vm)))]"

datatype inspect_kind = InspectGpu | InspectNvme | InspectNic | InspectUsb

fun show_inspect_kind :: "inspect_kind \<Rightarrow> string" where
  "show_inspect_kind InspectGpu = ''Gpu''"
| "show_inspect_kind InspectNvme = ''Nvme''"
| "show_inspect_kind InspectNic = ''Nic''"
| "show_inspect_kind InspectUsb = ''Usb''"

fun device_kind_matches :: "pci_function \<Rightarrow> inspect_kind \<Rightarrow> bool" where
  "device_kind_matches f InspectGpu = is_display_controller f"
| "device_kind_matches f InspectNvme = is_nvme f"
| "device_kind_matches f InspectNic = is_network_controller f"
| "device_kind_matches f InspectUsb = is_usb_controller f"

definition inspect_device ::
  "string \<Rightarrow> string \<Rightarrow> pci_inventory \<Rightarrow> inspect_kind option \<Rightarrow> pci_device_config \<Rightarrow> ipc_event" where
  "inspect_device vm_name kind_label pci kind dev =
     (case find_by_bdf pci (pd_pci_address dev) of
        Some func \<Rightarrow>
          (case kind of
             Some k \<Rightarrow>
               if \<not> device_kind_matches func k then
                 ipc_event_of IpcWarning (''vm '' @ vm_name @ '': '' @ kind_label @ '' device '' @ pd_pci_address dev @
                   '' present, wrong PCI class (expected '' @ show_inspect_kind k @ '')'')
               else
                 ipc_event_of IpcInfo (''vm '' @ vm_name @ '': '' @ kind_label @ '' device '' @ pd_pci_address dev @ '' present in inventory'')
           | None \<Rightarrow>
               ipc_event_of IpcInfo (''vm '' @ vm_name @ '': device '' @ pd_pci_address dev @ '' present in inventory''))
      | None \<Rightarrow>
          if pd_required dev then
            ipc_event_of IpcError (''vm '' @ vm_name @ '': required '' @ kind_label @ '' device '' @ pd_pci_address dev @
              '' is missing from PCI inventory'')
          else
            ipc_event_of IpcWarning (''vm '' @ vm_name @ '': optional '' @ kind_label @ '' device '' @ pd_pci_address dev @
              '' not found in PCI inventory''))"

definition inspect_device_list ::
  "string \<Rightarrow> string \<Rightarrow> pci_device_config list option \<Rightarrow> pci_inventory \<Rightarrow> inspect_kind option \<Rightarrow> ipc_event list" where
  "inspect_device_list vm_name kind_label cfgs_opt pci kind =
     (case cfgs_opt of None \<Rightarrow> [] | Some cfgs \<Rightarrow> map (inspect_device vm_name kind_label pci kind) cfgs)"

definition introspect_vm_devices :: "string \<Rightarrow> vm_config \<Rightarrow> pci_inventory \<Rightarrow> ipc_event list" where
  "introspect_vm_devices vm_name vm pci =
     inspect_device_list vm_name ''GPU'' (dv_gpu (vc_devices vm)) pci (Some InspectGpu) @
     inspect_device_list vm_name ''NVMe'' (dv_nvme (vc_devices vm)) pci (Some InspectNvme) @
     inspect_device_list vm_name ''NIC'' (dv_nic (vc_devices vm)) pci (Some InspectNic) @
     inspect_device_list vm_name ''USB'' (dv_usb (vc_devices vm)) pci (Some InspectUsb)"

definition introspect_vm_full :: "os \<Rightarrow> string \<Rightarrow> vm_config \<Rightarrow> pci_inventory \<Rightarrow> ipc_event list io" where
  "introspect_vm_full os vm_name vm pci =
     andThen (preflight_gpu_policy os vm_name vm) (\<lambda>r.
       ret (introspect_vm_config_only vm_name vm @ introspect_vm_devices vm_name vm pci @
         [case r of
            Inr u \<Rightarrow> ipc_event_of IpcInfo ''GPU policy preflight passed''
          | Inl e \<Rightarrow> ipc_event_of IpcError (''GPU policy preflight failed: '' @ show_error e)]))"

definition gpu_event :: "gpu_function_summary \<Rightarrow> ipc_event" where
  "gpu_event s =
     ipc_event_of IpcInfo (''GPU '' @ gs_bdf s @ '': vendor=0x'' @ show_hex_pad 4 (gs_vendor_id s) @
       '', device=0x'' @ show_hex_pad 4 (gs_device_id s) @
       '', driver='' @ (case gs_driver s of None \<Rightarrow> ''<none>'' | Some d \<Rightarrow> d) @
       '', driver_kind='' @ (case gs_driver_kind s of None \<Rightarrow> ''<none>'' | Some k \<Rightarrow> show_driver_kind k) @
       '', safety='' @ (case gs_safety s of None \<Rightarrow> ''<none>'' | Some c \<Rightarrow> show_safety c))"

definition scan_events :: "pci_inventory result \<Rightarrow> pci_inventory option \<times> ipc_event list" where
  "scan_events r =
     (case r of
        Inr pci \<Rightarrow>
          (Some pci,
           ipc_event_of IpcSystem (''daemon: PCI inventory built ('' @ show_nat (length (inv_functions pci)) @ '' functions, '' @
             show_nat (count_display_controllers pci) @ '' display controllers)'') #
           map gpu_event (gpu_summaries pci))
      | Inl e \<Rightarrow> (None, [ipc_event_of IpcError (''daemon: failed to scan PCI inventory: '' @ show_error e)]))"

definition vm_batch :: "string \<Rightarrow> ipc_event list \<Rightarrow> ipc_vm_events list" where
  "vm_batch vm_name events = (if events \<noteq> [] then [\<lparr>iv_vm_name = vm_name, iv_events = events\<rparr>] else [])"

definition introspect_vms ::
  "os \<Rightarrow> pci_inventory option \<Rightarrow> (string \<times> vm_config) list \<Rightarrow> ipc_vm_events list io" where
  "introspect_vms os inventory vms =
     gatherA vms (\<lambda>(vm_name, vm_cfg).
       case inventory of
         Some pci \<Rightarrow> andThen (introspect_vm_full os vm_name vm_cfg pci) (\<lambda>events. ret (vm_batch vm_name events))
       | None \<Rightarrow> ret (vm_batch vm_name (introspect_vm_config_only vm_name vm_cfg)))"

definition daemon_new :: "os \<Rightarrow> (string \<Rightarrow> string + root_config) \<Rightarrow> daemon_state io" where
  "daemon_new os toml =
     andThen (load_root_config os toml) (\<lambda>(root_cfg, config_events).
     andThen (scan os) (\<lambda>r.
       case scan_events r of
         (inventory, pci_events) \<Rightarrow>
           andThen (case root_cfg of None \<Rightarrow> ret [] | Some cfg \<Rightarrow> introspect_vms os inventory (rc_vm cfg)) (\<lambda>vm_events.
             ret \<lparr>ds_root_cfg = root_cfg, ds_pci_inventory = inventory,
                  ds_startup_global = config_events @ pci_events, ds_startup_vm = vm_events, ds_vms = []\<rparr>)))"

subsection \<open>One machine, one tick\<close>

type_synonym 'a dm_act = "(daemon_vm \<times> trace, 'a) act"

definition onMachine :: "'a sm_act \<Rightarrow> 'a dm_act" where
  "onMachine m = (\<lambda>(dvm, t). case m (dm_sm dvm, t) of (x, (sm, t')) \<Rightarrow> (x, (dvm\<lparr>dm_sm := sm\<rparr>, t')))"

definition note_vm :: "(vm_runtime \<Rightarrow> vm_runtime) \<Rightarrow> daemon_vm \<Rightarrow> daemon_vm" where
  "note_vm f dvm = dvm\<lparr>dm_sm := (dm_sm dvm)\<lparr>sm_rt := f (sm_rt (dm_sm dvm))\<rparr>\<rparr>"

text \<open>QEMU seen to have exited: the handle is dropped and the VM is to be stopped.\<close>

definition guest_gone :: "daemon_vm \<Rightarrow> daemon_vm" where
  "guest_gone dvm = (note_vm (\<lambda>rt. rt\<lparr>rt_qemu := None\<rparr>) dvm)\<lparr>dm_desired := IpcStopped\<rparr>"

definition poll_guest :: "os \<Rightarrow> unit dm_act" where
  "poll_guest os =
     andThen peek (\<lambda>dvm.
       case (if sm_state (dm_sm dvm) = Steady then rt_qemu (sm_rt (dm_sm dvm)) else None) of
         None \<Rightarrow> ret ()
       | Some q \<Rightarrow>
           andThen (onOs (try_wait os (qs_pid q))) (\<lambda>status.
             case status of
               Inr exited \<Rightarrow> if exited then modify guest_gone else ret ()
             | Inl e \<Rightarrow> ret ()))"

definition bring_up_failed :: "chalybs_error \<Rightarrow> daemon_vm \<Rightarrow> daemon_vm" where
  "bring_up_failed e dvm =
     (note_vm (push_error (''vm state machine bring-up error: '' @ show_error e)) dvm)\<lparr>dm_desired := IpcStopped\<rparr>"

definition shutdown_failed :: "chalybs_error \<Rightarrow> daemon_vm \<Rightarrow> daemon_vm" where
  "shutdown_failed e = note_vm (push_error (''vm state machine shutdown error: '' @ show_error e))"

definition drive_up :: "host_env \<Rightarrow> unit dm_act" where
  "drive_up he =
     andThen peek (\<lambda>dvm.
       if sm_state (dm_sm dvm) \<in> {Shutdown, Cleanup, Idle} then ret ()
       else if sm_state (dm_sm dvm) = Steady then modify (\<lambda>dvm. dvm\<lparr>dm_desired := IpcRunning\<rparr>)
       else
         andThen (onMachine (step he)) (\<lambda>r.
           case r of Inl e \<Rightarrow> modify (bring_up_failed e) | Inr s \<Rightarrow> ret ()))"

definition drive_down :: "host_env \<Rightarrow> unit dm_act" where
  "drive_down he =
     andThen peek (\<lambda>dvm.
       if sm_state (dm_sm dvm) = Idle then ret ()
       else
         andThen (onMachine (step_shutdown he)) (\<lambda>r.
           case r of Inl e \<Rightarrow> modify (shutdown_failed e) | Inr s \<Rightarrow> ret ()))"

definition drive_vm_towards_desired :: "host_env \<Rightarrow> unit dm_act" where
  "drive_vm_towards_desired he =
     andThen peek (\<lambda>dvm.
       case dm_desired dvm of
         IpcRunning \<Rightarrow> drive_up he
       | IpcStarting \<Rightarrow> drive_up he
       | IpcStopped \<Rightarrow> drive_down he
       | IpcShuttingDown \<Rightarrow> drive_down he)"

definition tick_vm :: "host_env \<Rightarrow> unit dm_act" where
  "tick_vm he = andThen (poll_guest (he_os he)) (\<lambda>_. drive_vm_towards_desired he)"

definition map_vm_state_to_ipc :: "vm_state \<Rightarrow> ipc_vm_state" where
  "map_vm_state_to_ipc s =
     (case s of
        Steady \<Rightarrow> IpcRunning
      | Shutdown \<Rightarrow> IpcShuttingDown
      | Cleanup \<Rightarrow> IpcShuttingDown
      | Idle \<Rightarrow> IpcStopped
      | _ \<Rightarrow> IpcStarting)"

subsection \<open>The CPU sample\<close>

text \<open>The daemon's own copy of the thread name parser of \<^verbatim>\<open>core/src/affinity.rs\<close>.\<close>

definition parse_vcpu_name_daemon :: "string \<Rightarrow> nat option" where
  "parse_vcpu_name_daemon name =
     (if \<not> starts_with ''CPU '' name then None
      else
        (let rest = drop 4 name; digits = takeWhile is_ascii_digit rest
         in if digits = [] then None else ok_opt (parse_u32 digits)))"

definition task_sample :: "task_entry \<Rightarrow> (nat \<times> nat) list" where
  "task_sample e =
     (case e of
        TaskErr \<Rightarrow> []
      | TaskNoStat tid \<Rightarrow> []
      | Task tid comm u s \<Rightarrow>
          (case parse_vcpu_name_daemon comm of None \<Rightarrow> [] | Some idx \<Rightarrow> [(idx, saturating_add u s)]))"

definition sample_of_tasks :: "task_entry list \<Rightarrow> ipc_cpu_sample option" where
  "sample_of_tasks tasks =
     (let pairs = concat (map task_sample tasks)
      in if pairs = [] then None
         else
           (let sorted = sort_key fst pairs
            in Some \<lparr>ic_indices = map fst sorted, ic_jiffies = map snd sorted\<rparr>))"

definition snapshot_vm_cpu_sample :: "os \<Rightarrow> vm_runtime \<Rightarrow> ipc_cpu_sample option io" where
  "snapshot_vm_cpu_sample os rt =
     (case rt_qemu rt of
        None \<Rightarrow> ret None
      | Some q \<Rightarrow>
          andThen (proc_open os (qs_pid q)) (\<lambda>r.
            case r of
              Inl e \<Rightarrow> ret None
            | Inr u \<Rightarrow>
                andThen (proc_tasks os (qs_pid q)) (\<lambda>ts.
                  case ts of Inl e \<Rightarrow> ret None | Inr tasks \<Rightarrow> ret (sample_of_tasks tasks))))"

subsection \<open>The snapshot\<close>

definition unwrap_list :: "'a list result \<Rightarrow> 'a list" where
  "unwrap_list r = (case r of Inl e \<Rightarrow> [] | Inr xs \<Rightarrow> xs)"

text \<open>What the status says from the configuration alone, for a VM without an entry.\<close>

definition idle_status :: "string \<Rightarrow> vm_config \<Rightarrow> ipc_vm_status" where
  "idle_status name vm_cfg =
     \<lparr>is_name = name, is_state = IpcStopped, is_cpu_pinned = False, is_irq_pinned = False, is_tasmota_on = False,
      is_isolation_mode = isolation_mode_name (ip_mode (vc_isolation vm_cfg)),
      is_hugepages = qc_hugepages (vc_qemu vm_cfg),
      is_cpu_layout = \<lparr>il_host = unwrap_list (parse_cpu_list (cc_host_cpus (vc_cpu vm_cfg))),
                       il_vm = unwrap_list (parse_cpu_list (cc_vm_cpus (vc_cpu vm_cfg)))\<rparr>,
      is_hugepages_detail = \<lparr>ih_active = False, ih_node = None, ih_pages = 0, ih_bytes = 0\<rparr>,
      is_cpu_sample = None\<rparr>"

definition tasmota_configured :: "vm_runtime \<Rightarrow> bool" where
  "tasmota_configured rt =
     (case vc_peripherals (rt_cfg rt) of None \<Rightarrow> False | Some p \<Rightarrow> pc_tasmota p \<noteq> None)"

definition runtime_status :: "vm_state \<Rightarrow> vm_runtime \<Rightarrow> ipc_cpu_sample option \<Rightarrow> ipc_vm_status \<Rightarrow> ipc_vm_status" where
  "runtime_status s rt sample st =
     (let view_state = map_vm_state_to_ipc s; up = (view_state \<noteq> IpcStopped)
      in st\<lparr>is_state := view_state,
            is_cpu_pinned := up \<and> rt_pinned_threads rt,
            is_irq_pinned := up \<and> rt_pinned_irqs rt,
            is_tasmota_on := up \<and> tasmota_configured rt \<and> rt_tasmota_powered rt,
            is_hugepages_detail := \<lparr>ih_active = rt_hugepages_active rt, ih_node = rt_hugepages_node rt,
                                    ih_pages = rt_hugepages_pages rt, ih_bytes = rt_hugepages_bytes rt\<rparr>,
            is_cpu_sample := sample\<rparr>)"

definition observe_vm :: "host_env \<Rightarrow> string \<Rightarrow> vm_config \<Rightarrow> ipc_vm_status dm_act" where
  "observe_vm he name vm_cfg =
     andThen (tick_vm he) (\<lambda>_.
     andThen peek (\<lambda>dvm.
       (let sm = dm_sm dvm
        in andThen (onOs (if map_vm_state_to_ipc (sm_state sm) = IpcRunning
                          then snapshot_vm_cpu_sample (he_os he) (sm_rt sm) else ret None)) (\<lambda>sample.
             ret (runtime_status (sm_state sm) (sm_rt sm) sample (idle_status name vm_cfg))))))"

type_synonym 'a vms_act = "((string \<times> daemon_vm) list \<times> trace, 'a) act"

definition snapshot_vm :: "host_env \<Rightarrow> string \<Rightarrow> vm_config \<Rightarrow> ipc_vm_status vms_act" where
  "snapshot_vm he name vm_cfg = (\<lambda>(vms, t).
     case map_of vms name of
       None \<Rightarrow> (idle_status name vm_cfg, (vms, t))
     | Some dvm \<Rightarrow>
         (case observe_vm he name vm_cfg (dvm, t) of
            (status, (dvm', t')) \<Rightarrow> (status, (hm_insert name dvm' vms, t'))))"

text \<open>The names are keys of the map, so the lookup never fails.\<close>

definition snapshot_vms :: "host_env \<Rightarrow> (string \<times> vm_config) list \<Rightarrow> ipc_vm_status list vms_act" where
  "snapshot_vms he cfgs =
     gatherA (sort (map fst cfgs)) (\<lambda>name.
       case map_of cfgs name of
         None \<Rightarrow> ret []
       | Some vm_cfg \<Rightarrow> andThen (snapshot_vm he name vm_cfg) (\<lambda>status. ret [status]))"

fun ipc_kind_of :: "core_event_kind \<Rightarrow> ipc_event_kind" where
  "ipc_kind_of EvInfo = IpcInfo"
| "ipc_kind_of EvWarning = IpcWarning"
| "ipc_kind_of EvError = IpcError"
| "ipc_kind_of EvSystem = IpcSystem"

definition ipc_of_core :: "core_event \<Rightarrow> ipc_event" where
  "ipc_of_core ev = ipc_event_of (ipc_kind_of (ce_kind ev)) (ce_message ev)"

text \<open>The events of a VM since the cursor, and the moved cursor.\<close>

definition deliver_vm :: "string \<times> daemon_vm \<Rightarrow> ipc_vm_events list \<times> (string \<times> daemon_vm)" where
  "deliver_vm = (\<lambda>(name, dvm).
     (let events = rt_events (sm_rt (dm_sm dvm))
      in if length events \<le> dm_cursor dvm then ([], (name, dvm))
         else (vm_batch name (map ipc_of_core (drop (dm_cursor dvm) events)),
               (name, dvm\<lparr>dm_cursor := length events\<rparr>))))"

definition deliver_events :: "(string \<times> daemon_vm) list \<Rightarrow> ipc_vm_events list \<times> (string \<times> daemon_vm) list" where
  "deliver_events vms = (concat (map (fst \<circ> deliver_vm) vms), map (snd \<circ> deliver_vm) vms)"

type_synonym 'a ds_act = "(daemon_state \<times> trace, 'a) act"

definition heartbeat :: "64 word \<Rightarrow> ipc_event list" where
  "heartbeat tick =
     (if tick mod 40 = 0 then [ipc_event_of IpcInfo (''daemon heartbeat: tick='' @ show_nat (unat tick))] else [])"

definition build_snapshot ::
  "host_env \<Rightarrow> 64 word \<Rightarrow> (ipc_vm_status list \<times> ipc_event list \<times> ipc_vm_events list) ds_act" where
  "build_snapshot he tick = (\<lambda>(st, t).
     case (case ds_root_cfg st of
             None \<Rightarrow> ([], (ds_vms st, t))
           | Some cfg \<Rightarrow> snapshot_vms he (rc_vm cfg) (ds_vms st, t)) of
       (statuses, (vms, t')) \<Rightarrow>
         (case deliver_events vms of
            (batches, vms') \<Rightarrow>
              ((statuses,
                (if tick = 1 then ds_startup_global st else []) @ heartbeat tick,
                (if tick = 1 then ds_startup_vm st else []) @ batches),
               (st\<lparr>ds_vms := vms'\<rparr>, t'))))"

end
