(* ===== verification/Chalybs_Server.thy ===== *)
theory Chalybs_Server
  imports Chalybs_Daemon
begin

text \<open>
  The daemon's server, from \<^verbatim>\<open>daemon/src/server.rs\<close>: the framing of a client's bytes into
  lines, the shell commands, and one round of the loop of \<^verbatim>\<open>run_server\<close> (accept, read,
  handle, tick, broadcast).  JSON is the third-party \<^verbatim>\<open>serde_json\<close> crate and a parameter in
  both directions; what the sockets deliver in a round is a record \<open>io_round\<close>.
\<close>

subsection \<open>The socket\<close>

definition PRIMARY_SOCKET :: path where "PRIMARY_SOCKET = ''/run/chalybsd.sock''"
definition FALLBACK_SOCKET :: path where "FALLBACK_SOCKET = ''/tmp/chalybsd.sock''"

definition choose_socket_path :: "os \<Rightarrow> path io" where
  "choose_socket_path os =
     andThen (path_is_dir os ''/run'') (\<lambda>run. ret (if run then PRIMARY_SOCKET else FALLBACK_SOCKET))"

definition remove_stale_socket :: "os \<Rightarrow> path \<Rightarrow> (string + unit) io" where
  "remove_stale_socket os p =
     andThen (path_exists os p) (\<lambda>there.
       if there then mapErr (\<lambda>e. ''failed to remove stale socket at '' @ p) (remove_file os p) else okR ())"

subsection \<open>UTF-8\<close>

text \<open>\<^verbatim>\<open>std::str::from_utf8\<close>, as a check of the bytes.\<close>

definition in_range :: "nat \<Rightarrow> nat \<Rightarrow> nat \<Rightarrow> bool" where
  "in_range lo hi b \<longleftrightarrow> lo \<le> b \<and> b \<le> hi"

text \<open>The ranges of the bytes that follow a lead byte; none for a byte that cannot lead.\<close>

definition utf8_follow :: "nat \<Rightarrow> (nat \<times> nat) list option" where
  "utf8_follow b =
     (if b < 0x80 then Some []
      else if in_range 0xC2 0xDF b then Some [(0x80, 0xBF)]
      else if b = 0xE0 then Some [(0xA0, 0xBF), (0x80, 0xBF)]
      else if b = 0xED then Some [(0x80, 0x9F), (0x80, 0xBF)]
      else if in_range 0xE1 0xEF b then Some [(0x80, 0xBF), (0x80, 0xBF)]
      else if b = 0xF0 then Some [(0x90, 0xBF), (0x80, 0xBF), (0x80, 0xBF)]
      else if in_range 0xF1 0xF3 b then Some [(0x80, 0xBF), (0x80, 0xBF), (0x80, 0xBF)]
      else if b = 0xF4 then Some [(0x80, 0x8F), (0x80, 0xBF), (0x80, 0xBF)]
      else None)"

text \<open>The bytes, read with the ranges that the next ones have to be in.\<close>

fun utf8_scan :: "(nat \<times> nat) list \<Rightarrow> nat list \<Rightarrow> bool" where
  "utf8_scan pending [] = (pending = [])"
| "utf8_scan [] (b # bs) = (case utf8_follow b of None \<Rightarrow> False | Some rs \<Rightarrow> utf8_scan rs bs)"
| "utf8_scan ((lo, hi) # rs) (b # bs) = (in_range lo hi b \<and> utf8_scan rs bs)"

definition utf8_valid :: "string \<Rightarrow> bool" where
  "utf8_valid s = utf8_scan [] (map of_char s)"

subsection \<open>Framing\<close>

record client =
  cl_id :: nat
  cl_rx_buf :: string

definition client_new :: "nat \<Rightarrow> client" where
  "client_new i = \<lparr>cl_id = i, cl_rx_buf = []\<rparr>"

text \<open>What a read yields: bytes (none at the end of the stream) or an error.\<close>

datatype read_outcome = ReadBytes string | ReadErr io_kind string

datatype drain_outcome = Alive | DisconnectedGraceful | DisconnectedError string

text \<open>The two buffers that all clients share: the events to echo, and the commands to run.\<close>

record shell_buffers =
  sb_events :: "ipc_event list"
  sb_commands :: "string list"

type_synonym json_decoder = "string \<Rightarrow> string + ipc_message"

definition handle_line :: "json_decoder \<Rightarrow> string \<Rightarrow> shell_buffers \<Rightarrow> shell_buffers" where
  "handle_line json raw sb =
     (let line = trim raw
      in if line = [] then sb
         else
           (case json line of
              Inr (ShellCommand command) \<Rightarrow>
                \<lparr>sb_events = sb_events sb @ [ipc_event_of IpcShell (''chalybs> '' @ command)],
                 sb_commands = sb_commands sb @ [command]\<rparr>
            | Inr (Snapshot vms events_global events_vm) \<Rightarrow> sb
            | Inl err \<Rightarrow>
                sb\<lparr>sb_events := sb_events sb @ [ipc_event_of IpcError (''daemon: invalid IPC message: '' @ err)]\<rparr>))"

definition line_feed :: char where
  "line_feed = CHR 0x0A"

lemma split_once_shorter: "split_once c s = Some (a, b) \<Longrightarrow> length b < length s"
  by (induction s arbitrary: a) (auto split: if_splits)

text \<open>The loop that takes whole lines off the front of the buffer.\<close>

function take_lines :: "json_decoder \<Rightarrow> string \<times> shell_buffers \<Rightarrow> string \<times> shell_buffers" where
  "take_lines json (buf, sb) =
     (case split_once line_feed buf of
        None \<Rightarrow> (buf, sb)
      | Some (raw, rest) \<Rightarrow> take_lines json (rest, handle_line json raw sb))"
  by pat_completeness auto

termination take_lines
  by (relation "measure (\<lambda>(json, buf, sb). length buf)") (auto simp: split_once_shorter)

declare take_lines.simps [simp del]

text \<open>The outcomes of the reads of one call, in order; when there are none left the read would block.\<close>

fun drain_client_commands ::
  "json_decoder \<Rightarrow> read_outcome list \<Rightarrow> client \<Rightarrow> shell_buffers \<Rightarrow> drain_outcome \<times> client \<times> shell_buffers" where
  "drain_client_commands json [] c sb = (Alive, c, sb)"
| "drain_client_commands json (ReadBytes chunk # reads) c sb =
     (if chunk = [] then (DisconnectedGraceful, c, sb)
      else if \<not> utf8_valid chunk then (DisconnectedError ''invalid UTF-8 from client'', c, sb)
      else
        (case take_lines json (cl_rx_buf c @ chunk, sb) of
           (buf, sb') \<Rightarrow> drain_client_commands json reads (c\<lparr>cl_rx_buf := buf\<rparr>) sb'))"
| "drain_client_commands json (ReadErr kind e # reads) c sb =
     (if kind = WouldBlock then (Alive, c, sb)
      else if kind \<in> {ConnectionReset, ConnectionAborted} then (DisconnectedGraceful, c, sb)
      else (DisconnectedError ''read error from client'', c, sb))"

subsection \<open>Shell commands\<close>

type_synonym 'a st_act = "(daemon_state, 'a) act"

definition say :: "ipc_event_kind \<Rightarrow> string \<Rightarrow> ipc_event list st_act" where
  "say k m = ret [ipc_event_of k m]"

definition dev_count :: "pci_device_config list option \<Rightarrow> string" where
  "dev_count v = show_nat (case v of None \<Rightarrow> 0 | Some xs \<Rightarrow> length xs)"

definition vm_list :: "root_config \<Rightarrow> ipc_event list st_act" where
  "vm_list cfg =
     (if rc_vm cfg = [] then say IpcInfo ''daemon: no VMs defined in configuration''
      else say IpcInfo (''daemon: configured VMs: '' @ join '', '' (sort (map fst (rc_vm cfg)))))"

definition not_found :: "string \<Rightarrow> ipc_event list st_act" where
  "not_found name = say IpcError (''vm '' @ name @ '': not found in configuration'')"

definition vm_status_events :: "string \<Rightarrow> vm_config \<Rightarrow> daemon_vm option \<Rightarrow> ipc_event list" where
  "vm_status_events name vm entry =
     (let view_state = (case entry of None \<Rightarrow> IpcStopped | Some dvm \<Rightarrow> map_vm_state_to_ipc (sm_state (dm_sm dvm)));
          desired_state = (case entry of None \<Rightarrow> IpcStopped | Some dvm \<Rightarrow> dm_desired dvm)
      in [ipc_event_of IpcInfo (''vm '' @ name @ '': state='' @ show_ipc_state view_state @ '', desired='' @
            show_ipc_state desired_state @ '', isolation='' @ isolation_mode_name (ip_mode (vc_isolation vm)) @
            '', hugepages='' @ show_bool (qc_hugepages (vc_qemu vm))),
          ipc_event_of IpcInfo (''vm '' @ name @ '': devices gpu='' @ dev_count (dv_gpu (vc_devices vm)) @
            '', nvme='' @ dev_count (dv_nvme (vc_devices vm)) @ '', nic='' @ dev_count (dv_nic (vc_devices vm)) @
            '', usb='' @ dev_count (dv_usb (vc_devices vm)))])"

definition vm_status :: "root_config \<Rightarrow> string list \<Rightarrow> ipc_event list st_act" where
  "vm_status cfg args =
     (case args of
        name # _ \<Rightarrow>
          (case map_of (rc_vm cfg) name of
             None \<Rightarrow> not_found name
           | Some vm \<Rightarrow> (\<lambda>st. (vm_status_events name vm (map_of (ds_vms st) name), st)))
      | [] \<Rightarrow> say IpcError ''usage: vm status <name>'')"

definition set_desired :: "string \<Rightarrow> ipc_vm_state \<Rightarrow> daemon_vm \<Rightarrow> daemon_state \<Rightarrow> daemon_state" where
  "set_desired name want dvm st = st\<lparr>ds_vms := hm_insert name (dvm\<lparr>dm_desired := want\<rparr>) (ds_vms st)\<rparr>"

text \<open>The entry to start: the one there is, or a new one when there is none or it has come to rest.\<close>

definition entry_to_start :: "string \<Rightarrow> vm_config \<Rightarrow> daemon_state \<Rightarrow> string + daemon_vm" where
  "entry_to_start name vm_cfg st =
     (case map_of (ds_vms st) name of
        None \<Rightarrow> daemon_vm_new name vm_cfg
      | Some dvm \<Rightarrow> if sm_state (dm_sm dvm) = Idle then daemon_vm_new name vm_cfg else Inr dvm)"

definition vm_start :: "root_config \<Rightarrow> string \<Rightarrow> string list \<Rightarrow> ipc_event list st_act" where
  "vm_start cfg action args =
     (case args of
        name # _ \<Rightarrow>
          (case map_of (rc_vm cfg) name of
             None \<Rightarrow> not_found name
           | Some vm_cfg \<Rightarrow>
               (\<lambda>st. case entry_to_start name vm_cfg st of
                  Inl msg \<Rightarrow> ([ipc_event_of IpcError msg], st)
                | Inr dvm \<Rightarrow>
                    ([ipc_event_of IpcSystem (''vm '' @ name @ '': '' @ backquoted action @ '' requested; desired state set to Starting'')],
                     set_desired name IpcStarting dvm st)))
      | [] \<Rightarrow> say IpcError (''usage: vm '' @ action @ '' <name>''))"

definition vm_stop :: "root_config \<Rightarrow> string list \<Rightarrow> ipc_event list st_act" where
  "vm_stop cfg args =
     (case args of
        name # _ \<Rightarrow>
          (case map_of (rc_vm cfg) name of
             None \<Rightarrow> not_found name
           | Some vm_cfg \<Rightarrow>
               (\<lambda>st. case map_of (ds_vms st) name of
                  Some dvm \<Rightarrow>
                    ([ipc_event_of IpcSystem (''vm '' @ name @ '': '' @ backquoted ''stop'' @ '' requested; desired state set to ShuttingDown'')],
                     set_desired name IpcShuttingDown dvm st)
                | None \<Rightarrow>
                    ([ipc_event_of IpcInfo (''vm '' @ name @ '': stop requested but VM has no active state machine; ignoring'')], st)))
      | [] \<Rightarrow> say IpcError ''usage: vm stop <name>'')"

definition handle_vm_command :: "string list \<Rightarrow> ipc_event list st_act" where
  "handle_vm_command args =
     (case args of
        [] \<Rightarrow> say IpcError ''usage: vm <list|status|start|stop|restart> [name]''
      | sub # rest \<Rightarrow>
          (\<lambda>st. (case ds_root_cfg st of
              None \<Rightarrow> say IpcError ''daemon: no config loaded; vm commands are unavailable''
            | Some cfg \<Rightarrow>
                if sub = ''list'' then vm_list cfg
                else if sub = ''status'' then vm_status cfg rest
                else if sub = ''start'' \<or> sub = ''restart'' then vm_start cfg sub rest
                else if sub = ''stop'' then vm_stop cfg rest
                else say IpcError (''daemon: unknown vm subcommand '' @ backquoted sub @
                  '' (expected list|status|start|stop|restart)'')) st))"

definition help_events :: "ipc_event list" where
  "help_events =
     [ipc_event_of IpcInfo ''available commands: help | vm list | vm status <name> | vm start <name> | vm stop <name> | vm restart <name>'',
      ipc_event_of IpcInfo ''note: VM lifecycle is now driven by real state machines; starts/stops will affect actual VMs'']"

definition handle_shell_command :: "string \<Rightarrow> ipc_event list st_act" where
  "handle_shell_command command =
     (case split_whitespace (trim command) of
        [] \<Rightarrow> ret []
      | cmd # args \<Rightarrow>
          if cmd \<in> {''help'', ''h'', ''?''} then ret help_events
          else if cmd = ''vm'' then handle_vm_command args
          else say IpcError (''daemon: unknown command '' @ backquoted cmd @ '' (try '' @ backquoted ''help'' @ '')''))"

subsection \<open>One round of the server\<close>

datatype accept_outcome = Accepted nat | InitFailed string | AcceptErr string

record io_round =
  io_accepts :: "accept_outcome list"
  io_reads :: "nat \<Rightarrow> read_outcome list"
  io_writes :: "nat \<Rightarrow> io_kind option"

record server =
  sv_daemon :: daemon_state
  sv_clients :: "client list"
  sv_tick :: "64 word"
  sv_shell :: shell_buffers

definition server_new :: "daemon_state \<Rightarrow> server" where
  "server_new st = \<lparr>sv_daemon = st, sv_clients = [], sv_tick = 0, sv_shell = \<lparr>sb_events = [], sb_commands = []\<rparr>\<rparr>"

text \<open>The accept loop: until it would block or fails.\<close>

fun accept_clients :: "accept_outcome list \<Rightarrow> client list \<Rightarrow> client list" where
  "accept_clients [] clients = clients"
| "accept_clients (Accepted i # rest) clients = accept_clients rest (clients @ [client_new i])"
| "accept_clients (InitFailed e # rest) clients = accept_clients rest clients"
| "accept_clients (AcceptErr e # rest) clients = clients"

text \<open>The read loop: a client that is not alive any more leaves the list.\<close>

fun drain_clients ::
  "json_decoder \<Rightarrow> (nat \<Rightarrow> read_outcome list) \<Rightarrow> client list \<Rightarrow> shell_buffers \<Rightarrow> client list \<times> shell_buffers" where
  "drain_clients json reads [] sb = ([], sb)"
| "drain_clients json reads (c # cs) sb =
     (case drain_client_commands json (reads (cl_id c)) c sb of
        (outcome, c', sb') \<Rightarrow>
          (case drain_clients json reads cs sb' of
             (kept, sb'') \<Rightarrow> (if outcome = Alive then c' # kept else kept, sb'')))"

definition broadcast :: "(nat \<Rightarrow> io_kind option) \<Rightarrow> client list \<Rightarrow> client list" where
  "broadcast result_of clients = filter (\<lambda>c. result_of (cl_id c) = None) clients"

text \<open>The steps of a round up to the message: accept, read, handle the commands, tick.\<close>

definition server_advance :: "host_env \<Rightarrow> json_decoder \<Rightarrow> io_round \<Rightarrow> (server \<times> trace, ipc_message) act" where
  "server_advance he json io = (\<lambda>(sv, t).
     (case drain_clients json (io_reads io) (accept_clients (io_accepts io) (sv_clients sv)) (sv_shell sv) of
        (clients, sb) \<Rightarrow>
     (case gatherA (sb_commands sb) handle_shell_command (sv_daemon sv) of
        (semantic, st) \<Rightarrow>
     (let tick = sv_tick sv + 1
      in case build_snapshot he tick (st, t) of
        ((vms, events_global, events_vm), (st', t')) \<Rightarrow>
          (Snapshot vms (events_global @ sb_events sb @ semantic) events_vm,
           (\<lparr>sv_daemon = st', sv_clients = clients, sv_tick = tick, sv_shell = \<lparr>sb_events = [], sb_commands = []\<rparr>\<rparr>, t'))))))"

text \<open>
  The rest of the round: the payload it sends (none when the message cannot be serialised) and to
  whom, and the pause.
\<close>

definition server_send ::
  "(ipc_message \<Rightarrow> string + string) \<Rightarrow> io_round \<Rightarrow> ipc_message \<Rightarrow> (server \<times> trace, (string \<times> nat list) option) act" where
  "server_send to_json io msg = (\<lambda>(sv, t).
     case to_json msg of
       Inl e \<Rightarrow> (None, (sv, t @ [EvSleep 250]))
     | Inr json_text \<Rightarrow>
         (Some (json_text @ [line_feed], map cl_id (sv_clients sv)),
          (sv\<lparr>sv_clients := broadcast (io_writes io) (sv_clients sv)\<rparr>, t @ [EvSleep 250])))"

definition server_round ::
  "host_env \<Rightarrow> json_decoder \<Rightarrow> (ipc_message \<Rightarrow> string + string) \<Rightarrow> io_round \<Rightarrow> (server \<times> trace, (string \<times> nat list) option) act" where
  "server_round he json to_json io = andThen (server_advance he json io) (server_send to_json io)"

subsection \<open>Framing does not depend on the reads\<close>

lemma take_lines_none: "split_once line_feed buf = None \<Longrightarrow> take_lines json (buf, sb) = (buf, sb)"
  by (simp add: take_lines.simps)

lemma take_lines_some:
  "split_once line_feed buf = Some (raw, rest) \<Longrightarrow> take_lines json (buf, sb) = take_lines json (rest, handle_line json raw sb)"
  by (subst take_lines.simps) simp

lemma split_once_parts: "split_once c s = Some (a, b) \<Longrightarrow> s = a @ c # b \<and> c \<notin> set a"
  by (induction s arbitrary: a) (auto split: if_splits)

lemma split_once_None: "split_once c s = None \<longleftrightarrow> c \<notin> set s"
  by (induction s) auto

text \<open>The loop, as a function of the pieces between line feeds: the last piece stays in the buffer.\<close>

lemma take_lines_pieces:
  "take_lines json (buf, sb) =
     (last (split_on line_feed buf), fold (handle_line json) (butlast (split_on line_feed buf)) sb)"
proof (induction "length buf" arbitrary: buf sb rule: less_induct)
  case less
  show ?case
  proof (cases "split_once line_feed buf")
    case None
    then have "split_on line_feed buf = [buf]" by (simp add: split_once_None split_on_no_sep)
    with None show ?thesis by (simp add: take_lines_none)
  next
    case (Some p)
    obtain raw rest where p: "split_once line_feed buf = Some (raw, rest)" using Some by (cases p) auto
    from split_once_parts [OF p] have "split_on line_feed buf = raw # split_on line_feed rest"
      by (auto simp: split_on_append)
    with less.hyps [OF split_once_shorter [OF p]] p show ?thesis by (simp add: take_lines_some)
  qed
qed

lemma split_on_append_last:
  "split_on c (a @ b) = butlast (split_on c a) @ split_on c (last (split_on c a) @ b)"
proof (induction a)
  case (Cons x a)
  then show ?case by (cases "split_on c a") (auto split: list.splits)
qed simp

text \<open>Reading on from what was left in the buffer is reading the whole.\<close>

lemma take_lines_append:
  "take_lines json (a @ b, sb) = (case take_lines json (a, sb) of (buf, sb') \<Rightarrow> take_lines json (buf @ b, sb'))"
  by (simp add: take_lines_pieces split_on_append_last [of line_feed a b] butlast_append)

lemma drain_chunks:
  assumes "\<forall>chunk \<in> set chunks. chunk \<noteq> [] \<and> utf8_valid chunk"
  shows "drain_client_commands json (map ReadBytes chunks) c sb =
    (case take_lines json (cl_rx_buf c @ concat chunks, sb) of (buf, sb') \<Rightarrow>
       (Alive, if chunks = [] then c else c\<lparr>cl_rx_buf := buf\<rparr>, if chunks = [] then sb else sb'))"
  using assms
proof (induction chunks arbitrary: c sb)
  case (Cons chunk chunks)
  obtain buf sb' where 1: "take_lines json (cl_rx_buf c @ chunk, sb) = (buf, sb')" by (metis prod.exhaust)
  have "take_lines json (cl_rx_buf c @ concat (chunk # chunks), sb) = take_lines json (buf @ concat chunks, sb')"
    using take_lines_append [of json "cl_rx_buf c @ chunk" "concat chunks" sb] 1 by simp
  moreover have idem: "take_lines json (buf, sb') = (buf, sb')"
    using 1 take_lines_append [of json "cl_rx_buf c @ chunk" "[]" sb] by simp
  ultimately show ?case
    using Cons 1 by (cases "chunks = []") (auto split: prod.splits)
qed (auto split: prod.splits)

text \<open>
  C19. However the bytes of a client are cut into reads (each read being UTF-8 by itself), what the
  server takes from them is a function of the bytes: the pieces between line feeds, of everything
  left over from before and received now, are decoded and handled in their order, and the last piece
  stays in the buffer for the next round.
\<close>

theorem framing_independent_of_reads:
  assumes "\<forall>chunk \<in> set chunks. chunk \<noteq> [] \<and> utf8_valid chunk" "line_feed \<notin> set (cl_rx_buf c)"
  shows "drain_client_commands json (map ReadBytes chunks) c sb =
    (let pieces = split_on line_feed (cl_rx_buf c @ concat chunks)
     in (Alive, c\<lparr>cl_rx_buf := last pieces\<rparr>, fold (handle_line json) (butlast pieces) sb))"
  using drain_chunks [OF assms(1), of json c sb] assms(2)
  by (cases "chunks = []") (simp_all add: take_lines_pieces Let_def split_on_no_sep)

lemma framing_independent_of_reads_witness:
  "\<forall>json sb.
     drain_client_commands json (map ReadBytes [''vm'', '' list'' @ [line_feed] @ ''vm'']) (client_new 0) sb =
     drain_client_commands json (map ReadBytes [''vm list'' @ [line_feed], ''vm'']) (client_new 0) sb"
proof (intro allI)
  fix json sb
  have ok: "\<forall>chunk \<in> set [''vm'', '' list'' @ [line_feed] @ ''vm'']. chunk \<noteq> [] \<and> utf8_valid chunk"
    "\<forall>chunk \<in> set [''vm list'' @ [line_feed], ''vm'']. chunk \<noteq> [] \<and> utf8_valid chunk"
    by (simp_all add: utf8_valid_def utf8_follow_def in_range_def line_feed_def)
  show "drain_client_commands json (map ReadBytes [''vm'', '' list'' @ [line_feed] @ ''vm'']) (client_new 0) sb =
     drain_client_commands json (map ReadBytes [''vm list'' @ [line_feed], ''vm'']) (client_new 0) sb"
    using framing_independent_of_reads [OF ok(1), where c = "client_new 0" and json = json and sb = sb]
      framing_independent_of_reads [OF ok(2), where c = "client_new 0" and json = json and sb = sb]
    by (simp add: client_new_def)
qed

text \<open>
  The UTF-8 check is per read and not per line: a client whose character is cut by a read is
  dropped, although the bytes together are valid.
\<close>

theorem cut_character_drops_client:
  "utf8_valid (CHR 0xC3 # CHR 0xA9 # [line_feed]) \<and>
   drain_client_commands json [ReadBytes [CHR 0xC3], ReadBytes (CHR 0xA9 # [line_feed])] c sb =
     (DisconnectedError ''invalid UTF-8 from client'', c, sb)"
  by (simp add: utf8_valid_def utf8_follow_def in_range_def line_feed_def)

end
