(* ===== verification/Chalybs_Registry.thy ===== *)
theory Chalybs_Registry
  imports Chalybs_Journal Chalybs_Server
begin

text \<open>
  What the daemon promises.  The invariant of the registry holds between any two rounds of the server,
  for every sequence of shell commands and ticks: every entry belongs to a configured VM, its machine
  satisfies the invariant of the state machine, and all its events have been sent.  On top of it: the
  events reach the clients exactly once and in order; a VM that is to stop comes to rest; shell
  commands touch one entry's desired state and nothing else; the framing does not depend on how the
  bytes were cut into reads.
\<close>

subsection \<open>What a tick does to one machine\<close>

text \<open>The possible courses of one tick of an entry.\<close>

lemma poll_guest_cases:
  assumes "poll_guest os (dvm, t) = (u, (dvm', t'))"
  obtains "dvm' = dvm" | "sm_state (dm_sm dvm) = Steady" "dvm' = guest_gone dvm"
proof (cases "if sm_state (dm_sm dvm) = Steady then rt_qemu (sm_rt (dm_sm dvm)) else None")
  case None
  with assms that(1) show ?thesis by (simp add: poll_guest_def andThen_def peek_def ret_def)
next
  case (Some q)
  then have steady: "sm_state (dm_sm dvm) = Steady" by (auto split: if_splits)
  obtain status t1 where 1: "try_wait os (qs_pid q) t = (status, t1)" by (metis prod.exhaust)
  have "poll_guest os (dvm, t) = (if status = Inr True then ((), (guest_gone dvm, t1)) else ((), (dvm, t1)))"
    using Some 1 by (simp add: poll_guest_def andThen_def peek_def ret_def onOs_def modify_def split: sum.split)
  with assms steady that show ?thesis by (auto split: if_splits)
qed

lemma drive_up_run:
  assumes "drive_up he (dvm, t) = (u, (dvm', t'))"
  shows "(sm_state (dm_sm dvm) \<in> {Shutdown, Cleanup, Idle} \<and> dvm' = dvm \<and> t' = t) \<or>
    (sm_state (dm_sm dvm) = Steady \<and> dvm' = dvm\<lparr>dm_desired := IpcRunning\<rparr> \<and> t' = t) \<or>
    (sm_state (dm_sm dvm) < Steady \<and>
       (\<exists>r sm. step he (dm_sm dvm, t) = (r, (sm, t')) \<and>
          dvm' = (case r of Inl e \<Rightarrow> bring_up_failed e (dvm\<lparr>dm_sm := sm\<rparr>) | Inr s \<Rightarrow> dvm\<lparr>dm_sm := sm\<rparr>)))"
proof (cases "sm_state (dm_sm dvm) \<in> {Shutdown, Cleanup, Idle, Steady}")
  case True
  with assms show ?thesis by (auto simp: drive_up_def andThen_def peek_def ret_def modify_def split: if_splits)
next
  case False
  then have low: "sm_state (dm_sm dvm) < Steady" by (cases "sm_state (dm_sm dvm)") (auto simp: state_order)
  obtain r sm t1 where 1: "step he (dm_sm dvm, t) = (r, (sm, t1))" by (metis prod.exhaust)
  with assms False low show ?thesis
    by (cases r) (auto simp: drive_up_def andThen_def peek_def ret_def modify_def onMachine_def)
qed

lemma drive_down_run:
  assumes "drive_down he (dvm, t) = (u, (dvm', t'))"
  shows "(sm_state (dm_sm dvm) = Idle \<and> dvm' = dvm \<and> t' = t) \<or>
    (sm_state (dm_sm dvm) \<noteq> Idle \<and>
       (\<exists>r sm. step_shutdown he (dm_sm dvm, t) = (r, (sm, t')) \<and>
          dvm' = (case r of Inl e \<Rightarrow> shutdown_failed e (dvm\<lparr>dm_sm := sm\<rparr>) | Inr s \<Rightarrow> dvm\<lparr>dm_sm := sm\<rparr>)))"
proof (cases "sm_state (dm_sm dvm) = Idle")
  case True
  with assms show ?thesis by (simp add: drive_down_def andThen_def peek_def ret_def)
next
  case False
  obtain r sm t1 where 1: "step_shutdown he (dm_sm dvm, t) = (r, (sm, t1))" by (metis prod.exhaust)
  with assms False show ?thesis
    by (cases r) (auto simp: drive_down_def andThen_def peek_def ret_def modify_def onMachine_def)
qed

lemma drive_vm_run:
  "drive_vm_towards_desired he (dvm, t) =
     (if dm_desired dvm \<in> {IpcRunning, IpcStarting} then drive_up he (dvm, t) else drive_down he (dvm, t))"
  by (cases "dm_desired dvm") (simp_all add: drive_vm_towards_desired_def andThen_def peek_def)

lemma daemon_vm_simps [simp]:
  "dm_sm (guest_gone dvm) = (dm_sm dvm)\<lparr>sm_rt := (sm_rt (dm_sm dvm))\<lparr>rt_qemu := None\<rparr>\<rparr>"
  "dm_desired (guest_gone dvm) = IpcStopped" "dm_cursor (guest_gone dvm) = dm_cursor dvm"
  "dm_sm (bring_up_failed e dvm) =
     (dm_sm dvm)\<lparr>sm_rt := push_event EvError (''vm state machine bring-up error: '' @ show_error e) (sm_rt (dm_sm dvm))\<rparr>"
  "dm_desired (bring_up_failed e dvm) = IpcStopped" "dm_cursor (bring_up_failed e dvm) = dm_cursor dvm"
  "dm_sm (shutdown_failed e dvm) =
     (dm_sm dvm)\<lparr>sm_rt := push_event EvError (''vm state machine shutdown error: '' @ show_error e) (sm_rt (dm_sm dvm))\<rparr>"
  "dm_desired (shutdown_failed e dvm) = dm_desired dvm" "dm_cursor (shutdown_failed e dvm) = dm_cursor dvm"
  by (simp_all add: guest_gone_def bring_up_failed_def shutdown_failed_def note_vm_def push_error_def)

subsection \<open>The invariant of an entry\<close>

definition entry_inv :: "string \<Rightarrow> vm_config \<Rightarrow> daemon_vm \<Rightarrow> bool" where
  "entry_inv name cfg dvm \<longleftrightarrow>
     (\<exists>hs vs. parse_cpu_list (cc_host_cpus (vc_cpu cfg)) = Inr hs \<and> parse_cpu_list (cc_vm_cpus (vc_cpu cfg)) = Inr vs \<and>
        vm_inv name cfg \<lparr>vl_host = hs, vl_vm = vs\<rparr> (dm_sm dvm)) \<and>
     dm_cursor dvm \<le> length (rt_events (sm_rt (dm_sm dvm))) \<and>
     (dm_desired dvm = IpcRunning \<longrightarrow> sm_state (dm_sm dvm) = Steady)"

lemma vm_inv_push [simp]:
  "vm_inv name cfg cpus (sm\<lparr>sm_rt := push_event k m (sm_rt sm)\<rparr>) = vm_inv name cfg cpus sm"
  by (simp add: inv_defs)

lemma plan_ok_no_qemu [simp]: "plan_ok (rt\<lparr>rt_qemu := None\<rparr>) = plan_ok rt"
  by (simp add: plan_ok_def split: option.split)

lemma vm_inv_guest_gone:
  "vm_inv name cfg cpus sm \<Longrightarrow> vm_inv name cfg cpus (sm\<lparr>sm_rt := (sm_rt sm)\<lparr>rt_qemu := None\<rparr>\<rparr>)"
  by (simp add: inv_defs)

lemma entry_inv_new: "daemon_vm_new name cfg = Inr dvm \<Longrightarrow> entry_inv name cfg dvm"
  by (auto simp: daemon_vm_new_def entry_inv_def vm_inv_new split: sum.splits)

lemma entry_inv_mono:
  assumes "entry_inv name cfg dvm" "\<And>cpus. vm_inv name cfg cpus (dm_sm dvm) \<Longrightarrow> vm_inv name cfg cpus (dm_sm dvm')"
    "prefix (rt_events (sm_rt (dm_sm dvm))) (rt_events (sm_rt (dm_sm dvm')))" "dm_cursor dvm' = dm_cursor dvm"
    "dm_desired dvm' = IpcRunning \<Longrightarrow> sm_state (dm_sm dvm') = Steady"
  shows "entry_inv name cfg dvm'"
  using assms prefix_length_le [OF assms(3)] unfolding entry_inv_def by fastforce

text \<open>A tick of an entry: the invariant is kept, the events are appended to.\<close>

definition grows :: "daemon_vm \<Rightarrow> daemon_vm \<Rightarrow> bool" where
  "grows dvm dvm' \<longleftrightarrow>
     prefix (rt_events (sm_rt (dm_sm dvm))) (rt_events (sm_rt (dm_sm dvm'))) \<and> dm_cursor dvm' = dm_cursor dvm"

lemma drive_up_entry:
  assumes "drive_up he (dvm, t) = (u, (dvm', t'))" "entry_inv name cfg dvm"
  shows "entry_inv name cfg dvm' \<and> grows dvm dvm'"
  using drive_up_run [OF assms(1)]
proof (elim disjE exE conjE)
  fix r sm
  assume st: "step he (dm_sm dvm, t) = (r, sm, t')" and low: "sm_state (dm_sm dvm) < Steady"
    and d: "dvm' = (case r of Inl e \<Rightarrow> bring_up_failed e (dvm\<lparr>dm_sm := sm\<rparr>) | Inr s \<Rightarrow> dvm\<lparr>dm_sm := sm\<rparr>)"
  from assms(2) low have "dm_desired dvm \<noteq> IpcRunning" by (auto simp: entry_inv_def)
  moreover have "grows dvm dvm'"
    using step_logs [OF st] d by (auto simp: grows_def prefix_def split: sum.splits)
  ultimately show ?thesis
    using d by (auto intro!: entry_inv_mono [OF assms(2)] intro: step_inv [OF st] simp: grows_def split: sum.splits)
qed (use assms(2) in \<open>auto simp: entry_inv_def grows_def\<close>)

lemma drive_down_entry:
  assumes "drive_down he (dvm, t) = (u, (dvm', t'))" "entry_inv name cfg dvm" "dm_desired dvm \<noteq> IpcRunning"
  shows "entry_inv name cfg dvm' \<and> grows dvm dvm'"
  using drive_down_run [OF assms(1)]
proof (elim disjE exE conjE)
  fix r sm
  assume st: "step_shutdown he (dm_sm dvm, t) = (r, sm, t')"
    and d: "dvm' = (case r of Inl e \<Rightarrow> shutdown_failed e (dvm\<lparr>dm_sm := sm\<rparr>) | Inr s \<Rightarrow> dvm\<lparr>dm_sm := sm\<rparr>)"
  have "grows dvm dvm'"
    using step_shutdown_logs [OF st] d by (auto simp: grows_def prefix_def split: sum.splits)
  then show ?thesis
    using d assms(3)
    by (auto intro!: entry_inv_mono [OF assms(2)] intro: step_shutdown_inv [OF st] simp: grows_def split: sum.splits)
qed (use assms(2) in \<open>auto simp: grows_def\<close>)

lemma poll_guest_entry:
  assumes "poll_guest os (dvm, t) = (u, (dvm', t'))" "entry_inv name cfg dvm"
  shows "entry_inv name cfg dvm' \<and> grows dvm dvm'"
  using assms(1)
proof (cases rule: poll_guest_cases)
  case 2
  then have "grows dvm dvm'" by (simp add: grows_def)
  with 2 show ?thesis
    by (auto intro!: entry_inv_mono [OF assms(2)] vm_inv_guest_gone simp: grows_def)
qed (use assms(2) in \<open>simp add: grows_def\<close>)

lemma grows_trans: "grows a b \<Longrightarrow> grows b c \<Longrightarrow> grows a c"
  by (auto simp: grows_def intro: prefix_order.trans)

lemma tick_vm_entry:
  assumes "tick_vm he (dvm, t) = (u, (dvm', t'))" "entry_inv name cfg dvm"
  shows "entry_inv name cfg dvm' \<and> grows dvm dvm'"
proof -
  from assms(1) obtain v dvm1 t1 where 1: "poll_guest (he_os he) (dvm, t) = (v, (dvm1, t1))"
    and 2: "drive_vm_towards_desired he (dvm1, t1) = (u, (dvm', t'))"
    by (auto simp: tick_vm_def elim!: andThen_eq)
  from poll_guest_entry [OF 1 assms(2)] have i: "entry_inv name cfg dvm1" and g: "grows dvm dvm1" by auto
  have "entry_inv name cfg dvm' \<and> grows dvm1 dvm'"
    using 2 drive_up_entry [OF _ i] drive_down_entry [OF _ i]
    by (auto simp: drive_vm_run split: if_splits)
  with g show ?thesis by (blast intro: grows_trans)
qed

subsection \<open>What a tick does to the registry\<close>

definition vms_inv :: "(string \<times> vm_config) list \<Rightarrow> (string \<times> daemon_vm) list \<Rightarrow> bool" where
  "vms_inv cfgs vms \<longleftrightarrow>
     distinct (map fst vms) \<and>
     (\<forall>name dvm. map_of vms name = Some dvm \<longrightarrow>
        (\<exists>cfg. map_of cfgs name = Some cfg \<and> entry_inv name cfg dvm))"

definition advances :: "(string \<times> daemon_vm) list \<Rightarrow> (string \<times> daemon_vm) list \<Rightarrow> bool" where
  "advances vms vms' \<longleftrightarrow>
     map fst vms' = map fst vms \<and>
     (\<forall>name dvm. map_of vms name = Some dvm \<longrightarrow> (\<exists>dvm'. map_of vms' name = Some dvm' \<and> grows dvm dvm'))"

lemma advances_refl: "advances vms vms"
  by (simp add: advances_def grows_def)

lemma advances_trans: "advances a b \<Longrightarrow> advances b c \<Longrightarrow> advances a c"
  unfolding advances_def by (metis grows_trans)

lemma keys_hm_update: "map_of m k = Some w \<Longrightarrow> map fst (hm_insert k v m) = map fst m"
  by (induction k v m rule: hm_insert.induct) (auto split: if_splits)

lemma observe_vm_run:
  assumes "observe_vm he name cfg (dvm, t) = (status, (dvm', t'))"
  obtains u t1 where "tick_vm he (dvm, t) = (u, (dvm', t1))"
proof -
  obtain u dvm1 t1 where 1: "tick_vm he (dvm, t) = (u, (dvm1, t1))" by (metis prod.exhaust)
  with assms have "dvm' = dvm1"
    by (simp add: observe_vm_def andThen_def peek_def onOs_def ret_def Let_def split: prod.splits)
  with 1 that show ?thesis by blast
qed

lemma snapshot_vm_registry:
  assumes "snapshot_vm he name cfg (vms, t) = (status, (vms', t'))" "map_of cfgs name = Some cfg" "vms_inv cfgs vms"
  shows "vms_inv cfgs vms' \<and> advances vms vms'"
proof (cases "map_of vms name")
  case None
  with assms show ?thesis by (auto simp: snapshot_vm_def advances_refl)
next
  case (Some dvm)
  obtain st dvm' t1 where 1: "observe_vm he name cfg (dvm, t) = (st, (dvm', t1))" by (metis prod.exhaust)
  with assms(1) Some have vms': "vms' = hm_insert name dvm' vms" by (simp add: snapshot_vm_def)
  from observe_vm_run [OF 1] obtain u t2 where 2: "tick_vm he (dvm, t) = (u, (dvm', t2))" .
  from assms(2,3) Some have "entry_inv name cfg dvm" by (fastforce simp: vms_inv_def)
  from tick_vm_entry [OF 2 this] have "entry_inv name cfg dvm'" "grows dvm dvm'" by auto
  moreover have keys: "map fst vms' = map fst vms" using Some vms' by (simp add: keys_hm_update)
  moreover have "map_of vms' x = (if x = name then Some dvm' else map_of vms x)" for x by (simp add: vms')
  ultimately show ?thesis
    using assms(2,3) Some unfolding vms_inv_def advances_def
    by (simp add: grows_def del: map_of_eq_Some_iff)
qed

lemma snapshot_vms_registry:
  assumes "snapshot_vms he cfgs (vms, t) = (ss, (vms', t'))" "vms_inv cfgs vms"
  shows "vms_inv cfgs vms' \<and> advances vms vms'"
proof -
  let ?body = "\<lambda>name. case map_of cfgs name of None \<Rightarrow> ret []
    | Some cfg \<Rightarrow> andThen (snapshot_vm he name cfg) (\<lambda>status. ret [status])"
  have "vms_inv cfgs vms' \<and> advances vms vms'"
    if "gatherA names ?body (vms, t) = (ss, (vms', t'))" "vms_inv cfgs vms" for names vms t ss vms' t'
    using that
  proof (induction names arbitrary: vms t ss)
    case Nil
    then show ?case by (simp add: ret_def advances_refl)
  next
    case (Cons name names)
    obtain y vms1 t1 where 1: "?body name (vms, t) = (y, (vms1, t1))" by (metis prod.exhaust)
    obtain zs vms2 t2 where 2: "gatherA names ?body (vms1, t1) = (zs, (vms2, t2))"
      by (cases "gatherA names ?body (vms1, t1)") auto
    from Cons.prems(1) 1 2 have eq: "vms' = vms2" "t' = t2" by (simp_all add: andThen_def ret_def)
    have s1: "vms_inv cfgs vms1 \<and> advances vms vms1"
    proof (cases "map_of cfgs name")
      case None
      with 1 Cons.prems(2) show ?thesis by (simp add: ret_def advances_refl)
    next
      case (Some cfg)
      with 1 obtain st where "snapshot_vm he name cfg (vms, t) = (st, (vms1, t1))"
        by (auto simp: andThen_def ret_def split: prod.splits)
      from snapshot_vm_registry [OF this Some Cons.prems(2)] show ?thesis .
    qed
    from Cons.IH [OF 2 [folded eq]] s1 show ?case by (blast intro: advances_trans)
  qed
  from this [OF assms(1) [unfolded snapshot_vms_def] assms(2)] show ?thesis .
qed

subsection \<open>Delivery\<close>

definition caught_up :: "daemon_vm \<Rightarrow> daemon_vm" where
  "caught_up dvm = dvm\<lparr>dm_cursor := length (rt_events (sm_rt (dm_sm dvm)))\<rparr>"

definition received :: "string \<Rightarrow> ipc_vm_events list \<Rightarrow> ipc_event list" where
  "received name batches = concat (map iv_events (filter (\<lambda>b. iv_vm_name b = name) batches))"

lemma received_append [simp]: "received name (a @ b) = received name a @ received name b"
  by (simp add: received_def)

lemma received_nil [simp]: "received name [] = []"
  by (simp add: received_def)

lemma received_batch [simp]: "received name (vm_batch n evs) = (if n = name then evs else [])"
  by (simp add: received_def vm_batch_def)

definition pending :: "daemon_vm \<Rightarrow> ipc_event list" where
  "pending dvm = map ipc_of_core (drop (dm_cursor dvm) (rt_events (sm_rt (dm_sm dvm))))"

lemma deliver_vm_eq:
  assumes "dm_cursor dvm \<le> length (rt_events (sm_rt (dm_sm dvm)))"
  shows "deliver_vm (name, dvm) = (vm_batch name (pending dvm), (name, caught_up dvm))"
  using assms by (auto simp: deliver_vm_def Let_def pending_def caught_up_def vm_batch_def)

lemma deliver_events_eq:
  assumes "\<forall>(n, d) \<in> set vms. dm_cursor d \<le> length (rt_events (sm_rt (dm_sm d)))"
  shows "deliver_events vms = (concat (map (\<lambda>(n, d). vm_batch n (pending d)) vms), map (\<lambda>(n, d). (n, caught_up d)) vms)"
  using assms by (induction vms) (auto simp: deliver_events_def deliver_vm_eq)

lemma received_none: "name \<notin> fst ` set vms \<Longrightarrow> received name (concat (map (\<lambda>(n, d). vm_batch n (pending d)) vms)) = []"
  by (induction vms) (auto simp: received_def vm_batch_def)

lemma received_all:
  "distinct (map fst vms) \<Longrightarrow>
   received name (concat (map (\<lambda>(n, d). vm_batch n (pending d)) vms)) =
     (case map_of vms name of None \<Rightarrow> [] | Some d \<Rightarrow> pending d)"
proof (induction vms)
  case (Cons nd vms)
  then show ?case
    using received_none [of name vms] by (cases nd) (auto split: option.split)
qed simp

lemma map_of_caught_up: "map_of (map (\<lambda>(n, d). (n, caught_up d)) vms) name = map_option caught_up (map_of vms name)"
  by (induction vms) auto

text \<open>The events a VM has ever logged, as the clients see them.\<close>

definition journal_of :: "daemon_state \<Rightarrow> string \<Rightarrow> ipc_event list" where
  "journal_of st name =
     (case map_of (ds_vms st) name of
        None \<Rightarrow> []
      | Some dvm \<Rightarrow> map ipc_of_core (rt_events (sm_rt (dm_sm dvm))))"

text \<open>Between two rounds nothing waits to be sent.\<close>

definition daemon_inv :: "daemon_state \<Rightarrow> bool" where
  "daemon_inv st \<longleftrightarrow>
     (case ds_root_cfg st of
        None \<Rightarrow> ds_vms st = []
      | Some cfg \<Rightarrow> is_ok (validate cfg) \<and> vms_inv (rc_vm cfg) (ds_vms st)) \<and>
     (\<forall>(name, dvm) \<in> set (ds_vms st). dm_cursor dvm = length (rt_events (sm_rt (dm_sm dvm))))"

lemma entry_inv_caught_up: "entry_inv name cfg dvm \<Longrightarrow> entry_inv name cfg (caught_up dvm)"
  by (simp add: entry_inv_def caught_up_def)

lemma vms_inv_caught_up: "vms_inv cfgs vms \<Longrightarrow> vms_inv cfgs (map (\<lambda>(n, d). (n, caught_up d)) vms)"
proof -
  have keys: "map fst (map (\<lambda>(n, d). (n, caught_up d)) vms) = map fst vms" by (induction vms) auto
  show "vms_inv cfgs (map (\<lambda>(n, d). (n, caught_up d)) vms)" if "vms_inv cfgs vms"
  proof -
    have "\<exists>cfg. map_of cfgs name = Some cfg \<and> entry_inv name cfg dvm"
      if m: "map_option caught_up (map_of vms name) = Some dvm" for name dvm
    proof -
      from m obtain d where d: "map_of vms name = Some d" "dvm = caught_up d" by blast
      with \<open>vms_inv cfgs vms\<close> obtain cfg where "map_of cfgs name = Some cfg" "entry_inv name cfg d"
        unfolding vms_inv_def by blast
      with d(2) entry_inv_caught_up show ?thesis by blast
    qed
    with that show ?thesis unfolding vms_inv_def map_of_caught_up keys by blast
  qed
qed

lemma build_snapshot_run:
  assumes "build_snapshot he k (st, t) = ((ss, g, b), (st', t'))" "daemon_inv st"
  obtains vms where "advances (ds_vms st) vms" "distinct (map fst vms)"
    "\<forall>(n, d) \<in> set vms. dm_cursor d \<le> length (rt_events (sm_rt (dm_sm d)))"
    "case ds_root_cfg st of None \<Rightarrow> vms = [] | Some cfg \<Rightarrow> vms_inv (rc_vm cfg) vms"
    "st' = st\<lparr>ds_vms := map (\<lambda>(n, d). (n, caught_up d)) vms\<rparr>"
    "b = (if k = 1 then ds_startup_vm st else []) @ concat (map (\<lambda>(n, d). vm_batch n (pending d)) vms)"
proof -
  obtain ss1 vms t1 where 1: "(case ds_root_cfg st of None \<Rightarrow> ([], (ds_vms st, t))
      | Some cfg \<Rightarrow> snapshot_vms he (rc_vm cfg) (ds_vms st, t)) = (ss1, (vms, t1))"
    by (metis prod.exhaust)
  have adv: "advances (ds_vms st) vms"
    and vi: "case ds_root_cfg st of None \<Rightarrow> vms = [] | Some cfg \<Rightarrow> vms_inv (rc_vm cfg) vms"
    using 1 assms(2) snapshot_vms_registry [of he _ "ds_vms st" t ss1 vms t1]
    by (auto simp: daemon_inv_def advances_refl split: option.splits)
  from vi have d: "distinct (map fst vms)" by (auto simp: vms_inv_def split: option.splits)
  have le: "\<forall>(n, d) \<in> set vms. dm_cursor d \<le> length (rt_events (sm_rt (dm_sm d)))"
    using vi d by (fastforce simp: vms_inv_def entry_inv_def split: option.splits)
  from assms(1) 1 deliver_events_eq [OF le]
  have "st' = st\<lparr>ds_vms := map (\<lambda>(n, d). (n, caught_up d)) vms\<rparr>"
    "b = (if k = 1 then ds_startup_vm st else []) @ concat (map (\<lambda>(n, d). vm_batch n (pending d)) vms)"
    by (auto simp: build_snapshot_def split: prod.splits)
  with adv d le vi that show ?thesis by blast
qed

lemma build_snapshot_inv:
  assumes "build_snapshot he k (st, t) = (out, (st', t'))" "daemon_inv st"
  shows "daemon_inv st'"
proof -
  obtain ss g b where "out = (ss, g, b)" by (cases out)
  note run = assms(1) [unfolded this]
  obtain vms where "advances (ds_vms st) vms" "distinct (map fst vms)"
    "\<forall>(n, d) \<in> set vms. dm_cursor d \<le> length (rt_events (sm_rt (dm_sm d)))"
    and vi: "case ds_root_cfg st of None \<Rightarrow> vms = [] | Some cfg \<Rightarrow> vms_inv (rc_vm cfg) vms"
    and st': "st' = st\<lparr>ds_vms := map (\<lambda>(n, d). (n, caught_up d)) vms\<rparr>"
    by (rule build_snapshot_run [OF run assms(2)])
  from assms(2) vi vms_inv_caught_up show ?thesis
    by (auto simp: daemon_inv_def st' split: option.splits) (simp_all add: caught_up_def)
qed

lemma build_snapshot_journal:
  assumes "build_snapshot he k (st, t) = ((ss, g, b), (st', t'))" "daemon_inv st"
  obtains news where "journal_of st' name = journal_of st name @ news"
    "received name b = (if k = 1 then received name (ds_startup_vm st) else []) @ news"
proof -
  obtain vms where adv: "advances (ds_vms st) vms" and d: "distinct (map fst vms)"
    and "\<forall>(n, d) \<in> set vms. dm_cursor d \<le> length (rt_events (sm_rt (dm_sm d)))"
    and "case ds_root_cfg st of None \<Rightarrow> vms = [] | Some cfg \<Rightarrow> vms_inv (rc_vm cfg) vms"
    and st': "st' = st\<lparr>ds_vms := map (\<lambda>(n, d). (n, caught_up d)) vms\<rparr>"
    and b: "b = (if k = 1 then ds_startup_vm st else []) @ concat (map (\<lambda>(n, d). vm_batch n (pending d)) vms)"
    by (rule build_snapshot_run [OF assms])
  have rest: "received name b = (if k = 1 then received name (ds_startup_vm st) else []) @
      (case map_of vms name of None \<Rightarrow> [] | Some d \<Rightarrow> pending d)"
    using received_all [OF d, of name] by (simp add: b)
  have j': "journal_of st' name =
      (case map_of vms name of None \<Rightarrow> [] | Some d \<Rightarrow> map ipc_of_core (rt_events (sm_rt (dm_sm d))))"
    by (cases "map_of vms name") (simp_all add: journal_of_def st' map_of_caught_up, simp add: caught_up_def)
  have "journal_of st' name = journal_of st name @ (case map_of vms name of None \<Rightarrow> [] | Some d \<Rightarrow> pending d)"
  proof (cases "map_of (ds_vms st) name")
    case None
    with adv have "map_of vms name = None" by (metis advances_def map_of_eq_None_iff set_map)
    with None j' show ?thesis by (simp add: journal_of_def)
  next
    case (Some dvm)
    with adv obtain dvm' where m: "map_of vms name = Some dvm'" and g: "grows dvm dvm'" by (auto simp: advances_def)
    from Some assms(2) have "dm_cursor dvm = length (rt_events (sm_rt (dm_sm dvm)))"
      by (auto simp: daemon_inv_def dest!: map_of_SomeD)
    with g m Some j' show ?thesis by (auto simp: journal_of_def grows_def pending_def prefix_def)
  qed
  from that [OF this rest] show ?thesis .
qed

subsection \<open>What a shell command does to the registry\<close>

text \<open>Nothing, or the desired state of one configured VM, whose entry is the old one or a fresh one.\<close>

definition chosen_entry :: "daemon_state \<Rightarrow> string \<Rightarrow> vm_config \<Rightarrow> ipc_vm_state \<Rightarrow> daemon_vm \<Rightarrow> bool" where
  "chosen_entry st name cfg want dvm \<longleftrightarrow>
     (want = IpcShuttingDown \<and> map_of (ds_vms st) name = Some dvm) \<or>
     (want = IpcStarting \<and> map_of (ds_vms st) name = Some dvm \<and> sm_state (dm_sm dvm) \<noteq> Idle) \<or>
     (want = IpcStarting \<and> daemon_vm_new name cfg = Inr dvm \<and>
        (case map_of (ds_vms st) name of None \<Rightarrow> True | Some old \<Rightarrow> sm_state (dm_sm old) = Idle))"

definition shell_effect :: "daemon_state \<Rightarrow> daemon_state \<Rightarrow> bool" where
  "shell_effect st st' \<longleftrightarrow>
     st' = st \<or>
     (\<exists>cfg name vm_cfg want dvm.
        ds_root_cfg st = Some cfg \<and> map_of (rc_vm cfg) name = Some vm_cfg \<and>
        chosen_entry st name vm_cfg want dvm \<and> st' = set_desired name want dvm st)"

lemma say_run [simp]: "say k m st = ([ipc_event_of k m], st)"
  by (simp add: say_def ret_def)

lemma vm_start_effect:
  assumes "ds_root_cfg st = Some cfg"
  shows "shell_effect st (snd (vm_start cfg action args st))"
proof (cases args)
  case (Cons name rest)
  show ?thesis
  proof (cases "map_of (rc_vm cfg) name")
    case (Some vm_cfg)
    show ?thesis
    proof (cases "entry_to_start name vm_cfg st")
      case (Inr dvm)
      then have "chosen_entry st name vm_cfg IpcStarting dvm"
        by (auto simp: entry_to_start_def chosen_entry_def split: option.splits if_splits)
      with Cons Some Inr assms show ?thesis by (auto simp: vm_start_def shell_effect_def)
    qed (simp add: Cons Some vm_start_def shell_effect_def)
  qed (simp add: Cons vm_start_def not_found_def shell_effect_def)
qed (simp add: vm_start_def shell_effect_def)

lemma vm_stop_effect:
  assumes "ds_root_cfg st = Some cfg"
  shows "shell_effect st (snd (vm_stop cfg args st))"
proof (cases args)
  case (Cons name rest)
  show ?thesis
  proof (cases "map_of (rc_vm cfg) name")
    case (Some vm_cfg)
    show ?thesis
    proof (cases "map_of (ds_vms st) name")
      case (Some dvm)
      then have "chosen_entry st name vm_cfg IpcShuttingDown dvm" by (simp add: chosen_entry_def)
      with Cons \<open>map_of (rc_vm cfg) name = Some vm_cfg\<close> Some assms show ?thesis
        by (auto simp: vm_stop_def shell_effect_def)
    qed (simp add: Cons Some vm_stop_def shell_effect_def)
  qed (simp add: Cons vm_stop_def not_found_def shell_effect_def)
qed (simp add: vm_stop_def shell_effect_def)

lemma vm_command_effect: "shell_effect st (snd (handle_vm_command args st))"
proof (cases args)
  case (Cons sub rest)
  show ?thesis
  proof (cases "ds_root_cfg st")
    case (Some cfg)
    have quiet: "snd (vm_list cfg st) = st" "snd (vm_status cfg rest st) = st"
      by (auto simp: vm_list_def vm_status_def not_found_def split: list.split option.split)
    show ?thesis
      using Some quiet vm_start_effect [OF Some, of sub rest] vm_stop_effect [OF Some, of rest]
      by (auto simp: Cons handle_vm_command_def shell_effect_def)
  qed (simp add: Cons handle_vm_command_def shell_effect_def)
qed (simp add: handle_vm_command_def shell_effect_def)

lemma shell_command_effect: "shell_effect st (snd (handle_shell_command command st))"
  using vm_command_effect
  by (auto simp: handle_shell_command_def ret_def shell_effect_def split: list.split)

lemma set_desired_entry:
  assumes "chosen_entry st name cfg want dvm" "\<forall>d. map_of (ds_vms st) name = Some d \<longrightarrow> entry_inv name cfg d"
  shows "entry_inv name cfg (dvm\<lparr>dm_desired := want\<rparr>)"
proof -
  from assms have "entry_inv name cfg dvm" by (auto simp: chosen_entry_def intro: entry_inv_new)
  with assms(1) show ?thesis by (auto simp: entry_inv_def chosen_entry_def)
qed

lemma daemon_vm_new_fresh: "daemon_vm_new name cfg = Inr dvm \<Longrightarrow> dm_cursor dvm = 0 \<and> rt_events (sm_rt (dm_sm dvm)) = []"
  by (auto simp: daemon_vm_new_def machine_new_def vm_runtime_new_def split: sum.splits)

lemma set_hm_insert: "(x, y) \<in> set (hm_insert k v m) \<Longrightarrow> (x, y) = (k, v) \<or> (x, y) \<in> set m"
  by (induction k v m rule: hm_insert.induct) (auto split: if_splits)

lemma shell_effect_inv:
  assumes "shell_effect st st'" "daemon_inv st"
  shows "daemon_inv st'"
proof (cases "st' = st")
  case False
  with assms(1) obtain cfg name vm_cfg want dvm where root: "ds_root_cfg st = Some cfg"
    and vm: "map_of (rc_vm cfg) name = Some vm_cfg" and ch: "chosen_entry st name vm_cfg want dvm"
    and st': "st' = set_desired name want dvm st"
    by (auto simp: shell_effect_def)
  let ?d = "dvm\<lparr>dm_desired := want\<rparr>"
  from assms(2) root have ok: "is_ok (validate cfg)" and vi: "vms_inv (rc_vm cfg) (ds_vms st)"
    and sent: "\<forall>(n, d) \<in> set (ds_vms st). dm_cursor d = length (rt_events (sm_rt (dm_sm d)))"
    by (simp_all add: daemon_inv_def)
  have "\<forall>d. map_of (ds_vms st) name = Some d \<longrightarrow> entry_inv name vm_cfg d"
    using vi vm unfolding vms_inv_def by fastforce
  from set_desired_entry [OF ch this] have e: "entry_inv name vm_cfg ?d" .
  have "vms_inv (rc_vm cfg) (hm_insert name ?d (ds_vms st))"
    using vi e vm unfolding vms_inv_def by (simp add: distinct_hm_insert del: map_of_eq_Some_iff)
  moreover have "dm_cursor ?d = length (rt_events (sm_rt (dm_sm ?d)))"
    using ch sent daemon_vm_new_fresh by (fastforce simp: chosen_entry_def dest: map_of_SomeD)
  then have "\<forall>(n, d) \<in> set (hm_insert name ?d (ds_vms st)). dm_cursor d = length (rt_events (sm_rt (dm_sm d)))"
    using sent set_hm_insert by fastforce
  ultimately show ?thesis using root ok by (simp add: daemon_inv_def st' set_desired_def)
qed (use assms(2) in simp)

subsection \<open>Runs of the daemon\<close>

inductive daemon_trans :: "host_env \<Rightarrow> daemon_state \<times> trace \<Rightarrow> daemon_state \<times> trace \<Rightarrow> bool" for he where
  ticked: "build_snapshot he k s = (out, s') \<Longrightarrow> daemon_trans he s s'"
| commanded: "handle_shell_command command st = (evs, st') \<Longrightarrow> daemon_trans he (st, t) (st', t)"
| paused: "daemon_trans he (st, t) (st, t @ [EvSleep ms])"

inductive_cases daemon_transE: "daemon_trans he s s'"

definition daemon_reachable :: "host_env \<Rightarrow> (string \<Rightarrow> string + root_config) \<Rightarrow> daemon_state \<Rightarrow> bool" where
  "daemon_reachable he toml st \<longleftrightarrow>
     (\<exists>t t'. (daemon_trans he)\<^sup>*\<^sup>* (daemon_new (he_os he) toml t) (st, t'))"

lemma load_root_config_ok:
  assumes "load_root_config os toml t = ((root, evs), t')"
  shows "case root of None \<Rightarrow> True | Some cfg \<Rightarrow> is_ok (validate cfg)"
  using assms from_path_ok
  by (auto simp: load_root_config_def load_default_config_def andThen_def ret_def
      split: prod.splits sum.splits option.splits if_splits; fastforce)

lemma daemon_new_inv: "daemon_inv (fst (daemon_new os toml t))"
proof -
  obtain root evs t1 where 1: "load_root_config os toml t = ((root, evs), t1)" by (metis prod.exhaust)
  have "ds_root_cfg (fst (daemon_new os toml t)) = root \<and> ds_vms (fst (daemon_new os toml t)) = []"
    using 1 by (simp add: daemon_new_def andThen_def ret_def split: prod.split)
  with load_root_config_ok [OF 1] show ?thesis
    by (auto simp: daemon_inv_def vms_inv_def split: option.split)
qed

lemma daemon_trans_inv: "daemon_trans he s s' \<Longrightarrow> daemon_inv (fst s) \<Longrightarrow> daemon_inv (fst s')"
proof (induction rule: daemon_trans.induct)
  case (ticked k s out s')
  then show ?case using build_snapshot_inv [of he k "fst s" "snd s" out "fst s'" "snd s'"] by simp
next
  case (commanded command st evs st' t)
  then show ?case using shell_effect_inv [OF shell_command_effect [of st command]] by simp
qed simp

lemma reachable_daemon_inv:
  assumes "daemon_reachable he toml st"
  shows "daemon_inv st"
proof -
  from assms obtain t t' where "(daemon_trans he)\<^sup>*\<^sup>* (daemon_new (he_os he) toml t) (st, t')"
    by (auto simp: daemon_reachable_def)
  then have "daemon_inv (fst (st, t'))"
    by (induction rule: rtranclp_induct) (auto intro: daemon_new_inv daemon_trans_inv)
  then show ?thesis by simp
qed

subsection \<open>Many ticks\<close>

fun run_ticks ::
  "host_env \<Rightarrow> 64 word list \<Rightarrow> daemon_state \<times> trace \<Rightarrow> ipc_vm_events list \<times> (daemon_state \<times> trace)" where
  "run_ticks he [] s = ([], s)"
| "run_ticks he (k # ks) s =
     (case build_snapshot he k s of
        ((statuses, global_events, batches), s') \<Rightarrow>
          (case run_ticks he ks s' of (rest, s'') \<Rightarrow> (batches @ rest, s'')))"

lemma run_ticks_journal:
  assumes "run_ticks he ks (st, t) = (bs, (st', t'))" "daemon_inv st" "1 \<notin> set ks"
  shows "journal_of st' name = journal_of st name @ received name bs \<and> daemon_inv st'"
  using assms
proof (induction ks arbitrary: st t bs)
  case (Cons k ks)
  obtain ss g b st1 t1 where 1: "build_snapshot he k (st, t) = ((ss, g, b), (st1, t1))"
    by (cases "build_snapshot he k (st, t)") auto
  obtain rest s2 where 2: "run_ticks he ks (st1, t1) = (rest, s2)" by (metis prod.exhaust)
  from Cons.prems(1) 1 2 have eq: "bs = b @ rest" "s2 = (st', t')" by simp_all
  obtain news where "journal_of st1 name = journal_of st name @ news"
    "received name b = (if k = 1 then received name (ds_startup_vm st) else []) @ news"
    by (rule build_snapshot_journal [OF 1 Cons.prems(2)])
  with Cons.prems(3) have "journal_of st1 name = journal_of st name @ received name b" by auto
  moreover have "journal_of st' name = journal_of st1 name @ received name rest \<and> daemon_inv st'"
    using Cons.IH [OF 2 [unfolded eq] build_snapshot_inv [OF 1 Cons.prems(2)]] Cons.prems(3) by simp
  ultimately show ?case by (simp add: eq)
qed simp

text \<open>An entry ticked on its own.\<close>

primrec ticks_vm :: "host_env \<Rightarrow> nat \<Rightarrow> unit dm_act" where
  "ticks_vm he 0 = ret ()"
| "ticks_vm he (Suc n) = andThen (tick_vm he) (\<lambda>_. ticks_vm he n)"

definition shutdown_error :: "chalybs_error \<Rightarrow> core_event" where
  "shutdown_error e = \<lparr>ce_kind = EvError, ce_message = ''vm state machine shutdown error: '' @ show_error e\<rparr>"

definition stopping :: "daemon_vm \<Rightarrow> bool" where
  "stopping dvm \<longleftrightarrow> dm_desired dvm \<in> {IpcStopped, IpcShuttingDown}"

definition new_events :: "daemon_vm \<Rightarrow> daemon_vm \<Rightarrow> core_event list" where
  "new_events dvm dvm' = drop (length (rt_events (sm_rt (dm_sm dvm)))) (rt_events (sm_rt (dm_sm dvm')))"

lemma tick_vm_stopping:
  assumes "tick_vm he (dvm, t) = (u, (dvm', t'))" "stopping dvm"
  shows "stopping dvm' \<and> grows dvm dvm' \<and>
    (down_dist (dm_sm dvm', t') \<le> down_dist (dm_sm dvm, t) - 1 \<or> (\<exists>e. shutdown_error e \<in> set (new_events dvm dvm')))"
proof -
  from assms(1) obtain v dvm1 t1 where 1: "poll_guest (he_os he) (dvm, t) = (v, (dvm1, t1))"
    and 2: "drive_vm_towards_desired he (dvm1, t1) = (u, (dvm', t'))"
    by (auto simp: tick_vm_def elim!: andThen_eq)
  have same: "stopping dvm1" "sm_state (dm_sm dvm1) = sm_state (dm_sm dvm)"
    "rt_events (sm_rt (dm_sm dvm1)) = rt_events (sm_rt (dm_sm dvm))" "dm_cursor dvm1 = dm_cursor dvm"
    using 1 assms(2) by (cases rule: poll_guest_cases; simp add: stopping_def)+
  have dist: "down_dist (dm_sm dvm1, t1) = down_dist (dm_sm dvm, t)"
    using same(2) by (simp add: down_dist_def)
  have "drive_down he (dvm1, t1) = (u, (dvm', t'))"
    using 2 same(1) by (auto simp: drive_vm_run stopping_def)
  from drive_down_run [OF this] show ?thesis
  proof (elim disjE conjE exE)
    assume "sm_state (dm_sm dvm1) = Idle" "dvm' = dvm1"
    with same show ?thesis by (simp add: down_dist_def grows_def)
  next
    fix r sm
    assume live: "sm_state (dm_sm dvm1) \<noteq> Idle" and st: "step_shutdown he (dm_sm dvm1, t1) = (r, sm, t')"
      and d: "dvm' = (case r of Inl e \<Rightarrow> shutdown_failed e (dvm1\<lparr>dm_sm := sm\<rparr>) | Inr s \<Rightarrow> dvm1\<lparr>dm_sm := sm\<rparr>)"
    note grow = step_shutdown_logs [OF st]
    show ?thesis
    proof (cases r)
      case (Inl e)
      with d grow same have "shutdown_error e \<in> set (new_events dvm dvm')"
        by (auto simp: new_events_def shutdown_error_def prefix_def)
      moreover have "grows dvm dvm'" using d grow same Inl by (auto simp: grows_def prefix_def)
      moreover have "stopping dvm'" using d same Inl by (simp add: stopping_def)
      ultimately show ?thesis by blast
    next
      case (Inr s)
      have pos: "0 < down_dist (dm_sm dvm1, t1)" using live by (simp add: down_dist_pos)
      from step_shutdown_nearer [OF st [unfolded Inr] pos] d Inr dist
      have "down_dist (dm_sm dvm', t') \<le> down_dist (dm_sm dvm, t) - 1" by simp
      moreover have "grows dvm dvm'" using d grow same Inr by (auto simp: grows_def)
      moreover have "stopping dvm'" using d same Inr by (simp add: stopping_def)
      ultimately show ?thesis by blast
    qed
  qed
qed

lemma new_events_trans:
  "grows a b \<Longrightarrow> grows b c \<Longrightarrow> set (new_events a b) \<subseteq> set (new_events a c) \<and> set (new_events b c) \<subseteq> set (new_events a c)"
  by (auto simp: grows_def new_events_def prefix_def)

lemma ticks_vm_stopping:
  assumes "ticks_vm he n (dvm, t) = (u, (dvm', t'))" "stopping dvm" "down_dist (dm_sm dvm, t) \<le> n"
  shows "grows dvm dvm' \<and> (sm_state (dm_sm dvm') = Idle \<or> (\<exists>e. shutdown_error e \<in> set (new_events dvm dvm')))"
proof -
  have "stopping dvm' \<and> grows dvm dvm' \<and>
    (down_dist (dm_sm dvm', t') \<le> down_dist (dm_sm dvm, t) - n \<or> (\<exists>e. shutdown_error e \<in> set (new_events dvm dvm')))"
    if "ticks_vm he n (dvm, t) = (u, (dvm', t'))" "stopping dvm" for n dvm t u dvm' t'
    using that
  proof (induction n arbitrary: dvm t)
    case 0
    then show ?case by (simp add: ret_def grows_def)
  next
    case (Suc n)
    obtain v dvm1 t1 where 1: "tick_vm he (dvm, t) = (v, (dvm1, t1))" by (metis prod.exhaust)
    with Suc.prems(1) have 2: "ticks_vm he n (dvm1, t1) = (u, (dvm', t'))" by (simp add: andThen_def)
    note first = tick_vm_stopping [OF 1 Suc.prems(2)]
    note rest = Suc.IH [OF 2 conjunct1 [OF first]]
    note up = new_events_trans [of dvm dvm1 dvm']
    show ?case using first rest up grows_trans [of dvm dvm1 dvm'] by (auto; linarith?)
  qed
  from this [OF assms(1,2)] assms(3) down_dist_pos [of "dm_sm dvm'" t'] show ?thesis by fastforce
qed

subsection \<open>Moves of the daemon\<close>

text \<open>What the daemon can do, as a function of the move: to run a shell command, to tick, to pause.\<close>

datatype daemon_move = Command string | Tick "64 word" | Pause nat

fun perform :: "host_env \<Rightarrow> daemon_state \<times> trace \<Rightarrow> daemon_move \<Rightarrow> daemon_state \<times> trace" where
  "perform he (st, t) (Command command) = (snd (handle_shell_command command st), t)"
| "perform he (st, t) (Tick k) = snd (build_snapshot he k (st, t))"
| "perform he (st, t) (Pause ms) = (st, t @ [EvSleep ms])"

fun is_command :: "daemon_move \<Rightarrow> bool" where
  "is_command (Command command) = True"
| "is_command m = False"

fun is_tick :: "daemon_move \<Rightarrow> bool" where
  "is_tick (Tick k) = True"
| "is_tick m = False"

lemma only_pauses:
  "list_all (\<lambda>m. \<not> is_command m) ms \<Longrightarrow> \<not> list_ex is_tick ms \<Longrightarrow> fst (foldl (perform he) (st, t) ms) = st"
proof (induction ms arbitrary: t)
  case (Cons m ms)
  then show ?case by (cases m) simp_all
qed simp

lemma perform_trans: "daemon_trans he s (perform he s m)"
proof (cases s)
  case (Pair st t)
  then show ?thesis
    by (cases m) (simp_all add: commanded [OF surjective_pairing] ticked [OF surjective_pairing] paused)
qed

lemma performs_trans: "(daemon_trans he)\<^sup>*\<^sup>* s (foldl (perform he) s ms)"
proof (induction ms arbitrary: s)
  case (Cons m ms)
  show ?case using converse_rtranclp_into_rtranclp [OF perform_trans Cons.IH] by simp
qed simp

subsection \<open>Entries that no tick moves\<close>

text \<open>
  Between two states of the registry the entry of that name is kept and comes to satisfy \<open>Q\<close>; and if it
  is the only entry, then nothing was done to the outside world but looking.
\<close>

definition entry_keeps ::
  "string \<Rightarrow> (daemon_vm \<Rightarrow> bool) \<Rightarrow> (string \<times> daemon_vm) list \<times> trace \<Rightarrow> (string \<times> daemon_vm) list \<times> trace \<Rightarrow> bool" where
  "entry_keeps name Q s s' \<longleftrightarrow>
     (\<exists>d. map_of (fst s') name = Some d \<and> Q d) \<and>
     (map fst (fst s) = [name] \<longrightarrow> map fst (fst s') = [name] \<and> (\<exists>ev. snd s' = snd s @ ev \<and> list_all is_readonly ev))"

lemma entry_keeps_refl: "map_of vms name = Some d \<Longrightarrow> Q d \<Longrightarrow> entry_keeps name Q (vms, t) (vms, t)"
  by (simp add: entry_keeps_def)

lemma entry_keeps_trans: "entry_keeps name P s1 s2 \<Longrightarrow> entry_keeps name Q s2 s3 \<Longrightarrow> entry_keeps name Q s1 s3"
  by (auto simp: entry_keeps_def)

lemma entry_keeps_mono: "entry_keeps name P s s' \<Longrightarrow> (\<And>d. P d \<Longrightarrow> Q d) \<Longrightarrow> entry_keeps name Q s s'"
  by (auto simp: entry_keeps_def)

lemma cpu_sample_readonly: "io_emits is_readonly (snapshot_vm_cpu_sample os rt)"
  unfolding snapshot_vm_cpu_sample_def by (intro emits_intros) simp_all

text \<open>
  The law of such an entry: a tick of one that satisfies \<open>S\<close> only looks, and leaves it satisfying \<open>R\<close>.
\<close>

locale unmoved_entry =
  fixes he :: host_env and S R :: "daemon_vm \<Rightarrow> bool"
  assumes one_tick: "S d \<Longrightarrow> tick_vm he (d, t) = (u, (d', t')) \<Longrightarrow> R d' \<and> (\<exists>ev. t' = t @ ev \<and> list_all is_readonly ev)"
    and still: "R d \<Longrightarrow> S d"
    and cursor_free: "S (d\<lparr>dm_cursor := n\<rparr>) = S d" "R (d\<lparr>dm_cursor := n\<rparr>) = R d"
begin

lemma observe:
  assumes "observe_vm he name cfg (d, t) = (status, (d', t'))" "S d"
  shows "R d' \<and> (\<exists>ev. t' = t @ ev \<and> list_all is_readonly ev)"
proof -
  obtain u d1 t1 where 1: "tick_vm he (d, t) = (u, (d1, t1))" by (metis prod.exhaust)
  let ?sample = "if map_vm_state_to_ipc (sm_state (dm_sm d1)) = IpcRunning
    then snapshot_vm_cpu_sample (he_os he) (sm_rt (dm_sm d1)) else ret None"
  obtain sample t2 where 2: "?sample t1 = (sample, t2)" by (metis prod.exhaust)
  have "io_emits is_readonly ?sample" by (intro emits_intros cpu_sample_readonly)
  then obtain ev where "t2 = t1 @ ev" "list_all is_readonly ev" using 2 by (rule emitsE)
  moreover have "d' = d1" "t' = t2"
    using assms(1) 1 2 by (simp_all add: observe_vm_def andThen_def peek_def onOs_def ret_def Let_def split: prod.splits)
  ultimately show ?thesis using one_tick [OF assms(2) 1] by auto
qed

lemma snapshot_one:
  assumes "snapshot_vm he x cfg (vms, t) = (status, (vms', t'))" "map_of vms name = Some d" "S d"
  shows "entry_keeps name (if x = name \<or> R d then R else S) (vms, t) (vms', t')"
proof (cases "map_of vms x")
  case None
  with assms show ?thesis by (auto simp: snapshot_vm_def intro: entry_keeps_refl)
next
  case (Some dx)
  obtain s dx' t1 where 1: "observe_vm he x cfg (dx, t) = (s, (dx', t1))" by (metis prod.exhaust)
  with assms(1) Some have vms': "vms' = hm_insert x dx' vms" "t' = t1" by (simp_all add: snapshot_vm_def)
  show ?thesis
  proof (cases "x = name")
    case True
    with Some assms(2) observe [OF 1] assms(3) show ?thesis
      by (auto simp: entry_keeps_def vms' keys_hm_update [OF Some])
  next
    case False
    with Some have "map fst vms \<noteq> [name]" by (cases vms) auto
    with False assms(2,3) show ?thesis by (auto simp: entry_keeps_def vms')
  qed
qed

lemma snapshot_all:
  assumes "snapshot_vms he cfgs (vms, t) = (ss, (vms', t'))" "map_of vms name = Some d" "S d" "map_of cfgs name = Some c"
  shows "entry_keeps name R (vms, t) (vms', t')"
proof -
  let ?body = "\<lambda>name. case map_of cfgs name of None \<Rightarrow> ret []
    | Some cfg \<Rightarrow> andThen (snapshot_vm he name cfg) (\<lambda>status. ret [status])"
  have "entry_keeps name (if name \<in> set names \<or> R d then R else S) (vms, t) (vms', t')"
    if "gatherA names ?body (vms, t) = (ss, (vms', t'))" "map_of vms name = Some d" "S d" for names vms t ss vms' t' d
    using that
  proof (induction names arbitrary: vms t ss d)
    case Nil
    then show ?case by (auto simp: ret_def intro: entry_keeps_refl)
  next
    case (Cons x names)
    obtain y vms1 t1 where 1: "?body x (vms, t) = (y, (vms1, t1))" by (metis prod.exhaust)
    obtain zs vms2 t2 where 2: "gatherA names ?body (vms1, t1) = (zs, (vms2, t2))"
      by (cases "gatherA names ?body (vms1, t1)") auto
    from Cons.prems(1) 1 2 have eq: "vms' = vms2" "t' = t2" by (simp_all add: andThen_def ret_def)
    have k1: "entry_keeps name (if (x = name \<and> map_of cfgs x \<noteq> None) \<or> R d then R else S) (vms, t) (vms1, t1)"
    proof (cases "map_of cfgs x")
      case None
      with 1 Cons.prems(2,3) show ?thesis by (auto simp: ret_def intro: entry_keeps_refl)
    next
      case (Some cfg)
      with 1 obtain s where "snapshot_vm he x cfg (vms, t) = (s, (vms1, t1))"
        by (auto simp: andThen_def ret_def split: prod.splits)
      from snapshot_one [OF this Cons.prems(2,3)] Some show ?thesis by simp
    qed
    then obtain d1 where d1: "map_of vms1 name = Some d1" "if (x = name \<and> map_of cfgs x \<noteq> None) \<or> R d then R d1 else S d1"
      by (auto simp: entry_keeps_def split: if_splits)
    then have "S d1" using still by (auto split: if_splits)
    note ih = Cons.IH [OF 2 [folded eq] d1(1) this]
    show ?case
      by (rule entry_keeps_mono [OF entry_keeps_trans [OF k1 ih]]) (use d1(2) assms(4) still in \<open>auto split: if_splits\<close>)
  qed
  from this [OF assms(1) [unfolded snapshot_vms_def] assms(2,3)] assms(4) show ?thesis
    by (force simp: map_of_SomeD split: if_splits dest: map_of_SomeD)
qed

lemma tick_move:
  assumes "perform he (st, t) (Tick k) = (st', t')" "map_of (ds_vms st) name = Some d" "S d"
    "ds_root_cfg st = Some cfg" "map_of (rc_vm cfg) name = Some c"
  shows "entry_keeps name R (ds_vms st, t) (ds_vms st', t') \<and> ds_root_cfg st' = ds_root_cfg st"
proof -
  obtain ss vms t1 where 1: "snapshot_vms he (rc_vm cfg) (ds_vms st, t) = (ss, (vms, t1))" by (metis prod.exhaust)
  have st': "st' = st\<lparr>ds_vms := map (snd \<circ> deliver_vm) vms\<rparr>" "t' = t1"
    using assms(1,4) 1 by (auto simp: build_snapshot_def deliver_events_def)
  have delivered: "map fst (map (snd \<circ> deliver_vm) vms) = map fst vms"
    by (auto simp: deliver_vm_def Let_def)
  have entry: "\<exists>n. map_of (map (snd \<circ> deliver_vm) vms) name = Some (e\<lparr>dm_cursor := n\<rparr>)" if "map_of vms name = Some e" for e
    using that
  proof (induction vms)
    case (Cons v vms)
    have "\<exists>n. snd (deliver_vm v) = (fst v, (snd v)\<lparr>dm_cursor := n\<rparr>)"
      by (cases v) (auto simp: deliver_vm_def Let_def intro: exI [of _ "dm_cursor (snd v)"])
    with Cons show ?case by (cases v) (auto split: if_splits)
  qed simp
  from snapshot_all [OF 1 assms(2,3,5)] entry show ?thesis
    by (fastforce simp: entry_keeps_def st' delivered cursor_free simp del: map_map)
qed

lemma moves:
  assumes "foldl (perform he) (st, t) ms = (st', t')" "list_all (\<lambda>m. \<not> is_command m) ms"
    "map_of (ds_vms st) name = Some d" "S d" "ds_root_cfg st = Some cfg" "map_of (rc_vm cfg) name = Some c"
  shows "entry_keeps name (if list_ex is_tick ms \<or> R d then R else S) (ds_vms st, t) (ds_vms st', t')"
  using assms
proof (induction ms arbitrary: st t d)
  case Nil
  then show ?case by (auto intro: entry_keeps_refl)
next
  case (Cons m ms)
  obtain st1 t1 where 1: "perform he (st, t) m = (st1, t1)" by (metis prod.exhaust)
  have k1: "entry_keeps name (if is_tick m \<or> R d then R else S) (ds_vms st, t) (ds_vms st1, t1)
      \<and> ds_root_cfg st1 = ds_root_cfg st"
  proof (cases m)
    case (Tick k)
    with tick_move [OF 1 [unfolded Tick] Cons.prems(3-6)] show ?thesis by simp
  next
    case (Pause ms)
    with 1 Cons.prems(3,4) show ?thesis by (auto simp: entry_keeps_def)
  qed (use Cons.prems(2) in simp)
  then obtain d1 where d1: "map_of (ds_vms st1) name = Some d1" "if is_tick m \<or> R d then R d1 else S d1"
    by (auto simp: entry_keeps_def split: if_splits)
  then have "S d1" using still by (auto split: if_splits)
  have rest: "foldl (perform he) (st1, t1) ms = (st', t')" "list_all (\<lambda>m. \<not> is_command m) ms"
    "ds_root_cfg st1 = Some cfg"
    using Cons.prems(1,2,5) 1 k1 by simp_all
  note ih = Cons.IH [OF rest(1,2) d1(1) \<open>S d1\<close> rest(3) Cons.prems(6)]
  show ?case
    by (rule entry_keeps_mono [OF entry_keeps_trans [OF conjunct1 [OF k1] ih]])
      (use d1(2) still in \<open>auto split: if_splits\<close>)
qed

end

text \<open>On its way down and wanted up: nothing happens to the entry at all.\<close>

definition held_down :: "machine \<Rightarrow> daemon_vm \<Rightarrow> bool" where
  "held_down sm d \<longleftrightarrow> dm_sm d = sm \<and> dm_desired d = IpcStarting \<and> sm_state sm \<in> {Shutdown, Cleanup, Idle}"

interpretation going_nowhere: unmoved_entry he "held_down sm" "held_down sm" for he sm
proof
  fix d t u d' t'
  assume "held_down sm d" "tick_vm he (d, t) = (u, (d', t'))"
  moreover from this have "tick_vm he (d, t) = ((), (d, t))"
    by (auto simp: held_down_def tick_vm_def poll_guest_def drive_vm_towards_desired_def drive_up_def andThen_def
        peek_def ret_def)
  ultimately show "held_down sm d' \<and> (\<exists>ev. t' = t @ ev \<and> list_all is_readonly ev)" by simp
qed (simp_all add: held_down_def)

text \<open>Up, alive and wanted up: the guest is polled, and the entry is then marked as running.\<close>

definition up_and_alive :: "host_env \<Rightarrow> machine \<Rightarrow> ipc_vm_state set \<Rightarrow> daemon_vm \<Rightarrow> bool" where
  "up_and_alive he sm wanted d \<longleftrightarrow>
     dm_sm d = sm \<and> dm_desired d \<in> wanted \<and> sm_state sm = Steady \<and>
     (case rt_qemu (sm_rt sm) of None \<Rightarrow> False | Some q \<Rightarrow> \<forall>t. os_try_wait (he_os he) t (qs_pid q) \<noteq> Inr True)"

interpretation going_on: unmoved_entry he "up_and_alive he sm {IpcStarting, IpcRunning}" "up_and_alive he sm {IpcRunning}" for he sm
proof
  fix d t u d' t'
  assume alive: "up_and_alive he sm {IpcStarting, IpcRunning} d" and run: "tick_vm he (d, t) = (u, (d', t'))"
  then obtain q where q: "rt_qemu (sm_rt sm) = Some q" "\<And>t. os_try_wait (he_os he) t (qs_pid q) \<noteq> Inr True"
    by (auto simp: up_and_alive_def split: option.splits)
  from alive have d: "dm_sm d = sm" "sm_state sm = Steady" "dm_desired d \<in> {IpcStarting, IpcRunning}"
    by (simp_all add: up_and_alive_def)
  have "poll_guest (he_os he) (d, t) = ((), (d, t @ [EvTryWait (qs_pid q)]))"
    using d(1,2) q(1) q(2) [of t]
    by (auto simp: poll_guest_def andThen_def peek_def ret_def onOs_def try_wait_def call_def split: sum.split)
  with d have "tick_vm he (d, t) = ((), (d\<lparr>dm_desired := IpcRunning\<rparr>, t @ [EvTryWait (qs_pid q)]))"
    by (auto simp: tick_vm_def andThen_def drive_vm_towards_desired_def drive_up_def peek_def modify_def)
  with run alive show "up_and_alive he sm {IpcRunning} d' \<and> (\<exists>ev. t' = t @ ev \<and> list_all is_readonly ev)"
    by (auto simp: up_and_alive_def)
qed (auto simp: up_and_alive_def)

text \<open>A start, or a restart, of a VM that has an entry not at rest only sets what is wanted of it.\<close>

lemma start_command:
  assumes "split_whitespace (trim command) = [''vm'', verb, name]" "verb \<in> {''start'', ''restart''}"
    "ds_root_cfg st = Some cfg" "map_of (rc_vm cfg) name = Some c" "map_of (ds_vms st) name = Some d"
    "sm_state (dm_sm d) \<noteq> Idle"
  shows "perform he (st, t) (Command command) = (set_desired name IpcStarting d st, t)"
  using assms
  by (auto simp: handle_shell_command_def handle_vm_command_def vm_start_def entry_to_start_def)

lemma set_desired_simps:
  "ds_root_cfg (set_desired name want d st) = ds_root_cfg st"
  "map_of (ds_vms (set_desired name want d st)) name = Some (d\<lparr>dm_desired := want\<rparr>)"
  "map_of (ds_vms st) name = Some d0 \<Longrightarrow> map fst (ds_vms (set_desired name want d st)) = map fst (ds_vms st)"
  by (simp_all add: set_desired_def keys_hm_update)

subsection \<open>The promises\<close>

text \<open>
  C4. In every state the daemon can reach from its start by shell commands, ticks and pauses, in any order and
  whatever the outside world answers, the registry is sound: entries exist only for VMs of a
  configuration that passed validation, each machine satisfies the invariant of the state machine
  for its own name, configuration and CPU lists, a VM shown as wanted running is in the steady state,
  and no event waits to be sent.
\<close>

theorem daemon_invariant:
  assumes "daemon_reachable he toml st"
  shows "daemon_inv st"
  using assms by (rule reachable_daemon_inv)

lemma daemon_invariant_witness:
  "\<forall>he toml t k command.
     (case daemon_new (he_os he) toml t of (st, t1) \<Rightarrow>
        daemon_inv (fst (snd (build_snapshot he k (snd (handle_shell_command command st), t1)))))"
proof (intro allI)
  fix he :: host_env and toml :: "string \<Rightarrow> string + root_config" and t :: trace and k :: "64 word" and command :: string
  obtain st t1 where new: "daemon_new (he_os he) toml t = (st, t1)" by (metis prod.exhaust)
  let ?st = "snd (handle_shell_command command st)"
  obtain out st' t' where tick: "build_snapshot he k (?st, t1) = (out, (st', t'))" by (metis prod.exhaust)
  have "daemon_trans he (st, t1) (?st, t1)" by (rule commanded [OF surjective_pairing])
  moreover have "daemon_trans he (?st, t1) (st', t')" by (rule ticked [OF tick])
  ultimately have "(daemon_trans he)\<^sup>*\<^sup>* (daemon_new (he_os he) toml t) (st', t')" by (simp add: new)
  then have "daemon_reachable he toml st'" unfolding daemon_reachable_def by blast
  from daemon_invariant [OF this] tick new
  show "case daemon_new (he_os he) toml t of (st, t1) \<Rightarrow>
      daemon_inv (fst (snd (build_snapshot he k (snd (handle_shell_command command st), t1))))" by simp
qed

text \<open>
  C10. Events reach the clients exactly once and in order: over any ticks after the first, the batches
  of a VM, put together, are exactly what its event list grew by.
\<close>

theorem events_exactly_once:
  assumes "daemon_reachable he toml st" "run_ticks he ks (st, t) = (batches, (st', t'))" "1 \<notin> set ks"
  shows "journal_of st' name = journal_of st name @ received name batches"
  using run_ticks_journal [OF assms(2) reachable_daemon_inv [OF assms(1)] assms(3)] by simp

lemma events_exactly_once_witness:
  "\<forall>he toml t name.
     (case daemon_new (he_os he) toml t of (st, t1) \<Rightarrow>
        (case run_ticks he [2, 3] (st, t1) of (batches, (st', t')) \<Rightarrow>
           journal_of st' name = journal_of st name @ received name batches))"
proof (intro allI)
  fix he :: host_env and toml :: "string \<Rightarrow> string + root_config" and t :: trace and name :: string
  obtain st t1 where new: "daemon_new (he_os he) toml t = (st, t1)" by (metis prod.exhaust)
  obtain bs st' t' where run: "run_ticks he [2, 3] (st, t1) = (bs, (st', t'))" by (metis prod.exhaust)
  have "(daemon_trans he)\<^sup>*\<^sup>* (daemon_new (he_os he) toml t) (st, t1)" by (simp add: new)
  then have "daemon_reachable he toml st" unfolding daemon_reachable_def by blast
  from events_exactly_once [OF this run] new run
  show "case daemon_new (he_os he) toml t of (st, t1) \<Rightarrow>
      (case run_ticks he [2, 3] (st, t1) of (batches, (st', t')) \<Rightarrow>
         journal_of st' name = journal_of st name @ received name batches)" by simp
qed

text \<open>
  A shell command starts nothing by itself: it leaves the daemon as it is, or it sets the desired
  state of one configured VM, to Starting or ShuttingDown.  The entry it is set on is the one there
  is; only when there is none, or its machine has come to rest, is it a fresh one.  So a restart of a
  live VM keeps its machine.
\<close>

theorem shell_command_outcome:
  "case handle_shell_command command st of (evs, st') \<Rightarrow>
     st' = st \<or>
     (\<exists>cfg name vm_cfg want dvm.
        ds_root_cfg st = Some cfg \<and> map_of (rc_vm cfg) name = Some vm_cfg \<and>
        chosen_entry st name vm_cfg want dvm \<and>
        st' = st\<lparr>ds_vms := hm_insert name (dvm\<lparr>dm_desired := want\<rparr>) (ds_vms st)\<rparr>)"
  using shell_command_effect [of st command]
  by (cases "handle_shell_command command st") (simp add: shell_effect_def set_desired_def)

text \<open>
  A VM that a client stops comes to rest within three ticks, from whatever state its bring-up has
  reached, unless a shutdown step fails; then the failure is among the VM's new events.  Either way
  its events only grow.
\<close>

theorem stop_comes_to_rest:
  "case ticks_vm he 3 (dvm\<lparr>dm_desired := IpcShuttingDown\<rparr>, t) of (u, (dvm', t')) \<Rightarrow>
     prefix (rt_events (sm_rt (dm_sm dvm))) (rt_events (sm_rt (dm_sm dvm'))) \<and>
     (sm_state (dm_sm dvm') = Idle \<or>
        (\<exists>e. shutdown_error e \<in> set (drop (length (rt_events (sm_rt (dm_sm dvm)))) (rt_events (sm_rt (dm_sm dvm'))))))"
proof -
  let ?dvm = "dvm\<lparr>dm_desired := IpcShuttingDown\<rparr>"
  obtain u dvm' t' where run: "ticks_vm he 3 (?dvm, t) = (u, (dvm', t'))" by (metis prod.exhaust)
  have "stopping ?dvm" "down_dist (dm_sm ?dvm, t) \<le> 3"
    by (simp_all add: stopping_def down_dist_def split: vm_state.split)
  from ticks_vm_stopping [OF run this] run show ?thesis
    by (simp add: grows_def new_events_def)
qed

text \<open>
  C39. A start is lost on a VM that is on its way down.  When the client starts, or restarts, a VM whose
  entry is in the state Shutdown or Cleanup, then no number of ticks and pauses moves its machine again: it
  stays in that state with its runtime as it was, wanted up, until a client asks for something else; and
  when it is the only entry, nothing more is done to the outside world than looking at it.
\<close>

theorem start_during_shutdown_stuck:
  assumes "split_whitespace (trim command) = [''vm'', verb, name]" "verb \<in> {''start'', ''restart''}"
    and "ds_root_cfg st = Some cfg" "map_of (rc_vm cfg) name = Some c"
    and "map_of (ds_vms st) name = Some d" "sm_state (dm_sm d) \<in> {Shutdown, Cleanup}"
    and "list_all (\<lambda>m. \<not> is_command m) later"
  shows "case foldl (perform he) (st, t) (Command command # later) of (st', t') \<Rightarrow>
    (case map_of (ds_vms st') name of
       None \<Rightarrow> False
     | Some d' \<Rightarrow> dm_sm d' = dm_sm d \<and> dm_desired d' = IpcStarting) \<and>
    (if map fst (ds_vms st) = [name] then \<exists>ev. t' = t @ ev \<and> list_all is_readonly ev else True)"
proof -
  let ?st = "set_desired name IpcStarting d st"
  obtain st' t' where run: "foldl (perform he) (?st, t) later = (st', t')" by (metis prod.exhaust)
  have first: "perform he (st, t) (Command command) = (?st, t)"
    using assms(6) by (intro start_command [OF assms(1-5)]) auto
  have "held_down (dm_sm d) (d\<lparr>dm_desired := IpcStarting\<rparr>)" using assms(6) by (auto simp: held_down_def)
  from going_nowhere.moves [OF run assms(7) set_desired_simps(2) this] assms(3,4)
  have "entry_keeps name (held_down (dm_sm d)) (ds_vms ?st, t) (ds_vms st', t')" by (simp add: set_desired_simps)
  then show ?thesis
    by (auto simp: first run entry_keeps_def held_down_def set_desired_simps(3) [OF assms(5)] simp del: perform.simps)
qed

text \<open>
  C40. Restarting a running VM does nothing.  When the client restarts, or starts, a VM whose entry is in the
  steady state with a QEMU that lives on, its machine, and with it the QEMU handle, is the same after the
  command and any number of ticks and pauses; the first tick makes it wanted running again; and when it is the
  only entry, nothing is done to the outside world but looking at it.
\<close>

theorem restart_of_running_vm_is_noop:
  assumes "split_whitespace (trim command) = [''vm'', verb, name]" "verb \<in> {''start'', ''restart''}"
    and "ds_root_cfg st = Some cfg" "map_of (rc_vm cfg) name = Some c"
    and "map_of (ds_vms st) name = Some d" "sm_state (dm_sm d) = Steady" "rt_qemu (sm_rt (dm_sm d)) = Some q"
    and "\<And>t. os_try_wait (he_os he) t (qs_pid q) \<noteq> Inr True"
    and "list_all (\<lambda>m. \<not> is_command m) later"
  shows "case foldl (perform he) (st, t) (Command command # later) of (st', t') \<Rightarrow>
    (case map_of (ds_vms st') name of
       None \<Rightarrow> False
     | Some d' \<Rightarrow>
         dm_sm d' = dm_sm d \<and> dm_desired d' = (if list_ex is_tick later then IpcRunning else IpcStarting)) \<and>
    (if map fst (ds_vms st) = [name] then \<exists>ev. t' = t @ ev \<and> list_all is_readonly ev else True)"
proof -
  let ?st = "set_desired name IpcStarting d st"
  let ?on = "\<lambda>wanted. up_and_alive he (dm_sm d) wanted"
  obtain st' t' where run: "foldl (perform he) (?st, t) later = (st', t')" by (metis prod.exhaust)
  have first: "perform he (st, t) (Command command) = (?st, t)"
    using assms(6) by (intro start_command [OF assms(1-5)]) auto
  have alive: "?on {IpcStarting, IpcRunning} (d\<lparr>dm_desired := IpcStarting\<rparr>)"
    using assms(6-8) by (simp add: up_and_alive_def)
  have root: "ds_root_cfg ?st = Some cfg" using assms(3) by (simp add: set_desired_simps)
  note kept = going_on.moves [OF run assms(9) set_desired_simps(2) alive root assms(4)]
  then obtain d' where d': "map_of (ds_vms st') name = Some d'" "dm_sm d' = dm_sm d"
      "dm_desired d' \<in> (if list_ex is_tick later then {IpcRunning} else {IpcStarting, IpcRunning})"
    and quiet: "map fst (ds_vms st) = [name] \<longrightarrow> (\<exists>ev. t' = t @ ev \<and> list_all is_readonly ev)"
    using kept
    by (auto simp: entry_keeps_def up_and_alive_def set_desired_simps set_desired_simps(3) [OF assms(5)] split: if_splits)
  have "dm_desired d' = (if list_ex is_tick later then IpcRunning else IpcStarting)"
    using d' only_pauses [OF assms(9), of he ?st t] run by (auto simp: set_desired_simps(2) split: if_splits)
  with d' quiet show ?thesis by (simp add: first run del: perform.simps)
qed

lemma start_during_shutdown_stuck_witness:
  "\<forall>he (root_cfg :: root_config) (c :: vm_config) (st :: daemon_state) (d :: daemon_vm) t.
     case foldl (perform he)
        (st\<lparr>ds_root_cfg := Some (root_cfg\<lparr>rc_vm := [(''a'', c)]\<rparr>),
            ds_vms := [(''a'', d\<lparr>dm_sm := (dm_sm d)\<lparr>sm_state := Shutdown\<rparr>\<rparr>)]\<rparr>, t)
        [Command ''vm start a'', Tick 7, Pause 250, Tick 8] of (st', t') \<Rightarrow>
       (case map_of (ds_vms st') ''a'' of
          None \<Rightarrow> False
        | Some d' \<Rightarrow> sm_state (dm_sm d') = Shutdown \<and> dm_desired d' = IpcStarting)"
proof (intro allI)
  fix he and root_cfg :: root_config and c :: vm_config and st :: daemon_state and d :: daemon_vm and t
  let ?d = "d\<lparr>dm_sm := (dm_sm d)\<lparr>sm_state := Shutdown\<rparr>\<rparr>"
  let ?st = "st\<lparr>ds_root_cfg := Some (root_cfg\<lparr>rc_vm := [(''a'', c)]\<rparr>), ds_vms := [(''a'', ?d)]\<rparr>"
  have "split_whitespace (trim ''vm start a'') = [''vm'', ''start'', ''a'']"
    by (simp add: split_whitespace_def trim_def is_ws_def)
  from start_during_shutdown_stuck [OF this, where st = ?st and he = he and t = t and c = c and d = ?d
      and cfg = "root_cfg\<lparr>rc_vm := [(''a'', c)]\<rparr>" and later = "[Tick 7, Pause 250, Tick 8]"]
  show "case foldl (perform he) (?st, t) [Command ''vm start a'', Tick 7, Pause 250, Tick 8] of (st', t') \<Rightarrow>
       (case map_of (ds_vms st') ''a'' of
          None \<Rightarrow> False
        | Some d' \<Rightarrow> sm_state (dm_sm d') = Shutdown \<and> dm_desired d' = IpcStarting)"
    by (auto simp del: perform.simps foldl.simps split: prod.splits option.splits)
qed

lemma restart_of_running_vm_is_noop_witness:
  "\<forall>(root_cfg :: root_config) (c :: vm_config) (st :: daemon_state) (d :: daemon_vm) t.
     case foldl (perform \<lparr>he_os = silent_os, he_cpuid = None, he_hash_order = rev\<rparr>)
        (st\<lparr>ds_root_cfg := Some (root_cfg\<lparr>rc_vm := [(''a'', c)]\<rparr>),
            ds_vms := [(''a'', d\<lparr>dm_sm := \<lparr>sm_state = Steady, sm_rt = (sm_rt (dm_sm d))\<lparr>rt_qemu := Some \<lparr>qs_pid = 42\<rparr>\<rparr>\<rparr>\<rparr>)]\<rparr>, t)
        [Command ''vm restart a'', Tick 7, Pause 250, Tick 8] of (st', t') \<Rightarrow>
       (case map_of (ds_vms st') ''a'' of
          None \<Rightarrow> False
        | Some d' \<Rightarrow> sm_state (dm_sm d') = Steady \<and> rt_qemu (sm_rt (dm_sm d')) = Some \<lparr>qs_pid = 42\<rparr> \<and>
            dm_desired d' = IpcRunning)"
proof (intro allI)
  fix root_cfg :: root_config and c :: vm_config and st :: daemon_state and d :: daemon_vm and t
  let ?he = "\<lparr>he_os = silent_os, he_cpuid = None, he_hash_order = rev\<rparr>"
  let ?d = "d\<lparr>dm_sm := \<lparr>sm_state = Steady, sm_rt = (sm_rt (dm_sm d))\<lparr>rt_qemu := Some \<lparr>qs_pid = 42\<rparr>\<rparr>\<rparr>\<rparr>"
  let ?st = "st\<lparr>ds_root_cfg := Some (root_cfg\<lparr>rc_vm := [(''a'', c)]\<rparr>), ds_vms := [(''a'', ?d)]\<rparr>"
  have "split_whitespace (trim ''vm restart a'') = [''vm'', ''restart'', ''a'']"
    by (simp add: split_whitespace_def trim_def is_ws_def)
  moreover have "os_try_wait (he_os ?he) t 42 \<noteq> Inr True" for t by (simp add: silent_os_def)
  ultimately show "case foldl (perform ?he) (?st, t) [Command ''vm restart a'', Tick 7, Pause 250, Tick 8] of (st', t') \<Rightarrow>
       (case map_of (ds_vms st') ''a'' of
          None \<Rightarrow> False
        | Some d' \<Rightarrow> sm_state (dm_sm d') = Steady \<and> rt_qemu (sm_rt (dm_sm d')) = Some \<lparr>qs_pid = 42\<rparr> \<and>
            dm_desired d' = IpcRunning)"
    using restart_of_running_vm_is_noop [where command = "''vm restart a''" and verb = "''restart''" and name = "''a''"
      and st = ?st and he = ?he and t = t and c = c and d = ?d and q = "\<lparr>qs_pid = 42\<rparr>"
      and cfg = "root_cfg\<lparr>rc_vm := [(''a'', c)]\<rparr>" and later = "[Tick 7, Pause 250, Tick 8]"]
    by (auto simp del: perform.simps foldl.simps split: prod.splits option.splits)
qed

subsection \<open>The names of a snapshot\<close>

lemma observe_vm_name:
  assumes "observe_vm he name cfg s = (status, s')"
  shows "is_name status = name"
proof -
  obtain u dvm1 t1 where 1: "tick_vm he s = (u, (dvm1, t1))" by (cases "tick_vm he s") auto
  with assms show ?thesis
    by (auto simp: observe_vm_def andThen_def peek_def onOs_def ret_def Let_def runtime_status_def idle_status_def
        split: prod.splits)
qed

lemma snapshot_vm_name:
  assumes "snapshot_vm he name cfg (vms, t) = (status, s')"
  shows "is_name status = name"
proof (cases "map_of vms name")
  case None
  with assms show ?thesis by (auto simp: snapshot_vm_def idle_status_def)
next
  case (Some dvm)
  obtain st dvm' t1 where 1: "observe_vm he name cfg (dvm, t) = (st, (dvm', t1))" by (metis prod.exhaust)
  with assms Some observe_vm_name [OF 1] show ?thesis by (auto simp: snapshot_vm_def)
qed

lemma snapshot_vms_names:
  assumes "snapshot_vms he cfgs s = (ss, s')"
  shows "map is_name ss = sort (map fst cfgs)"
proof -
  let ?body = "\<lambda>name. case map_of cfgs name of None \<Rightarrow> ret []
    | Some cfg \<Rightarrow> andThen (snapshot_vm he name cfg) (\<lambda>status. ret [status])"
  have one: "map is_name ys = [name]" if run: "?body name s = (ys, s')" and key: "name \<in> fst ` set cfgs" for name s ys s'
  proof -
    from key obtain cfg where cfg: "map_of cfgs name = Some cfg" by (metis map_of_eq_None_iff not_Some_eq)
    obtain st s2 where 1: "snapshot_vm he name cfg (fst s, snd s) = (st, s2)" by (metis prod.exhaust)
    with run cfg snapshot_vm_name [OF 1] show ?thesis by (auto simp: andThen_def ret_def)
  qed
  have "map is_name ss = names"
    if "gatherA names ?body s = (ss, s')" "set names \<subseteq> fst ` set cfgs" for names s ss s'
    using that
  proof (induction names arbitrary: s ss)
    case (Cons name names)
    obtain ys s1 where 1: "?body name s = (ys, s1)" by (metis prod.exhaust)
    obtain zs s2 where 2: "gatherA names ?body s1 = (zs, s2)" by (cases "gatherA names ?body s1") auto
    from Cons.prems(1) 1 2 have eq: "ss = ys @ zs" "s' = s2" by (simp_all add: andThen_def ret_def)
    with one [OF 1] Cons.IH [OF 2 [folded eq(2)]] Cons.prems(2) show ?case by simp
  qed (simp add: ret_def)
  from this [OF assms [unfolded snapshot_vms_def]] show ?thesis by simp
qed

definition vm_names :: "daemon_state \<Rightarrow> string set" where
  "vm_names st = (case ds_root_cfg st of None \<Rightarrow> {} | Some cfg \<Rightarrow> fst ` set (rc_vm cfg))"

definition startup_ok :: "daemon_state \<Rightarrow> bool" where
  "startup_ok st \<longleftrightarrow> iv_vm_name ` set (ds_startup_vm st) \<subseteq> vm_names st"

lemma introspect_vms_names:
  assumes "introspect_vms os inventory vms t = (bs, t')"
  shows "iv_vm_name ` set bs \<subseteq> fst ` set vms"
  using assms unfolding introspect_vms_def
proof (induction vms arbitrary: t bs)
  case (Cons nv vms)
  obtain n v where nv: "nv = (n, v)" by (cases nv)
  let ?body = "\<lambda>(vm_name, vm_cfg). case inventory of
      Some pci \<Rightarrow> andThen (introspect_vm_full os vm_name vm_cfg pci) (\<lambda>events. ret (vm_batch vm_name events))
    | None \<Rightarrow> ret (vm_batch vm_name (introspect_vm_config_only vm_name vm_cfg))"
  obtain ys t1 where 1: "?body nv t = (ys, t1)" by (cases "?body nv t") auto
  obtain zs t2 where 2: "gatherA vms ?body t1 = (zs, t2)" by (cases "gatherA vms ?body t1") auto
  from Cons.prems 1 2 have eq: "bs = ys @ zs" "t' = t2" by (simp_all add: andThen_def ret_def)
  have "iv_vm_name ` set ys \<subseteq> {n}"
    using 1 by (auto simp: nv vm_batch_def andThen_def ret_def split: option.splits prod.splits if_splits)
  with eq Cons.IH [OF 2 [folded eq(2)]] show ?case by (auto simp: nv)
qed (simp add: ret_def)

lemma daemon_new_startup: "startup_ok (fst (daemon_new os toml t))"
proof -
  obtain root evs t1 where 1: "load_root_config os toml t = ((root, evs), t1)" by (metis prod.exhaust)
  obtain r t2 where 2: "scan os t1 = (r, t2)" by (metis prod.exhaust)
  obtain inventory pci_events where 3: "scan_events r = (inventory, pci_events)" by (metis prod.exhaust)
  obtain bs t3 where 4: "(case root of None \<Rightarrow> ret [] | Some cfg \<Rightarrow> introspect_vms os inventory (rc_vm cfg)) t2 = (bs, t3)"
    by (metis prod.exhaust)
  from 1 2 3 4 have "fst (daemon_new os toml t) = \<lparr>ds_root_cfg = root, ds_pci_inventory = inventory,
      ds_startup_global = evs @ pci_events, ds_startup_vm = bs, ds_vms = []\<rparr>"
    by (simp add: daemon_new_def andThen_def ret_def)
  with 4 introspect_vms_names [of os inventory _ t2 bs t3] show ?thesis
    by (cases root) (auto simp: startup_ok_def vm_names_def ret_def)
qed

text \<open>Neither ticks nor commands change the configuration and what was seen at the start.\<close>

lemma daemon_trans_fixed:
  "daemon_trans he s s' \<Longrightarrow> ds_root_cfg (fst s') = ds_root_cfg (fst s) \<and> ds_startup_vm (fst s') = ds_startup_vm (fst s)"
proof (induction rule: daemon_trans.induct)
  case (ticked k s out s')
  then show ?case by (cases s) (auto simp: build_snapshot_def split: prod.splits)
next
  case (commanded command st evs st' t)
  then show ?case using shell_command_effect [of st command] by (auto simp: shell_effect_def set_desired_def)
qed simp

lemma reachable_startup:
  assumes "daemon_reachable he toml st"
  shows "startup_ok st"
proof -
  from assms obtain t t' where "(daemon_trans he)\<^sup>*\<^sup>* (daemon_new (he_os he) toml t) (st, t')"
    by (auto simp: daemon_reachable_def)
  then have "startup_ok (fst (st, t'))"
  proof (induction rule: rtranclp_induct)
    case (step s s')
    with daemon_trans_fixed [OF step(2)] show ?case by (simp add: startup_ok_def vm_names_def)
  qed (rule daemon_new_startup)
  then show ?thesis by simp
qed

lemma snapshot_names:
  assumes "build_snapshot he k (st, t) = ((ss, g, b), (st', t'))" "daemon_inv st" "startup_ok st"
  shows "set (map is_name ss) = vm_names st" "iv_vm_name ` set b \<subseteq> vm_names st"
proof -
  obtain ss1 vms t1 where 1: "(case ds_root_cfg st of None \<Rightarrow> ([], (ds_vms st, t))
      | Some cfg \<Rightarrow> snapshot_vms he (rc_vm cfg) (ds_vms st, t)) = (ss1, (vms, t1))"
    by (metis prod.exhaust)
  with assms(1) have "ss = ss1" by (simp add: build_snapshot_def split: prod.splits)
  show "set (map is_name ss) = vm_names st"
  proof (cases "ds_root_cfg st")
    case None
    with 1 \<open>ss = ss1\<close> show ?thesis by (simp add: vm_names_def)
  next
    case (Some cfg)
    with 1 have "snapshot_vms he (rc_vm cfg) (ds_vms st, t) = (ss1, (vms, t1))" by simp
    from snapshot_vms_names [OF this] Some \<open>ss = ss1\<close> show ?thesis by (simp only: vm_names_def option.case set_sort set_map)
  qed
  obtain vms' where "advances (ds_vms st) vms'" "distinct (map fst vms')"
    "\<forall>(n, d) \<in> set vms'. dm_cursor d \<le> length (rt_events (sm_rt (dm_sm d)))"
    and vi: "case ds_root_cfg st of None \<Rightarrow> vms' = [] | Some cfg \<Rightarrow> vms_inv (rc_vm cfg) vms'"
    and "st' = st\<lparr>ds_vms := map (\<lambda>(n, d). (n, caught_up d)) vms'\<rparr>"
    and b: "b = (if k = 1 then ds_startup_vm st else []) @ concat (map (\<lambda>(n, d). vm_batch n (pending d)) vms')"
    by (rule build_snapshot_run [OF assms(1,2)])
  have keys: "fst ` set vms' \<subseteq> vm_names st"
  proof
    fix n assume "n \<in> fst ` set vms'"
    then obtain d where d: "map_of vms' n = Some d" by (metis map_of_eq_None_iff not_Some_eq)
    show "n \<in> vm_names st"
    proof (cases "ds_root_cfg st")
      case (Some cfg)
      with vi d obtain c where "map_of (rc_vm cfg) n = Some c" by (auto simp: vms_inv_def simp del: map_of_eq_Some_iff)
      then have "(n, c) \<in> set (rc_vm cfg)" by (rule map_of_SomeD)
      with Some show ?thesis by (force simp: vm_names_def)
    qed (use vi d in simp)
  qed
  define news where "news = concat (map (\<lambda>(n, d). vm_batch n (pending d)) vms')"
  have "iv_vm_name ` set news \<subseteq> fst ` set vms'"
    unfolding news_def by (auto simp: vm_batch_def split: if_splits) (metis fst_conv image_eqI)
  with keys assms(3) b [folded news_def] show "iv_vm_name ` set b \<subseteq> vm_names st"
    by (auto simp: startup_ok_def split: if_splits)
qed

text \<open>
  C20. The contract of a snapshot: its statuses are the configured VMs, each once and sorted by name, and
  every batch of VM events is for one of them, the introspection of the first tick included.
\<close>

theorem snapshot_contract:
  assumes "daemon_reachable he toml st"
  shows "case build_snapshot he k (st, t) of ((statuses, global_events, batches), s') \<Rightarrow>
    map is_name statuses = (case ds_root_cfg st of None \<Rightarrow> [] | Some cfg \<Rightarrow> sort (map fst (rc_vm cfg))) \<and>
    iv_vm_name ` set batches \<subseteq> set (map is_name statuses)"
proof -
  obtain ss g b st' t' where run: "build_snapshot he k (st, t) = ((ss, g, b), (st', t'))"
    by (cases "build_snapshot he k (st, t)") auto
  note names = snapshot_names [OF run reachable_daemon_inv [OF assms] reachable_startup [OF assms]]
  obtain ss1 vms t1 where 1: "(case ds_root_cfg st of None \<Rightarrow> ([], (ds_vms st, t))
      | Some cfg \<Rightarrow> snapshot_vms he (rc_vm cfg) (ds_vms st, t)) = (ss1, (vms, t1))"
    by (metis prod.exhaust)
  with run have "ss = ss1" by (simp add: build_snapshot_def split: prod.splits)
  with 1 snapshot_vms_names [of he _ "(ds_vms st, t)" ss1 "(vms, t1)"]
  have "map is_name ss = (case ds_root_cfg st of None \<Rightarrow> [] | Some cfg \<Rightarrow> sort (map fst (rc_vm cfg)))"
    by (cases "ds_root_cfg st") auto
  moreover have "iv_vm_name ` set b \<subseteq> set (map is_name ss)" using names by simp
  ultimately show ?thesis unfolding run prod.case by (rule conjI)
qed

lemma snapshot_contract_witness:
  "\<forall>he toml t k.
     (case daemon_new (he_os he) toml t of (st, t1) \<Rightarrow>
        (case build_snapshot he k (st, t1) of ((statuses, global_events, batches), s') \<Rightarrow>
           iv_vm_name ` set batches \<subseteq> set (map is_name statuses)))"
proof (intro allI)
  fix he :: host_env and toml :: "string \<Rightarrow> string + root_config" and t :: trace and k :: "64 word"
  obtain st t1 where new: "daemon_new (he_os he) toml t = (st, t1)" by (metis prod.exhaust)
  have "(daemon_trans he)\<^sup>*\<^sup>* (daemon_new (he_os he) toml t) (st, t1)" by (simp add: new)
  then have "daemon_reachable he toml st" unfolding daemon_reachable_def by blast
  from snapshot_contract [OF this, of k t1] new
  show "case daemon_new (he_os he) toml t of (st, t1) \<Rightarrow>
      (case build_snapshot he k (st, t1) of ((statuses, global_events, batches), s') \<Rightarrow>
         iv_vm_name ` set batches \<subseteq> set (map is_name statuses))"
    by (simp split: prod.splits)
qed

end
