(* ===== verification/Chalybs_Rounds.thy ===== *)
theory Chalybs_Rounds
  imports Chalybs_Registry
begin

text \<open>
  The loop of the server, from \<^verbatim>\<open>run_server\<close> in \<^verbatim>\<open>daemon/src/server.rs\<close>, over any number of its
  rounds, and what it promises.  Each round refines the daemon: accepting, reading, handling,
  ticking, sending and pausing come to a sequence of the daemon's own transitions, so that what holds
  in every state the daemon can reach holds between any two rounds.  On top of it: the invariant of
  the server's own state, and a law of the way of a VM: one that is to stop comes to rest within three
  quiet rounds, one that is to start is shown running within eleven, unless the clients are told of a failure.
\<close>

subsection \<open>Starting the server\<close>

text \<open>
  Binding the socket and setting it non-blocking are calls to the outside world: their results are
  arguments.  A failure of either ends the server before it has looked at any configuration.
\<close>

definition server_start ::
  "host_env \<Rightarrow> (string \<Rightarrow> string + root_config) \<Rightarrow> (path \<Rightarrow> bool) \<Rightarrow> bool \<Rightarrow> (string + server) io" where
  "server_start he toml bound nonblocking =
     andThen (choose_socket_path (he_os he)) (\<lambda>p.
     bindR (remove_stale_socket (he_os he) p) (\<lambda>_.
       if \<not> bound p then errR (''failed to bind '' @ p)
       else if \<not> nonblocking then errR ''failed to set listener nonblocking''
       else andThen (daemon_new (he_os he) toml) (\<lambda>st. okR (server_new st))))"

text \<open>
  The entry point of the daemon.  What the subscriber does with log lines is the \<^verbatim>\<open>tracing\<close> crate;
  \<open>directives\<close> stands for its check that the environment variable holds a filter.
\<close>

datatype log_format = Pretty | Json

record installed_logging =
  il_filter :: string
  il_format :: log_format

definition init_logging :: "os \<Rightarrow> (string \<Rightarrow> bool) \<Rightarrow> log_format \<Rightarrow> string \<Rightarrow> installed_logging io" where
  "init_logging os directives format default_level =
     andThen (env_var os ''RUST_LOG'') (\<lambda>v.
       let env_filter = (case v of None \<Rightarrow> default_level | Some d \<Rightarrow> if directives d then d else default_level)
       in ret \<lparr>il_filter = env_filter, il_format = format\<rparr>)"

record daemon_cli =
  dl_log_format :: string
  dl_log_level :: string

definition daemon_cli_default :: daemon_cli where
  "daemon_cli_default = \<lparr>dl_log_format = ''pretty'', dl_log_level = ''info''\<rparr>"

definition daemon_main ::
  "host_env \<Rightarrow> (string \<Rightarrow> bool) \<Rightarrow> (string \<Rightarrow> string + root_config) \<Rightarrow> (path \<Rightarrow> bool) \<Rightarrow> bool \<Rightarrow> daemon_cli \<Rightarrow>
   (installed_logging \<times> (string + server)) io" where
  "daemon_main he directives toml bound nonblocking cli =
     (let format = (if dl_log_format cli = ''json'' then Json else Pretty)
      in andThen (init_logging (he_os he) directives format (dl_log_level cli)) (\<lambda>logging.
         andThen (server_start he toml bound nonblocking) (\<lambda>sv. ret (logging, sv))))"

text \<open>The loop never ends by itself; its rounds are as many as the list of what the sockets deliver.\<close>

fun server_loop ::
  "host_env \<Rightarrow> json_decoder \<Rightarrow> (ipc_message \<Rightarrow> string + string) \<Rightarrow> io_round list \<Rightarrow>
   (server \<times> trace, (ipc_message \<times> (string \<times> nat list) option) list) act" where
  "server_loop he json to_json [] = ret []"
| "server_loop he json to_json (io # ios) =
     andThen (server_advance he json io) (\<lambda>msg.
     andThen (server_send to_json io msg) (\<lambda>payload.
     andThen (server_loop he json to_json ios) (\<lambda>rest. ret ((msg, payload) # rest))))"

subsection \<open>A round refines the daemon\<close>

lemma gather_performs:
  "(snd (gatherA commands handle_shell_command st), t) = foldl (perform he) (st, t) (map Command commands)"
proof (induction commands arbitrary: st)
  case (Cons command commands)
  have "snd (gatherA (command # commands) handle_shell_command st) =
      snd (gatherA commands handle_shell_command (snd (handle_shell_command command st)))"
    by (simp add: andThen_def ret_def split: prod.split)
  with Cons.IH [of "snd (handle_shell_command command st)"] show ?case by simp
qed (simp add: ret_def)

lemma gather_commands:
  "(daemon_trans he)\<^sup>*\<^sup>* (st, t) (snd (gatherA commands handle_shell_command st), t)"
  by (metis gather_performs performs_trans)

lemma daemon_runs_inv: "(daemon_trans he)\<^sup>*\<^sup>* s s' \<Longrightarrow> daemon_inv (fst s) \<Longrightarrow> daemon_inv (fst s')"
  by (induction rule: rtranclp_induct) (auto intro: daemon_trans_inv)

lemma server_advance_run:
  assumes "server_advance he json io (sv, t) = (msg, (sv', t'))"
  obtains clients sb vms g b where
    "drain_clients json (io_reads io) (accept_clients (io_accepts io) (sv_clients sv)) (sv_shell sv) = (clients, sb)"
    "build_snapshot he (sv_tick sv + 1) (snd (gatherA (sb_commands sb) handle_shell_command (sv_daemon sv)), t) =
       ((vms, g, b), (sv_daemon sv', t'))"
    "msg = Snapshot vms (g @ sb_events sb @ fst (gatherA (sb_commands sb) handle_shell_command (sv_daemon sv))) b"
    "sv_clients sv' = clients" "sv_tick sv' = sv_tick sv + 1" "sv_shell sv' = \<lparr>sb_events = [], sb_commands = []\<rparr>"
proof -
  obtain clients sb where 1: "drain_clients json (io_reads io) (accept_clients (io_accepts io) (sv_clients sv)) (sv_shell sv) = (clients, sb)"
    by (cases "drain_clients json (io_reads io) (accept_clients (io_accepts io) (sv_clients sv)) (sv_shell sv)")
  obtain evs st where 2: "gatherA (sb_commands sb) handle_shell_command (sv_daemon sv) = (evs, st)"
    by (cases "gatherA (sb_commands sb) handle_shell_command (sv_daemon sv)")
  obtain vms g b st' t1 where 3: "build_snapshot he (sv_tick sv + 1) (st, t) = ((vms, g, b), (st', t1))"
    by (cases "build_snapshot he (sv_tick sv + 1) (st, t)") auto
  from assms 1 2 3 have "sv' = \<lparr>sv_daemon = st', sv_clients = clients, sv_tick = sv_tick sv + 1,
      sv_shell = \<lparr>sb_events = [], sb_commands = []\<rparr>\<rparr>" "t' = t1" "msg = Snapshot vms (g @ sb_events sb @ evs) b"
    by (simp_all add: server_advance_def)
  with 1 2 3 that show ?thesis by simp
qed

lemma server_send_run:
  assumes "server_send to_json io msg (sv, t) = (payload, (sv', t'))"
  shows "t' = t @ [EvSleep 250]" "sv_daemon sv' = sv_daemon sv" "sv_tick sv' = sv_tick sv" "sv_shell sv' = sv_shell sv"
    "set (sv_clients sv') \<subseteq> set (sv_clients sv)"
  using assms by (auto simp: server_send_def broadcast_def split: sum.splits)

lemma round_performs:
  assumes "server_round he json to_json io (sv, t) = (payload, (sv', t'))"
    "drain_clients json (io_reads io) (accept_clients (io_accepts io) (sv_clients sv)) (sv_shell sv) = (clients, sb)"
  shows "(sv_daemon sv', t') =
      foldl (perform he) (sv_daemon sv, t) (map Command (sb_commands sb) @ [Tick (sv_tick sv + 1), Pause 250]) \<and>
    sv_tick sv' = sv_tick sv + 1"
proof -
  from assms obtain msg sv1 t1 where 1: "server_advance he json io (sv, t) = (msg, (sv1, t1))"
    and 2: "server_send to_json io msg (sv1, t1) = (payload, (sv', t'))"
    by (auto simp: server_round_def elim!: andThen_eq)
  obtain clients' sb' vms g b where
    d: "drain_clients json (io_reads io) (accept_clients (io_accepts io) (sv_clients sv)) (sv_shell sv) = (clients', sb')"
    and snap: "build_snapshot he (sv_tick sv + 1) (snd (gatherA (sb_commands sb') handle_shell_command (sv_daemon sv)), t) =
       ((vms, g, b), (sv_daemon sv1, t1))"
    and tick: "sv_tick sv1 = sv_tick sv + 1"
    by (rule server_advance_run [OF 1])
  from d assms(2) have "sb' = sb" by simp
  with snap have "perform he (foldl (perform he) (sv_daemon sv, t) (map Command (sb_commands sb))) (Tick (sv_tick sv + 1)) =
      (sv_daemon sv1, t1)"
    by (simp flip: gather_performs)
  with server_send_run [OF 2] tick show ?thesis by simp
qed

lemma round_refines:
  assumes "server_round he json to_json io (sv, t) = (payload, (sv', t'))"
  shows "(daemon_trans he)\<^sup>*\<^sup>* (sv_daemon sv, t) (sv_daemon sv', t')"
proof -
  obtain clients sb where
    "drain_clients json (io_reads io) (accept_clients (io_accepts io) (sv_clients sv)) (sv_shell sv) = (clients, sb)"
    by (metis prod.exhaust)
  from round_performs [OF assms this] show ?thesis by (metis performs_trans)
qed

subsection \<open>The invariant of the server\<close>

inductive server_reachable ::
  "host_env \<Rightarrow> json_decoder \<Rightarrow> (ipc_message \<Rightarrow> string + string) \<Rightarrow> (string \<Rightarrow> string + root_config) \<Rightarrow> server \<times> trace \<Rightarrow> bool"
  for he json to_json toml where
  started: "server_start he toml bound nonblocking t = (Inr sv, t') \<Longrightarrow> server_reachable he json to_json toml (sv, t')"
| round: "server_reachable he json to_json toml s \<Longrightarrow> server_round he json to_json io s = (payload, s') \<Longrightarrow>
    server_reachable he json to_json toml s'"

text \<open>Between two rounds no command waits, and no buffer holds a whole line.\<close>

definition rests :: "client \<Rightarrow> bool" where
  "rests c \<longleftrightarrow> line_feed \<notin> set (cl_rx_buf c)"

definition server_inv :: "server \<Rightarrow> bool" where
  "server_inv sv \<longleftrightarrow> sv_shell sv = \<lparr>sb_events = [], sb_commands = []\<rparr> \<and> list_all rests (sv_clients sv)"

lemma take_lines_rests:
  assumes "take_lines json (buf, sb) = (rest, sb')"
  shows "line_feed \<notin> set rest"
  using assms split_on_pieces [of "last (split_on line_feed buf)" line_feed buf]
  by (auto simp: take_lines_pieces)

lemma drain_client_rests:
  "drain_client_commands json reads c sb = (outcome, c', sb') \<Longrightarrow> rests c \<Longrightarrow> rests c'"
proof (induction json reads c sb rule: drain_client_commands.induct)
  case (2 json chunk reads c sb)
  show ?case
  proof (cases "chunk = [] \<or> \<not> utf8_valid chunk")
    case False
    obtain buf sb1 where 1: "take_lines json (cl_rx_buf c @ chunk, sb) = (buf, sb1)"
      by (cases "take_lines json (cl_rx_buf c @ chunk, sb)")
    from take_lines_rests [OF 1] have "rests (c\<lparr>cl_rx_buf := buf\<rparr>)" by (simp add: rests_def)
    with 2 False 1 show ?thesis by auto
  qed (use 2(2,3) in \<open>auto split: if_splits\<close>)
qed (auto split: if_splits)

lemma drain_clients_rests:
  "drain_clients json reads cs sb = (kept, sb') \<Longrightarrow> list_all rests cs \<Longrightarrow> list_all rests kept"
  by (induction json reads cs sb arbitrary: kept sb' rule: drain_clients.induct)
    (auto split: prod.splits if_splits dest: drain_client_rests)

lemma accept_clients_rests: "list_all rests cs \<Longrightarrow> list_all rests (accept_clients accepts cs)"
  by (induction accepts cs rule: accept_clients.induct) (auto simp: rests_def client_new_def)

lemma server_round_inv:
  assumes "server_round he json to_json io (sv, t) = (payload, (sv', t'))" "server_inv sv"
  shows "server_inv sv'"
proof -
  from assms(1) obtain msg sv1 t1 where 1: "server_advance he json io (sv, t) = (msg, (sv1, t1))"
    and 2: "server_send to_json io msg (sv1, t1) = (payload, (sv', t'))"
    by (auto simp: server_round_def elim!: andThen_eq)
  from assms(2) have cs: "list_all rests (accept_clients (io_accepts io) (sv_clients sv))"
    by (simp add: server_inv_def accept_clients_rests)
  obtain clients sb vms g b where
    "drain_clients json (io_reads io) (accept_clients (io_accepts io) (sv_clients sv)) (sv_shell sv) = (clients, sb)"
    "sv_clients sv1 = clients" "sv_shell sv1 = \<lparr>sb_events = [], sb_commands = []\<rparr>"
    by (rule server_advance_run [OF 1])
  with cs drain_clients_rests server_send_run [OF 2] show ?thesis
    by (fastforce simp: server_inv_def list_all_iff)
qed

lemma server_start_run:
  assumes "server_start he toml bound nonblocking t = (Inr sv, t')"
  obtains t1 st where "daemon_new (he_os he) toml t1 = (st, t')" "sv = server_new st"
  using assms that by (auto simp: server_start_def run_simps split: if_splits)

lemma server_reachable_daemon:
  "server_reachable he json to_json toml s \<Longrightarrow>
   (\<exists>t0. (daemon_trans he)\<^sup>*\<^sup>* (daemon_new (he_os he) toml t0) (sv_daemon (fst s), snd s)) \<and> server_inv (fst s)"
proof (induction rule: server_reachable.induct)
  case (started bound nonblocking t sv t')
  then obtain t1 st where "daemon_new (he_os he) toml t1 = (st, t')" and sv: "sv = server_new st"
    by (rule server_start_run)
  then have "(daemon_trans he)\<^sup>*\<^sup>* (daemon_new (he_os he) toml t1) (sv_daemon sv, t')" by (simp add: server_new_def)
  with sv show ?case by (auto simp: server_new_def server_inv_def)
next
  case (round s io payload s')
  obtain sv t sv' t' where s: "s = (sv, t)" "s' = (sv', t')" by (cases s, cases s')
  note run = round.hyps(2) [unfolded s]
  from round.IH obtain t0 where "(daemon_trans he)\<^sup>*\<^sup>* (daemon_new (he_os he) toml t0) (sv_daemon sv, t)"
    and inv: "server_inv sv"
    by (auto simp: s)
  from this(1) round_refines [OF run] have "(daemon_trans he)\<^sup>*\<^sup>* (daemon_new (he_os he) toml t0) (sv_daemon sv', t')"
    by (rule rtranclp_trans)
  with server_round_inv [OF run inv] show ?case by (auto simp: s)
qed

lemma server_reachable_inv:
  assumes "server_reachable he json to_json toml (sv, t)"
  shows "daemon_reachable he toml (sv_daemon sv)" "daemon_inv (sv_daemon sv)" "server_inv sv"
  using server_reachable_daemon [OF assms] reachable_daemon_inv [of he toml "sv_daemon sv"]
  by (auto simp: daemon_reachable_def)

subsection \<open>A round ticks every VM\<close>

text \<open>A quiet round: no client has sent anything.  Clients may come, and be lost in the sending.\<close>

definition no_input :: "io_round \<Rightarrow> bool" where
  "no_input io \<longleftrightarrow> io_reads io = (\<lambda>_. [])"

lemma drain_quiet: "drain_clients json (\<lambda>_. []) cs sb = (cs, sb)"
  by (induction cs) simp_all

text \<open>The entries that an entry goes through by being ticked, and that a snapshot shows one of them.\<close>

fun tick_chain :: "host_env \<Rightarrow> daemon_vm \<Rightarrow> daemon_vm list \<Rightarrow> bool" where
  "tick_chain he d [] = True"
| "tick_chain he d (e # es) = ((\<exists>t u t'. tick_vm he (d, t) = (u, (e, t'))) \<and> tick_chain he e es)"

lemma tick_chain_append: "tick_chain he d (xs @ ys) \<longleftrightarrow> tick_chain he d xs \<and> tick_chain he (last (d # xs)) ys"
  by (induction xs arbitrary: d) auto

definition shows_state :: "ipc_vm_status list \<Rightarrow> string \<Rightarrow> ipc_vm_state \<Rightarrow> bool" where
  "shows_state statuses x s = list_ex (\<lambda>st. is_name st = x \<and> is_state st = s) statuses"

definition entry_state :: "daemon_vm \<Rightarrow> ipc_vm_state" where
  "entry_state dvm = map_vm_state_to_ipc (sm_state (dm_sm dvm))"

lemma shows_state_append [simp]: "shows_state (a @ b) x s \<longleftrightarrow> shows_state a x s \<or> shows_state b x s"
  by (simp add: shows_state_def)

lemma observe_vm_chain:
  assumes "observe_vm he name cfg (dvm, t) = (status, (dvm', t'))"
  shows "tick_chain he dvm [dvm']" "shows_state [status] name (entry_state dvm')"
proof -
  obtain u dvm1 t1 where 1: "tick_vm he (dvm, t) = (u, (dvm1, t1))" by (metis prod.exhaust)
  with assms have "dvm' = dvm1" "is_name status = name" "is_state status = entry_state dvm1"
    by (auto simp: observe_vm_def andThen_def peek_def onOs_def ret_def Let_def runtime_status_def idle_status_def
        entry_state_def split: prod.splits)
  with 1 show "tick_chain he dvm [dvm']" "shows_state [status] name (entry_state dvm')"
    by (auto simp: shows_state_def)
qed

lemma snapshot_vm_chain:
  assumes "snapshot_vm he name cfg (vms, t) = (status, (vms', t'))" "map_of vms x = Some dvm"
  shows "\<exists>ds. tick_chain he dvm ds \<and> map_of vms' x = Some (last (dvm # ds)) \<and> (ds = [] \<longleftrightarrow> x \<noteq> name) \<and>
    list_all (\<lambda>d. shows_state [status] x (entry_state d)) ds"
proof (cases "map_of vms name")
  case None
  with assms have "vms' = vms" "x \<noteq> name" by (auto simp: snapshot_vm_def)
  with assms(2) show ?thesis by (intro exI [of _ "[]"]) simp
next
  case (Some d)
  obtain st d' t1 where 1: "observe_vm he name cfg (d, t) = (st, (d', t1))" by (metis prod.exhaust)
  with assms(1) Some have vms': "vms' = hm_insert name d' vms" "st = status" by (simp_all add: snapshot_vm_def)
  show ?thesis
  proof (cases "x = name")
    case True
    with observe_vm_chain [OF 1] assms(2) Some vms' show ?thesis by (intro exI [of _ "[d']"]) simp
  qed (use assms(2) vms' in \<open>intro exI [of _ "[]"], simp\<close>)
qed

lemma snapshot_vms_chain:
  assumes "snapshot_vms he cfgs (vms, t) = (ss, (vms', t'))" "map_of vms x = Some dvm" "map_of cfgs x = Some cfg"
  shows "\<exists>ds. ds \<noteq> [] \<and> tick_chain he dvm ds \<and> map_of vms' x = Some (last ds) \<and>
    list_all (\<lambda>d. shows_state ss x (entry_state d)) ds"
proof -
  let ?body = "\<lambda>name. case map_of cfgs name of None \<Rightarrow> ret []
    | Some cfg \<Rightarrow> andThen (snapshot_vm he name cfg) (\<lambda>status. ret [status])"
  have step: "\<exists>ds. (ds = [] \<longleftrightarrow> x \<notin> set names) \<and> tick_chain he dvm ds \<and> map_of vms' x = Some (last (dvm # ds)) \<and>
      list_all (\<lambda>d. shows_state ss x (entry_state d)) ds"
    if "gatherA names ?body (vms, t) = (ss, (vms', t'))" "map_of vms x = Some dvm" for names vms t ss vms' t' dvm
    using that
  proof (induction names arbitrary: vms t ss dvm)
    case (Cons name names)
    obtain y vms1 t1 where 1: "?body name (vms, t) = (y, (vms1, t1))" by (metis prod.exhaust)
    obtain zs s2 where 2: "gatherA names ?body (vms1, t1) = (zs, s2)" by (cases "gatherA names ?body (vms1, t1)")
    from Cons.prems(1) 1 2 have s2: "s2 = (vms', t')" and ss: "ss = y @ zs" by (simp_all add: andThen_def ret_def)
    have "\<exists>ds. tick_chain he dvm ds \<and> map_of vms1 x = Some (last (dvm # ds)) \<and> (ds = [] \<longleftrightarrow> x \<noteq> name) \<and>
        list_all (\<lambda>d. shows_state y x (entry_state d)) ds"
    proof (cases "map_of cfgs name")
      case None
      with 1 Cons.prems(2) assms(3) show ?thesis by (intro exI [of _ "[]"]) (auto simp: ret_def)
    next
      case (Some c)
      with 1 obtain st where "snapshot_vm he name c (vms, t) = (st, (vms1, t1))" "y = [st]"
        by (auto simp: andThen_def ret_def split: prod.splits)
      with snapshot_vm_chain [OF _ Cons.prems(2)] show ?thesis by blast
    qed
    then obtain ds where d: "tick_chain he dvm ds" "map_of vms1 x = Some (last (dvm # ds))" "ds = [] \<longleftrightarrow> x \<noteq> name"
      "list_all (\<lambda>d. shows_state y x (entry_state d)) ds" by blast
    from Cons.IH [OF 2 [unfolded s2] d(2)] obtain es where e: "es = [] \<longleftrightarrow> x \<notin> set names"
      "tick_chain he (last (dvm # ds)) es" "map_of vms' x = Some (last (last (dvm # ds) # es))"
      "list_all (\<lambda>d. shows_state zs x (entry_state d)) es" by blast
    from d e show ?case
      by (intro exI [of _ "ds @ es"]) (auto simp: tick_chain_append ss list_all_iff last_append)
  qed (auto simp: ret_def intro: exI [of _ "[]"])
  have "x \<in> set (sort (map fst cfgs))" using map_of_SomeD [OF assms(3)] by force
  with step [OF assms(1) [unfolded snapshot_vms_def] assms(2)] show ?thesis by fastforce
qed

text \<open>A tick only ever appends events.\<close>

lemma tick_grows:
  assumes "tick_vm he (d, t) = (u, (d', t'))"
  shows "grows d d'"
proof -
  from assms obtain v d1 t1 where 1: "poll_guest (he_os he) (d, t) = (v, (d1, t1))"
    and 2: "drive_vm_towards_desired he (d1, t1) = (u, (d', t'))"
    by (auto simp: tick_vm_def elim!: andThen_eq)
  have "grows d d1" using 1 by (cases rule: poll_guest_cases) (auto simp: grows_def)
  moreover have "grows d1 d'"
  proof (cases "dm_desired d1 \<in> {IpcRunning, IpcStarting}")
    case True
    with 2 have "drive_up he (d1, t1) = (u, (d', t'))" by (simp add: drive_vm_run)
    from drive_up_run [OF this] show ?thesis
    proof (elim disjE exE conjE)
      fix r sm
      assume st: "step he (dm_sm d1, t1) = (r, sm, t')"
        and d: "d' = (case r of Inl e \<Rightarrow> bring_up_failed e (d1\<lparr>dm_sm := sm\<rparr>) | Inr s \<Rightarrow> d1\<lparr>dm_sm := sm\<rparr>)"
      show ?thesis using step_logs [OF st] d by (auto simp: grows_def prefix_def split: sum.splits)
    qed (auto simp: grows_def)
  next
    case False
    with 2 have "drive_down he (d1, t1) = (u, (d', t'))" by (simp add: drive_vm_run)
    from drive_down_run [OF this] show ?thesis
    proof (elim disjE exE conjE)
      fix r sm
      assume st: "step_shutdown he (dm_sm d1, t1) = (r, sm, t')"
        and d: "d' = (case r of Inl e \<Rightarrow> shutdown_failed e (d1\<lparr>dm_sm := sm\<rparr>) | Inr s \<Rightarrow> d1\<lparr>dm_sm := sm\<rparr>)"
      show ?thesis using step_shutdown_logs [OF st] d by (auto simp: grows_def prefix_def split: sum.splits)
    qed (auto simp: grows_def)
  qed
  ultimately show ?thesis by (rule grows_trans)
qed

lemma chain_grows: "tick_chain he d ds \<Longrightarrow> grows d (last (d # ds))"
  by (induction he d ds rule: tick_chain.induct) (auto simp: grows_def dest!: tick_grows intro: prefix_order.trans)

lemma chain_stopping: "tick_chain he d ds \<Longrightarrow> stopping d \<Longrightarrow> stopping (last (d # ds))"
  by (induction he d ds rule: tick_chain.induct) (auto dest: tick_vm_stopping)

lemma build_snapshot_chain:
  assumes "build_snapshot he k (st, t) = ((ss, g, b), (st', t'))" "daemon_inv st"
    "map_of (ds_vms st) x = Some dvm"
  shows "\<exists>ds. ds \<noteq> [] \<and> tick_chain he dvm ds \<and> map_of (ds_vms st') x = Some (caught_up (last ds)) \<and>
    list_all (\<lambda>d. shows_state ss x (entry_state d)) ds \<and>
    ipc_of_core ` set (new_events dvm (last ds)) \<subseteq> set (received x b)"
proof -
  from assms(2,3) obtain cfg where root: "ds_root_cfg st = Some cfg" by (auto simp: daemon_inv_def split: option.splits)
  with assms(2,3) obtain c where c: "map_of (rc_vm cfg) x = Some c" by (fastforce simp: daemon_inv_def vms_inv_def)
  obtain ss1 vms t1 where 1: "snapshot_vms he (rc_vm cfg) (ds_vms st, t) = (ss1, (vms, t1))" by (metis prod.exhaust)
  from snapshot_vms_chain [OF 1 assms(3) c] obtain ds where ds: "ds \<noteq> []" "tick_chain he dvm ds"
    "map_of vms x = Some (last ds)" "list_all (\<lambda>d. shows_state ss1 x (entry_state d)) ds" by blast
  have "vms_inv (rc_vm cfg) vms" using snapshot_vms_registry [OF 1] root assms(2) by (simp add: daemon_inv_def)
  then have dist: "distinct (map fst vms)" and le: "\<forall>(n, d) \<in> set vms. dm_cursor d \<le> length (rt_events (sm_rt (dm_sm d)))"
    by (fastforce simp: vms_inv_def entry_inv_def)+
  from assms(1) 1 root deliver_events_eq [OF le]
  have st': "st' = st\<lparr>ds_vms := map (\<lambda>(n, d). (n, caught_up d)) vms\<rparr>" and ss: "ss = ss1"
    and b: "b = (if k = 1 then ds_startup_vm st else []) @ concat (map (\<lambda>(n, d). vm_batch n (pending d)) vms)"
    by (auto simp: build_snapshot_def split: prod.splits)
  have "dm_cursor dvm = length (rt_events (sm_rt (dm_sm dvm)))"
    using assms(2,3) by (auto simp: daemon_inv_def dest!: map_of_SomeD)
  then have "pending (last ds) = map ipc_of_core (new_events dvm (last ds))"
    using chain_grows [OF ds(2)] ds(1) by (simp add: pending_def new_events_def grows_def)
  then have "ipc_of_core ` set (new_events dvm (last ds)) \<subseteq> set (received x b)"
    using ds(3) received_all [OF dist, of x] by (auto simp: b)
  moreover have "map_of (ds_vms st') x = Some (caught_up (last ds))" using ds(3) by (simp add: st' map_of_caught_up)
  ultimately show ?thesis using ds ss by blast
qed

text \<open>What the clients get to see of a VM over some rounds.\<close>

definition snapshot_statuses :: "ipc_message \<Rightarrow> ipc_vm_status list" where
  "snapshot_statuses msg = (case msg of Snapshot vms events_global events_vm \<Rightarrow> vms | ShellCommand command \<Rightarrow> [])"

definition snapshot_batches :: "ipc_message \<Rightarrow> ipc_vm_events list" where
  "snapshot_batches msg = (case msg of Snapshot vms events_global events_vm \<Rightarrow> events_vm | ShellCommand command \<Rightarrow> [])"

definition shown :: "string \<Rightarrow> (ipc_message \<times> (string \<times> nat list) option) list \<Rightarrow> ipc_event list" where
  "shown name outs = received name (concat (map (snapshot_batches \<circ> fst) outs))"

definition shown_states :: "(ipc_message \<times> (string \<times> nat list) option) list \<Rightarrow> ipc_vm_status list" where
  "shown_states outs = concat (map (snapshot_statuses \<circ> fst) outs)"

lemma shown_Cons [simp]:
  "shown x ((msg, payload) # outs) = received x (snapshot_batches msg) @ shown x outs"
  "shown_states ((msg, payload) # outs) = snapshot_statuses msg @ shown_states outs"
  by (simp_all add: shown_def shown_states_def)

lemma quiet_round_chain:
  assumes "server_advance he json io (sv, t) = (msg, (sv', t'))" "no_input io" "server_inv sv" "daemon_inv (sv_daemon sv)"
    "map_of (ds_vms (sv_daemon sv)) x = Some dvm"
  shows "\<exists>ds. ds \<noteq> [] \<and> tick_chain he dvm ds \<and> map_of (ds_vms (sv_daemon sv')) x = Some (caught_up (last ds)) \<and>
    list_all (\<lambda>d. shows_state (snapshot_statuses msg) x (entry_state d)) ds \<and>
    ipc_of_core ` set (new_events dvm (last ds)) \<subseteq> set (received x (snapshot_batches msg))"
proof -
  obtain clients sb vms g b where
    1: "drain_clients json (io_reads io) (accept_clients (io_accepts io) (sv_clients sv)) (sv_shell sv) = (clients, sb)"
    and 2: "build_snapshot he (sv_tick sv + 1) (snd (gatherA (sb_commands sb) handle_shell_command (sv_daemon sv)), t) =
       ((vms, g, b), (sv_daemon sv', t'))"
    and 3: "msg = Snapshot vms (g @ sb_events sb @ fst (gatherA (sb_commands sb) handle_shell_command (sv_daemon sv))) b"
    by (rule server_advance_run [OF assms(1)])
  from 1 assms(2,3) have "sb_commands sb = []" by (auto simp: no_input_def drain_quiet server_inv_def)
  with 2 have "build_snapshot he (sv_tick sv + 1) (sv_daemon sv, t) = ((vms, g, b), (sv_daemon sv', t'))"
    by (simp add: ret_def)
  from build_snapshot_chain [OF this assms(4,5)] 3 show ?thesis by (simp add: snapshot_batches_def snapshot_statuses_def)
qed

text \<open>The first of some rounds, and the rounds after it.\<close>

lemma quiet_loop_Cons:
  assumes "server_loop he json to_json (io # ios) (sv, t) = (outs, (sv', t'))" "no_input io"
    "server_reachable he json to_json toml (sv, t)" "map_of (ds_vms (sv_daemon sv)) x = Some dvm"
  obtains ds msg payload sv2 t2 rest where "ds \<noteq> []" "tick_chain he dvm ds" "outs = (msg, payload) # rest"
    "list_all (\<lambda>d. shows_state (snapshot_statuses msg) x (entry_state d)) ds"
    "ipc_of_core ` set (new_events dvm (last ds)) \<subseteq> set (received x (snapshot_batches msg))"
    "map_of (ds_vms (sv_daemon sv2)) x = Some (caught_up (last ds))"
    "server_reachable he json to_json toml (sv2, t2)"
    "server_loop he json to_json ios (sv2, t2) = (rest, (sv', t'))"
proof -
  from assms(1) obtain msg sv1 t1 payload sv2 t2 rest where
    1: "server_advance he json io (sv, t) = (msg, (sv1, t1))" and
    2: "server_send to_json io msg (sv1, t1) = (payload, (sv2, t2))" and
    3: "server_loop he json to_json ios (sv2, t2) = (rest, (sv', t'))" and outs: "outs = (msg, payload) # rest"
    by (auto simp: run_simps)
  note inv = server_reachable_inv [OF assms(3)]
  have "server_round he json to_json io (sv, t) = (payload, (sv2, t2))"
    using 1 2 by (auto simp: server_round_def run_simps)
  from quiet_round_chain [OF 1 assms(2) inv(3,2) assms(4)] server_reachable.round [OF assms(3) this] 3 outs that
    server_send_run(2) [OF 2]
  show ?thesis by metis
qed

lemma quiet_rounds_entry:
  assumes "server_loop he json to_json ios (sv, t) = (outs, (sv', t'))" "list_all no_input ios"
    "server_reachable he json to_json toml (sv, t)" "map_of (ds_vms (sv_daemon sv)) x = Some dvm"
  shows "\<exists>dvm'. map_of (ds_vms (sv_daemon sv')) x = Some dvm'"
  using assms
proof (induction ios arbitrary: sv t dvm outs)
  case (Cons io ios)
  from Cons.prems(2) have q: "no_input io" "list_all no_input ios" by simp_all
  show ?case
    by (rule quiet_loop_Cons [OF Cons.prems(1) q(1) Cons.prems(3,4)]) (rule Cons.IH [OF _ q(2)])
qed (auto simp: ret_def)

subsection \<open>The law of a way\<close>

text \<open>
  Some entries are on their way: a tick brings them nearer, unless it leaves an alarm among the VM's
  events or arrives.  Then, over as many quiet rounds as the way is long, the clients are shown the
  alarm or the arrival, or the way is behind.
\<close>

locale way_law =
  fixes he :: host_env
    and under_way :: "daemon_vm \<Rightarrow> bool"
    and dist :: "daemon_vm \<Rightarrow> nat"
    and alarm :: "core_event \<Rightarrow> bool"
    and arrived :: "daemon_vm \<Rightarrow> bool"
  assumes tick: "tick_vm he (d, t) = (u, (d', t')) \<Longrightarrow> under_way d \<Longrightarrow>
      (under_way d' \<and> dist d' \<le> dist d - 1) \<or> list_ex alarm (new_events d d') \<or> arrived d'"
    and delivered: "under_way (caught_up d) = under_way d" "dist (caught_up d) = dist d"
begin

lemma chain:
  "tick_chain he d ds \<Longrightarrow> ds \<noteq> [] \<Longrightarrow> under_way d \<Longrightarrow>
   (under_way (last ds) \<and> dist (last ds) \<le> dist d - 1) \<or> list_ex alarm (new_events d (last ds)) \<or> list_ex arrived ds"
proof (induction ds arbitrary: d)
  case (Cons e es)
  from Cons.prems(1) obtain t u t' where first: "tick_vm he (d, t) = (u, (e, t'))" and rest: "tick_chain he e es" by auto
  have new: "set (new_events d e) \<subseteq> set (new_events d (last (e # es)))"
      "set (new_events e (last (e # es))) \<subseteq> set (new_events d (last (e # es)))"
    using new_events_trans [OF tick_grows [OF first] chain_grows [OF rest]] by auto
  show ?case
  proof (cases "es = []")
    case True
    with tick [OF first Cons.prems(3)] show ?thesis by auto
  next
    case False
    from tick [OF first Cons.prems(3)] show ?thesis
    proof (elim disjE conjE)
      assume e: "under_way e" "dist e \<le> dist d - 1"
      from Cons.IH [OF rest False e(1)] e(2) new False show ?thesis by (auto simp: list_ex_iff)
    qed (use new in \<open>auto simp: list_ex_iff\<close>)
  qed
qed simp

lemma rounds:
  assumes "server_loop he json to_json ios (sv, t) = (outs, (sv', t'))" "list_all no_input ios"
    "server_reachable he json to_json toml (sv, t)" "map_of (ds_vms (sv_daemon sv)) x = Some dvm" "under_way dvm"
  shows "\<exists>dvm'. map_of (ds_vms (sv_daemon sv')) x = Some dvm' \<and>
    ((under_way dvm' \<and> dist dvm' \<le> dist dvm - length ios) \<or>
     (\<exists>ev. alarm ev \<and> ipc_of_core ev \<in> set (shown x outs)) \<or>
     (\<exists>d. arrived d \<and> shows_state (shown_states outs) x (entry_state d)))"
  using assms
proof (induction ios arbitrary: sv t dvm outs)
  case (Cons io ios)
  from Cons.prems(2) have q: "no_input io" "list_all no_input ios" by simp_all
  show ?case
  proof (rule quiet_loop_Cons [OF Cons.prems(1) q(1) Cons.prems(3,4)])
    fix ds msg payload sv2 t2 rest
    assume ds: "ds \<noteq> []" "tick_chain he dvm ds" and outs: "outs = (msg, payload) # rest"
      and seen: "list_all (\<lambda>d. shows_state (snapshot_statuses msg) x (entry_state d)) ds"
      and told: "ipc_of_core ` set (new_events dvm (last ds)) \<subseteq> set (received x (snapshot_batches msg))"
      and entry: "map_of (ds_vms (sv_daemon sv2)) x = Some (caught_up (last ds))"
      and reach: "server_reachable he json to_json toml (sv2, t2)"
      and loop: "server_loop he json to_json ios (sv2, t2) = (rest, (sv', t'))"
    from quiet_rounds_entry [OF loop q(2) reach entry] obtain d where
      d: "map_of (ds_vms (sv_daemon sv')) x = Some d" by blast
    from chain [OF ds(2,1) Cons.prems(5)] show ?thesis
    proof (elim disjE conjE)
      assume "under_way (last ds)" "dist (last ds) \<le> dist dvm - 1"
      with Cons.IH [OF loop q(2) reach entry] d outs show ?thesis by (auto simp: delivered)
    next
      assume "list_ex alarm (new_events dvm (last ds))"
      with told d outs show ?thesis by (auto simp: list_ex_iff)
    next
      assume "list_ex arrived ds"
      with seen d outs show ?thesis by (auto simp: list_ex_iff list_all_iff)
    qed
  qed
qed (auto simp: ret_def)

end

subsection \<open>Down and up\<close>

definition way :: "daemon_vm \<Rightarrow> nat" where
  "way dvm = down_dist (dm_sm dvm, [])"

lemma way_eq: "down_dist (dm_sm dvm, t) = way dvm"
  by (simp add: way_def down_dist_def)

lemma way_le: "way dvm \<le> 3"
  by (simp add: way_def down_dist_def split: vm_state.split)

lemma way_0: "way dvm = 0 \<longleftrightarrow> sm_state (dm_sm dvm) = Idle"
  by (simp add: way_def down_dist_0)

interpretation going_down: way_law he stopping way "\<lambda>ev. \<exists>e. ev = shutdown_error e" "\<lambda>d. False" for he
proof
  fix d t u d' t'
  assume "tick_vm he (d, t) = (u, (d', t'))" "stopping d"
  from tick_vm_stopping [OF this]
  show "(stopping d' \<and> way d' \<le> way d - 1) \<or> list_ex (\<lambda>ev. \<exists>e. ev = shutdown_error e) (new_events d d') \<or> False"
    by (auto simp: way_eq list_ex_iff)
qed (simp_all add: caught_up_def stopping_def way_def)

definition bring_up_error :: "chalybs_error \<Rightarrow> core_event" where
  "bring_up_error e = \<lparr>ce_kind = EvError, ce_message = ''vm state machine bring-up error: '' @ show_error e\<rparr>"

definition climbing :: "daemon_vm \<Rightarrow> bool" where
  "climbing dvm \<longleftrightarrow> dm_desired dvm \<in> {IpcStarting, IpcRunning} \<and> sm_state (dm_sm dvm) < Steady"

definition climb :: "daemon_vm \<Rightarrow> nat" where
  "climb dvm = up_dist (dm_sm dvm, [])"

lemma climb_eq: "up_dist (dm_sm dvm, t) = climb dvm"
  by (simp add: climb_def up_dist_def)

lemma climb_le: "climb dvm \<le> 11"
  by (simp add: climb_def up_dist_def Let_def)

lemma climbing_pos: "climbing dvm \<Longrightarrow> 0 < climb dvm"
  unfolding climbing_def climb_def by (rule up_dist_pos) (auto simp: state_order)

lemma tick_vm_climbing:
  assumes "tick_vm he (d, t) = (u, (d', t'))" "climbing d"
  shows "(climbing d' \<and> climb d' \<le> climb d - 1) \<or> (\<exists>e. bring_up_error e \<in> set (new_events d d')) \<or>
    sm_state (dm_sm d') = Steady"
proof -
  from assms(1) obtain v d1 t1 where 1: "poll_guest (he_os he) (d, t) = (v, (d1, t1))"
    and 2: "drive_vm_towards_desired he (d1, t1) = (u, (d', t'))"
    by (auto simp: tick_vm_def elim!: andThen_eq)
  have low: "sm_state (dm_sm d) < Steady" using assms(2) by (simp add: climbing_def)
  from 1 have same: "d1 = d" by (cases rule: poll_guest_cases) (use low in auto)
  have "drive_up he (d, t1) = (u, (d', t'))"
    using 2 assms(2) by (auto simp: drive_vm_run climbing_def same)
  from drive_up_run [OF this] low obtain r sm where st: "step he (dm_sm d, t1) = (r, (sm, t'))"
    and d': "d' = (case r of Inl e \<Rightarrow> bring_up_failed e (d\<lparr>dm_sm := sm\<rparr>) | Inr s \<Rightarrow> d\<lparr>dm_sm := sm\<rparr>)"
    by (auto simp: state_order)
  show ?thesis
  proof (cases r)
    case (Inl e)
    with d' step_logs [OF st] have "bring_up_error e \<in> set (new_events d d')"
      by (auto simp: new_events_def bring_up_error_def prefix_def)
    then show ?thesis by blast
  next
    case (Inr s)
    have "climb d' < climb d"
      using step_nearer [OF st [unfolded Inr]] climbing_pos [OF assms(2)] d' Inr
      by (simp add: climb_eq) (simp add: climb_def up_dist_def)
    moreover have "sm_state sm \<le> Steady"
      using step_run [OF st] Inr low by (cases "sm_state (dm_sm d)") (simp_all add: state_order)
    ultimately show ?thesis
      using assms(2) d' Inr by (auto simp: climbing_def order.order_iff_strict)
  qed
qed

interpretation going_up: way_law he climbing climb "\<lambda>ev. \<exists>e. ev = bring_up_error e" "\<lambda>d. sm_state (dm_sm d) = Steady" for he
proof
  fix d t u d' t'
  assume "tick_vm he (d, t) = (u, (d', t'))" "climbing d"
  from tick_vm_climbing [OF this]
  show "(climbing d' \<and> climb d' \<le> climb d - 1) \<or> list_ex (\<lambda>ev. \<exists>e. ev = bring_up_error e) (new_events d d') \<or>
      sm_state (dm_sm d') = Steady"
    by (auto simp: list_ex_iff)
qed (simp_all add: caught_up_def climbing_def climb_def)

subsection \<open>The promises of the server\<close>

text \<open>
  C9. One round of the server is a run of the daemon: whatever the sockets deliver and whoever can be
  written to, what the round does to the registry and the outside world is the daemon's moves, in this order
  and no others: every shell command that the clients' complete lines held, one tick with the next number,
  and one pause of 250 milliseconds.
\<close>

theorem server_round_refines:
  "case server_round he json to_json io (sv, t) of (payload, (sv', t')) \<Rightarrow>
     (case drain_clients json (io_reads io) (accept_clients (io_accepts io) (sv_clients sv)) (sv_shell sv) of
        (clients, sb) \<Rightarrow>
          (sv_daemon sv', t') =
            foldl (perform he) (sv_daemon sv, t) (map Command (sb_commands sb) @ [Tick (sv_tick sv + 1), Pause 250]) \<and>
          sv_tick sv' = sv_tick sv + 1)"
  using round_performs by (simp del: foldl_append split: prod.split)

text \<open>
  C8. In every state that the server can reach from its start, by rounds in which the sockets deliver
  anything, the registry is sound, no command waits to be handled, and no buffer of a client holds a
  whole line.
\<close>

theorem server_invariant:
  assumes "server_reachable he json to_json toml (sv, t)"
  shows "daemon_inv (sv_daemon sv) \<and> sv_shell sv = \<lparr>sb_events = [], sb_commands = []\<rparr> \<and>
    list_all (\<lambda>c. line_feed \<notin> set (cl_rx_buf c)) (sv_clients sv)"
  using server_reachable_inv [OF assms] by (simp add: server_inv_def rests_def list_all_iff)

text \<open>
  C6. Over the rounds of the server, a VM that is to stop comes to rest: whatever state it is in, after
  three rounds in which no client sends anything its machine is idle, or a snapshot made in these
  rounds holds, among the VM's events, that a shutdown step failed.
\<close>

theorem server_stop_rests:
  assumes "server_reachable he json to_json toml (sv, t)"
    and "map_of (ds_vms (sv_daemon sv)) name = Some dvm" "dm_desired dvm \<in> {IpcStopped, IpcShuttingDown}"
    and "list_all no_input ios" "length ios = 3"
    and "server_loop he json to_json ios (sv, t) = (outs, (sv', t'))"
  shows "\<exists>dvm'. map_of (ds_vms (sv_daemon sv')) name = Some dvm' \<and>
    (sm_state (dm_sm dvm') = Idle \<or> (\<exists>e. ipc_of_core (shutdown_error e) \<in> set (shown name outs)))"
proof -
  have "stopping dvm" using assms(3) by (simp add: stopping_def)
  from going_down.rounds [OF assms(6,4,1,2) this] assms(5) way_le [of dvm] way_0 show ?thesis by fastforce
qed

text \<open>
  C7. Over the rounds of the server, a VM that is to start comes up: from any state of the bring-up, within
  eleven rounds in which no client sends anything, a snapshot shows it running, or one holds, among the
  VM's events, that a step of the bring-up failed.
\<close>

theorem server_start_runs:
  assumes "server_reachable he json to_json toml (sv, t)"
    and "map_of (ds_vms (sv_daemon sv)) name = Some dvm" "dm_desired dvm = IpcStarting" "sm_state (dm_sm dvm) < Steady"
    and "list_all no_input ios" "length ios = 11"
    and "server_loop he json to_json ios (sv, t) = (outs, (sv', t'))"
  shows "shows_state (shown_states outs) name IpcRunning \<or> (\<exists>e. ipc_of_core (bring_up_error e) \<in> set (shown name outs))"
proof -
  have "climbing dvm" using assms(3,4) by (simp add: climbing_def)
  from going_up.rounds [OF assms(7,5,1,2) this] assms(6) climb_le [of dvm] climbing_pos
  show ?thesis by (fastforce simp: entry_state_def map_vm_state_to_ipc_def)
qed

subsection \<open>Witnesses\<close>

text \<open>A server on which a client starts a VM and stops it in the same read.\<close>

definition demo_os :: os where
  "demo_os = silent_os\<lparr>os_exists := \<lambda>t p. True, os_remove := \<lambda>t p. None, os_read := \<lambda>t p. Inr []\<rparr>"

definition demo_env :: host_env where
  "demo_env = \<lparr>he_os = demo_os, he_cpuid = None, he_hash_order = rev\<rparr>"

definition demo_vm :: "vm_config \<Rightarrow> vm_config" where
  "demo_vm vm = vm\<lparr>vc_cpu := \<lparr>cc_host_cpus = ''0'', cc_vm_cpus = ''1''\<rparr>, vc_qemu := (vc_qemu vm)\<lparr>qc_num_vcpus := 1\<rparr>\<rparr>"

definition demo_root :: "vm_config \<Rightarrow> root_config" where
  "demo_root vm = \<lparr>rc_vm = [(''a'', demo_vm vm)], rc_logging = None\<rparr>"

definition demo_round :: io_round where
  "demo_round = \<lparr>io_accepts = [Accepted 1],
     io_reads = (\<lambda>i. [ReadBytes (''vm start a'' @ [line_feed] @ ''vm stop a'' @ [line_feed])]), io_writes = (\<lambda>i. None)\<rparr>"

definition quiet_round :: io_round where
  "quiet_round = \<lparr>io_accepts = [], io_reads = (\<lambda>i. []), io_writes = (\<lambda>i. None)\<rparr>"

lemma demo_start:
  obtains st t1 where "server_start demo_env (\<lambda>_. Inr (demo_root vm)) (\<lambda>_. True) True [] = (Inr (server_new st), t1)"
    "ds_root_cfg st = Some (demo_root vm)" "ds_vms st = []"
proof -
  let ?toml = "\<lambda>_. Inr (demo_root vm)"
  have ok: "validate (demo_root vm) = Inr ()"
    by (simp add: validate_def demo_root_def demo_vm_def validate_vm_def)
  obtain p t0 where 1: "choose_socket_path demo_os [] = (p, t0)" by (metis prod.exhaust)
  obtain t1 where 2: "remove_stale_socket demo_os p t0 = (Inr (), t1)"
    by (simp add: remove_stale_socket_def andThen_def path_exists_def remove_file_def call_def demo_os_def mapErr_def okR_def)
  have load: "\<exists>evs t'. load_root_config demo_os ?toml t = ((Some (demo_root vm), evs), t')" for t
    using ok by (simp add: load_root_config_def load_default_config_def from_path_def andThen_def bindR_def okR_def
        env_var_def path_exists_def read_to_string_def call_def demo_os_def silent_os_def mapErr_def ret_def)
  have "\<exists>st t2. daemon_new demo_os ?toml t = (st, t2) \<and> ds_root_cfg st = Some (demo_root vm) \<and> ds_vms st = []" for t
    using load [of t] by (auto simp: daemon_new_def andThen_def ret_def split: prod.split)
  then obtain st t2 where "daemon_new demo_os ?toml t1 = (st, t2)" "ds_root_cfg st = Some (demo_root vm)" "ds_vms st = []"
    by blast
  with 1 2 that show ?thesis
    by (simp add: server_start_def demo_env_def andThen_def bindR_def okR_def)
qed

lemma demo_commands:
  "drain_clients (\<lambda>line. Inr (ShellCommand line)) (io_reads demo_round) [client_new 1] \<lparr>sb_events = [], sb_commands = []\<rparr> =
     ([client_new 1], \<lparr>sb_events = map (ipc_event_of IpcShell) [''chalybs> vm start a'', ''chalybs> vm stop a''],
        sb_commands = [''vm start a'', ''vm stop a'']\<rparr>)"
  by (simp add: demo_round_def utf8_valid_def utf8_follow_def in_range_def line_feed_def take_lines_pieces
      client_new_def handle_line_def trim_def is_ws_def Let_def)

lemma demo_entry:
  assumes "ds_root_cfg st = Some (demo_root vm)" "ds_vms st = []"
  shows "\<exists>dvm. ds_vms (snd (gatherA [''vm start a'', ''vm stop a''] handle_shell_command st)) =
    [(''a'', dvm\<lparr>dm_desired := IpcShuttingDown\<rparr>)]"
proof -
  have vm: "map_of (rc_vm (demo_root vm)) ''a'' = Some (demo_vm vm)" by (simp add: demo_root_def)
  have "parse_cpu_list ''0'' = Inr [0]" "parse_cpu_list ''1'' = Inr [1]"
    by (simp_all add: parse_cpu_list_def trim_def is_ws_def parse_cpu_part_def parse_u32_def parse_unsigned_def
        to_digit_def u32_max_def)
  then have "\<exists>dvm. daemon_vm_new ''a'' (demo_vm vm) = Inr dvm"
    by (simp add: daemon_vm_new_def demo_vm_def)
  then obtain dvm where new: "daemon_vm_new ''a'' (demo_vm vm) = Inr dvm" by blast
  have 1: "snd (handle_shell_command ''vm start a'' st) = set_desired ''a'' IpcStarting dvm st"
    using assms new vm
    by (simp add: handle_shell_command_def split_whitespace_def trim_def is_ws_def handle_vm_command_def vm_start_def
        entry_to_start_def)
  have 2: "snd (handle_shell_command ''vm stop a'' (set_desired ''a'' IpcStarting dvm st)) =
      set_desired ''a'' IpcShuttingDown (dvm\<lparr>dm_desired := IpcStarting\<rparr>) (set_desired ''a'' IpcStarting dvm st)"
    using assms vm
    by (simp add: handle_shell_command_def split_whitespace_def trim_def is_ws_def handle_vm_command_def vm_stop_def
        set_desired_def)
  from 1 2 show ?thesis
    by (auto simp: andThen_def ret_def set_desired_def assms(2) split: prod.splits)
qed

lemma server_invariant_witness:
  "\<forall>vm. case server_start demo_env (\<lambda>_. Inr (demo_root vm)) (\<lambda>_. True) True [] of
     (Inl e, t) \<Rightarrow> False
   | (Inr sv, t) \<Rightarrow>
       (case server_round demo_env (\<lambda>line. Inr (ShellCommand line)) (\<lambda>msg. Inr ''{}'') demo_round (sv, t) of
          (payload, (sv', t')) \<Rightarrow> daemon_inv (sv_daemon sv') \<and> sb_commands (sv_shell sv') = [])"
proof
  fix vm
  let ?json = "\<lambda>line. Inr (ShellCommand line) :: string + ipc_message" and ?to_json = "\<lambda>msg. Inr ''{}''"
  obtain st t where start: "server_start demo_env (\<lambda>_. Inr (demo_root vm)) (\<lambda>_. True) True [] = (Inr (server_new st), t)"
    by (rule demo_start)
  obtain payload sv' t' where run: "server_round demo_env ?json ?to_json demo_round (server_new st, t) = (payload, (sv', t'))"
    by (metis prod.exhaust)
  from server_invariant [OF server_reachable.round [OF server_reachable.started [OF start] run]]
  show "case server_start demo_env (\<lambda>_. Inr (demo_root vm)) (\<lambda>_. True) True [] of
     (Inl e, t) \<Rightarrow> False
   | (Inr sv, t) \<Rightarrow>
       (case server_round demo_env (\<lambda>line. Inr (ShellCommand line)) (\<lambda>msg. Inr ''{}'') demo_round (sv, t) of
          (payload, (sv', t')) \<Rightarrow> daemon_inv (sv_daemon sv') \<and> sb_commands (sv_shell sv') = [])"
    by (simp add: start run)
qed

lemma server_stop_rests_witness:
  "\<forall>vm. case server_start demo_env (\<lambda>_. Inr (demo_root vm)) (\<lambda>_. True) True [] of
     (Inl e, t1) \<Rightarrow> False
   | (Inr sv, t1) \<Rightarrow>
       (case server_round demo_env (\<lambda>line. Inr (ShellCommand line)) (\<lambda>msg. Inr ''{}'') demo_round (sv, t1) of
          (payload, s2) \<Rightarrow>
            (case server_loop demo_env (\<lambda>line. Inr (ShellCommand line)) (\<lambda>msg. Inr ''{}'') (replicate 3 quiet_round) s2 of
               (outs, (sv', t')) \<Rightarrow>
                 (\<exists>dvm'. map_of (ds_vms (sv_daemon sv')) ''a'' = Some dvm' \<and>
                    (sm_state (dm_sm dvm') = Idle \<or> (\<exists>e. ipc_of_core (shutdown_error e) \<in> set (shown ''a'' outs))))))"
proof
  fix vm
  let ?json = "\<lambda>line. Inr (ShellCommand line) :: string + ipc_message" and ?to_json = "\<lambda>msg. Inr ''{}''"
  obtain st t1 where start: "server_start demo_env (\<lambda>_. Inr (demo_root vm)) (\<lambda>_. True) True [] = (Inr (server_new st), t1)"
    and st: "ds_root_cfg st = Some (demo_root vm)" "ds_vms st = []"
    by (rule demo_start)
  obtain payload sv2 t2 where 1: "server_round demo_env ?json ?to_json demo_round (server_new st, t1) = (payload, (sv2, t2))"
    by (metis prod.exhaust)
  obtain outs sv' t' where 2: "server_loop demo_env ?json ?to_json (replicate 3 quiet_round) (sv2, t2) = (outs, (sv', t'))"
    by (metis prod.exhaust)
  note reach = server_reachable.started [OF start, where json = ?json and to_json = ?to_json]
  from 1 obtain msg sv1 t3 where a: "server_advance demo_env ?json demo_round (server_new st, t1) = (msg, (sv1, t3))"
    and b: "server_send ?to_json demo_round msg (sv1, t3) = (payload, (sv2, t2))"
    by (auto simp: server_round_def elim!: andThen_eq)
  obtain clients sb vms g bs where
    d: "drain_clients ?json (io_reads demo_round) (accept_clients (io_accepts demo_round) (sv_clients (server_new st)))
       (sv_shell (server_new st)) = (clients, sb)"
    and snap: "build_snapshot demo_env (sv_tick (server_new st) + 1)
       (snd (gatherA (sb_commands sb) handle_shell_command st), t1) = ((vms, g, bs), (sv_daemon sv1, t3))"
    by (rule server_advance_run [OF a]) (simp add: server_new_def)
  have "sb_commands sb = [''vm start a'', ''vm stop a'']"
    using d demo_commands by (simp add: server_new_def demo_round_def)
  with demo_entry [OF st] obtain dvm where
    e: "map_of (ds_vms (snd (gatherA (sb_commands sb) handle_shell_command st))) ''a'' = Some (dvm\<lparr>dm_desired := IpcShuttingDown\<rparr>)"
    by auto
  have "daemon_inv (snd (gatherA (sb_commands sb) handle_shell_command st))"
    using server_reachable_inv(2) [OF reach] daemon_runs_inv [OF gather_commands [of demo_env st t1 "sb_commands sb"]]
    by (simp add: server_new_def)
  from build_snapshot_chain [OF snap this] e obtain ds where
    ds: "ds \<noteq> []" "tick_chain demo_env (dvm\<lparr>dm_desired := IpcShuttingDown\<rparr>) ds"
      "map_of (ds_vms (sv_daemon sv1)) ''a'' = Some (caught_up (last ds))"
    by blast
  define d2 where "d2 = caught_up (last ds)"
  have "stopping d2"
    using chain_stopping [OF ds(2)] ds(1) by (simp add: stopping_def d2_def caught_up_def)
  with ds(3) have "map_of (ds_vms (sv_daemon sv1)) ''a'' = Some d2" "stopping d2" by (simp_all add: d2_def)
  then have "map_of (ds_vms (sv_daemon sv2)) ''a'' = Some d2" "dm_desired d2 \<in> {IpcStopped, IpcShuttingDown}"
    using server_send_run(2) [OF b] by (simp_all add: stopping_def)
  with server_stop_rests [OF server_reachable.round [OF reach 1] _ _ _ _ 2]
  have "\<exists>dvm'. map_of (ds_vms (sv_daemon sv')) ''a'' = Some dvm' \<and>
      (sm_state (dm_sm dvm') = Idle \<or> (\<exists>e. ipc_of_core (shutdown_error e) \<in> set (shown ''a'' outs)))"
    by (simp add: no_input_def quiet_round_def list_all_iff)
  then show "case server_start demo_env (\<lambda>_. Inr (demo_root vm)) (\<lambda>_. True) True [] of
     (Inl e, t1) \<Rightarrow> False
   | (Inr sv, t1) \<Rightarrow>
       (case server_round demo_env (\<lambda>line. Inr (ShellCommand line)) (\<lambda>msg. Inr ''{}'') demo_round (sv, t1) of
          (payload, s2) \<Rightarrow>
            (case server_loop demo_env (\<lambda>line. Inr (ShellCommand line)) (\<lambda>msg. Inr ''{}'') (replicate 3 quiet_round) s2 of
               (outs, (sv', t')) \<Rightarrow>
                 (\<exists>dvm'. map_of (ds_vms (sv_daemon sv')) ''a'' = Some dvm' \<and>
                    (sm_state (dm_sm dvm') = Idle \<or> (\<exists>e. ipc_of_core (shutdown_error e) \<in> set (shown ''a'' outs))))))"
    by (simp add: start 1 2)
qed

text \<open>The same server, on which the client starts the VM and leaves it at that.\<close>

definition start_round :: io_round where
  "start_round = \<lparr>io_accepts = [Accepted 1], io_reads = (\<lambda>i. [ReadBytes (''vm start a'' @ [line_feed])]), io_writes = (\<lambda>i. None)\<rparr>"

lemma start_commands:
  "drain_clients (\<lambda>line. Inr (ShellCommand line)) (io_reads start_round) [client_new 1] \<lparr>sb_events = [], sb_commands = []\<rparr> =
     ([client_new 1], \<lparr>sb_events = [ipc_event_of IpcShell ''chalybs> vm start a''], sb_commands = [''vm start a'']\<rparr>)"
  by (simp add: start_round_def utf8_valid_def utf8_follow_def in_range_def line_feed_def take_lines_pieces
      client_new_def handle_line_def trim_def is_ws_def Let_def)

lemma demo_new: obtains dvm where "daemon_vm_new ''a'' (demo_vm vm) = Inr dvm" "sm_state (dm_sm dvm) = Init"
proof -
  have "parse_cpu_list ''0'' = Inr [0]" "parse_cpu_list ''1'' = Inr [1]"
    by (simp_all add: parse_cpu_list_def trim_def is_ws_def parse_cpu_part_def parse_u32_def parse_unsigned_def
        to_digit_def u32_max_def)
  then show ?thesis using that by (simp add: daemon_vm_new_def demo_vm_def machine_new_def)
qed

lemma first_tick:
  assumes "sm_state (dm_sm d) = Init" "dm_desired d = IpcStarting" "tick_vm he (d, t) = (u, (d', t'))"
  shows "sm_state (dm_sm d') = Validate" "dm_desired d' = IpcStarting"
proof -
  have "step he (dm_sm d, t) = (Inr Validate,
      ((dm_sm d)\<lparr>sm_rt := push_system ''state=Init'' (sm_rt (dm_sm d)), sm_state := Validate\<rparr>, t))"
    using assms(1) by (simp add: step_def advance_run note_rt_def act_simps)
  with assms show "sm_state (dm_sm d') = Validate" "dm_desired d' = IpcStarting"
    by (auto simp: tick_vm_def poll_guest_def drive_vm_towards_desired_def drive_up_def onMachine_def act_simps)
qed

lemma demo_snapshot:
  assumes "build_snapshot he k (st, t) = (out, (st', t'))" "ds_root_cfg st = Some (demo_root vm)" "ds_vms st = [(''a'', d)]"
  shows "\<exists>u t1 d1 d'. tick_vm he (d, t) = (u, (d1, t1)) \<and> map_of (ds_vms st') ''a'' = Some d' \<and>
    dm_sm d' = dm_sm d1 \<and> dm_desired d' = dm_desired d1"
proof -
  obtain s d1 t2 where 1: "observe_vm he ''a'' (demo_vm vm) (d, t) = (s, (d1, t2))" by (metis prod.exhaust)
  from observe_vm_run [OF this] obtain u t1 where "tick_vm he (d, t) = (u, (d1, t1))" .
  moreover have "st' = st\<lparr>ds_vms := [snd (deliver_vm (''a'', d1))]\<rparr>"
    using assms 1 by (simp add: build_snapshot_def snapshot_vms_def demo_root_def snapshot_vm_def andThen_def ret_def
        deliver_events_def)
  ultimately show ?thesis by (auto simp: deliver_vm_def Let_def)
qed

lemma server_start_runs_witness:
  "\<forall>vm. case server_start demo_env (\<lambda>_. Inr (demo_root vm)) (\<lambda>_. True) True [] of
     (Inl e, t1) \<Rightarrow> False
   | (Inr sv, t1) \<Rightarrow>
       (case server_round demo_env (\<lambda>line. Inr (ShellCommand line)) (\<lambda>msg. Inr ''{}'') start_round (sv, t1) of
          (payload, s2) \<Rightarrow>
            (case server_loop demo_env (\<lambda>line. Inr (ShellCommand line)) (\<lambda>msg. Inr ''{}'') (replicate 11 quiet_round) s2 of
               (outs, s') \<Rightarrow>
                 shows_state (shown_states outs) ''a'' IpcRunning \<or>
                 (\<exists>e. ipc_of_core (bring_up_error e) \<in> set (shown ''a'' outs))))"
proof
  fix vm
  let ?json = "\<lambda>line. Inr (ShellCommand line) :: string + ipc_message" and ?to_json = "\<lambda>msg. Inr ''{}''"
  obtain st t1 where start: "server_start demo_env (\<lambda>_. Inr (demo_root vm)) (\<lambda>_. True) True [] = (Inr (server_new st), t1)"
    and st: "ds_root_cfg st = Some (demo_root vm)" "ds_vms st = []"
    by (rule demo_start)
  obtain payload sv2 t2 where 1: "server_round demo_env ?json ?to_json start_round (server_new st, t1) = (payload, (sv2, t2))"
    by (metis prod.exhaust)
  obtain outs sv' t' where 2: "server_loop demo_env ?json ?to_json (replicate 11 quiet_round) (sv2, t2) = (outs, (sv', t'))"
    by (metis prod.exhaust)
  note reach = server_reachable.started [OF start, where json = ?json and to_json = ?to_json]
  from 1 obtain msg sv1 t3 where a: "server_advance demo_env ?json start_round (server_new st, t1) = (msg, (sv1, t3))"
    and b: "server_send ?to_json start_round msg (sv1, t3) = (payload, (sv2, t2))"
    by (auto simp: server_round_def elim!: andThen_eq)
  obtain clients sb vms g bs where
    d: "drain_clients ?json (io_reads start_round) (accept_clients (io_accepts start_round) (sv_clients (server_new st)))
       (sv_shell (server_new st)) = (clients, sb)"
    and snap: "build_snapshot demo_env (sv_tick (server_new st) + 1)
       (snd (gatherA (sb_commands sb) handle_shell_command st), t1) = ((vms, g, bs), (sv_daemon sv1, t3))"
    by (rule server_advance_run [OF a]) (simp add: server_new_def)
  have "sb_commands sb = [''vm start a'']"
    using d start_commands by (simp add: server_new_def start_round_def)
  moreover obtain dvm where new: "daemon_vm_new ''a'' (demo_vm vm) = Inr dvm" "sm_state (dm_sm dvm) = Init"
    by (rule demo_new)
  ultimately have entries: "snd (gatherA (sb_commands sb) handle_shell_command st) =
      st\<lparr>ds_vms := [(''a'', dvm\<lparr>dm_desired := IpcStarting\<rparr>)]\<rparr>"
    using st by (simp add: handle_shell_command_def split_whitespace_def trim_def is_ws_def handle_vm_command_def
        vm_start_def entry_to_start_def demo_root_def andThen_def ret_def set_desired_def)
  from demo_snapshot [OF snap [unfolded entries], of vm "dvm\<lparr>dm_desired := IpcStarting\<rparr>"] st(1) obtain u t4 d1 d2 where tick: "tick_vm demo_env (dvm\<lparr>dm_desired := IpcStarting\<rparr>, t1) = (u, (d1, t4))"
    and d2: "map_of (ds_vms (sv_daemon sv1)) ''a'' = Some d2" "dm_sm d2 = dm_sm d1" "dm_desired d2 = dm_desired d1"
    by auto
  have "dm_desired d2 = IpcStarting" "sm_state (dm_sm d2) < Steady" "map_of (ds_vms (sv_daemon sv2)) ''a'' = Some d2"
    using d2 first_tick [OF _ _ tick] new(2) server_send_run(2) [OF b] by (simp_all add: state_order)
  with server_start_runs [OF server_reachable.round [OF reach 1] _ _ _ _ _ 2]
  have "shows_state (shown_states outs) ''a'' IpcRunning \<or> (\<exists>e. ipc_of_core (bring_up_error e) \<in> set (shown ''a'' outs))"
    by (simp add: no_input_def quiet_round_def list_all_iff)
  with start 1 2 show "case server_start demo_env (\<lambda>_. Inr (demo_root vm)) (\<lambda>_. True) True [] of
     (Inl e, t1) \<Rightarrow> False
   | (Inr sv, t1) \<Rightarrow>
       (case server_round demo_env (\<lambda>line. Inr (ShellCommand line)) (\<lambda>msg. Inr ''{}'') start_round (sv, t1) of
          (payload, s2) \<Rightarrow>
            (case server_loop demo_env (\<lambda>line. Inr (ShellCommand line)) (\<lambda>msg. Inr ''{}'') (replicate 11 quiet_round) s2 of
               (outs, s') \<Rightarrow>
                 shows_state (shown_states outs) ''a'' IpcRunning \<or>
                 (\<exists>e. ipc_of_core (bring_up_error e) \<in> set (shown ''a'' outs))))"
    by simp
qed

end
