(* ===== verification/Chalybs_Confine.thy ===== *)
theory Chalybs_Confine
  imports Chalybs_Rounds
begin

text \<open>
  What the daemon may do to the machine it runs on.  The effects that a configured VM entitles it to
  are listed by component, each from the configuration of that VM: driver files of the PCI bus,
  hugepage counters and their mount, the two cpusets, the process of the VM, its shared memory file,
  and its peripherals.  The frame predicate \<open>within\<close> says of an action that it does nothing else and
  keeps the runtime the VM's own; it has a rule for every combinator and holds of every handler, so of
  a tick, of a round of the server, and in every state that the server reaches.

  The background thread for interrupts is started by a handler but runs beside the server: its
  effects are the subject of \<^verbatim>\<open>Chalybs_Irq\<close>.
\<close>

subsection \<open>What a VM entitles the daemon to\<close>

definition layout_of :: "vm_config \<Rightarrow> vm_cpu_layout" where
  "layout_of c =
     \<lparr>vl_host = unwrap_list (parse_cpu_list (cc_host_cpus (vc_cpu c))),
      vl_vm = unwrap_list (parse_cpu_list (cc_vm_cpus (vc_cpu c)))\<rparr>"

definition wanted_pages :: "vm_config \<Rightarrow> 64 word" where
  "wanted_pages c = required_pages (qc_mem_mb (vc_qemu c))"

fun pci_effect :: "os_event \<Rightarrow> bool" where
  "pci_effect (EvWrite p x ok) \<longleftrightarrow> starts_with ''/sys/bus/pci/drivers/'' p \<or> p = ''/sys/bus/pci/rescan''"
| "pci_effect e \<longleftrightarrow> False"

fun hugepages_effect_of :: "vm_config \<Rightarrow> os_event \<Rightarrow> bool" where
  "hugepages_effect_of c (EvWrite p x ok) \<longleftrightarrow>
     is_provision_event (wanted_pages c) (EvWrite p x ok) \<or> is_provision_event 0 (EvWrite p x ok) \<or>
     (p, x) = (PROC_NR_HUGEPAGES, ''0'' @ nl)"
| "hugepages_effect_of c (EvMount p ok) \<longleftrightarrow> p = HUGEPAGES_MOUNT"
| "hugepages_effect_of c (EvUmount p ok) \<longleftrightarrow> p = HUGEPAGES_MOUNT"
| "hugepages_effect_of c (EvCreateDir p ok) \<longleftrightarrow> p = HUGEPAGES_MOUNT \<or> p = ''/run/chalybs''"
| "hugepages_effect_of c (EvRemove p ok) \<longleftrightarrow> p = HUGEPAGES_MARKER"
| "hugepages_effect_of c e \<longleftrightarrow> False"

fun cpuset_effect :: "vm_config \<Rightarrow> os_event \<Rightarrow> bool" where
  "cpuset_effect c (EvWrite p x ok) \<longleftrightarrow>
     (p, x) = (cgroup_vm_path @ ''/cpuset.cpus'', format_cpu_list (vl_vm (layout_of c))) \<or>
     (p, x) = (cgroup_host_path @ ''/cpuset.cpus'', format_cpu_list (vl_host (layout_of c))) \<or>
     p \<in> {cgroup_vm_path @ ''/cpuset.mems'', cgroup_host_path @ ''/cpuset.mems'', cgroup_vm_path @ ''/cgroup.procs''}"
| "cpuset_effect c (EvCreateDir p ok) \<longleftrightarrow> p \<in> {cgroup_vm_path, cgroup_host_path}"
| "cpuset_effect c (EvSetAffinity tid cpu ok) \<longleftrightarrow> cpu \<in> set (vl_vm (layout_of c))"
| "cpuset_effect c e \<longleftrightarrow> False"

text \<open>A process that some call to spawn has returned.\<close>

definition spawned :: "os \<Rightarrow> int \<Rightarrow> bool" where
  "spawned os pid \<longleftrightarrow> (\<exists>t binary args. os_spawn os t binary args = Inr pid)"

fun process_effect :: "os \<Rightarrow> vm_config \<Rightarrow> os_event \<Rightarrow> bool" where
  "process_effect os c (EvCreateDir p ok) \<longleftrightarrow> p = ''/run/chalybs''"
| "process_effect os c (EvSpawn binary args ok) \<longleftrightarrow> binary = qc_binary (vc_qemu c)"
| "process_effect os c (EvKill pid ok) \<longleftrightarrow> spawned os pid"
| "process_effect os c (EvWait pid ok) \<longleftrightarrow> spawned os pid"
| "process_effect os c (EvThread n) \<longleftrightarrow> n = ''irq_worker''"
| "process_effect os c e \<longleftrightarrow> False"

definition peripheral_of :: "vm_config \<Rightarrow> (peripheral_config \<Rightarrow> 'a option) \<Rightarrow> 'a option" where
  "peripheral_of c part = Option.bind (vc_peripherals c) part"

fun shm_effect :: "looking_glass_config \<Rightarrow> os_event \<Rightarrow> bool" where
  "shm_effect lg (EvCreateDir p ok) \<longleftrightarrow> path_parent (lg_shm_name lg) = Some p"
| "shm_effect lg (EvOpenTruncate p ok) \<longleftrightarrow> p = lg_shm_name lg"
| "shm_effect lg (EvSetLen p n ok) \<longleftrightarrow> p = lg_shm_name lg \<and> n = unat (lg_mem_mb lg * 1024 * 1024)"
| "shm_effect lg (EvChown p u g ok) \<longleftrightarrow> p = lg_shm_name lg"
| "shm_effect lg (EvRemove p ok) \<longleftrightarrow> p = lg_shm_name lg"
| "shm_effect lg e \<longleftrightarrow> False"

definition ddc_effect :: "ddc_config \<Rightarrow> os_event \<Rightarrow> bool" where
  "ddc_effect dc e \<longleftrightarrow> is_ddc_event (ddc_path dc) (dc_vm_input dc) e \<or> is_ddc_event (ddc_path dc) (dc_host_input dc) e"

fun tasmota_effect :: "tasmota_config \<Rightarrow> os_event \<Rightarrow> bool" where
  "tasmota_effect tc (EvMqttConnect host port cl) \<longleftrightarrow>
     parse_mqtt_host tc = Inr (host, port) \<and> cl = ''chalybs-'' @ tc_device_id tc"
| "tasmota_effect tc EvMqttPoll \<longleftrightarrow> True"
| "tasmota_effect tc (EvMqttPublish topic payload ok) \<longleftrightarrow>
     topic = power_topic tc \<and> payload \<in> {power_payload True, power_payload False}"
| "tasmota_effect tc e \<longleftrightarrow> False"

definition opt_effect :: "('c \<Rightarrow> os_event \<Rightarrow> bool) \<Rightarrow> 'c option \<Rightarrow> os_event \<Rightarrow> bool" where
  "opt_effect allowed c e \<longleftrightarrow> (case c of None \<Rightarrow> False | Some cfg \<Rightarrow> allowed cfg e)"

definition permitted :: "os \<Rightarrow> vm_config \<Rightarrow> os_event \<Rightarrow> bool" where
  "permitted os c e \<longleftrightarrow>
     is_readonly e \<or> pci_effect e \<or> hugepages_effect_of c e \<or> cpuset_effect c e \<or> process_effect os c e \<or>
     opt_effect shm_effect (peripheral_of c pc_looking_glass) e \<or>
     opt_effect ddc_effect (peripheral_of c pc_ddc) e \<or>
     opt_effect tasmota_effect (peripheral_of c pc_tasmota) e"

text \<open>The runtime is that VM's own.\<close>

definition owns :: "os \<Rightarrow> vm_config \<Rightarrow> vm_runtime \<Rightarrow> bool" where
  "owns os c rt \<longleftrightarrow> rt_cfg rt = c \<and> rt_cpus rt = layout_of c \<and>
     (case rt_cgroups rt of None \<Rightarrow> True | Some cg \<Rightarrow> cg_vm cg = cgroup_vm_path) \<and>
     (case rt_qemu rt of None \<Rightarrow> True | Some q \<Rightarrow> spawned os (qs_pid q))"

subsection \<open>The frame\<close>

named_theorems within_intros "which actions stay within what a VM entitles to"

definition within :: "(vm_runtime \<Rightarrow> bool) \<Rightarrow> (os_event \<Rightarrow> bool) \<Rightarrow> 'a rt_act \<Rightarrow> bool" where
  "within I P m \<longleftrightarrow>
     (\<forall>rt t. I rt \<longrightarrow> (\<exists>ev. snd (snd (m (rt, t))) = t @ ev \<and> list_all P ev) \<and> I (fst (snd (m (rt, t)))))"

definition yields :: "(vm_runtime \<Rightarrow> bool) \<Rightarrow> 'a rt_act \<Rightarrow> 'a \<Rightarrow> bool" where
  "yields I m x \<longleftrightarrow> (\<exists>rt t s'. I rt \<and> m (rt, t) = (x, s'))"

lemma withinE:
  assumes "within I P m" "m (rt, t) = (x, (rt', t'))" "I rt"
  obtains ev where "t' = t @ ev" "list_all P ev" "I rt'"
  using assms unfolding within_def by (metis fst_conv snd_conv)

lemma withinI:
  assumes "\<And>rt t x rt' t'. I rt \<Longrightarrow> m (rt, t) = (x, (rt', t')) \<Longrightarrow> (\<exists>ev. t' = t @ ev \<and> list_all P ev) \<and> I rt'"
  shows "within I P m"
  using assms unfolding within_def by (metis prod.collapse)

lemma within_basic [within_intros]: "within I P (ret x)" "within I P (okR y)" "within I P (errR e)"
  by (auto simp: within_def act_simps)

lemma within_andThen [within_intros]:
  assumes "within I P m" "\<And>x. yields I m x \<Longrightarrow> within I P (f x)"
  shows "within I P (andThen m f)"
proof (rule withinI)
  fix rt t y rt' t' assume I: "I rt" and run: "andThen m f (rt, t) = (y, (rt', t'))"
  obtain x rt1 t1 where 1: "m (rt, t) = (x, (rt1, t1))" by (metis prod.exhaust)
  with run have 2: "f x (rt1, t1) = (y, (rt', t'))" by (simp add: andThen_def)
  from 1 I have "yields I m x" unfolding yields_def by blast
  note f = assms(2) [OF this]
  obtain a where "t1 = t @ a" "list_all P a" "I rt1" using assms(1) 1 I by (rule withinE)
  moreover obtain b where "t' = t1 @ b" "list_all P b" "I rt'" using f 2 \<open>I rt1\<close> by (rule withinE)
  ultimately show "(\<exists>ev. t' = t @ ev \<and> list_all P ev) \<and> I rt'" by simp
qed

lemma within_bindR [within_intros]:
  "within I P m \<Longrightarrow> (\<And>x. yields I m (Inr x) \<Longrightarrow> within I P (f x)) \<Longrightarrow> within I P (bindR m f)"
  unfolding bindR_as_andThen by (intro within_andThen) (auto split: sum.split intro: within_basic)

lemma within_onOs [within_intros]: "io_emits P m \<Longrightarrow> within I P (onOs m)"
  by (rule withinI) (auto simp: run_simps elim: emitsE)

lemma within_peek [within_intros]: "within I P peek"
  by (rule withinI) (auto simp: run_simps)

lemma within_modify [within_intros]: "(\<And>rt. I rt \<Longrightarrow> I (f rt)) \<Longrightarrow> within I P (modify f)"
  by (rule withinI) (auto simp: run_simps)

lemma within_note [within_intros]: "(\<And>rt. I rt \<Longrightarrow> I (f rt)) \<Longrightarrow> within I P (note_rt f)"
  unfolding note_rt_def by (intro within_intros)

lemma yields_peek [simp]: "yields I peek x = I x"
  by (auto simp: yields_def peek_def)

lemma yields_onOs: "yields I (onOs m) y \<Longrightarrow> \<exists>t t'. m t = (y, t')"
  by (auto simp: yields_def run_onOs_pair)

lemma within_reading [within_intros]: "(\<And>rt. I rt \<Longrightarrow> io_emits P (f rt)) \<Longrightarrow> within I P (reading_rt f)"
  unfolding reading_rt_def by (intro within_intros) simp

lemma within_if [within_intros]:
  "(b \<Longrightarrow> within I P m) \<Longrightarrow> (\<not> b \<Longrightarrow> within I P n) \<Longrightarrow> within I P (if b then m else n)"
  by simp

lemma within_case_sum [within_intros]:
  "(\<And>e. r = Inl e \<Longrightarrow> within I P (f e)) \<Longrightarrow> (\<And>x. r = Inr x \<Longrightarrow> within I P (g x)) \<Longrightarrow>
   within I P (case r of Inl e \<Rightarrow> f e | Inr x \<Rightarrow> g x)"
  by (cases r) simp_all

lemma within_case_option [within_intros]:
  "(r = None \<Longrightarrow> within I P m) \<Longrightarrow> (\<And>x. r = Some x \<Longrightarrow> within I P (g x)) \<Longrightarrow>
   within I P (case r of None \<Rightarrow> m | Some x \<Rightarrow> g x)"
  by (cases r) simp_all

lemma within_case_prod [within_intros]:
  "(\<And>x y. r = (x, y) \<Longrightarrow> within I P (f x y)) \<Longrightarrow> within I P (case r of (x, y) \<Rightarrow> f x y)"
  by (cases r) simp

lemma within_let [within_intros]: "(\<And>x. x = v \<Longrightarrow> within I P (f x)) \<Longrightarrow> within I P (let x = v in f x)"
  by simp

lemma within_transitions [within_intros]:
  assumes "emits snd P m" "\<And>rt ts. I (rt\<lparr>rt_vfio_transitions := ts\<rparr>) = I rt"
  shows "within I P (onTransitions m)"
proof (rule withinI)
  fix rt t x rt' t' assume "I rt" "onTransitions m (rt, t) = (x, (rt', t'))"
  with onTransitions_eq [OF this(2)] assms(2) [where rt = rt and ts = "rt_vfio_transitions rt'"]
  show "(\<exists>ev. t' = t @ ev \<and> list_all P ev) \<and> I rt'" by (auto elim!: emitsE [OF assms(1)])
qed

subsection \<open>The components\<close>

lemma readonly_permitted: "is_readonly e \<Longrightarrow> permitted os c e"
  by (simp add: permitted_def)

lemma effect_permitted:
  "pci_effect e \<Longrightarrow> permitted os c e"
  "hugepages_effect_of c e \<Longrightarrow> permitted os c e"
  "cpuset_effect c e \<Longrightarrow> permitted os c e"
  "process_effect os c e \<Longrightarrow> permitted os c e"
  "opt_effect shm_effect (peripheral_of c pc_looking_glass) e \<Longrightarrow> permitted os c e"
  "opt_effect ddc_effect (peripheral_of c pc_ddc) e \<Longrightarrow> permitted os c e"
  "opt_effect tasmota_effect (peripheral_of c pc_tasmota) e \<Longrightarrow> permitted os c e"
  by (simp_all add: permitted_def)

lemma readonly_emits_permitted: "emits g is_readonly m \<Longrightarrow> emits g (permitted os c) m"
  by (rule emits_mono [OF _ readonly_permitted])

lemma owns_push [simp]: "owns os c (push_event k m rt) = owns os c rt"
  by (simp add: owns_def push_event_def)

lemma owns_fields [simp]:
  "owns os c (rt\<lparr>rt_vfio_transitions := ts\<rparr>) = owns os c rt"
  "owns os c (rt\<lparr>rt_cpu_plan := p\<rparr>) = owns os c rt"
  "owns os c (rt\<lparr>rt_pinned_threads := b\<rparr>) = owns os c rt"
  "owns os c (rt\<lparr>rt_pinned_irqs := b\<rparr>) = owns os c rt"
  "owns os c (rt\<lparr>rt_tasmota_powered := b\<rparr>) = owns os c rt"
  "owns os c (clear_hugepages rt) = owns os c rt"
  "owns os c (record_hugepages node pages msg rt) = owns os c rt"
  by (simp_all add: owns_def clear_hugepages_def record_hugepages_def push_defs)

text \<open>What each call of a handler does, as a permission.\<close>

named_theorems calls_permitted "which calls a VM entitles to"

lemma reading_calls [calls_permitted]:
  "io_emits (permitted os c) (scan os')"
  "io_emits (permitted os c) (topology_from_sysfs os')"
  "io_emits (permitted os c) (discover_numa_topology os')"
  "io_emits (permitted os c) (discover_vcpus os' pid)"
  "io_emits (permitted os c) (wait_loop os' pid n k)"
  "io_emits (permitted os c) (preflight_gpu_policy os' name c')"
  "io_emits (permitted os c) (verify_vm_vfio_bindings os' name c')"
  by (intro readonly_emits_permitted emits_intros)+

lemma preflights [calls_permitted]:
  "io_emits (permitted os c) (preflight os')"
  "io_emits (permitted os c) (qemu_preflight os' rt)"
  unfolding preflight_def qemu_preflight_def Let_def by (intro emits_intros; simp add: permitted_def)+

lemma driver_write_permitted: "is_driver_write e \<Longrightarrow> permitted os c e"
  by (cases e) (auto intro: effect_permitted(1) readonly_permitted)

lemmas driver_calls [calls_permitted] =
  emits_mono [OF driver_writes(1) driver_write_permitted] emits_mono [OF driver_writes(2) driver_write_permitted]

lemma restore_pci: "is_restore_event ts (EvWrite p x ok) \<Longrightarrow> pci_effect (EvWrite p x ok)"
  by (fastforce simp: list_ex_iff split: option.splits)

lemma restore_permitted: "is_restore_event ts e \<Longrightarrow> permitted os c e"
  by (cases e) (auto intro: effect_permitted(1) restore_pci readonly_permitted simp del: pci_effect.simps is_restore_event.simps(1))

lemma restore_calls [calls_permitted]: "io_emits (permitted os c) (restore_pci_devices_for_vm os' rt)"
  unfolding restore_pci_devices_for_vm_def
  by (intro emits_intros) (rule emits_mono [OF restore_impl_event restore_permitted])

lemma provision_permitted:
  assumes "is_provision_event pages e" "pages = wanted_pages c \<or> pages = 0"
  shows "permitted os c e"
  using assms effect_permitted(2) [of c e os] readonly_permitted [of e os c]
  by (cases e) (auto simp del: is_provision_event.simps(1))

lemma provision_emits:
  assumes "emits g (is_provision_event pages) m" "pages = wanted_pages c \<or> pages = 0"
  shows "emits g (permitted os c) m"
  by (rule emits_mono [OF assms(1)]) (rule provision_permitted [OF _ assms(2)])

lemmas provision_calls [calls_permitted] =
  provision_emits [OF counters_readonly disjI2 [OF refl]] provision_emits [OF drop_caches_event disjI2 [OF refl]]
  provision_emits [OF mount_event disjI2 [OF refl]] provision_emits [OF select_event disjI2 [OF refl]]
  provision_emits [OF write_node_event disjI1 [OF refl]] provision_emits [OF write_node_event disjI2 [OF refl]]

lemma unmount_call [calls_permitted]: "io_emits (permitted os c) (cleanup_hugetlbfs_mount os')"
  unfolding cleanup_hugetlbfs_mount_def by (intro emits_intros) (simp_all add: permitted_def)

subsection \<open>The handlers\<close>

lemma plan_cpus_within [within_intros]: "within (owns os c) (permitted os c) (plan_cpus he)"
  unfolding plan_cpus_def
  by (intro within_intros calls_permitted) (simp_all add: push_abbrevs)

lemma validate_within: "within (owns os c) (permitted os c) (do_validate he)"
  unfolding do_validate_def
  by (intro within_intros calls_permitted) (simp_all add: push_abbrevs)

lemma attempts_within [within_intros]:
  "within (owns os c) (permitted os c) (provision_attempts os' node (wanted_pages c) later nr fr)"
proof (induction later arbitrary: nr fr)
  case (Cons a later)
  show ?case
    unfolding provision_attempts.simps
    by (intro within_intros calls_permitted emits_intros Cons.IH) simp
qed (auto intro: within_intros)

lemma hugepages_within: "within (owns os c) (permitted os c) (do_hugepages he)"
proof -
  have cfg: "required_pages (qc_mem_mb (vc_qemu (rt_cfg rt))) = wanted_pages c" if "owns os c rt" for rt
    using that by (simp add: owns_def wanted_pages_def)
  show ?thesis
    unfolding do_hugepages_def provision_for_vm_def
    by (intro within_intros calls_permitted) (auto simp: push_abbrevs cfg intro: within_intros)
qed

lemma cleanup_hugepages_within [within_intros]: "within (owns os c) (permitted os c) (cleanup_for_vm os')"
  unfolding cleanup_for_vm_def
  by (intro within_intros calls_permitted emits_intros) (auto simp: push_abbrevs intro: effect_permitted)

lemma execute_action_emits: "emits snd (permitted os c) (execute_action os' pci action)"
  unfolding execute_action_def
  by (auto intro!: emits_intros calls_permitted split: option.split vfio_action_kind.split)

lemma prepare_pci_within: "within (owns os c) (permitted os c) (do_prepare_pci he)"
  unfolding do_prepare_pci_def stage_pci_devices_for_vm_def execute_plan_def
  by (intro within_intros calls_permitted emits_intros execute_action_emits) (simp_all add: push_abbrevs)

lemma cpuset_writes:
  assumes "owns os c rt"
  shows
    "permitted os c (EvWrite (cgroup_vm_path @ ''/cpuset.cpus'') (format_cpu_list (vl_vm (rt_cpus rt))) ok)"
    "permitted os c (EvWrite (cgroup_host_path @ ''/cpuset.cpus'') (format_cpu_list (vl_host (rt_cpus rt))) ok)"
    "permitted os c (EvWrite (cgroup_vm_path @ ''/cpuset.mems'') x ok)"
    "permitted os c (EvWrite (cgroup_host_path @ ''/cpuset.mems'') x ok)"
    "permitted os c (EvWrite (cgroup_vm_path @ ''/cgroup.procs'') x ok)"
    "permitted os c (EvCreateDir cgroup_vm_path ok)" "permitted os c (EvCreateDir cgroup_host_path ok)"
  using assms by (auto simp: owns_def intro!: effect_permitted(3) simp del: append_Cons append_Nil)

lemma reserve_within: "within (owns os c) (permitted os c) (do_reserve_cpus he)"
proof -
  have made: "owns os c (rt\<lparr>rt_cgroups := Some \<lparr>cg_root = r, cg_vm = cgroup_vm_path, cg_host = h\<rparr>\<rparr>)"
    if "owns os c rt" for rt r h
    using that by (simp add: owns_def)
  show ?thesis
    unfolding do_reserve_cpus_def reserve_cpus_def create_cpuset_def io_err_def
    by (intro within_intros calls_permitted emits_intros) (auto simp: push_abbrevs intro: cpuset_writes made)
qed

lemma shm_permitted:
  assumes "looking_glass_of rt = Some lg" "owns os c rt" "shm_effect lg e"
  shows "permitted os c e"
  using assms by (intro effect_permitted(5)) (simp add: opt_effect_def peripheral_of_def looking_glass_of_def owns_def)

lemma first_user_readonly: "io_emits is_readonly (first_user os' names)"
  by (induction names) (auto intro!: emits_intros)

lemma detect_username_readonly [emits_intros]: "io_emits is_readonly (detect_desktop_username os')"
  unfolding detect_desktop_username_def by (intro first_user_readonly)

lemma prepare_shm_emits: "owns os c rt \<Longrightarrow> io_emits (permitted os c) (prepare_looking_glass_shm os' rt)"
  unfolding prepare_looking_glass_shm_def create_parent_def own_shm_def chown_path_def lookup_user_def
    lookup_group_def
  by (intro emits_intros readonly_emits_permitted [OF detect_username_readonly]) (auto intro: shm_permitted readonly_permitted)

lemma cleanup_shm_emits: "owns os c rt \<Longrightarrow> io_emits (permitted os c) (cleanup_looking_glass_shm os' rt)"
  unfolding cleanup_looking_glass_shm_def by (intro emits_intros) (auto intro: shm_permitted)

lemma move_emits: "owns os c rt \<Longrightarrow> io_emits (permitted os c) (move_to_cpuset os' rt pid)"
  unfolding move_to_cpuset_def
  by (intro emits_intros) (auto simp: owns_def intro: readonly_permitted effect_permitted(3))

lemma spawn_result: "mapErr h (spawn_process os binary args) t = (Inr pid, t') \<Longrightarrow> spawned os pid"
  by (auto simp: spawn_process_def call_def spawned_def)

lemma build_command_binary: "build_command cpuid rt = Inr cmd \<Longrightarrow> qx_binary cmd = qc_binary (vc_qemu (rt_cfg rt))"
  by (auto simp: build_command_def Let_def split: sum.splits option.splits if_splits)

lemma launch_within [within_intros]: "within (owns os c) (permitted os c) (launch os cpuid)"
proof -
  have run: "owns os c (rt\<lparr>rt_qemu := Some \<lparr>qs_pid = pid\<rparr>\<rparr>)" if "owns os c rt" "spawned os pid" for rt pid
    using that by (simp add: owns_def)
  have spawn: "permitted os c (EvSpawn (qx_binary cmd) as ok)" if "build_command cpuid rt = Inr cmd" "owns os c rt"
    for rt cmd as ok
    using that build_command_binary [OF that(1)] by (intro effect_permitted(4)) (simp add: owns_def)
  have dir: "permitted os c (EvCreateDir ''/run/chalybs'' ok)" for ok by (intro effect_permitted(4)) simp
  show ?thesis
    unfolding launch_def
    by (intro within_intros prepare_shm_emits move_emits emits_intros)
      (auto intro: run spawn dir dest!: yields_onOs spawn_result)
qed

lemma do_launch_within: "within (owns os c) (permitted os c) (do_launch he)" if "he_os he = os"
  unfolding do_launch_def that
  by (intro within_intros) (auto simp: push_abbrevs split: option.split)

lemma threads_within: "within (owns os c) (permitted os c) (do_detect_threads he)"
  unfolding do_detect_threads_def wait_for_qemu_threads_def wait_for_qemu_threads_impl_def
  by (intro within_intros emits_intros calls_permitted) (simp_all add: push_abbrevs)

lemma pin_one_emits: "owns os c rt \<Longrightarrow> io_emits (permitted os c) (pin_one os' (vl_vm (rt_cpus rt)) item)"
  unfolding pin_one_def Let_def
  by (intro emits_intros) (auto simp: owns_def intro!: effect_permitted(3))

lemma pin_within: "within (owns os c) (permitted os c) (do_pin_vcpus he)"
  unfolding do_pin_vcpus_def pin_vcpus_def pin_vcpus_impl_def
  by (intro within_intros emits_intros calls_permitted) (auto simp: push_abbrevs intro: pin_one_emits)

lemma msi_within: "within (owns os c) (permitted os c) (do_detect_msi he)"
  unfolding do_detect_msi_def spawn_irq_pin_worker_def
  by (intro within_intros emits_intros) (auto simp: push_abbrevs intro: effect_permitted(4))

lemma irqs_within: "within (owns os c) (permitted os c) do_pin_irqs"
  unfolding do_pin_irqs_def by (intro within_intros) (simp_all add: push_abbrevs)

lemma ddc_calls:
  assumes "peripheral_of c pc_ddc = Some dc" "input \<in> {dc_vm_input dc, dc_host_input dc}"
  shows "io_emits (permitted os c) (ddc_set_input os' dc input)"
proof (rule emits_mono [OF ddc_set_input_event])
  fix e assume "is_ddc_event (ddc_path dc) input e"
  with assms show "permitted os c e" by (intro effect_permitted(6)) (auto simp: opt_effect_def ddc_effect_def)
qed

lemma await_emits: "P EvMqttPoll \<Longrightarrow> io_emits P (await_connack os' n)"
  by (induction n) (auto intro!: emits_intros split: mqtt_event.split)

lemma tasmota_calls:
  assumes "peripheral_of c pc_tasmota = Some tc"
  shows "io_emits (permitted os c) (publish_power os' tc on)"
proof -
  have ok: "permitted os c e" if "tasmota_effect tc e" for e
    using that assms by (intro effect_permitted(7)) (simp add: opt_effect_def)
  show ?thesis
    unfolding publish_power_def
    by (intro emits_intros await_emits)
      (auto intro!: emits_intros ok split: mqtt_event.split simp: power_payload_def)
qed

lemma hooks_within:
  "peripheral_of c pc_tasmota = Some tc \<Longrightarrow> within (owns os c) (permitted os c) (tasmota_vm_up os' tc)"
  "peripheral_of c pc_tasmota = Some tc \<Longrightarrow> within (owns os c) (permitted os c) (tasmota_vm_down os' tc)"
  "peripheral_of c pc_ddc = Some dc \<Longrightarrow> within (owns os c) (permitted os c) (ddc_gate os' dc)"
  "peripheral_of c pc_ddc = Some dc \<Longrightarrow> within (owns os c) (permitted os c) (ddc_vm_down os' dc)"
  unfolding tasmota_vm_up_def tasmota_vm_down_def ddc_gate_def ddc_vm_up_def ddc_vm_down_def
  by (intro within_intros tasmota_calls ddc_calls; auto simp: push_abbrevs)+

lemma quiet_hooks_within [within_intros]:
  "within I P (lg_vm_up l)" "within I P (lg_vm_down l)" "within I P (spice_vm_up s)" "within I P (spice_vm_down s)"
  by (simp_all add: lg_vm_up_def lg_vm_down_def spice_vm_up_def spice_vm_down_def within_basic)

lemma opt_hook_within: "(\<And>cfg. c = Some cfg \<Longrightarrow> within I P (hook cfg)) \<Longrightarrow> within I P (opt_hook c hook)"
  by (simp add: opt_hook_def within_basic split: option.split)

lemma peripherals_within: "within (owns os c) (permitted os c) (do_peripherals he)"
  unfolding do_peripherals_def apply_vm_up_def
  by (intro within_intros opt_hook_within hooks_within) (auto simp: push_abbrevs owns_def peripheral_of_def)

lemma vm_down_within [within_intros]: "within (owns os c) (permitted os c) (apply_vm_down os')"
  unfolding apply_vm_down_def
  by (intro within_intros opt_hook_within hooks_within) (auto simp: owns_def peripheral_of_def)

lemma stop_within: "within (owns os c) (permitted os c) (do_stop he a b)"
proof -
  have gone: "owns os c (rt\<lparr>rt_qemu := None\<rparr>)" if "owns os c rt" for rt
    using that by (simp add: owns_def)
  have kill: "permitted os c (EvKill (qs_pid q) ok)" "permitted os c (EvWait (qs_pid q) ok)"
    if "owns os c rt" "rt_qemu rt = Some q" for rt q ok
    using that by (auto simp: owns_def intro!: effect_permitted(4))
  show ?thesis
    unfolding do_stop_def qemu_shutdown_def
    by (intro within_intros emits_intros cleanup_shm_emits) (auto simp: push_abbrevs intro: gone kill)
qed

lemma teardown_within: "within (owns os c) (permitted os c) (do_teardown he)"
  unfolding do_teardown_def cleanup_cpus_def destroy_cpuset_def
  by (intro within_intros calls_permitted) (simp_all add: push_abbrevs)

lemmas handlers_within =
  validate_within hugepages_within prepare_pci_within reserve_within do_launch_within threads_within pin_within
  msi_within irqs_within peripherals_within stop_within teardown_within

subsection \<open>Ticks and rounds\<close>

definition stays :: "(os_event \<Rightarrow> bool) \<Rightarrow> trace \<Rightarrow> trace \<Rightarrow> bool" where
  "stays P t t' \<longleftrightarrow> (\<exists>ev. t' = t @ ev \<and> list_all P ev)"

lemma stays_refl [simp]: "stays P t t"
  by (simp add: stays_def)

lemma stays_trans: "stays P a b \<Longrightarrow> stays P b c \<Longrightarrow> stays P a c"
  unfolding stays_def by (metis append_assoc list_all_append)

lemma stays_mono: "stays P a b \<Longrightarrow> (\<And>e. P e \<Longrightarrow> Q e) \<Longrightarrow> stays Q a b"
  unfolding stays_def list_all_iff by blast

lemma stays_emits: "io_emits P m \<Longrightarrow> m t = (x, t') \<Longrightarrow> stays P t t'"
  by (auto simp: stays_def elim: emitsE)

lemma advance_stays:
  assumes "advance m n (sm, t) = (r, (sm', t'))" "within I P m" "I (sm_rt sm)"
  shows "stays P t t' \<and> I (sm_rt sm')"
proof -
  obtain x rt t1 where 1: "m (sm_rt sm, t) = (x, (rt, t1))" by (metis prod.exhaust)
  with assms(1) have "t' = t1" "sm_rt sm' = rt" by (auto simp: advance_run split: sum.splits)
  with withinE [OF assms(2) 1 assms(3)] show ?thesis by (metis stays_def)
qed

lemma step_stays:
  assumes "step he (sm, t) = (r, (sm', t'))" "owns (he_os he) c (sm_rt sm)"
  shows "stays (permitted (he_os he) c) t t' \<and> owns (he_os he) c (sm_rt sm')"
proof (cases "sm_state sm \<in> {Steady, Shutdown, Cleanup, Idle}")
  case True
  with assms show ?thesis
    by (auto simp: step_def bindR_def onRt_def current_def note_rt_def act_simps push_abbrevs)
next
  case False
  have note_init: "within (owns (he_os he) c) (permitted (he_os he) c) (note_rt (push_system ''state=Init''))"
    by (intro within_intros) (simp add: push_abbrevs)
  from False assms(1) obtain m n where "advance m n (sm, t) = (r, (sm', t'))"
    "within (owns (he_os he) c) (permitted (he_os he) c) m"
    using note_init handlers_within by (cases "sm_state sm") (auto simp: step_def)
  from advance_stays [OF this assms(2)] show ?thesis .
qed

lemma step_shutdown_stays:
  assumes "step_shutdown he (sm, t) = (r, (sm', t'))" "owns (he_os he) c (sm_rt sm)"
  shows "stays (permitted (he_os he) c) t t' \<and> owns (he_os he) c (sm_rt sm')"
proof (cases "sm_state sm \<in> {Cleanup, Idle}")
  case True
  with assms show ?thesis
    by (auto simp: step_shutdown_def bindR_def onRt_def current_def goto_def note_rt_def act_simps push_abbrevs)
next
  case False
  from False assms(1) obtain m n where "advance m n (sm, t) = (r, (sm', t'))"
    "within (owns (he_os he) c) (permitted (he_os he) c) m"
    using handlers_within by (cases "sm_state sm") (auto simp: step_shutdown_def)
  from advance_stays [OF this assms(2)] show ?thesis .
qed

abbreviation dm_owns :: "os \<Rightarrow> vm_config \<Rightarrow> daemon_vm \<Rightarrow> bool" where
  "dm_owns os c dvm \<equiv> owns os c (sm_rt (dm_sm dvm))"

lemma drive_stays:
  assumes "drive_vm_towards_desired he (dvm, t) = (u, (dvm', t'))" "dm_owns (he_os he) c dvm"
  shows "stays (permitted (he_os he) c) t t' \<and> dm_owns (he_os he) c dvm'"
proof (cases "dm_desired dvm \<in> {IpcRunning, IpcStarting}")
  case True
  with assms(1) have "drive_up he (dvm, t) = (u, (dvm', t'))" by (simp add: drive_vm_run)
  from drive_up_run [OF this] show ?thesis
  proof (elim disjE exE conjE)
    fix r sm assume st: "step he (dm_sm dvm, t) = (r, sm, t')"
      and d: "dvm' = (case r of Inl e \<Rightarrow> bring_up_failed e (dvm\<lparr>dm_sm := sm\<rparr>) | Inr s \<Rightarrow> dvm\<lparr>dm_sm := sm\<rparr>)"
    from step_stays [OF st assms(2)] d show ?thesis by (cases r) simp_all
  qed (use assms(2) in simp_all)
next
  case False
  with assms(1) have "drive_down he (dvm, t) = (u, (dvm', t'))" by (simp add: drive_vm_run)
  from drive_down_run [OF this] show ?thesis
  proof (elim disjE exE conjE)
    fix r sm assume st: "step_shutdown he (dm_sm dvm, t) = (r, sm, t')"
      and d: "dvm' = (case r of Inl e \<Rightarrow> shutdown_failed e (dvm\<lparr>dm_sm := sm\<rparr>) | Inr s \<Rightarrow> dvm\<lparr>dm_sm := sm\<rparr>)"
    from step_shutdown_stays [OF st assms(2)] d show ?thesis by (cases r) simp_all
  qed (use assms(2) in simp_all)
qed

lemma poll_stays:
  assumes "poll_guest (he_os he) (dvm, t) = (u, (dvm', t'))" "dm_owns (he_os he) c dvm"
  shows "stays (permitted (he_os he) c) t t' \<and> dm_owns (he_os he) c dvm'"
proof
  have gone: "dm_owns (he_os he) c (guest_gone dvm)" using assms(2) by (simp add: owns_def)
  show "dm_owns (he_os he) c dvm'"
    using assms(1) by (cases rule: poll_guest_cases) (use assms(2) gone in simp_all)
  have "emits snd (permitted (he_os he) c) (poll_guest (he_os he))"
    unfolding poll_guest_def by (intro emits_intros) (simp_all add: permitted_def)
  from emitsE [OF this assms(1)] show "stays (permitted (he_os he) c) t t'" by (auto simp: stays_def)
qed

lemma observe_stays:
  assumes "observe_vm he name cfg (dvm, t) = (status, (dvm', t'))" "dm_owns (he_os he) c dvm"
  shows "stays (permitted (he_os he) c) t t' \<and> dm_owns (he_os he) c dvm'"
proof -
  let ?P = "permitted (he_os he) c"
  obtain u dvm1 t1 where 1: "poll_guest (he_os he) (dvm, t) = (u, (dvm1, t1))" by (metis prod.exhaust)
  obtain v dvm2 t2 where 2: "drive_vm_towards_desired he (dvm1, t1) = (v, (dvm2, t2))" by (metis prod.exhaust)
  let ?sample = "if map_vm_state_to_ipc (sm_state (dm_sm dvm2)) = IpcRunning
    then snapshot_vm_cpu_sample (he_os he) (sm_rt (dm_sm dvm2)) else ret None"
  obtain sample t3 where 3: "?sample t2 = (sample, t3)" by (metis prod.exhaust)
  have "tick_vm he (dvm, t) = (v, (dvm2, t2))" using 1 2 by (simp add: tick_vm_def andThen_def)
  with assms(1) 3 have eq: "dvm' = dvm2" "t' = t3"
    by (simp_all add: observe_vm_def andThen_def peek_def onOs_def ret_def Let_def)
  have "io_emits ?P ?sample"
    unfolding snapshot_vm_cpu_sample_def by (intro emits_intros) (simp_all add: permitted_def)
  from stays_emits [OF this 3] have "stays ?P t2 t3" .
  with poll_stays [OF 1 assms(2)] drive_stays [OF 2] eq show ?thesis by (auto intro: stays_trans)
qed

text \<open>The registry: every entry is the VM's own, and the daemon is entitled to what some VM entitles it to.\<close>

definition roster :: "os \<Rightarrow> (string \<times> vm_config) list \<Rightarrow> (string \<times> daemon_vm) list \<Rightarrow> bool" where
  "roster os cfgs vms \<longleftrightarrow>
     (\<forall>name dvm. map_of vms name = Some dvm \<longrightarrow> (\<exists>c. map_of cfgs name = Some c \<and> dm_owns os c dvm))"

definition entitled :: "os \<Rightarrow> daemon_state \<Rightarrow> os_event \<Rightarrow> bool" where
  "entitled os st e \<longleftrightarrow> is_readonly e \<or>
     (case ds_root_cfg st of None \<Rightarrow> False | Some root \<Rightarrow> list_ex (\<lambda>(name, c). permitted os c e) (rc_vm root))"

definition some_vm :: "os \<Rightarrow> (string \<times> vm_config) list \<Rightarrow> os_event \<Rightarrow> bool" where
  "some_vm os cfgs e \<longleftrightarrow> list_ex (\<lambda>(name, c). permitted os c e) cfgs"

lemma some_vmI: "map_of cfgs name = Some c \<Longrightarrow> permitted os c e \<Longrightarrow> some_vm os cfgs e"
  by (auto simp: some_vm_def list_ex_iff dest!: map_of_SomeD)

lemma snapshot_vm_stays:
  assumes "snapshot_vm he name cfg (vms, t) = (status, (vms', t'))" "roster (he_os he) cfgs vms"
  shows "stays (some_vm (he_os he) cfgs) t t' \<and> roster (he_os he) cfgs vms'"
proof (cases "map_of vms name")
  case None
  with assms show ?thesis by (auto simp: snapshot_vm_def)
next
  case (Some dvm)
  obtain st dvm' t1 where 1: "observe_vm he name cfg (dvm, t) = (st, (dvm', t1))" by (metis prod.exhaust)
  with assms(1) Some have vms': "vms' = hm_insert name dvm' vms" "t' = t1" by (simp_all add: snapshot_vm_def)
  from assms(2) Some obtain c where c: "map_of cfgs name = Some c" "dm_owns (he_os he) c dvm" by (auto simp: roster_def)
  from observe_stays [OF 1 c(2)] have "stays (some_vm (he_os he) cfgs) t t'" "dm_owns (he_os he) c dvm'"
    using vms'(2) by (auto elim!: stays_mono intro: some_vmI [OF c(1)])
  with assms(2) c(1) vms'(1) show ?thesis unfolding roster_def by (auto simp del: map_of_eq_Some_iff)
qed

lemma snapshot_vms_stays:
  assumes "snapshot_vms he cfgs (vms, t) = (ss, (vms', t'))" "roster (he_os he) cfgs vms"
  shows "stays (some_vm (he_os he) cfgs) t t' \<and> roster (he_os he) cfgs vms'"
proof -
  let ?body = "\<lambda>name. case map_of cfgs name of None \<Rightarrow> ret []
    | Some cfg \<Rightarrow> andThen (snapshot_vm he name cfg) (\<lambda>status. ret [status])"
  have "stays (some_vm (he_os he) cfgs) t t' \<and> roster (he_os he) cfgs vms'"
    if "gatherA names ?body (vms, t) = (ss, (vms', t'))" "roster (he_os he) cfgs vms" for names vms t ss vms' t'
    using that
  proof (induction names arbitrary: vms t ss)
    case (Cons name names)
    obtain y vms1 t1 where 1: "?body name (vms, t) = (y, (vms1, t1))" by (metis prod.exhaust)
    obtain zs s2 where 2: "gatherA names ?body (vms1, t1) = (zs, s2)" by (cases "gatherA names ?body (vms1, t1)")
    from Cons.prems(1) 1 2 have s2: "s2 = (vms', t')" by (simp add: andThen_def ret_def)
    have "stays (some_vm (he_os he) cfgs) t t1 \<and> roster (he_os he) cfgs vms1"
    proof (cases "map_of cfgs name")
      case None
      with 1 Cons.prems(2) show ?thesis by (simp add: ret_def)
    next
      case (Some cfg)
      with 1 obtain st where "snapshot_vm he name cfg (vms, t) = (st, (vms1, t1))"
        by (auto simp: andThen_def ret_def split: prod.splits)
      from snapshot_vm_stays [OF this Cons.prems(2)] show ?thesis .
    qed
    with Cons.IH [OF 2 [unfolded s2]] show ?case by (blast intro: stays_trans)
  qed (simp add: ret_def)
  from this [OF assms(1) [unfolded snapshot_vms_def] assms(2)] show ?thesis .
qed

definition roster_inv :: "os \<Rightarrow> daemon_state \<Rightarrow> bool" where
  "roster_inv os st \<longleftrightarrow>
     (case ds_root_cfg st of None \<Rightarrow> ds_vms st = [] | Some root \<Rightarrow> roster os (rc_vm root) (ds_vms st))"

lemma roster_caught_up: "roster os cfgs vms \<Longrightarrow> roster os cfgs (map (\<lambda>(n, d). (n, caught_up d)) vms)"
  unfolding roster_def map_of_caught_up by (fastforce simp: caught_up_def)

lemma build_snapshot_stays:
  assumes "build_snapshot he k (st, t) = (out, (st', t'))" "daemon_inv st" "roster_inv (he_os he) st"
  shows "stays (entitled (he_os he) st) t t' \<and> roster_inv (he_os he) st' \<and> ds_root_cfg st' = ds_root_cfg st"
proof (cases "ds_root_cfg st")
  case None
  with assms show ?thesis
    by (auto simp: build_snapshot_def roster_inv_def deliver_events_def daemon_inv_def)
next
  case (Some root)
  obtain ss vms t1 where 1: "snapshot_vms he (rc_vm root) (ds_vms st, t) = (ss, (vms, t1))" by (metis prod.exhaust)
  from assms(3) Some have r: "roster (he_os he) (rc_vm root) (ds_vms st)" by (simp add: roster_inv_def)
  note run = snapshot_vms_stays [OF 1 r]
  from assms(2) Some have "vms_inv (rc_vm root) (ds_vms st)" by (simp add: daemon_inv_def)
  with snapshot_vms_registry [OF 1] have "vms_inv (rc_vm root) vms" by blast
  then have "\<forall>(n, d) \<in> set vms. dm_cursor d \<le> length (rt_events (sm_rt (dm_sm d)))"
    by (fastforce simp: vms_inv_def entry_inv_def)
  from assms(1) Some 1 deliver_events_eq [OF this]
  have st': "st' = st\<lparr>ds_vms := map (\<lambda>(n, d). (n, caught_up d)) vms\<rparr>" "t' = t1"
    by (auto simp: build_snapshot_def)
  have "stays (entitled (he_os he) st) t t'"
    using conjunct1 [OF run] st'(2) Some by (auto elim!: stays_mono simp: entitled_def some_vm_def)
  with run st'(1) Some roster_caught_up show ?thesis by (simp add: roster_inv_def)
qed

subsection \<open>Every round of the server\<close>

lemma fresh_owns: "daemon_vm_new name c = Inr dvm \<Longrightarrow> dm_owns os c dvm"
  by (auto simp: daemon_vm_new_def owns_def machine_new_def vm_runtime_new_def layout_of_def unwrap_list_def
      split: sum.splits)

lemma shell_effect_roster:
  assumes "shell_effect st st'" "roster_inv os st"
  shows "roster_inv os st' \<and> ds_root_cfg st' = ds_root_cfg st"
proof (cases "st' = st")
  case False
  with assms(1) obtain root name c want dvm where root: "ds_root_cfg st = Some root"
    and c: "map_of (rc_vm root) name = Some c" and ch: "chosen_entry st name c want dvm"
    and st': "st' = set_desired name want dvm st"
    by (auto simp: shell_effect_def)
  from assms(2) root have r: "roster os (rc_vm root) (ds_vms st)" by (simp add: roster_inv_def)
  have "dm_owns os c dvm"
    using ch r c fresh_owns unfolding chosen_entry_def roster_def by (metis option.inject)
  with r c root st' show ?thesis
    by (auto simp: roster_inv_def roster_def set_desired_def simp del: map_of_eq_Some_iff)
qed (use assms(2) in simp)

definition lawful :: "host_env \<Rightarrow> daemon_state \<Rightarrow> bool" where
  "lawful he st \<longleftrightarrow> daemon_inv st \<and> roster_inv (he_os he) st"

lemma daemon_trans_stays:
  "daemon_trans he s s' \<Longrightarrow> lawful he (fst s) \<Longrightarrow>
   stays (entitled (he_os he) (fst s)) (snd s) (snd s') \<and> lawful he (fst s') \<and> ds_root_cfg (fst s') = ds_root_cfg (fst s)"
proof (induction rule: daemon_trans.induct)
  case (ticked k s out s')
  then show ?case
    using build_snapshot_stays [of he k "fst s" "snd s" out "fst s'" "snd s'"]
      build_snapshot_inv [of he k "fst s" "snd s" out "fst s'" "snd s'"] by (simp add: lawful_def)
next
  case (commanded command st evs st' t)
  then show ?case
    using shell_effect_inv [OF shell_command_effect [of st command]]
      shell_effect_roster [OF shell_command_effect [of st command], of "he_os he"] by (simp add: lawful_def)
next
  case (paused st t ms)
  then show ?case by (auto simp: stays_def entitled_def)
qed

lemma entitled_same: "ds_root_cfg a = ds_root_cfg b \<Longrightarrow> entitled os a = entitled os b"
  by (simp add: entitled_def fun_eq_iff)

lemma daemon_runs_stay:
  "(daemon_trans he)\<^sup>*\<^sup>* s s' \<Longrightarrow> lawful he (fst s) \<Longrightarrow>
   stays (entitled (he_os he) (fst s)) (snd s) (snd s') \<and> lawful he (fst s') \<and> ds_root_cfg (fst s') = ds_root_cfg (fst s)"
proof (induction rule: rtranclp_induct)
  case (step s1 s2)
  then have l: "lawful he (fst s1)" and eq: "ds_root_cfg (fst s1) = ds_root_cfg (fst s)"
    and up: "stays (entitled (he_os he) (fst s)) (snd s) (snd s1)" by simp_all
  from daemon_trans_stays [OF step.hyps(2) l] eq entitled_same [OF eq, of "he_os he"] up show ?case
    by (auto intro: stays_trans)
qed simp

lemma daemon_new_lawful: "lawful he (fst (daemon_new os toml t))"
proof -
  have "ds_vms (fst (daemon_new os toml t)) = []"
    by (simp add: daemon_new_def andThen_def ret_def split: prod.split)
  with daemon_new_inv [of os toml t] show ?thesis
    by (auto simp: lawful_def roster_inv_def roster_def split: option.split)
qed

text \<open>
  C5. The daemon does to its host only what its configuration entitles it to.  Whatever rounds came
  before and whatever the clients send, every call that a further round makes to the outside world
  either changes nothing or is one that a configured VM entitles it to: a driver file of the PCI bus, the
  hugepages that VM needs, the two cpusets with that VM's CPUs, that VM's QEMU and the processes that
  were spawned, its shared memory file, its monitor, its relay.
\<close>

theorem effects_confined:
  assumes "server_reachable he json to_json toml (sv, t)"
    and "server_round he json to_json io (sv, t) = (payload, (sv', t'))"
  shows "\<exists>ev. t' = t @ ev \<and> list_all (entitled (he_os he) (sv_daemon sv)) ev"
proof -
  from server_reachable_daemon [OF assms(1)] obtain t0 where
    "(daemon_trans he)\<^sup>*\<^sup>* (daemon_new (he_os he) toml t0) (sv_daemon sv, t)" by auto
  from daemon_runs_stay [OF this daemon_new_lawful] have "lawful he (fst (sv_daemon sv, t))" by blast
  from daemon_runs_stay [OF round_refines [OF assms(2)] this] show ?thesis by (simp add: stays_def)
qed

lemma effects_confined_witness:
  "\<forall>vm. case server_start demo_env (\<lambda>_. Inr (demo_root vm)) (\<lambda>_. True) True [] of
     (Inl e, t) \<Rightarrow> False
   | (Inr sv, t) \<Rightarrow>
       (case server_round demo_env (\<lambda>line. Inr (ShellCommand line)) (\<lambda>msg. Inr ''{}'') demo_round (sv, t) of
          (payload, (sv', t')) \<Rightarrow> \<exists>ev. t' = t @ ev \<and> list_all (entitled demo_os (sv_daemon sv)) ev)"
proof
  fix vm
  let ?json = "\<lambda>line. Inr (ShellCommand line) :: string + ipc_message" and ?to_json = "\<lambda>msg. Inr ''{}''"
  obtain st t where start: "server_start demo_env (\<lambda>_. Inr (demo_root vm)) (\<lambda>_. True) True [] = (Inr (server_new st), t)"
    by (rule demo_start)
  obtain payload sv' t' where run: "server_round demo_env ?json ?to_json demo_round (server_new st, t) = (payload, (sv', t'))"
    by (metis prod.exhaust)
  have "he_os demo_env = demo_os" by (simp add: demo_env_def)
  with effects_confined [OF server_reachable.started [OF start] run]
  show "case server_start demo_env (\<lambda>_. Inr (demo_root vm)) (\<lambda>_. True) True [] of
     (Inl e, t) \<Rightarrow> False
   | (Inr sv, t) \<Rightarrow>
       (case server_round demo_env (\<lambda>line. Inr (ShellCommand line)) (\<lambda>msg. Inr ''{}'') demo_round (sv, t) of
          (payload, (sv', t')) \<Rightarrow> \<exists>ev. t' = t @ ev \<and> list_all (entitled demo_os (sv_daemon sv)) ev)"
    by (simp add: start run)
qed

end
