(* ===== verification/Chalybs_Tui.thy ===== *)
theory Chalybs_Tui
  imports Chalybs_Server
begin

text \<open>
  The terminal client without its drawing: the application state and its operations from
  \<^verbatim>\<open>tui/src/app.rs\<close>, the mock and the daemon backend behind the trait
  \<^verbatim>\<open>ChalybsBackend\<close>, the halo profiles of \<^verbatim>\<open>tui/src/config.rs\<close>, and the key
  handling and the loop of \<^verbatim>\<open>tui/src/main.rs\<close>.

  A trait object is a record of functions, \<open>backend_ops\<close>.  The socket of the daemon backend is
  the script of what its reads and writes will yield.  Times are left out: they only decide when the
  loop ticks, which is an input of the loop here.
\<close>

subsection \<open>Data\<close>

datatype daemon_health = HealthDisconnected | HealthDegraded | HealthHealthy

datatype tui_vm_state = TuiStopped | TuiStarting | TuiRunning | TuiShuttingDown

record tui_vm =
  tv_name :: string
  tv_state :: tui_vm_state
  tv_cpu_pinned :: bool
  tv_irq_pinned :: bool
  tv_tasmota_on :: bool
  tv_isolation_mode :: string
  tv_hugepages :: bool
  tv_cpu_layout :: ipc_cpu_layout

datatype logo_halo_profile = HaloOff | HaloC3 | HaloC3Narrow | HaloC3Wide | HaloC3ExtraWide

record visual_effects =
  fx_pulse :: bool
  fx_scanlines :: bool
  fx_matrix :: bool
  fx_border_noise :: bool
  fx_badges :: bool
  fx_logo_reactive :: bool
  fx_load_index :: bool
  fx_logo_halo :: logo_halo_profile

datatype app_event_kind = AppInfo | AppWarning | AppError | AppShell | AppSystem

record app_event =
  ae_kind :: app_event_kind
  ae_message :: string

definition app_ev :: "app_event_kind \<Rightarrow> string \<Rightarrow> app_event" where
  "app_ev k m = \<lparr>ae_kind = k, ae_message = m\<rparr>"

record app =
  ap_running :: bool
  ap_vms :: "tui_vm list"
  ap_selected_vm :: nat
  ap_events :: "app_event list"
  ap_shell_input :: string
  ap_shell_history :: "string list"
  ap_tick_count :: "64 word"
  ap_scroll_locked :: bool
  ap_scroll_offset :: nat
  ap_detail_open :: bool
  ap_effects :: visual_effects
  ap_health :: daemon_health
  ap_clean_runs :: nat

subsection \<open>Halo profiles and the configuration\<close>

definition from_str_kind :: "string \<Rightarrow> logo_halo_profile option" where
  "from_str_kind raw =
     (let s = map to_ascii_lower raw
      in if s \<in> {''off'', ''none''} then Some HaloOff
         else if s = ''c3'' then Some HaloC3
         else if s \<in> {''c3narrow'', ''narrow'', ''c3_narrow'', ''s1''} then Some HaloC3Narrow
         else if s \<in> {''c3wide'', ''wide'', ''c3_wide'', ''s2''} then Some HaloC3Wide
         else if s \<in> {''c3extrawide'', ''extrawide'', ''c3_xwide'', ''c3xwide'', ''s3''} then Some HaloC3ExtraWide
         else if s = ''basic'' then Some HaloC3
         else if s = ''c3d'' then Some HaloC3ExtraWide
         else None)"

fun halo_as_str :: "logo_halo_profile \<Rightarrow> string" where
  "halo_as_str HaloOff = ''off''"
| "halo_as_str HaloC3 = ''c3''"
| "halo_as_str HaloC3Narrow = ''c3narrow''"
| "halo_as_str HaloC3Wide = ''c3wide''"
| "halo_as_str HaloC3ExtraWide = ''c3extrawide''"

definition halo_from_env :: "os \<Rightarrow> logo_halo_profile option io" where
  "halo_from_env os =
     andThen (env_var os ''CHALYBS_TUI_LOGO_HALO'') (\<lambda>v.
       ret (case v of None \<Rightarrow> None | Some raw \<Rightarrow> from_str_kind (trim raw)))"

text \<open>\<open>tui_toml\<close> stands for the TOML crate: the text of \<^verbatim>\<open>tui.logo_halo\<close>, if there is one.\<close>

definition halo_from_global_toml :: "os \<Rightarrow> (string \<Rightarrow> string + string option) \<Rightarrow> logo_halo_profile option io" where
  "halo_from_global_toml os tui_toml =
     andThen (read_to_string os default_config_path) (\<lambda>r.
       ret (case r of
              Inl e \<Rightarrow> None
            | Inr data \<Rightarrow>
                (case tui_toml data of Inr (Some raw) \<Rightarrow> from_str_kind (trim raw) | _ \<Rightarrow> None)))"

definition tui_config_load :: "os \<Rightarrow> (string \<Rightarrow> string + string option) \<Rightarrow> logo_halo_profile option io" where
  "tui_config_load os tui_toml =
     andThen (halo_from_env os) (\<lambda>h.
       case h of Some profile \<Rightarrow> ret (Some profile) | None \<Rightarrow> halo_from_global_toml os tui_toml)"

subsection \<open>Visual effects\<close>

definition default_enabled :: visual_effects where
  "default_enabled =
     \<lparr>fx_pulse = True, fx_scanlines = True, fx_matrix = True, fx_border_noise = True, fx_badges = True,
      fx_logo_reactive = True, fx_load_index = True, fx_logo_halo = HaloOff\<rparr>"

definition set_all :: "bool \<Rightarrow> visual_effects \<Rightarrow> visual_effects" where
  "set_all v fx =
     fx\<lparr>fx_pulse := v, fx_scanlines := v, fx_matrix := v, fx_border_noise := v, fx_badges := v,
        fx_logo_reactive := v, fx_load_index := v\<rparr>"

definition set_flag :: "string \<Rightarrow> bool \<Rightarrow> visual_effects \<Rightarrow> visual_effects" where
  "set_flag name v fx =
     (if name = ''pulse'' then fx\<lparr>fx_pulse := v\<rparr>
      else if name = ''scanlines'' then fx\<lparr>fx_scanlines := v\<rparr>
      else if name = ''matrix'' then fx\<lparr>fx_matrix := v\<rparr>
      else if name \<in> {''border'', ''border_noise''} then fx\<lparr>fx_border_noise := v\<rparr>
      else if name = ''badges'' then fx\<lparr>fx_badges := v\<rparr>
      else if name \<in> {''logo'', ''logo_reactive''} then fx\<lparr>fx_logo_reactive := v\<rparr>
      else if name \<in> {''load'', ''load_index''} then fx\<lparr>fx_load_index := v\<rparr>
      else fx)"

subsection \<open>The application\<close>

text \<open>The trait, as a dictionary over the type of a backend's state.\<close>

record 'b backend_ops =
  bo_refresh_status :: "tui_vm list \<Rightarrow> 'b \<Rightarrow> tui_vm list \<times> 'b"
  bo_poll_events :: "'b \<Rightarrow> app_event list \<times> 'b"
  bo_handle_shell_command :: "string \<Rightarrow> 'b \<Rightarrow> app_event list \<times> 'b"

definition app_new :: "tui_vm list \<Rightarrow> app" where
  "app_new initial_vms =
     \<lparr>ap_running = True, ap_vms = initial_vms, ap_selected_vm = 0, ap_events = [], ap_shell_input = [],
      ap_shell_history = [], ap_tick_count = 0, ap_scroll_locked = False, ap_scroll_offset = 0,
      ap_detail_open = False, ap_effects = default_enabled, ap_health = HealthDisconnected, ap_clean_runs = 0\<rparr>"

text \<open>A batch without daemon complaints: the run counter saturates at a byte.\<close>

definition clean_batch :: "app \<Rightarrow> app" where
  "clean_batch a =
     (if ap_health a = HealthDisconnected then a
      else
        (let runs = min (Suc (ap_clean_runs a)) u8_max
         in a\<lparr>ap_clean_runs := runs,
              ap_health := if ap_health a = HealthDegraded \<and> 6 \<le> runs then HealthHealthy else ap_health a\<rparr>))"

definition is_disconnect :: "app_event \<Rightarrow> bool" where
  "is_disconnect evt =
     (str_contains (ae_message evt) ''daemon unavailable'' \<or>
      str_contains (ae_message evt) ''daemon closed IPC connection'' \<or>
      str_contains (ae_message evt) ''failed to connect to'')"

definition is_daemon_complaint :: "app_event \<Rightarrow> bool" where
  "is_daemon_complaint evt =
     (ae_kind evt \<in> {AppError, AppWarning} \<and>
      (str_contains (ae_message evt) ''chalybsd'' \<or> str_contains (ae_message evt) ''daemon'' \<or>
       str_contains (ae_message evt) ''IPC''))"

text \<open>The loop over the batch: what was seen before it ended, or was left at a disconnect.\<close>

fun scan_batch :: "bool \<Rightarrow> app_event list \<Rightarrow> bool \<times> bool" where
  "scan_batch complained [] = (False, complained)"
| "scan_batch complained (evt # evts) =
     (if is_disconnect evt then (True, complained)
      else scan_batch (complained \<or> is_daemon_complaint evt) evts)"

definition update_daemon_health :: "app_event list \<Rightarrow> app \<Rightarrow> app" where
  "update_daemon_health new_events a =
     (if new_events = [] then clean_batch a
      else
        (case scan_batch False new_events of
           (disconnected, complained) \<Rightarrow>
             if disconnected then a\<lparr>ap_health := HealthDisconnected, ap_clean_runs := 0\<rparr>
             else if complained then
               a\<lparr>ap_health := if ap_health a = HealthHealthy then HealthDegraded else ap_health a,
                 ap_clean_runs := 0\<rparr>
             else clean_batch a))"

definition MAX_EVENTS :: nat where "MAX_EVENTS = 256"

definition push_events :: "app_event list \<Rightarrow> app \<Rightarrow> app" where
  "push_events new_events app0 =
     (let a = update_daemon_health new_events app0
      in if new_events = [] then a
         else
           (let all_events = ap_events a @ new_events
            in a\<lparr>ap_events := drop (length all_events - MAX_EVENTS) all_events,
                 ap_scroll_offset := if ap_scroll_locked a then ap_scroll_offset a else 0\<rparr>))"

definition on_tick :: "'b backend_ops \<Rightarrow> app \<times> 'b \<Rightarrow> app \<times> 'b" where
  "on_tick ops = (\<lambda>(a, b).
     (case bo_refresh_status ops (ap_vms a) b of
        (vms, b1) \<Rightarrow>
          (case bo_poll_events ops b1 of
             (new_events, b2) \<Rightarrow>
               (push_events new_events (a\<lparr>ap_tick_count := ap_tick_count a + 1, ap_vms := vms\<rparr>), b2))))"

definition on_off :: "bool \<Rightarrow> string" where
  "on_off v = (if v then ''on'' else ''off'')"

definition effects_status :: "visual_effects \<Rightarrow> string" where
  "effects_status fx =
     ''effects: pulse='' @ show_bool (fx_pulse fx) @ '', scanlines='' @ show_bool (fx_scanlines fx) @
     '', matrix='' @ show_bool (fx_matrix fx) @ '', border_noise='' @ show_bool (fx_border_noise fx) @
     '', badges='' @ show_bool (fx_badges fx) @ '', logo_reactive='' @ show_bool (fx_logo_reactive fx) @
     '', load_index='' @ show_bool (fx_load_index fx) @ '', halo='' @ halo_as_str (fx_logo_halo fx)"

text \<open>\<^verbatim>\<open>effects halo\<close> and \<^verbatim>\<open>effects <flag>\<close>, on the words that follow.\<close>

definition effects_halo :: "string list \<Rightarrow> visual_effects \<Rightarrow> app_event list \<times> visual_effects" where
  "effects_halo args fx =
     (case args of
        [] \<Rightarrow> ([app_ev AppError ''effects: usage: effects halo <off|c3|c3narrow|c3wide|c3extrawide>''], fx)
      | value_word # _ \<Rightarrow>
          (case from_str_kind value_word of
             Some profile \<Rightarrow> ([app_ev AppSystem (''effects: halo='' @ halo_as_str profile)], fx\<lparr>fx_logo_halo := profile\<rparr>)
           | None \<Rightarrow>
               ([app_ev AppError (''effects: unknown halo profile '' @ backquoted value_word @
                  '' (expected: off|c3|c3narrow|c3wide|c3extrawide)'')], fx)))"

definition effects_flag :: "string \<Rightarrow> string list \<Rightarrow> visual_effects \<Rightarrow> app_event list \<times> visual_effects" where
  "effects_flag field args fx =
     (case args of
        [] \<Rightarrow> ([app_ev AppError ''effects: usage: effects <pulse|scanlines|matrix|border|badges|logo|load> <on|off> or effects halo <off|c3|c3narrow|c3wide|c3extrawide>''], fx)
      | value_word # _ \<Rightarrow>
          if value_word \<in> {''on'', ''off''} then
            (let v = (value_word = ''on'')
             in ([app_ev AppSystem (''effects: '' @ field @ ''='' @ on_off v)], set_flag field v fx))
          else ([app_ev AppError (''effects: expected '' @ backquoted ''on'' @ '' or '' @ backquoted ''off'')], fx))"

definition handle_local_command :: "string \<Rightarrow> visual_effects \<Rightarrow> (app_event list \<times> visual_effects) option" where
  "handle_local_command cmd fx =
     (case split_whitespace cmd of
        [] \<Rightarrow> None
      | first # args \<Rightarrow>
          if first \<noteq> ''effects'' then None
          else
            (case args of
               [] \<Rightarrow> Some ([app_ev AppInfo (effects_status fx)], fx)
             | sub # rest \<Rightarrow>
                 if sub = ''status'' then Some ([app_ev AppInfo (effects_status fx)], fx)
                 else if sub \<in> {''on'', ''off''} then
                   Some ([app_ev AppSystem (''effects: all='' @ on_off (sub = ''on''))], set_all (sub = ''on'') fx)
                 else if sub = ''halo'' then Some (effects_halo rest fx)
                 else Some (effects_flag sub rest fx)))"

text \<open>A command to the backend, and its events into the stream.\<close>

definition to_backend :: "'b backend_ops \<Rightarrow> string \<Rightarrow> app \<times> 'b \<Rightarrow> app \<times> 'b" where
  "to_backend ops cmd = (\<lambda>(a, b).
     case bo_handle_shell_command ops cmd b of (events, b') \<Rightarrow> (push_events events a, b'))"

definition submit_shell_command :: "'b backend_ops \<Rightarrow> app \<times> 'b \<Rightarrow> app \<times> 'b" where
  "submit_shell_command ops = (\<lambda>(a, b).
     (let cmd = trim (ap_shell_input a); a0 = a\<lparr>ap_shell_input := []\<rparr>
      in if cmd = [] then (a0, b)
         else
           (let a1 = a0\<lparr>ap_shell_history := ap_shell_history a @ [cmd]\<rparr>
            in case handle_local_command cmd (ap_effects a) of
                 Some (events, fx) \<Rightarrow> (push_events events (a1\<lparr>ap_effects := fx\<rparr>), b)
               | None \<Rightarrow> to_backend ops cmd (a1, b))))"

definition push_shell_char :: "char \<Rightarrow> app \<Rightarrow> app" where
  "push_shell_char c a = a\<lparr>ap_shell_input := ap_shell_input a @ [c]\<rparr>"

definition pop_shell_char :: "app \<Rightarrow> app" where
  "pop_shell_char a = a\<lparr>ap_shell_input := butlast (ap_shell_input a)\<rparr>"

definition clear_shell_input :: "app \<Rightarrow> app" where
  "clear_shell_input a = a\<lparr>ap_shell_input := []\<rparr>"

definition select_next_vm :: "app \<Rightarrow> app" where
  "select_next_vm a =
     (if ap_vms a = [] then a else a\<lparr>ap_selected_vm := min (ap_selected_vm a + 1) (length (ap_vms a) - 1)\<rparr>)"

definition select_previous_vm :: "app \<Rightarrow> app" where
  "select_previous_vm a =
     (if ap_vms a = [] then a
      else if 0 < ap_selected_vm a then a\<lparr>ap_selected_vm := ap_selected_vm a - 1\<rparr> else a)"

definition lock_events_scroll :: "app \<Rightarrow> app" where
  "lock_events_scroll a = a\<lparr>ap_scroll_locked := True\<rparr>"

definition unlock_events_scroll :: "app \<Rightarrow> app" where
  "unlock_events_scroll a = a\<lparr>ap_scroll_locked := False, ap_scroll_offset := 0\<rparr>"

definition scroll_events_up :: "nat \<Rightarrow> app \<Rightarrow> app" where
  "scroll_events_up n a =
     (if ap_events a = [] then a
      else a\<lparr>ap_scroll_offset := min (ap_scroll_offset a + n) (length (ap_events a) - 1)\<rparr>)"

definition scroll_events_down :: "nat \<Rightarrow> app \<Rightarrow> app" where
  "scroll_events_down n a =
     (if ap_events a = [] then a else a\<lparr>ap_scroll_offset := ap_scroll_offset a - n\<rparr>)"

definition toggle_vm_detail :: "app \<Rightarrow> app" where
  "toggle_vm_detail a = a\<lparr>ap_detail_open := \<not> ap_detail_open a\<rparr>"

text \<open>\<^verbatim>\<open>self.vms.get(self.selected_vm)\<close>.\<close>

definition selected_vm :: "app \<Rightarrow> tui_vm option" where
  "selected_vm a = (if ap_selected_vm a < length (ap_vms a) then Some (ap_vms a ! ap_selected_vm a) else None)"

definition command_selected_vm :: "string \<Rightarrow> 'b backend_ops \<Rightarrow> app \<times> 'b \<Rightarrow> app \<times> 'b" where
  "command_selected_vm verb ops = (\<lambda>(a, b).
     case selected_vm a of
       None \<Rightarrow> (a, b)
     | Some vm \<Rightarrow> to_backend ops (''vm '' @ verb @ '' '' @ tv_name vm) (a, b))"

definition start_selected_vm :: "'b backend_ops \<Rightarrow> app \<times> 'b \<Rightarrow> app \<times> 'b" where
  "start_selected_vm ops = command_selected_vm ''start'' ops"
definition stop_selected_vm :: "'b backend_ops \<Rightarrow> app \<times> 'b \<Rightarrow> app \<times> 'b" where
  "stop_selected_vm ops = command_selected_vm ''stop'' ops"
definition restart_selected_vm :: "'b backend_ops \<Rightarrow> app \<times> 'b \<Rightarrow> app \<times> 'b" where
  "restart_selected_vm ops = command_selected_vm ''restart'' ops"

subsection \<open>The mock backend\<close>

record mock_backend =
  mb_tick :: "64 word"

definition mock_initial_vms :: "tui_vm list" where
  "mock_initial_vms =
     [\<lparr>tv_name = ''win11-gpu'', tv_state = TuiRunning, tv_cpu_pinned = True, tv_irq_pinned = True, tv_tasmota_on = True,
       tv_isolation_mode = ''enforce'', tv_hugepages = True,
       tv_cpu_layout = \<lparr>il_host = [12, 13, 14, 15, 16, 17, 18, 19], il_vm = [0, 1, 2, 3, 4, 5, 6, 7]\<rparr>\<rparr>,
      \<lparr>tv_name = ''linux-lab'', tv_state = TuiStopped, tv_cpu_pinned = False, tv_irq_pinned = False, tv_tasmota_on = False,
       tv_isolation_mode = ''audit'', tv_hugepages = False, tv_cpu_layout = \<lparr>il_host = [0, 1], il_vm = [0, 1]\<rparr>\<rparr>,
      \<lparr>tv_name = ''baremetal-sim'', tv_state = TuiRunning, tv_cpu_pinned = True, tv_irq_pinned = False, tv_tasmota_on = False,
       tv_isolation_mode = ''disabled'', tv_hugepages = True,
       tv_cpu_layout = \<lparr>il_host = [24, 25, 26, 27], il_vm = [0, 1, 2, 3]\<rparr>\<rparr>]"

text \<open>\<^verbatim>\<open>vms.get_mut(i)\<close> with a change of the element, when there is one.\<close>

definition update_at :: "nat \<Rightarrow> ('a \<Rightarrow> 'a) \<Rightarrow> 'a list \<Rightarrow> 'a list" where
  "update_at i f xs = (if i < length xs then xs[i := f (xs ! i)] else xs)"

definition mock_refresh_status :: "tui_vm list \<Rightarrow> mock_backend \<Rightarrow> tui_vm list \<times> mock_backend" where
  "mock_refresh_status vms b =
     (let tick = mb_tick b + 1;
          vms1 = (if tick mod 32 = 0 then update_at 0 (\<lambda>vm. vm\<lparr>tv_tasmota_on := \<not> tv_tasmota_on vm\<rparr>) vms else vms);
          vms2 = (if tick mod 64 = 0 then update_at 2 (\<lambda>vm. vm\<lparr>tv_irq_pinned := \<not> tv_irq_pinned vm\<rparr>) vms1 else vms1)
      in (vms2, b\<lparr>mb_tick := tick\<rparr>))"

definition mock_poll_events :: "mock_backend \<Rightarrow> app_event list \<times> mock_backend" where
  "mock_poll_events b =
     ((if mb_tick b = 1 then [app_ev AppSystem ''chalybs-tui: attached to mock backend''] else []) @
      (if mb_tick b mod 40 = 0 then [app_ev AppInfo (''heartbeat: tick='' @ show_nat (unat (mb_tick b)))] else []) @
      (if mb_tick b mod 90 = 0 then [app_ev AppWarning ''win11-gpu: GPU isolation in audit-only mode (mock)''] else []),
      b)"

definition mock_reply :: "string \<Rightarrow> app_event" where
  "mock_reply command =
     (if command \<in> {''help'', ''?''} then app_ev AppInfo ''mock backend: available commands: help, list, status, clear''
      else if command = ''list'' then app_ev AppInfo ''mock backend: VMs = win11-gpu, linux-lab, baremetal-sim''
      else if command = ''status'' then
        app_ev AppInfo (''mock backend: PCI phases 1'' @ [CHR 0xE2, CHR 0x80, CHR 0x93] @ ''8 nominal (simulated)'')
      else if command = ''clear'' then
        app_ev AppSystem ''mock backend: UI event buffer clear requested (not yet wired)''
      else app_ev AppError (''mock backend: '' @ backquoted command @ '' is not a recognized command (try '' @
        backquoted ''help'' @ '')''))"

definition mock_shell_command :: "string \<Rightarrow> mock_backend \<Rightarrow> app_event list \<times> mock_backend" where
  "mock_shell_command raw b =
     (let command = trim raw
      in if command = [] then ([], b)
         else ([app_ev AppShell (''chalybs> '' @ command), mock_reply command], b))"

definition mock_ops :: "mock_backend backend_ops" where
  "mock_ops = \<lparr>bo_refresh_status = mock_refresh_status, bo_poll_events = mock_poll_events,
               bo_handle_shell_command = mock_shell_command\<rparr>"

subsection \<open>The daemon backend\<close>

text \<open>
  The socket is two scripts: what the coming reads yield (when it has run out, a read would block) and
  what the coming writes yield (when it has run out, they succeed); and the bytes written so far.
\<close>

record daemon_backend =
  db_reads :: "read_outcome list"
  db_writes :: "string option list"
  db_sent :: string
  db_read_buffer :: string
  db_pending_events :: "app_event list"
  db_last_snapshot_vms :: "tui_vm list"
  db_connected :: bool

definition backend_new :: "read_outcome list \<Rightarrow> string option list \<Rightarrow> daemon_backend" where
  "backend_new reads outcomes =
     \<lparr>db_reads = reads, db_writes = outcomes, db_sent = [], db_read_buffer = [], db_pending_events = [],
      db_last_snapshot_vms = [], db_connected = True\<rparr>"

fun map_vm_state :: "ipc_vm_state \<Rightarrow> tui_vm_state" where
  "map_vm_state IpcStopped = TuiStopped"
| "map_vm_state IpcStarting = TuiStarting"
| "map_vm_state IpcRunning = TuiRunning"
| "map_vm_state IpcShuttingDown = TuiShuttingDown"

definition map_vm_status :: "ipc_vm_status \<Rightarrow> tui_vm" where
  "map_vm_status src =
     \<lparr>tv_name = is_name src, tv_state = map_vm_state (is_state src), tv_cpu_pinned = is_cpu_pinned src,
      tv_irq_pinned = is_irq_pinned src, tv_tasmota_on = is_tasmota_on src,
      tv_isolation_mode = is_isolation_mode src, tv_hugepages = is_hugepages src,
      tv_cpu_layout = is_cpu_layout src\<rparr>"

fun app_kind_of :: "ipc_event_kind \<Rightarrow> app_event_kind" where
  "app_kind_of IpcInfo = AppInfo"
| "app_kind_of IpcWarning = AppWarning"
| "app_kind_of IpcError = AppError"
| "app_kind_of IpcShell = AppShell"
| "app_kind_of IpcSystem = AppSystem"

definition map_event_global :: "ipc_event \<Rightarrow> app_event" where
  "map_event_global src = app_ev (app_kind_of (ie_kind src)) (ie_message src)"

definition map_event_for_vm :: "string \<Rightarrow> ipc_event \<Rightarrow> app_event" where
  "map_event_for_vm vm_name src =
     app_ev (ae_kind (map_event_global src)) (vm_name @ '': '' @ ae_message (map_event_global src))"

definition map_vm_events :: "ipc_vm_events \<Rightarrow> app_event list" where
  "map_vm_events b = map (map_event_for_vm (iv_vm_name b)) (iv_events b)"

definition note_pending :: "app_event list \<Rightarrow> daemon_backend \<Rightarrow> daemon_backend" where
  "note_pending evs b = b\<lparr>db_pending_events := db_pending_events b @ evs\<rparr>"

definition handle_daemon_line :: "json_decoder \<Rightarrow> string \<Rightarrow> daemon_backend \<Rightarrow> daemon_backend" where
  "handle_daemon_line json raw b =
     (let line = trim raw
      in if line = [] then b
         else
           (case json line of
              Inr (Snapshot vms events_global events_vm) \<Rightarrow>
                note_pending (map map_event_global events_global @ concat (map map_vm_events events_vm))
                  (b\<lparr>db_last_snapshot_vms := map map_vm_status vms\<rparr>)
            | Inr (ShellCommand command) \<Rightarrow>
                note_pending [app_ev AppWarning ''chalybs-tui: unexpected ShellCommand from daemon''] b
            | Inl err \<Rightarrow>
                note_pending [app_ev AppError (''chalybs-tui: failed to decode IPC message: '' @ err)] b))"

function take_daemon_lines :: "json_decoder \<Rightarrow> string \<times> daemon_backend \<Rightarrow> string \<times> daemon_backend" where
  "take_daemon_lines json (buf, b) =
     (case split_once line_feed buf of
        None \<Rightarrow> (buf, b)
      | Some (raw, rest) \<Rightarrow> take_daemon_lines json (rest, handle_daemon_line json raw b))"
  by pat_completeness auto

termination take_daemon_lines
  by (relation "measure (\<lambda>(json, buf, b). length buf)") (auto simp: split_once_shorter)

declare take_daemon_lines.simps [simp del]

text \<open>
  The message of \<^verbatim>\<open>Utf8Error\<close>: \<open>i\<close> is where the character starts that is being read,
  \<open>n\<close> the number of its bytes so far, \<open>rs\<close> the ranges of the bytes it still needs.
\<close>

fun utf8_complaint :: "nat \<Rightarrow> nat \<Rightarrow> (nat \<times> nat) list \<Rightarrow> nat list \<Rightarrow> string" where
  "utf8_complaint i n [] [] = []"
| "utf8_complaint i n (r # rs) [] = ''incomplete utf-8 byte sequence from index '' @ show_nat i"
| "utf8_complaint i n [] (b # bs) =
     (case utf8_follow b of
        None \<Rightarrow> ''invalid utf-8 sequence of 1 bytes from index '' @ show_nat i
      | Some [] \<Rightarrow> utf8_complaint (i + 1) 0 [] bs
      | Some rs \<Rightarrow> utf8_complaint i 1 rs bs)"
| "utf8_complaint i n ((lo, hi) # rs) (b # bs) =
     (if \<not> in_range lo hi b then
        ''invalid utf-8 sequence of '' @ show_nat n @ '' bytes from index '' @ show_nat i
      else if rs = [] then utf8_complaint (i + n + 1) 0 [] bs
      else utf8_complaint i (n + 1) rs bs)"

text \<open>The read loop over the script; what is left of it stays for the next call.\<close>

fun drain_reads :: "json_decoder \<Rightarrow> read_outcome list \<Rightarrow> daemon_backend \<Rightarrow> (string + unit) \<times> daemon_backend" where
  "drain_reads json [] b = (Inr (), b\<lparr>db_reads := []\<rparr>)"
| "drain_reads json (ReadBytes chunk # reads) b =
     (if chunk = [] then
        (Inr (), note_pending [app_ev AppSystem ''chalybs-tui: daemon closed IPC connection'']
           (b\<lparr>db_reads := reads, db_connected := False\<rparr>))
      else if \<not> utf8_valid chunk then 
        (Inl (''invalid UTF-8 from daemon: '' @ utf8_complaint 0 0 [] (map of_char chunk)), b\<lparr>db_reads := reads\<rparr>)
      else
        (case take_daemon_lines json (db_read_buffer b @ chunk, b) of
           (buf, b') \<Rightarrow> drain_reads json reads (b'\<lparr>db_read_buffer := buf\<rparr>)))"
| "drain_reads json (ReadErr kind e # reads) b =
     (if kind = WouldBlock then (Inr (), b\<lparr>db_reads := reads\<rparr>)
      else
        (Inr (), note_pending [app_ev AppError (''chalybs-tui: daemon IPC error: '' @ e)]
           (b\<lparr>db_reads := reads, db_connected := False\<rparr>)))"

definition drain_socket :: "json_decoder \<Rightarrow> daemon_backend \<Rightarrow> (string + unit) \<times> daemon_backend" where
  "drain_socket json b = (if \<not> db_connected b then (Inr (), b) else drain_reads json (db_reads b) b)"

definition count_mismatch :: "nat \<Rightarrow> nat \<Rightarrow> app_event" where
  "count_mismatch theirs ours =
     app_ev AppWarning (''chalybs-tui: daemon snapshot VM count '' @ show_nat theirs @ '' != local VM count '' @
       show_nat ours @ '' (ignoring)'')"

definition daemon_refresh_status :: "json_decoder \<Rightarrow> tui_vm list \<Rightarrow> daemon_backend \<Rightarrow> tui_vm list \<times> daemon_backend" where
  "daemon_refresh_status json vms b =
     (let b1 = (case drain_socket json b of
                  (Inl err, b') \<Rightarrow> note_pending [app_ev AppError (''chalybs-tui: IPC drain error: '' @ err)] b'
                | (Inr u, b') \<Rightarrow> b');
          theirs = db_last_snapshot_vms b1
      in if theirs = [] then (vms, b1)
         else if length vms = length theirs then (theirs, b1)
         else (vms, note_pending [count_mismatch (length theirs) (length vms)] b1))"

definition daemon_poll_events :: "daemon_backend \<Rightarrow> app_event list \<times> daemon_backend" where
  "daemon_poll_events b = (db_pending_events b, b\<lparr>db_pending_events := []\<rparr>)"

definition write_all :: "string \<Rightarrow> daemon_backend \<Rightarrow> string option \<times> daemon_backend" where
  "write_all bytes b =
     (case db_writes b of
        [] \<Rightarrow> (None, b\<lparr>db_sent := db_sent b @ bytes\<rparr>)
      | None # rest \<Rightarrow> (None, b\<lparr>db_sent := db_sent b @ bytes, db_writes := rest\<rparr>)
      | Some e # rest \<Rightarrow> (Some e, b\<lparr>db_writes := rest\<rparr>))"

definition daemon_shell_command ::
  "(ipc_message \<Rightarrow> string + string) \<Rightarrow> string \<Rightarrow> daemon_backend \<Rightarrow> app_event list \<times> daemon_backend" where
  "daemon_shell_command to_json raw b =
     (let command = trim raw
      in if command = [] \<or> \<not> db_connected b then ([], b)
         else
           (case to_json (ShellCommand command) of
              Inl e \<Rightarrow> ([], note_pending [app_ev AppError (''chalybs-tui: failed to encode shell command: '' @ e)] b)
            | Inr text \<Rightarrow>
                (case write_all text b of
                   (Some e, b1) \<Rightarrow> ([], note_pending [app_ev AppError (''chalybs-tui: failed to send shell command: '' @ e)] b1)
                 | (None, b1) \<Rightarrow>
                     (case write_all [line_feed] b1 of
                        (Some e, b2) \<Rightarrow> ([], note_pending [app_ev AppError (''chalybs-tui: failed to send newline: '' @ e)] b2)
                      | (None, b2) \<Rightarrow> ([], b2)))))"

definition daemon_ops :: "json_decoder \<Rightarrow> (ipc_message \<Rightarrow> string + string) \<Rightarrow> daemon_backend backend_ops" where
  "daemon_ops json to_json =
     \<lparr>bo_refresh_status = daemon_refresh_status json, bo_poll_events = daemon_poll_events,
      bo_handle_shell_command = daemon_shell_command to_json\<rparr>"

text \<open>
  The wait for the first snapshot: \<open>rounds\<close> rounds fit before the deadline.  Each round sees the
  script up to where a read would block.
\<close>

fun await_snapshot :: "json_decoder \<Rightarrow> nat \<Rightarrow> daemon_backend \<Rightarrow> string + daemon_backend" where
  "await_snapshot json 0 b = Inl ''timed out waiting for initial daemon snapshot''"
| "await_snapshot json (Suc rounds) b =
     (case drain_socket json b of
        (Inl err, b') \<Rightarrow> Inl (''error while waiting for initial snapshot: '' @ err)
      | (Inr u, b') \<Rightarrow> if db_last_snapshot_vms b' \<noteq> [] then Inr b' else await_snapshot json rounds b')"

subsection \<open>Start\<close>

text \<open>The path is chosen as the server does; what the connect then yields is an input.\<close>

definition tui_choose_socket_path :: "os \<Rightarrow> path io" where
  "tui_choose_socket_path os =
     andThen (path_is_dir os ''/run'') (\<lambda>run. ret (if run then PRIMARY_SOCKET else FALLBACK_SOCKET))"

datatype connect_outcome = ConnectFailed string | NonblockingFailed string | Connected daemon_backend

definition connect_default :: "json_decoder \<Rightarrow> nat \<Rightarrow> path \<Rightarrow> connect_outcome \<Rightarrow> string + daemon_backend" where
  "connect_default json rounds path conn =
     (case conn of
        ConnectFailed e \<Rightarrow> Inl (''failed to connect to '' @ path @ '': '' @ e)
      | NonblockingFailed e \<Rightarrow> Inl (''failed to set nonblocking on '' @ path @ '': '' @ e)
      | Connected b \<Rightarrow> await_snapshot json rounds b)"

definition seed_halo :: "logo_halo_profile option \<Rightarrow> app \<Rightarrow> app" where
  "seed_halo cfg a =
     (case cfg of None \<Rightarrow> a | Some h \<Rightarrow> a\<lparr>ap_effects := (ap_effects a)\<lparr>fx_logo_halo := h\<rparr>\<rparr>)"

definition create_mock_app :: "logo_halo_profile option \<Rightarrow> app \<times> mock_backend" where
  "create_mock_app global_cfg = (seed_halo global_cfg (app_new mock_initial_vms), \<lparr>mb_tick = 0\<rparr>)"

definition daemon_app :: "logo_halo_profile option \<Rightarrow> daemon_backend \<Rightarrow> app" where
  "daemon_app cfg b =
     push_events [app_ev AppSystem ''chalybs-tui: connected to daemon backend'']
       ((seed_halo cfg (app_new (db_last_snapshot_vms b)))\<lparr>ap_health := HealthHealthy, ap_clean_runs := 0\<rparr>)"

definition fallback_app :: "logo_halo_profile option \<Rightarrow> logo_halo_profile option \<Rightarrow> string \<Rightarrow> app \<times> mock_backend" where
  "fallback_app cfg global_cfg err =
     (case create_mock_app global_cfg of
        (a, mock) \<Rightarrow>
          (push_events [app_ev AppSystem (''chalybs-tui: daemon unavailable ('' @ err @ ''); using mock backend'')]
             ((seed_halo cfg a)\<lparr>ap_health := HealthDisconnected, ap_clean_runs := 0\<rparr>), mock))"

definition create_app_autodetect ::
  "json_decoder \<Rightarrow> nat \<Rightarrow> logo_halo_profile option \<Rightarrow> logo_halo_profile option \<Rightarrow> path \<Rightarrow> connect_outcome \<Rightarrow>
   (app \<times> mock_backend) + (app \<times> daemon_backend)" where
  "create_app_autodetect json rounds cfg global_cfg path conn =
     (case connect_default json rounds path conn of
        Inr b \<Rightarrow> Inr (daemon_app cfg b, b)
      | Inl err \<Rightarrow> Inl (fallback_app cfg global_cfg err))"

subsection \<open>Keys and the loop\<close>

datatype key_code = KeyChar char | KeyF nat | KeyUp | KeyDown | KeyPageUp | KeyPageDown | KeyBackspace | KeyEnter | KeyEsc | KeyOther

record key_event =
  ke_code :: key_code
  ke_control :: bool
  ke_shift_or_alt :: bool

definition no_modifiers :: "key_event \<Rightarrow> bool" where
  "no_modifiers k \<longleftrightarrow> \<not> ke_control k \<and> \<not> ke_shift_or_alt k"

definition on_app :: "(app \<Rightarrow> app) \<Rightarrow> app \<times> 'b \<Rightarrow> app \<times> 'b" where
  "on_app f = (\<lambda>(a, b). (f a, b))"

definition escape_key :: "app \<Rightarrow> app" where
  "escape_key a = (if ap_detail_open a then a\<lparr>ap_detail_open := False\<rparr> else clear_shell_input a)"

definition handle_char :: "'b backend_ops \<Rightarrow> char \<Rightarrow> key_event \<Rightarrow> app \<times> 'b \<Rightarrow> app \<times> 'b" where
  "handle_char ops c k =
     (if c = CHR ''q'' \<and> no_modifiers k then on_app (\<lambda>a. a\<lparr>ap_running := False\<rparr>)
      else if c = CHR ''s'' \<and> ke_control k then on_app lock_events_scroll
      else if c = CHR ''q'' \<and> ke_control k then on_app unlock_events_scroll
      else if c = CHR ''u'' \<and> ke_control k then start_selected_vm ops
      else if c = CHR ''o'' \<and> ke_control k then stop_selected_vm ops
      else if c = CHR ''i'' \<and> ke_control k then restart_selected_vm ops
      else if no_modifiers k then on_app (push_shell_char c)
      else (\<lambda>s. s))"

definition handle_key :: "'b backend_ops \<Rightarrow> key_event \<Rightarrow> app \<times> 'b \<Rightarrow> app \<times> 'b" where
  "handle_key ops k =
     (case ke_code k of
        KeyChar c \<Rightarrow> handle_char ops c k
      | KeyF n \<Rightarrow> if n = 2 then on_app toggle_vm_detail else (\<lambda>s. s)
      | KeyUp \<Rightarrow> on_app select_previous_vm
      | KeyDown \<Rightarrow> on_app select_next_vm
      | KeyPageUp \<Rightarrow> on_app (scroll_events_up 3 \<circ> lock_events_scroll)
      | KeyPageDown \<Rightarrow> on_app (scroll_events_down 3 \<circ> lock_events_scroll)
      | KeyBackspace \<Rightarrow> if no_modifiers k then on_app pop_shell_char else (\<lambda>s. s)
      | KeyEnter \<Rightarrow> submit_shell_command ops
      | KeyEsc \<Rightarrow> on_app escape_key
      | KeyOther \<Rightarrow> (\<lambda>s. s))"

text \<open>A round of the loop: the key that came, if one did, and whether the tick was due.\<close>

record tui_input =
  ti_key :: "key_event option"
  ti_tick :: bool

definition tui_round :: "'b backend_ops \<Rightarrow> tui_input \<Rightarrow> app \<times> 'b \<Rightarrow> app \<times> 'b" where
  "tui_round ops i s =
     (let s1 = (case ti_key i of None \<Rightarrow> s | Some k \<Rightarrow> handle_key ops k s)
      in if ti_tick i then on_tick ops s1 else s1)"

fun tui_run :: "'b backend_ops \<Rightarrow> tui_input list \<Rightarrow> app \<times> 'b \<Rightarrow> app \<times> 'b" where
  "tui_run ops [] s = s"
| "tui_run ops (i # rest) s = (if ap_running (fst s) then tui_run ops rest (tui_round ops i s) else s)"

end
