(* ===== verification/Chalybs_Client.thy ===== *)
theory Chalybs_Client
  imports Chalybs_Tui
begin

text \<open>
  What the terminal client promises, for any backend that keeps the law of the trait (a refresh
  writes into the slice it is given and so cannot change its length): the locale
  \<open>tui_backend\<close>, interpreted for the mock and for the daemon backend.  And where it meets the
  daemon: a snapshot that the server sends is what the client shows, however the socket cuts it.
\<close>

subsection \<open>The invariant of the application\<close>

definition app_inv :: "app \<Rightarrow> bool" where
  "app_inv a \<longleftrightarrow>
     (ap_selected_vm a < length (ap_vms a) \<or> ap_vms a = [] \<and> ap_selected_vm a = 0) \<and>
     length (ap_events a) \<le> MAX_EVENTS \<and>
     (ap_scroll_offset a < length (ap_events a) \<or> ap_scroll_offset a = 0) \<and>
     ap_clean_runs a \<le> u8_max"

lemma app_inv_new: "app_inv (app_new vms)"
  by (cases vms) (simp_all add: app_inv_def app_new_def)

lemma clean_batch_fields [simp]:
  "ap_vms (clean_batch a) = ap_vms a" "ap_selected_vm (clean_batch a) = ap_selected_vm a"
  "ap_events (clean_batch a) = ap_events a" "ap_scroll_offset (clean_batch a) = ap_scroll_offset a"
  "ap_scroll_locked (clean_batch a) = ap_scroll_locked a"
  by (simp_all add: clean_batch_def Let_def)

lemma update_health_fields [simp]:
  "ap_vms (update_daemon_health evs a) = ap_vms a" "ap_selected_vm (update_daemon_health evs a) = ap_selected_vm a"
  "ap_events (update_daemon_health evs a) = ap_events a"
  "ap_scroll_offset (update_daemon_health evs a) = ap_scroll_offset a"
  "ap_scroll_locked (update_daemon_health evs a) = ap_scroll_locked a"
  by (simp_all add: update_daemon_health_def split: prod.split)

lemma clean_runs_bounded: "ap_clean_runs a \<le> u8_max \<Longrightarrow> ap_clean_runs (update_daemon_health evs a) \<le> u8_max"
  by (simp add: update_daemon_health_def clean_batch_def Let_def split: prod.split)

lemma push_events_fields [simp]:
  "ap_vms (push_events evs a) = ap_vms a" "ap_selected_vm (push_events evs a) = ap_selected_vm a"
  by (simp_all add: push_events_def Let_def)

lemma push_events_events:
  "ap_events (push_events evs a) =
     (if evs = [] then ap_events a else drop (length (ap_events a) + length evs - MAX_EVENTS) (ap_events a @ evs))"
  by (simp add: push_events_def Let_def)

lemma push_events_inv:
  assumes "app_inv a"
  shows "app_inv (push_events evs a)"
proof -
  have "length (ap_events (push_events evs a)) = (if evs = [] then length (ap_events a) else min (length (ap_events a) + length evs) MAX_EVENTS)"
    by (cases "evs = []") (simp_all add: push_events_events min_def del: drop_append)
  moreover have "ap_scroll_offset (push_events evs a) = ap_scroll_offset a \<or> ap_scroll_offset (push_events evs a) = 0"
    by (simp add: push_events_def Let_def)
  moreover have "ap_clean_runs (push_events evs a) \<le> u8_max"
    using assms clean_runs_bounded [of a evs] by (auto simp: push_events_def Let_def app_inv_def)
  ultimately show ?thesis using assms by (auto simp: app_inv_def)
qed

lemma app_inv_other [simp]:
  "app_inv (a\<lparr>ap_running := r\<rparr>) = app_inv a" "app_inv (a\<lparr>ap_shell_input := s\<rparr>) = app_inv a"
  "app_inv (a\<lparr>ap_shell_history := h\<rparr>) = app_inv a" "app_inv (a\<lparr>ap_effects := fx\<rparr>) = app_inv a"
  "app_inv (a\<lparr>ap_tick_count := n\<rparr>) = app_inv a" "app_inv (a\<lparr>ap_scroll_locked := l\<rparr>) = app_inv a"
  "app_inv (a\<lparr>ap_detail_open := d\<rparr>) = app_inv a" "app_inv (a\<lparr>ap_health := hl\<rparr>) = app_inv a"
  by (simp_all add: app_inv_def)

lemma app_ops_inv:
  assumes "app_inv a"
  shows "app_inv (push_shell_char c a)" "app_inv (pop_shell_char a)" "app_inv (clear_shell_input a)"
    "app_inv (select_next_vm a)" "app_inv (select_previous_vm a)" "app_inv (lock_events_scroll a)"
    "app_inv (unlock_events_scroll a)" "app_inv (scroll_events_up n a)" "app_inv (scroll_events_down n a)"
    "app_inv (toggle_vm_detail a)" "app_inv (escape_key a)"
  using assms
  by (auto simp: push_shell_char_def pop_shell_char_def clear_shell_input_def lock_events_scroll_def toggle_vm_detail_def
      escape_key_def app_inv_def select_next_vm_def select_previous_vm_def unlock_events_scroll_def scroll_events_up_def
      scroll_events_down_def min_def)

lemma to_backend_inv: "app_inv a \<Longrightarrow> app_inv (fst (to_backend ops cmd (a, b)))"
  by (simp add: to_backend_def push_events_inv split: prod.split)

lemma submit_inv: "app_inv a \<Longrightarrow> app_inv (fst (submit_shell_command ops (a, b)))"
  by (simp add: submit_shell_command_def Let_def to_backend_inv push_events_inv split: option.split prod.split)

lemma command_selected_inv: "app_inv a \<Longrightarrow> app_inv (fst (command_selected_vm verb ops (a, b)))"
  by (simp add: command_selected_vm_def to_backend_inv split: option.split)

lemma handle_key_inv: "app_inv (fst s) \<Longrightarrow> app_inv (fst (handle_key ops k s))"
  by (cases s) (auto simp: handle_key_def handle_char_def on_app_def app_ops_inv submit_inv command_selected_inv
      start_selected_vm_def stop_selected_vm_def restart_selected_vm_def split: key_code.split)

subsection \<open>Any backend\<close>

locale tui_backend =
  fixes ops :: "'b backend_ops"
  assumes refresh_length: "bo_refresh_status ops vms b = (vms', b') \<Longrightarrow> length vms' = length vms"
begin

lemma on_tick_inv: "app_inv a \<Longrightarrow> app_inv (fst (on_tick ops (a, b)))"
proof -
  assume inv: "app_inv a"
  obtain vms b1 where 1: "bo_refresh_status ops (ap_vms a) b = (vms, b1)" by (metis prod.exhaust)
  obtain evs b2 where 2: "bo_poll_events ops b1 = (evs, b2)" by (metis prod.exhaust)
  from refresh_length [OF 1] inv have "app_inv (a\<lparr>ap_tick_count := ap_tick_count a + 1, ap_vms := vms\<rparr>)"
    by (auto simp: app_inv_def)
  with 1 2 show ?thesis by (simp add: on_tick_def push_events_inv)
qed

lemma round_inv: "app_inv (fst s) \<Longrightarrow> app_inv (fst (tui_round ops i s))"
  using on_tick_inv [of "fst s'" "snd s'" for s']
  by (simp add: tui_round_def Let_def handle_key_inv split: option.split)

lemma run_inv: "app_inv (fst s) \<Longrightarrow> app_inv (fst (tui_run ops is s))"
  by (induction "is" arbitrary: s) (simp_all add: round_inv)

text \<open>A tick changes neither what is typed nor what is selected.\<close>

lemma on_tick_frame:
  "ap_selected_vm (fst (on_tick ops (a, b))) = ap_selected_vm a"
  by (simp add: on_tick_def split: prod.split)

end

lemma update_at_length [simp]: "length (update_at i f xs) = length xs"
  by (simp add: update_at_def)

interpretation mock: tui_backend mock_ops
  by unfold_locales (auto simp: mock_ops_def mock_refresh_status_def Let_def)

interpretation daemon: tui_backend "daemon_ops json to_json" for json to_json
  by unfold_locales (auto simp: daemon_ops_def daemon_refresh_status_def Let_def split: if_splits)

lemma seed_halo_inv [simp]: "app_inv (seed_halo cfg a) = app_inv a"
  by (simp add: seed_halo_def split: option.split)

lemma create_inv:
  "app_inv (fst (create_mock_app g))" "app_inv (daemon_app cfg b)" "app_inv (fst (fallback_app cfg g err))"
proof -
  show "app_inv (fst (create_mock_app g))" by (simp add: create_mock_app_def app_inv_new)
  have reset: "app_inv (a\<lparr>ap_health := h, ap_clean_runs := 0\<rparr>)" if "app_inv a" for a h
    using that by (simp add: app_inv_def)
  show "app_inv (daemon_app cfg b)" by (simp add: daemon_app_def push_events_inv reset app_inv_new)
  show "app_inv (fst (fallback_app cfg g err))"
    by (simp add: fallback_app_def create_mock_app_def push_events_inv reset app_inv_new)
qed

subsection \<open>The window of events\<close>

definition last_n :: "nat \<Rightarrow> 'a list \<Rightarrow> 'a list" where
  "last_n n xs = drop (length xs - n) xs"

lemma last_n_append: "last_n n (last_n n xs @ ys) = last_n n (xs @ ys)"
proof -
  have "length xs + length ys - (length xs - n + n) + (length xs - n) = length xs + length ys - n" by arith
  then show ?thesis by (simp add: last_n_def drop_append)
qed

lemma push_events_window:
  "length (ap_events a) \<le> MAX_EVENTS \<Longrightarrow> ap_events (push_events evs a) = last_n MAX_EVENTS (ap_events a @ evs)"
  by (simp add: push_events_events last_n_def)

lemma push_batches_window:
  "length (ap_events a) \<le> MAX_EVENTS \<Longrightarrow>
   ap_events (fold push_events batches a) = last_n MAX_EVENTS (ap_events a @ concat batches)"
proof (induction batches arbitrary: a)
  case Nil
  then show ?case by (simp add: last_n_def)
next
  case (Cons evs batches)
  note win = push_events_window [OF Cons.prems, of evs]
  then have "length (ap_events (push_events evs a)) \<le> MAX_EVENTS" by (simp add: last_n_def)
  from Cons.IH [OF this] win show ?case by (simp add: last_n_append)
qed

subsection \<open>From the server to the client\<close>

lemma note_pending_simps [simp]:
  "db_read_buffer (note_pending evs b) = db_read_buffer b" "db_connected (note_pending evs b) = db_connected b"
  "db_reads (note_pending evs b) = db_reads b"
  "db_last_snapshot_vms (note_pending evs b) = db_last_snapshot_vms b"
  "db_pending_events (note_pending evs b) = db_pending_events b @ evs"
  by (simp_all add: note_pending_def)

lemma take_daemon_lines_none:
  "line_feed \<notin> set buf \<Longrightarrow> take_daemon_lines json (buf, b) = (buf, b)"
  by (subst take_daemon_lines.simps) (simp add: split_once_no_sep)

lemma take_daemon_lines_line:
  "line_feed \<notin> set raw \<Longrightarrow>
   take_daemon_lines json (raw @ line_feed # rest, b) = take_daemon_lines json (rest, handle_daemon_line json raw b)"
  by (subst take_daemon_lines.simps) (simp add: split_once_append)

text \<open>One line and its line feed, cut anywhere: nothing happens before the line feed arrives.\<close>

lemma drain_one_line:
  assumes "db_read_buffer b @ concat chunks = raw @ [line_feed]" "line_feed \<notin> set raw"
    "\<forall>chunk \<in> set chunks. chunk \<noteq> [] \<and> utf8_valid chunk" "chunks \<noteq> []"
    "\<And>x buf. handle_daemon_line json raw (x\<lparr>db_read_buffer := buf\<rparr>) = (handle_daemon_line json raw x)\<lparr>db_read_buffer := buf\<rparr>"
  shows "drain_reads json (map ReadBytes chunks) b =
    (Inr (), (handle_daemon_line json raw b)\<lparr>db_read_buffer := [], db_reads := []\<rparr>)"
  using assms
proof (induction chunks arbitrary: b)
  case (Cons chunk chunks)
  show ?case
  proof (cases "chunks = []")
    case True
    with Cons.prems(1,2) have "take_daemon_lines json (db_read_buffer b @ chunk, b) = ([], handle_daemon_line json raw b)"
      by (simp add: take_daemon_lines_line take_daemon_lines_none)
    with True Cons.prems(3) show ?thesis by simp
  next
    case False
    let ?buf = "db_read_buffer b @ chunk"
    from False Cons.prems(3) have "concat chunks \<noteq> []" by (cases chunks) auto
    with Cons.prems(1) have pre: "\<exists>more. raw = ?buf @ more \<and> concat chunks = more @ [line_feed]"
      by (metis append_assoc append_butlast_last_id butlast_append concat.simps(2) last_appendR snoc_eq_iff_butlast)
    with Cons.prems(2) have "take_daemon_lines json (?buf, b) = (?buf, b)"
      by (auto intro: take_daemon_lines_none)
    with Cons.prems(3) have "drain_reads json (map ReadBytes (chunk # chunks)) b =
        drain_reads json (map ReadBytes chunks) (b\<lparr>db_read_buffer := ?buf\<rparr>)" by simp
    also have "\<dots> = (Inr (), (handle_daemon_line json raw (b\<lparr>db_read_buffer := ?buf\<rparr>))\<lparr>db_read_buffer := [], db_reads := []\<rparr>)"
      using Cons.prems False by (intro Cons.IH) simp_all
    finally show ?thesis using Cons.prems(5) by simp
  qed
qed simp

lemma handle_daemon_line_frame:
  "handle_daemon_line json raw (x\<lparr>db_read_buffer := buf\<rparr>) = (handle_daemon_line json raw x)\<lparr>db_read_buffer := buf\<rparr>"
  by (simp add: handle_daemon_line_def Let_def note_pending_def split: sum.split ipc_message.split)

lemma server_round_payload:
  assumes "server_round he jd to_json io s = (Some (payload, ids), s')"
  obtains enc where "to_json (fst (server_advance he jd io s)) = Inr enc" "payload = enc @ [line_feed]"
  using assms
  by (cases "to_json (fst (server_advance he jd io s))")
    (auto simp: server_round_def andThen_def server_send_def split: prod.splits)

lemma server_advance_message:
  "\<exists>vms g bt. fst (server_advance he jd io s) = Snapshot vms g bt"
  by (cases s) (simp add: server_advance_def Let_def split: prod.split)

text \<open>What the JSON crate is relied on for: decoding gives back what was encoded, on one trimmed line.\<close>

definition line_codec :: "(ipc_message \<Rightarrow> string + string) \<Rightarrow> json_decoder \<Rightarrow> bool" where
  "line_codec to_json json \<longleftrightarrow>
     (\<forall>m enc. to_json m = Inr enc \<longrightarrow> json enc = Inr m \<and> line_feed \<notin> set enc \<and> trim enc = enc \<and> enc \<noteq> [])"

lemma line_codecD:
  "line_codec to_json json \<Longrightarrow> to_json m = Inr enc \<Longrightarrow>
   json enc = Inr m \<and> line_feed \<notin> set enc \<and> trim enc = enc \<and> enc \<noteq> []"
  by (simp add: line_codec_def)

text \<open>
  C36. A snapshot that the server sends is what a connected client gets, wherever the socket cuts the
  bytes (each read being UTF-8 by itself): the client's copy of the VMs is the statuses of the message,
  one for one, and its pending events grow by the global events and then those of each VM, in order.
  Of the JSON crate it is only relied on that decoding gives back what was encoded, and that the text
  is one non-empty line without surrounding white space.
\<close>

theorem snapshot_reaches_client:
  assumes codec: "line_codec to_json json"
    and sent: "server_round he jd to_json io s = (Some (concat chunks, ids), s')"
    and cut: "\<forall>chunk \<in> set chunks. chunk \<noteq> [] \<and> utf8_valid chunk"
  shows "case fst (server_advance he jd io s) of
      ShellCommand c \<Rightarrow> False
    | Snapshot vms events_global events_vm \<Rightarrow>
        (case drain_socket json (b\<lparr>db_connected := True, db_read_buffer := [], db_reads := map ReadBytes chunks\<rparr>) of
           (r, b') \<Rightarrow>
             r = Inr () \<and> db_last_snapshot_vms b' = map map_vm_status vms \<and>
             db_pending_events b' =
               db_pending_events b @ map map_event_global events_global @ concat (map map_vm_events events_vm))"
proof -
  obtain vms g bt where msg: "fst (server_advance he jd io s) = Snapshot vms g bt" using server_advance_message by blast
  obtain enc where coded: "to_json (Snapshot vms g bt) = Inr enc" and pay: "concat chunks = enc @ [line_feed]"
    using server_round_payload [OF sent] msg by metis
  note c = line_codecD [OF codec coded]
  let ?b = "b\<lparr>db_connected := True, db_read_buffer := [], db_reads := map ReadBytes chunks\<rparr>"
  from pay have "chunks \<noteq> []" by auto
  then have "drain_socket json ?b = (Inr (), (handle_daemon_line json enc ?b)\<lparr>db_read_buffer := [], db_reads := []\<rparr>)"
    using drain_one_line [of ?b chunks enc json] pay c cut handle_daemon_line_frame by (simp add: drain_socket_def)
  with msg c show ?thesis by (simp add: handle_daemon_line_def)
qed

text \<open>
  The stream of events on the screen is a window: whatever batches are pushed into a new application,
  it shows the last 256 of all events, in order.
\<close>

theorem events_window:
  "ap_events (fold push_events batches (app_new vms)) =
     (let all_events = concat batches in drop (length all_events - 256) all_events)"
  using push_batches_window [of "app_new vms" batches]
  by (simp only: Let_def last_n_def MAX_EVENTS_def) (simp add: app_new_def)

text \<open>
  C37. Whichever backend it starts with and whatever keys and ticks follow, the application stays sound:
  the selection is one of the VMs, the events are at most 256, the scroll offset points into them, and
  the counter of clean batches fits its byte.
\<close>

theorem tui_invariant:
  "(case create_app_autodetect json rounds cfg global_cfg path conn of
      Inl s \<Rightarrow> app_inv (fst (tui_run mock_ops inputs s))
    | Inr s \<Rightarrow> app_inv (fst (tui_run (daemon_ops json to_json) inputs s))) \<and>
   app_inv (fst (tui_run mock_ops inputs (create_mock_app global_cfg)))"
  by (cases "connect_default json rounds path conn")
    (simp_all only: create_app_autodetect_def sum.case mock.run_inv daemon.run_inv create_inv fst_conv simp_thms)

lemma snapshot_reaches_client_witness:
  "\<forall>he jd io s b.
     (case fst (server_advance he jd io s) of
        ShellCommand c \<Rightarrow> False
      | Snapshot vms events_global events_vm \<Rightarrow>
          (case drain_socket (\<lambda>line. Inr (Snapshot vms events_global events_vm))
                  (b\<lparr>db_connected := True, db_read_buffer := [], db_reads := map ReadBytes [''{'', ''}'' @ [line_feed]]\<rparr>) of
             (r, b') \<Rightarrow> db_last_snapshot_vms b' = map map_vm_status vms))"
proof (intro allI)
  fix he jd io s and b :: daemon_backend
  obtain vms g bt where msg: "fst (server_advance he jd io s) = Snapshot vms g bt" using server_advance_message by blast
  let ?to_json = "\<lambda>m. if m = Snapshot vms g bt then Inr ''{}'' else Inl ''no''"
  let ?json = "\<lambda>line. Inr (Snapshot vms g bt)"
  have codec: "line_codec ?to_json ?json"
    by (auto simp: line_codec_def line_feed_def trim_def is_ws_def split: if_splits)
  obtain ids s' where "server_round he jd ?to_json io s = (Some (concat [''{'', ''}'' @ [line_feed]], ids), s')"
    using msg by (cases "server_advance he jd io s")
      (auto simp: server_round_def andThen_def server_send_def split: prod.splits)
  note reach = snapshot_reaches_client [where json = "?json", OF codec this, where b = b]
  have cut: "\<forall>chunk \<in> set [''{'', ''}'' @ [line_feed]]. chunk \<noteq> [] \<and> utf8_valid chunk"
    by (simp add: utf8_valid_def utf8_follow_def in_range_def line_feed_def)
  show "case fst (server_advance he jd io s) of
        ShellCommand c \<Rightarrow> False
      | Snapshot vms events_global events_vm \<Rightarrow>
          (case drain_socket (\<lambda>line. Inr (Snapshot vms events_global events_vm))
                  (b\<lparr>db_connected := True, db_read_buffer := [], db_reads := map ReadBytes [''{'', ''}'' @ [line_feed]]\<rparr>) of
             (r, b') \<Rightarrow> db_last_snapshot_vms b' = map map_vm_status vms)"
    using reach [OF cut] by (simp add: msg split: prod.splits)
qed

subsection \<open>Health\<close>

text \<open>A tick of a client whose connection is gone and that has nothing to tell.\<close>

lemma on_tick_dead:
  assumes "\<not> db_connected b" "db_pending_events b = []" "db_last_snapshot_vms b = ap_vms a"
  shows "on_tick (daemon_ops json to_json) (a, b) = (clean_batch (a\<lparr>ap_tick_count := ap_tick_count a + 1\<rparr>), b)"
proof -
  have r: "daemon_refresh_status json (ap_vms a) b = (ap_vms a, b)"
    using assms by (simp add: daemon_refresh_status_def drain_socket_def Let_def)
  have p: "daemon_poll_events b = ([], b)" using assms(2) by (cases b) (simp add: daemon_poll_events_def)
  show ?thesis using r p
    by (cases a) (simp add: on_tick_def daemon_ops_def push_events_def Let_def update_daemon_health_def)
qed

lemma ticks_dead:
  assumes "\<not> db_connected b" "db_pending_events b = []" "db_last_snapshot_vms b = ap_vms a"
    "ap_health a = HealthDegraded" "ap_clean_runs a = 0"
  shows "\<exists>a'. (on_tick (daemon_ops json to_json) ^^ n) (a, b) = (a', b) \<and> ap_vms a' = ap_vms a \<and>
    ap_clean_runs a' = min n u8_max \<and> ap_health a' = (if n < 6 then HealthDegraded else HealthHealthy)"
proof (induction n)
  case (Suc n)
  then obtain a' where a': "(on_tick (daemon_ops json to_json) ^^ n) (a, b) = (a', b)" "ap_vms a' = ap_vms a"
    "ap_clean_runs a' = min n u8_max" "ap_health a' = (if n < 6 then HealthDegraded else HealthHealthy)"
    by blast
  from on_tick_dead [OF assms(1,2), of a'] assms(3) a'(2)
  have "(on_tick (daemon_ops json to_json) ^^ Suc n) (a, b) = (clean_batch (a'\<lparr>ap_tick_count := ap_tick_count a' + 1\<rparr>), b)"
    by (simp add: a'(1))
  with a' show ?case by (auto simp: clean_batch_def Let_def u8_max_def min_def)
qed (use assms in simp)

definition ipc_error_event :: "string \<Rightarrow> app_event" where
  "ipc_error_event e = app_ev AppError (''chalybs-tui: daemon IPC error: '' @ e)"

lemma ipc_error_complains: "is_daemon_complaint (ipc_error_event e)"
proof -
  have "str_contains (''chalybs-tui: daemon IPC error: '' @ e) ''daemon''" by (simp add: starts_with_def)
  then show ?thesis by (simp add: is_daemon_complaint_def ipc_error_event_def app_ev_def del: str_contains.simps)
qed

lemma on_tick_read_error:
  assumes "db_connected b" "db_pending_events b = []" "db_last_snapshot_vms b = ap_vms a"
    "db_reads b = ReadErr kind e # rest" "kind \<noteq> WouldBlock"
  shows "on_tick (daemon_ops json to_json) (a, b) =
    (push_events [ipc_error_event e] (a\<lparr>ap_tick_count := ap_tick_count a + 1\<rparr>),
     b\<lparr>db_reads := rest, db_connected := False\<rparr>)"
proof -
  let ?b1 = "b\<lparr>db_reads := rest, db_connected := False, db_pending_events := [ipc_error_event e]\<rparr>"
  have r: "daemon_refresh_status json (ap_vms a) b = (ap_vms a, ?b1)"
    using assms by (cases b)
      (simp add: daemon_refresh_status_def drain_socket_def note_pending_def ipc_error_event_def Let_def)
  have p: "daemon_poll_events ?b1 = ([ipc_error_event e], b\<lparr>db_reads := rest, db_connected := False\<rparr>)"
    using assms(2) by (cases b) (simp add: daemon_poll_events_def)
  show ?thesis using r p by (cases a) (simp add: on_tick_def daemon_ops_def)
qed

text \<open>
  C38. The health display forgets a lost connection.  When a read fails with any error but that nothing is
  there yet, and the text of the error does not happen to hold one of the three phrases that mean
  disconnected, then that tick ends the connection for good and turns a healthy client degraded; with
  nothing more arriving it is shown degraded for five ticks more, and from the sixth quiet tick on as healthy.
\<close>

theorem lost_connection_heals:
  "if kind \<noteq> WouldBlock \<and>
      list_all (\<lambda>s. str_contains (''chalybs-tui: daemon IPC error: '' @ e) s = False)
        [''daemon unavailable'', ''daemon closed IPC connection'', ''failed to connect to'']
   then
     (case (on_tick (daemon_ops json to_json) ^^ n)
        (a\<lparr>ap_health := HealthHealthy\<rparr>,
         b\<lparr>db_connected := True, db_pending_events := [], db_last_snapshot_vms := ap_vms a,
           db_reads := ReadErr kind e # rest\<rparr>) of
       (a', b') \<Rightarrow>
         ap_health a' = (if 1 \<le> n \<and> n \<le> 6 then HealthDegraded else HealthHealthy) \<and>
         db_connected b' = (n = 0))
   else True"
proof (cases "n = 0 \<or> kind = WouldBlock \<or> is_disconnect (ipc_error_event e)")
  case True
  then show ?thesis by (auto simp: is_disconnect_def ipc_error_event_def app_ev_def simp del: str_contains.simps)
next
  case False
  then obtain m where n: "n = Suc m" by (cases n) auto
  let ?a = "a\<lparr>ap_health := HealthHealthy\<rparr>"
  let ?b = "b\<lparr>db_connected := True, db_pending_events := [], db_last_snapshot_vms := ap_vms a,
         db_reads := ReadErr kind e # rest\<rparr>"
  let ?b1 = "?b\<lparr>db_reads := rest, db_connected := False\<rparr>"
  let ?a1 = "push_events [ipc_error_event e] (?a\<lparr>ap_tick_count := ap_tick_count a + 1\<rparr>)"
  have first: "on_tick (daemon_ops json to_json) (?a, ?b) = (?a1, ?b1)"
    using on_tick_read_error [of ?b ?a kind e rest json to_json] False by simp
  have h: "ap_health ?a1 = HealthDegraded" "ap_clean_runs ?a1 = 0"
    using False ipc_error_complains [of e] by (simp_all add: push_events_def Let_def update_daemon_health_def)
  have "(on_tick (daemon_ops json to_json) ^^ n) (?a, ?b) = (on_tick (daemon_ops json to_json) ^^ m) (?a1, ?b1)"
    by (simp only: n funpow_Suc_right o_apply first)
  moreover obtain a' where "(on_tick (daemon_ops json to_json) ^^ m) (?a1, ?b1) = (a', ?b1)"
    "ap_health a' = (if m < 6 then HealthDegraded else HealthHealthy)"
    using ticks_dead [where b = ?b1 and a = ?a1 and n = m and json = json and to_json = to_json] h by auto
  ultimately have "case (on_tick (daemon_ops json to_json) ^^ n) (?a, ?b) of (a', b') \<Rightarrow>
      ap_health a' = (if 1 \<le> n \<and> n \<le> 6 then HealthDegraded else HealthHealthy) \<and> db_connected b' = (n = 0)"
    by (simp add: n)
  then show ?thesis by simp
qed

end
