(* ===== verification/Chalybs_Glitch.thy ===== *)
theory Chalybs_Glitch
  imports Chalybs_Client
begin

text \<open>
  \<^verbatim>\<open>tui/src/glitch.rs\<close>: the profile of the visual disturbances, a function of the tick in
  64-bit arithmetic, and what it promises: bursts are aligned to windows of three ticks, never touch
  the shell, and every derived value stays in its small range.
\<close>

unbundle bit_operations_syntax

subsection \<open>The profile\<close>

datatype glitch_mode = ColorInvert | PhaseJitter | GhostFrame | JunkInjection | SpatialJitter

record glitch =
  gl_active :: bool
  gl_strength :: "8 word"
  gl_mode :: glitch_mode
  gl_regions :: "8 word"
  gl_phase :: "8 word"

definition REGION_HEADER :: "8 word" where "REGION_HEADER = 1"
definition REGION_VMS :: "8 word" where "REGION_VMS = 2"
definition REGION_EVENTS :: "8 word" where "REGION_EVENTS = 4"
definition REGION_SHELL :: "8 word" where "REGION_SHELL = 8"
definition REGION_BORDERS :: "8 word" where "REGION_BORDERS = 16"
definition REGION_SPARK :: "8 word" where "REGION_SPARK = 32"

definition inactive :: glitch where
  "inactive = \<lparr>gl_active = False, gl_strength = 0, gl_mode = PhaseJitter, gl_regions = 0, gl_phase = 0\<rparr>"

definition GLITCH_DEBUG_MULTIPLIER :: nat where "GLITCH_DEBUG_MULTIPLIER = 4"

definition mix64 :: "64 word \<Rightarrow> 64 word" where
  "mix64 x0 =
     (let x1 = x0 XOR drop_bit 12 x0; x2 = x1 XOR push_bit 25 x1; x3 = x2 XOR drop_bit 27 x2
      in x3 * 0x2545F4914F6CDD1D)"

definition glitch_strength :: "64 word \<Rightarrow> 8 word" where
  "glitch_strength seed =
     (let strength = ucast (drop_bit 8 seed AND 3) + 1 in if 3 < strength then 3 else strength)"

definition glitch_mode_of :: "64 word \<Rightarrow> glitch_mode" where
  "glitch_mode_of seed =
     (let mode_idx = drop_bit 16 seed mod 5
      in if mode_idx = 0 then ColorInvert
         else if mode_idx = 1 then PhaseJitter
         else if mode_idx = 2 then GhostFrame
         else if mode_idx = 3 then JunkInjection
         else SpatialJitter)"

text \<open>The bits of the seed that name a region, and the region.\<close>

definition region_if :: "64 word \<Rightarrow> 64 word \<Rightarrow> 8 word \<Rightarrow> 8 word" where
  "region_if rbits b region = (if rbits AND b \<noteq> 0 then region else 0)"

definition glitch_regions :: "64 word \<Rightarrow> 8 word" where
  "glitch_regions seed =
     (let rbits = drop_bit 24 seed AND 0xFF;
          regions = region_if rbits 0x01 REGION_HEADER OR region_if rbits 0x02 REGION_VMS OR
            region_if rbits 0x04 REGION_EVENTS OR region_if rbits 0x08 REGION_BORDERS OR
            region_if rbits 0x10 REGION_SPARK
      in if regions = 0 then REGION_EVENTS else regions)"

definition glitch_profile :: "64 word \<Rightarrow> glitch" where
  "glitch_profile tick =
     (if tick < 128 then inactive
      else
        (let seed = mix64 (tick div 3);
             effective_mask = drop_bit (min GLITCH_DEBUG_MULTIPLIER 7) (0xFF :: 64 word)
         in if seed AND effective_mask \<noteq> 0 then inactive
            else \<lparr>gl_active = True, gl_strength = glitch_strength seed, gl_mode = glitch_mode_of seed,
                  gl_regions = glitch_regions seed, gl_phase = ucast (tick mod 3)\<rparr>))"

subsection \<open>Its use\<close>

definition affects_region :: "glitch \<Rightarrow> 8 word \<Rightarrow> bool" where
  "affects_region p region_mask \<longleftrightarrow> gl_active p \<and> gl_regions p AND region_mask \<noteq> 0"

definition tick_for_region :: "64 word \<Rightarrow> glitch \<Rightarrow> 8 word \<Rightarrow> 64 word" where
  "tick_for_region base_tick p region_mask =
     (if \<not> affects_region p region_mask then base_tick
      else
        (case gl_mode p of
           PhaseJitter \<Rightarrow> base_tick + (ucast (gl_phase p) + 1) * (3 + ucast (gl_strength p) * 2)
         | GhostFrame \<Rightarrow>
             (let behind = min (ucast (gl_phase p) + 1) 3 in if behind \<le> base_tick then base_tick - behind else 0)
         | _ \<Rightarrow> base_tick))"

definition space_jitter :: "glitch \<Rightarrow> 8 word \<Rightarrow> 16 word \<Rightarrow> int" where
  "space_jitter p region_mask lane =
     (if \<not> affects_region p region_mask then 0
      else if gl_mode p \<noteq> SpatialJitter then 0
      else
        (let local_bits = mix64 (ucast lane * 0x9E3779B185EBCA87 + ucast (gl_phase p) * 31) AND 3
         in if local_bits = 0 then - 1 else if local_bits = 1 then 1 else 0))"

text \<open>The glyphs, each as the bytes of its encoding.\<close>

definition GLYPHS :: "string list" where
  "GLYPHS =
     [[CHR 0xE2, CHR 0x96, CHR 0x91], [CHR 0xE2, CHR 0x96, CHR 0x92], [CHR 0xE2, CHR 0x96, CHR 0x93], [CHR 0xE2, CHR 0x96, CHR 0x88],
      [CHR 0xE2, CHR 0x96, CHR 0x80], [CHR 0xE2, CHR 0x96, CHR 0x84], [CHR 0xE2, CHR 0x96, CHR 0x8C], [CHR 0xE2, CHR 0x96, CHR 0x90],
      [CHR 0xE2, CHR 0x89, CHR 0xA1], [CHR 0xE2, CHR 0x89, CHR 0xA3], [CHR 0xE2, CHR 0x97, CHR 0x86], [CHR 0xE2, CHR 0x97, CHR 0x88],
      [CHR 0xE2, CHR 0x96, CHR 0xAA], [CHR 0xE2, CHR 0x96, CHR 0xAB]]"

definition junk_glyph :: "64 word \<Rightarrow> nat \<Rightarrow> string" where
  "junk_glyph seed i = GLYPHS ! (unat (drop_bit (12 + i * 4) seed AND 0xF) mod length GLYPHS)"

definition junk_glyphs :: "64 word \<Rightarrow> string list" where
  "junk_glyphs seed = map (junk_glyph seed) [0..<2 + unat (drop_bit 8 seed mod 3)]"

definition junk_prefix :: "nat \<Rightarrow> 64 word \<Rightarrow> glitch \<Rightarrow> string option" where
  "junk_prefix row_index tick p =
     (if \<not> affects_region p REGION_EVENTS then None
      else if gl_mode p \<noteq> JunkInjection then None
      else
        (let seed = mix64 (of_nat row_index + tick * 17 + ucast (gl_phase p) * 37)
         in if seed AND 7 \<noteq> 0 then None
            else Some (concat (junk_glyphs seed))))"

subsection \<open>What it promises\<close>

lemma and_3_cases: "(w AND 3 :: 64 word) \<in> {0, 1, 2, 3}"
proof -
  have "w AND 3 = take_bit 2 w" by (simp add: take_bit_eq_mask mask_eq_exp_minus_1)
  then have "unat (w AND 3) = unat w mod 4" by (simp add: take_bit_eq_mod unat_mod)
  then have "unat (w AND 3) \<in> {0, 1, 2, 3}" using mod_less_divisor [of 4 "unat w"] by auto
  then show ?thesis by (auto simp: word_unat_eq_iff)
qed

lemma glitch_strength_bounds: "1 \<le> glitch_strength seed \<and> glitch_strength seed \<le> 3"
  using and_3_cases [of "drop_bit 8 seed"] by (auto simp: glitch_strength_def Let_def)

lemma region_if_cases: "region_if r b g \<in> {0, g}"
  by (simp add: region_if_def)

lemma glitch_regions_shape:
  "glitch_regions seed \<noteq> 0 \<and> glitch_regions seed AND REGION_SHELL = 0 \<and> glitch_regions seed AND 0xC0 = 0"
proof -
  let ?r = "drop_bit 24 seed AND 0xFF"
  have "region_if ?r 0x01 REGION_HEADER \<in> {0, 1}" "region_if ?r 0x02 REGION_VMS \<in> {0, 2}"
    "region_if ?r 0x04 REGION_EVENTS \<in> {0, 4}" "region_if ?r 0x08 REGION_BORDERS \<in> {0, 16}"
    "region_if ?r 0x10 REGION_SPARK \<in> {0, 32}"
    by (simp_all add: region_if_def REGION_HEADER_def REGION_VMS_def REGION_EVENTS_def REGION_BORDERS_def REGION_SPARK_def)
  then show ?thesis
    unfolding glitch_regions_def Let_def REGION_SHELL_def REGION_EVENTS_def [symmetric]
    by (elim insertE emptyE; simp add: REGION_EVENTS_def)
qed

lemma phase_bound: "unat (ucast (tick mod 3 :: 64 word) :: 8 word) = unat tick mod 3"
proof -
  have "unat (tick mod 3) = unat tick mod 3" by (simp add: unat_mod)
  then show ?thesis by (simp add: unsigned_ucast_eq take_bit_eq_mod)
qed

lemma inactive_region [simp]: "\<not> affects_region inactive r"
  by (simp add: affects_region_def inactive_def)

lemma glitch_profile_active:
  assumes "gl_active (glitch_profile tick)"
  shows "128 \<le> tick" "1 \<le> gl_strength (glitch_profile tick)" "gl_strength (glitch_profile tick) \<le> 3"
    "unat (gl_phase (glitch_profile tick)) = unat tick mod 3" "gl_regions (glitch_profile tick) \<noteq> 0"
    "gl_regions (glitch_profile tick) AND REGION_SHELL = 0"
  using assms glitch_strength_bounds [of "mix64 (tick div 3)"] glitch_regions_shape [of "mix64 (tick div 3)"] phase_bound [of tick]
  by (auto simp: glitch_profile_def inactive_def Let_def split: if_splits)

lemma glitch_profile_inactive: "\<not> gl_active (glitch_profile tick) \<Longrightarrow> glitch_profile tick = inactive"
  by (auto simp: glitch_profile_def Let_def split: if_splits)

lemma tick_shift_bound:
  assumes "unat (s :: 8 word) \<le> 3" "unat (ph :: 8 word) < 3"
  shows "(ucast ph + 1) * (3 + ucast s * 2) \<le> (27 :: 64 word)"
proof -
  have "s \<in> {0, 1, 2, 3}" "ph \<in> {0, 1, 2}"
    using assms by (auto simp: word_unat_eq_iff)
  then show ?thesis by auto
qed

lemma junk_glyph_in: "junk_glyph seed i \<in> set GLYPHS"
proof -
  have "length GLYPHS = 14" by (simp add: GLYPHS_def)
  then show ?thesis by (simp add: junk_glyph_def)
qed

lemma tick_for_region_bound:
  "(\<exists>ahead \<le> 27. tick_for_region tick (glitch_profile tick) region = tick + ahead) \<or>
   (\<exists>behind \<le> 3. unat (tick_for_region tick (glitch_profile tick) region) = unat tick - behind)"
proof (cases "affects_region (glitch_profile tick) region")
  case False
  then show ?thesis by (auto simp: tick_for_region_def intro: exI [of _ 0])
next
  case True
  let ?p = "glitch_profile tick"
  from True have act: "gl_active ?p" by (simp add: affects_region_def)
  show ?thesis
  proof (cases "gl_mode ?p")
    case PhaseJitter
    have "unat (gl_strength ?p) \<le> 3" "unat (gl_phase ?p) < 3"
      using glitch_profile_active (3,4) [OF act] by (simp_all add: word_le_nat_alt)
    from tick_shift_bound [OF this] show ?thesis
      using True PhaseJitter by (auto simp: tick_for_region_def)
  next
    case GhostFrame
    let ?ticks_behind = "min (ucast (gl_phase ?p) + 1) (3 :: 64 word)"
    have "unat ?ticks_behind \<le> 3" by (simp add: min_def word_le_nat_alt)
    moreover have "unat (tick_for_region tick ?p region) = unat tick - unat ?ticks_behind"
      using True GhostFrame by (simp add: tick_for_region_def Let_def unat_sub word_le_nat_alt)
    ultimately show ?thesis by blast
  qed (use True in \<open>auto simp: tick_for_region_def intro: exI [of _ 0]\<close>)
qed

lemma junk_prefix_shape:
  "junk_prefix row tick p = None \<or>
   (\<exists>gs. junk_prefix row tick p = Some (concat gs) \<and> set gs \<subseteq> set GLYPHS \<and> length gs \<in> {2, 3, 4})"
proof -
  have "set (junk_glyphs seed) \<subseteq> set GLYPHS" for seed using junk_glyph_in by (auto simp: junk_glyphs_def)
  moreover have "length (junk_glyphs seed) \<in> {2, 3, 4}" for seed
  proof -
    have "unat (drop_bit 8 seed mod 3) < 3" by (simp add: unat_mod)
    then show ?thesis by (simp add: junk_glyphs_def) linarith
  qed
  ultimately show ?thesis
    unfolding junk_prefix_def Let_def by simp blast
qed

text \<open>
  The disturbances stay in their bounds at every tick: without a burst the profile is the inactive
  one, as always in the first 128 ticks; a burst has a strength from 1 to 3 and a phase below 3,
  touches at least one region and never the shell; a region's tick runs ahead by at most 27 or
  behind by at most 3; a row is moved by at most one cell; and junk is two to four of the known glyphs.
\<close>

theorem glitch_bounds:
  "let p = glitch_profile tick
   in (if gl_active p then
         128 \<le> tick \<and> 1 \<le> gl_strength p \<and> gl_strength p \<le> 3 \<and> unat (gl_phase p) = unat tick mod 3 \<and>
         gl_regions p \<noteq> 0 \<and> \<not> affects_region p REGION_SHELL
       else p = inactive) \<and>
      ((\<exists>ahead \<le> 27. tick_for_region tick p region = tick + ahead) \<or>
       (\<exists>behind \<le> 3. unat (tick_for_region tick p region) = unat tick - behind)) \<and>
      space_jitter p region lane \<in> {- 1, 0, 1} \<and>
      (junk_prefix row tick p = None \<or>
       (\<exists>gs. junk_prefix row tick p = Some (concat gs) \<and> set gs \<subseteq> set GLYPHS \<and> length gs \<in> {2, 3, 4}))"
proof -
  let ?p = "glitch_profile tick"
  have "if gl_active ?p then
         128 \<le> tick \<and> 1 \<le> gl_strength ?p \<and> gl_strength ?p \<le> 3 \<and> unat (gl_phase ?p) = unat tick mod 3 \<and>
         gl_regions ?p \<noteq> 0 \<and> \<not> affects_region ?p REGION_SHELL
       else ?p = inactive"
    using glitch_profile_active [of tick] glitch_profile_inactive [of tick] by (auto simp: affects_region_def)
  moreover have "(\<exists>ahead \<le> 27. tick_for_region tick ?p region = tick + ahead) \<or>
       (\<exists>behind \<le> 3. unat (tick_for_region tick ?p region) = unat tick - behind)"
    by (rule tick_for_region_bound)
  moreover have "space_jitter ?p region lane \<in> {- 1, 0, 1}" by (simp add: space_jitter_def Let_def)
  ultimately show ?thesis using junk_prefix_shape [of row tick ?p] by (simp only: Let_def simp_thms)
qed

end
