(* ===== verification/Chalybs_Screen.thy ===== *)
theory Chalybs_Screen
  imports Chalybs_Glitch
begin

text \<open>
  What the terminal client puts on the screen, from \<^verbatim>\<open>tui/src/ui.rs\<close> and
  \<^verbatim>\<open>tui/src/theme.rs\<close>: the lines of styled text of every panel.  Where the panels are on the
  screen is the work of the drawing crate; the width and height inside a panel are arguments here.

  The breathing of the logo is a sine in 32-bit floating point.  What the panels take from it is the
  record \<open>curves\<close>, an argument of every definition that depends on it.
\<close>

subsection \<open>Styles\<close>

datatype colour = Rgb "8 word" "8 word" "8 word"

definition BG :: colour where "BG = Rgb 8 10 16"
definition PANEL_BG :: colour where "PANEL_BG = Rgb 12 16 24"
definition ACCENT_TEAL :: colour where "ACCENT_TEAL = Rgb 0 220 200"
definition ACCENT_PINK :: colour where "ACCENT_PINK = Rgb 255 45 135"
definition ACCENT_PURPLE :: colour where "ACCENT_PURPLE = Rgb 160 80 200"
definition SUCCESS :: colour where "SUCCESS = Rgb 120 230 160"
definition WARNING :: colour where "WARNING = Rgb 255 190 90"
definition ERROR :: colour where "ERROR = Rgb 255 100 100"
definition TEXT_NORMAL :: colour where "TEXT_NORMAL = Rgb 215 220 230"
definition TEXT_DIM :: colour where "TEXT_DIM = Rgb 130 140 155"

text \<open>The drawing crate's style, as far as it is used: the colours, and the modifiers bold and dim.\<close>

record style =
  st_fg :: "colour option"
  st_bg :: "colour option"
  st_bold :: bool
  st_dim :: bool

definition style_default :: style where
  "style_default = \<lparr>st_fg = None, st_bg = None, st_bold = False, st_dim = False\<rparr>"

definition with_fg :: "colour \<Rightarrow> style \<Rightarrow> style" where "with_fg c st = st\<lparr>st_fg := Some c\<rparr>"
definition with_bg :: "colour \<Rightarrow> style \<Rightarrow> style" where "with_bg c st = st\<lparr>st_bg := Some c\<rparr>"
definition with_bold :: "style \<Rightarrow> style" where "with_bold st = st\<lparr>st_bold := True\<rparr>"
definition with_dim :: "style \<Rightarrow> style" where "with_dim st = st\<lparr>st_dim := True\<rparr>"

definition block_title :: style where "block_title = with_bold (with_fg ACCENT_TEAL style_default)"
definition header_title :: style where "header_title = with_bold (with_fg ACCENT_TEAL style_default)"
definition normal_text :: style where "normal_text = with_fg TEXT_NORMAL style_default"
definition dim_text :: style where "dim_text = with_fg TEXT_DIM style_default"
definition status_ok :: style where "status_ok = with_bold (with_fg SUCCESS style_default)"
definition status_warn :: style where "status_warn = with_bold (with_fg WARNING style_default)"
definition status_err :: style where "status_err = with_bold (with_fg ERROR style_default)"
definition glyph_ok :: style where "glyph_ok = with_bold (with_fg ACCENT_TEAL style_default)"
definition glyph_warn :: style where "glyph_warn = with_bold (with_fg WARNING style_default)"
definition glyph_err :: style where "glyph_err = with_bold (with_fg ERROR style_default)"
definition event_info :: style where "event_info = with_fg TEXT_NORMAL style_default"
definition event_warning :: style where "event_warning = with_fg WARNING style_default"
definition event_error :: style where "event_error = with_fg ERROR style_default"
definition event_shell :: style where "event_shell = with_fg ACCENT_PINK style_default"
definition event_system :: style where "event_system = with_fg ACCENT_PURPLE style_default"

type_synonym styled = "style \<times> string"
type_synonym styled_line = "styled list"

definition plain :: "string \<Rightarrow> styled" where
  "plain t = (style_default, t)"

text \<open>
  What is taken from the breathing at a tick: whether it is above 1.05 or below 0.95, the drift of the
  noise it gives, the shade of a colour, and the load bar of a row.
\<close>

record curves =
  cu_strong :: "64 word \<Rightarrow> bool"
  cu_weak :: "64 word \<Rightarrow> bool"
  cu_drift :: "64 word \<Rightarrow> int"
  cu_shade :: "64 word \<Rightarrow> colour \<Rightarrow> colour"
  cu_load :: "64 word \<Rightarrow> nat \<Rightarrow> string"

definition maybe_invert_style :: "style \<Rightarrow> glitch \<Rightarrow> 8 word \<Rightarrow> style" where
  "maybe_invert_style base g region_mask =
     (if \<not> gl_active g then base
      else if gl_mode g \<noteq> ColorInvert then base
      else if \<not> affects_region g region_mask then base
      else with_fg BG (with_bg TEXT_NORMAL base))"

definition apply_scanline_style :: "style \<Rightarrow> nat \<Rightarrow> 64 word \<Rightarrow> visual_effects \<Rightarrow> style" where
  "apply_scanline_style base row_index tick fx =
     (if \<not> fx_scanlines fx then base
      else
        (let band = (of_nat row_index + tick div 8) mod 4
         in if band = 0 then with_bg BG base
            else if band = 1 then with_bg PANEL_BG base
            else if band = 2 then with_dim (with_bg BG base)
            else base))"

text \<open>The borders: the seed, the amplitude, and the style.\<close>

definition border_seed :: "64 word \<Rightarrow> 64 word \<Rightarrow> 64 word" where
  "border_seed tick salt = (push_bit 7 tick + salt * 0x9E3779B185EBCA87) XOR word_rotl 11 tick"

definition border_strength :: "curves \<Rightarrow> 64 word \<Rightarrow> 64 word \<Rightarrow> nat" where
  "border_strength cu tick salt =
     (let seed = border_seed tick salt;
          burst_roll = drop_bit 8 seed AND 0xFF;
          burst_active = burst_roll < 2 \<and> (tick + salt * 17) mod 97 < 7;
          lf_phase = (tick div 23 + salt * 3) mod 7;
          hf_phase = (tick div 3 + drop_bit 5 seed) mod 5;
          s1 = (if lf_phase \<in> {2, 4} then 1 else if lf_phase = 5 then 2 else 0);
          s2 = (if hf_phase = 1 \<or> hf_phase = 3 then s1 + 1 else s1);
          s3 = (if burst_active then s2 + 2 else s2);
          s4 = (if cu_strong cu tick \<and> s3 < 3 then s3 + 1
                else if cu_weak cu tick \<and> 0 < s3 then s3 - 1 else s3)
      in min s4 3)"

definition panel_border_style :: "curves \<Rightarrow> 64 word \<Rightarrow> 64 word \<Rightarrow> visual_effects \<Rightarrow> glitch \<Rightarrow> style" where
  "panel_border_style cu tick salt fx g =
     (if \<not> fx_border_noise fx then maybe_invert_style dim_text g REGION_BORDERS
      else
        (let hiss_bit = drop_bit 19 (border_seed tick salt) AND 1 \<noteq> 0;
             base = (if hiss_bit then with_dim dim_text else dim_text);
             strength = border_strength cu tick salt;
             st = (if strength \<le> 1 then base
                   else if strength = 2 then with_dim normal_text
                   else with_bold normal_text)
         in maybe_invert_style st g REGION_BORDERS))"

text \<open>A text that is moved by a cell.\<close>

definition jittered :: "int \<Rightarrow> string \<Rightarrow> string" where
  "jittered jitter t = (if jitter = - 1 then t @ '' '' else if jitter = 1 then '' '' @ t else t)"

subsection \<open>Header and footer\<close>

definition header_load :: "curves \<Rightarrow> app \<Rightarrow> glitch \<Rightarrow> styled_line" where
  "header_load cu a g =
     (let tagline_style = maybe_invert_style dim_text g REGION_HEADER;
          spark_tick = tick_for_region (ap_tick_count a) g REGION_SPARK;
          spark_style = maybe_invert_style (with_fg (cu_shade cu spark_tick ACCENT_PINK) style_default) g REGION_SPARK
      in [plain ''   '', (tagline_style, ''[load ''),
          (spark_style, jittered (space_jitter g REGION_SPARK 0) (cu_load cu spark_tick 0)),
          (tagline_style, '']'')])"

definition draw_header :: "curves \<Rightarrow> app \<Rightarrow> glitch \<Rightarrow> styled_line" where
  "draw_header cu a g =
     [(header_title, ''Chalybs ''),
      (maybe_invert_style dim_text g REGION_HEADER, [CHR 0xE2, CHR 0x80, CHR 0x93] @ '' Forged in Linux. Tempered in Rust. Honed on bare metal.'')] @
     (if fx_load_index (ap_effects a) then header_load cu a g else [])"

definition draw_footer :: "app \<Rightarrow> styled_line" where
  "draw_footer a =
     [(header_title, ''q''), plain '' quit  '',
      (header_title, [CHR 0xE2, CHR 0x86, CHR 0x91] @ ''/'' @ [CHR 0xE2, CHR 0x86, CHR 0x93]), plain '' select VM  '',
      (header_title, ''Enter''), plain '' send shell command  '',
      (header_title, ''F2''), plain '' VM detail  '',
      (header_title, ''Ctrl-S''), plain '' lock events  '',
      (header_title, ''Ctrl-Q''), plain '' unlock  '',
      (header_title, ''PgUp/PgDn''), plain '' scroll''] @
     (if ap_scroll_locked a then [plain ''  '', (status_warn, ''[locked]'')] else [])"

subsection \<open>The list of VMs\<close>

definition VM_LAYOUT_WIDTH_FULL :: nat where "VM_LAYOUT_WIDTH_FULL = 70"
definition VM_LAYOUT_WIDTH_MEDIUM :: nat where "VM_LAYOUT_WIDTH_MEDIUM = 50"

definition vm_glyph :: "tui_vm \<Rightarrow> 64 word \<Rightarrow> visual_effects \<Rightarrow> styled" where
  "vm_glyph vm vm_tick fx =
     (let base = (case tv_state vm of
                    TuiRunning \<Rightarrow> glyph_ok | TuiStarting \<Rightarrow> glyph_warn | TuiShuttingDown \<Rightarrow> glyph_warn
                  | TuiStopped \<Rightarrow> glyph_err);
          pulse_phase = vm_tick div 4 mod 4;
          glyph = (if \<not> fx_pulse fx then [CHR 0xE2, CHR 0x97, CHR 0x8F]
                   else if pulse_phase = 0 then [CHR 0xE2, CHR 0x80, CHR 0xA2]
                   else if pulse_phase = 2 then [CHR 0xE2, CHR 0x97, CHR 0x89]
                   else [CHR 0xE2, CHR 0x97, CHR 0x8F])
      in (if fx_pulse fx \<and> pulse_phase = 2 then with_bold base else base, glyph))"

fun state_badge :: "tui_vm_state \<Rightarrow> styled" where
  "state_badge TuiRunning = (status_ok, ''[RUNNING]'')"
| "state_badge TuiStarting = (status_warn, ''[STARTING]'')"
| "state_badge TuiShuttingDown = (status_warn, ''[SHUTDOWN]'')"
| "state_badge TuiStopped = (dim_text, ''[STOPPED]'')"

definition iso_badge :: "string \<Rightarrow> styled" where
  "iso_badge mode =
     (if mode = ''disabled'' then (dim_text, ''[iso-]'')
      else if mode = ''audit'' then (status_warn, ''[iso-]'')
      else if mode = ''enforce'' then (status_ok, ''[ISO]'')
      else (dim_text, ''[iso:'' @ mode @ '']''))"

definition tasmota_badge :: "bool \<Rightarrow> styled" where
  "tasmota_badge up = (if up then (status_ok, ''[TAS: ON]'') else (dim_text, ''[TAS: OFF]''))"

definition cpu_badge :: "bool \<Rightarrow> styled" where
  "cpu_badge pinned = (if pinned then status_ok else dim_text, ''[CPU]'')"

definition irq_badge :: "bool \<Rightarrow> styled" where
  "irq_badge pinned = (if pinned then status_ok else status_err, ''[IRQ]'')"

definition name_prefix :: "tui_vm \<Rightarrow> nat \<Rightarrow> bool \<Rightarrow> 64 word \<Rightarrow> visual_effects \<Rightarrow> glitch \<Rightarrow> styled_line" where
  "name_prefix vm vm_index selected tick fx g =
     (let base = [(dim_text, if selected then [CHR 0xE2, CHR 0x96, CHR 0xB6] else '' ''), plain '' '',
                  vm_glyph vm (tick_for_region tick g REGION_VMS) fx, plain '' '', (normal_text, tv_name vm)];
          jitter = space_jitter g REGION_VMS (of_nat vm_index)
      in if jitter < 0 then plain '' '' # base else if 0 < jitter then base @ [plain '' ''] else base)"

definition build_vm_list_item ::
  "curves \<Rightarrow> tui_vm \<Rightarrow> nat \<Rightarrow> bool \<Rightarrow> nat \<Rightarrow> 64 word \<Rightarrow> visual_effects \<Rightarrow> glitch \<Rightarrow> styled_line list" where
  "build_vm_list_item cu vm vm_index selected width tick fx g =
     (let prefix = name_prefix vm vm_index selected tick fx g @ [plain ''  '', state_badge (tv_state vm)];
          spark_tick = tick_for_region tick g REGION_SPARK;
          iso = iso_badge (tv_isolation_mode vm);
          tasmota = tasmota_badge (tv_tasmota_on vm)
      in if VM_LAYOUT_WIDTH_FULL \<le> width then
           (let line1 = (if fx_badges fx then
                           prefix @ [plain ''  '', iso, plain ''  '', tasmota, plain ''  '',
                             cpu_badge (tv_cpu_pinned vm), plain '' '', irq_badge (tv_irq_pinned vm)]
                         else prefix);
                spark_style = maybe_invert_style (with_fg (cu_shade cu spark_tick ACCENT_PINK) style_default) g REGION_SPARK
            in if fx_load_index fx then
                 [line1, [plain ''    '', (dim_text, ''load ''), (spark_style, cu_load cu spark_tick vm_index)]]
               else [line1])
         else if VM_LAYOUT_WIDTH_MEDIUM \<le> width then
           (if fx_badges fx then [prefix, [plain ''    '', iso, plain ''  '', tasmota]] else [prefix])
         else [prefix])"

text \<open>What a panel holds: a remark, nothing when there is no room, or items.\<close>

datatype panel = Remark string | NoRoom | Items "styled_line list list"

definition draw_vm_status :: "curves \<Rightarrow> nat \<Rightarrow> app \<Rightarrow> glitch \<Rightarrow> panel" where
  "draw_vm_status cu width a g =
     (if ap_vms a = [] then Remark ''no VMs configured''
      else if width = 0 then NoRoom
      else
        Items (map (\<lambda>(idx, vm).
            build_vm_list_item cu vm idx (idx = ap_selected_vm a) width (ap_tick_count a) (ap_effects a) g)
          (enumerate 0 (ap_vms a))))"

subsection \<open>The events\<close>

text \<open>The characters of the noise: one for a phase, or a rare one.\<close>

definition noise_char :: "nat \<Rightarrow> bool \<Rightarrow> string" where
  "noise_char phase rare =
     (if rare then
        (if phase mod 5 = 0 then [CHR 0xE2, CHR 0x96, CHR 0x91]
         else if phase mod 5 = 1 then [CHR 0xE2, CHR 0x96, CHR 0x92]
         else if phase mod 5 = 2 then [CHR 0xE2, CHR 0x96, CHR 0x93]
         else if phase mod 5 = 3 then [CHR 0xE2, CHR 0x96, CHR 0x8C]
         else [CHR 0xE2, CHR 0x96, CHR 0x90])
      else if phase \<in> {0, 8} then [CHR 0xC2, CHR 0xB7]
      else if phase \<in> {1, 9} then [CHR 0xCB, CHR 0x99]
      else if phase \<in> {2, 10} then [CHR 0xE2, CHR 0x80, CHR 0xA2]
      else '' '')"

definition noise_column :: "curves \<Rightarrow> 64 word \<Rightarrow> nat \<Rightarrow> nat \<Rightarrow> string" where
  "noise_column cu event_tick row_index col =
     (let raw0 = event_tick div 2 + of_nat row_index * 7 + of_nat col * 11;
          drift = cu_drift cu event_tick;
          raw = (if 0 < drift then raw0 + of_int drift * 13 else raw0);
          phase = unat (raw AND 0xF);
          roll0 = unat (drop_bit 4 raw AND 0x1F);
          roll = (if cu_strong cu event_tick then roll0 - 1 else roll0)
      in noise_char phase (roll = 0))"

fun event_style :: "app_event_kind \<Rightarrow> style" where
  "event_style AppInfo = event_info"
| "event_style AppWarning = event_warning"
| "event_style AppError = event_error"
| "event_style AppShell = event_shell"
| "event_style AppSystem = event_system"

definition build_event_list_item ::
  "curves \<Rightarrow> app_event \<Rightarrow> nat \<Rightarrow> 64 word \<Rightarrow> visual_effects \<Rightarrow> glitch \<Rightarrow> styled_line" where
  "build_event_list_item cu evt row_index tick fx g =
     (let event_tick = tick_for_region tick g REGION_EVENTS;
          st = apply_scanline_style (maybe_invert_style (event_style (ae_kind evt)) g REGION_EVENTS) row_index event_tick fx;
          junk = (case junk_prefix row_index tick g of None \<Rightarrow> [] | Some noise \<Rightarrow> [(event_system, noise), plain '' '']);
          noise = concat (map (noise_column cu event_tick row_index) [0..<6]);
          jitter = space_jitter g REGION_EVENTS (of_nat row_index);
          matrix = (if fx_matrix fx then [(dim_text, jittered jitter noise), plain '' ''] else [])
      in junk @ matrix @ [(st, ae_message evt)])"

text \<open>The part of the events that is shown in \<open>height\<close> rows.\<close>

definition event_window :: "nat \<Rightarrow> app \<Rightarrow> app_event list" where
  "event_window height a =
     (let total = length (ap_events a);
          view_len = min total height;
          max_offset = total - view_len;
          offset = (if ap_scroll_locked a then min (ap_scroll_offset a) max_offset else 0);
          end_index = total - offset;
          start = end_index - view_len
      in take (end_index - start) (drop start (ap_events a)))"

definition events_title :: "app \<Rightarrow> string" where
  "events_title a = (if ap_scroll_locked a then ''Events [LOCKED]'' else ''Events'')"

definition draw_events_panel :: "curves \<Rightarrow> nat \<Rightarrow> app \<Rightarrow> glitch \<Rightarrow> panel" where
  "draw_events_panel cu height a g =
     (if ap_events a = [] then Remark ''event stream is empty''
      else if height = 0 then NoRoom
      else
        Items (map (\<lambda>(row_idx, evt). [build_event_list_item cu evt row_idx (ap_tick_count a) (ap_effects a) g])
          (enumerate 0 (event_window height a))))"

subsection \<open>The shell\<close>

definition draw_shell_panel :: "app \<Rightarrow> styled_line list \<times> styled_line" where
  "draw_shell_panel a =
     (map (\<lambda>cmd. [(event_shell, ''chalybs> ''), (normal_text, cmd)]) (rev (take 8 (rev (ap_shell_history a)))),
      [(event_shell, ''chalybs> ''), (normal_text, ap_shell_input a)])"

subsection \<open>The detail of a VM\<close>

datatype cpu_topology_status =
  TopologyAvailable "(nat \<times> nat) list" "(nat \<times> nat list) list"
| TopologyUnavailable string

text \<open>\<^verbatim>\<open>chunks(2)\<close> with the odd tail left out.\<close>

fun full_pairs :: "nat list \<Rightarrow> (nat \<times> nat) list" where
  "full_pairs (x # y # xs) = (x, y) # full_pairs xs"
| "full_pairs xs = []"

text \<open>\<^verbatim>\<open>cores.entry(core).or_default().push(cpu)\<close> on an ordered map.\<close>

fun push_core :: "nat \<Rightarrow> nat \<Rightarrow> (nat \<times> nat list) list \<Rightarrow> (nat \<times> nat list) list" where
  "push_core c cpu [] = [(c, [cpu])]"
| "push_core c cpu ((k, cpus) # rest) =
     (if c < k then (c, [cpu]) # (k, cpus) # rest
      else if c = k then (k, cpus @ [cpu]) # rest
      else (k, cpus) # push_core c cpu rest)"

definition group_cores :: "nat list \<Rightarrow> (nat \<times> nat list) list" where
  "group_cores host = fold (\<lambda>cpu. push_core (cpu div 2) cpu) host []"

definition compute_cpu_topology :: "tui_vm \<Rightarrow> cpu_topology_status" where
  "compute_cpu_topology vm =
     (let vcpus = sort (il_vm (tv_cpu_layout vm))
      in if length vcpus < 2 then TopologyUnavailable ''no vCPU pairs available for this VM''
         else
           (let vcpu_pairs = full_pairs vcpus
            in if vcpu_pairs = [] then TopologyUnavailable ''no vCPU pairs available for this VM''
               else
                 (let host = sort (il_host (tv_cpu_layout vm))
                  in if host = [] then TopologyUnavailable ''no host CPUs assigned to this VM''
                     else
                       (let host_pairs = filter (\<lambda>(core, cpus). cpus \<noteq> [])
                              (map (\<lambda>(core, cpus). (core, sort cpus)) (group_cores host))
                        in if host_pairs = [] then TopologyUnavailable ''host CPU topology could not be derived''
                           else TopologyAvailable vcpu_pairs host_pairs))))"

definition yes_no :: "bool \<Rightarrow> string \<Rightarrow> string \<Rightarrow> styled" where
  "yes_no v yes no = (if v then (status_ok, yes) else (normal_text, no))"

fun state_label :: "tui_vm_state \<Rightarrow> styled" where
  "state_label TuiRunning = (status_ok, ''running'')"
| "state_label TuiStarting = (normal_text, ''starting'')"
| "state_label TuiShuttingDown = (normal_text, ''shutting down'')"
| "state_label TuiStopped = (normal_text, ''stopped'')"

definition isolation_line :: "string \<Rightarrow> styled_line" where
  "isolation_line mode =
     [(dim_text, ''Isolation: ''), (normal_text, mode), plain ('' '' @ [CHR 0xE2, CHR 0x80, CHR 0x94] @ '' ''),
      if mode = ''disabled'' then (dim_text, ''pass-through isolation disabled'')
      else if mode = ''audit'' then (status_warn, ''events logged only (no blocking)'')
      else if mode = ''enforce'' then (status_ok, ''policy violations blocked'')
      else (dim_text, ''see isolation policy'')]"

definition bracketed :: "nat list \<Rightarrow> string" where
  "bracketed cpus = ''['' @ join '','' (map show_nat cpus) @ '']''"

fun vcpu_spans :: "bool \<Rightarrow> (nat \<times> nat) list \<Rightarrow> styled_line" where
  "vcpu_spans first [] = []"
| "vcpu_spans first ((x, y) # rest) =
     (if first then [] else [plain ''  '']) @ (normal_text, bracketed [x, y]) # vcpu_spans False rest"

definition vcpu_line :: "(nat \<times> nat) list \<Rightarrow> styled_line" where
  "vcpu_line vcpu_pairs =
     [plain ''  '', (dim_text, ''vCPU pairs: '')] @
     (if vcpu_pairs = [] then [(dim_text, ''none'')] else vcpu_spans True vcpu_pairs)"

definition host_lines :: "(nat \<times> nat list) list \<Rightarrow> styled_line list" where
  "host_lines host_pairs =
     (if host_pairs = [] then [[plain ''    '', (dim_text, ''none'')]]
      else
        map (\<lambda>(core, threads).
            [plain ''    '', (dim_text, ''core '' @ show_nat core @ '': ''),
             (if threads = [] then dim_text else normal_text, bracketed threads)]) host_pairs)"

definition mapping_line :: "(nat \<times> nat) \<times> (nat \<times> nat list) \<Rightarrow> styled_line" where
  "mapping_line = (\<lambda>((v0, v1), (core, threads)).
     [plain ''    '', (normal_text, ''vCPUs '' @ bracketed [v0, v1] @ '' '' @ [CHR 0xE2, CHR 0x86, CHR 0x92] @ '' ''),
      (normal_text, ''core '' @ show_nat core @ '' '' @ bracketed threads)])"

definition mapping_lines :: "(nat \<times> nat) list \<Rightarrow> (nat \<times> nat list) list \<Rightarrow> styled_line list" where
  "mapping_lines vcpu_pairs host_pairs =
     (if min (length vcpu_pairs) (length host_pairs) = 0 then
        [[plain ''    '', (dim_text, ''unavailable '' @ [CHR 0xE2, CHR 0x80, CHR 0x94] @ '' no overlapping vCPU/host groups'')]]
      else
        map mapping_line (zip vcpu_pairs host_pairs) @
        (if length vcpu_pairs \<noteq> length host_pairs then
           [[plain ''    '', (dim_text, ''note: mapping truncated '' @ [CHR 0xE2, CHR 0x80, CHR 0x94] @ '' vCPU and host group counts differ'')]]
         else []))"

definition topology_lines :: "cpu_topology_status \<Rightarrow> styled_line list" where
  "topology_lines t =
     (case t of
        TopologyAvailable vcpu_pairs host_pairs \<Rightarrow>
          [vcpu_line vcpu_pairs, [plain ''  '', (dim_text, ''Host SMT groups:'')]] @ host_lines host_pairs @
          [[plain ''  '', (dim_text, ''Mapping:'')]] @ mapping_lines vcpu_pairs host_pairs
      | TopologyUnavailable msg \<Rightarrow> [[plain ''  '', (dim_text, ''CPU topology: ''), (normal_text, msg)]])"

definition vm_detail_lines :: "tui_vm \<Rightarrow> styled_line list" where
  "vm_detail_lines vm =
     [[(header_title, tv_name vm)], [plain []],
      [(dim_text, ''state: ''), state_label (tv_state vm)],
      [(dim_text, ''CPU pinned: ''), yes_no (tv_cpu_pinned vm) ''yes'' ''no''],
      [(dim_text, ''IRQ pinned: ''), yes_no (tv_irq_pinned vm) ''yes'' ''no''],
      [(dim_text, ''Tasmota: ''), yes_no (tv_tasmota_on vm) ''on'' ''off''],
      isolation_line (tv_isolation_mode vm),
      [(dim_text, ''Hugepages: ''), yes_no (tv_hugepages vm) ''enabled'' ''disabled''],
      [plain []], [(header_title, ''CPU layout'')]] @
     topology_lines (compute_cpu_topology vm) @ [[plain []]]"

definition draw_vm_detail_modal :: "app \<Rightarrow> styled_line list" where
  "draw_vm_detail_modal a =
     (case selected_vm a of
        Some vm \<Rightarrow> vm_detail_lines vm
      | None \<Rightarrow> [[(normal_text, ''no VM selected'')], [plain []]]) @
     [[(dim_text, ''Press F2 or Esc to close'')]]"

subsection \<open>The window of events\<close>

text \<open>Some elements in a row, with \<open>off\<close> left out at the end.\<close>

lemma window_split:
  assumes "off + len \<le> length xs"
  shows "\<exists>older newer. xs = older @ take len (drop (length xs - off - len) xs) @ newer \<and>
    length (take len (drop (length xs - off - len) xs)) = len \<and> length newer = off"
proof (intro exI conjI)
  let ?start = "length xs - off - len"
  show "xs = take ?start xs @ take len (drop ?start xs) @ drop len (drop ?start xs)" by (simp del: drop_drop)
  show "length (take len (drop ?start xs)) = len" "length (drop len (drop ?start xs)) = off"
    using assms by simp_all
qed

lemma event_window_split:
  "\<exists>older newer. ap_events a = older @ event_window height a @ newer \<and>
     length (event_window height a) = min (length (ap_events a)) height \<and>
     length newer = (if ap_scroll_locked a then min (ap_scroll_offset a) (length (ap_events a) - height) else 0)"
proof -
  define len where "len = min (length (ap_events a)) height"
  define off where "off = (if ap_scroll_locked a then min (ap_scroll_offset a) (length (ap_events a) - len) else 0)"
  have fits: "off + len \<le> length (ap_events a)" by (auto simp: off_def len_def)
  have "event_window height a = take (length (ap_events a) - off - (length (ap_events a) - off - len))
      (drop (length (ap_events a) - off - len) (ap_events a))"
    by (simp only: event_window_def Let_def len_def off_def)
  also have "length (ap_events a) - off - (length (ap_events a) - off - len) = len" using fits by arith
  finally have "event_window height a = take len (drop (length (ap_events a) - off - len) (ap_events a))" .
  moreover have "length (ap_events a) - len = length (ap_events a) - height" by (simp add: len_def)
  ultimately show ?thesis using window_split [OF fits] by (simp only: len_def [symmetric] off_def)
qed

subsection \<open>The topology\<close>

lemma full_pairs_flat: "concat (map (\<lambda>(x, y). [x, y]) (full_pairs xs)) = take (2 * (length xs div 2)) xs"
  by (induction xs rule: full_pairs.induct) auto

lemma full_pairs_empty: "full_pairs xs = [] \<longleftrightarrow> length xs < 2"
  by (induction xs rule: full_pairs.induct) auto

text \<open>The groups so far: ordered by core, none empty, each CPU under its core.\<close>

definition core_groups :: "(nat \<times> nat list) list \<Rightarrow> bool" where
  "core_groups gs \<longleftrightarrow>
     sorted_wrt (<) (map fst gs) \<and> (\<forall>(core, cpus) \<in> set gs. cpus \<noteq> [] \<and> (\<forall>cpu \<in> set cpus. cpu div 2 = core))"

text \<open>With a core that is not below any group, the CPU goes to the end.\<close>

lemma push_core_last:
  assumes "core_groups gs" "\<forall>k \<in> set (map fst gs). k \<le> c"
  shows "concat (map snd (push_core c cpu gs)) = concat (map snd gs) @ [cpu]"
  using assms
proof (induction gs)
  case (Cons g gs)
  then show ?case by (cases g; cases gs) (auto simp: core_groups_def)
qed simp

lemma push_core_keys: "set (map fst (push_core c cpu gs)) = insert c (set (map fst gs))"
  by (induction c cpu gs rule: push_core.induct) auto

lemma push_core_groups:
  assumes "core_groups gs" "cpu div 2 = c"
  shows "core_groups (push_core c cpu gs)"
  using assms
proof (induction gs)
  case (Cons g gs)
  obtain k cpus where g: "g = (k, cpus)" by (cases g)
  from Cons.prems have "core_groups gs" by (simp add: core_groups_def)
  from Cons.IH [OF this Cons.prems(2)] Cons.prems g push_core_keys [of c cpu gs] show ?case
    by (auto simp: core_groups_def)
qed (simp add: core_groups_def)

lemma fold_push_core:
  assumes "core_groups gs" "sorted (concat (map snd gs) @ host)"
    "\<forall>(core, cpus) \<in> set gs. \<forall>cpu \<in> set host. core \<le> cpu div 2"
  shows "core_groups (fold (\<lambda>cpu. push_core (cpu div 2) cpu) host gs) \<and>
    concat (map snd (fold (\<lambda>cpu. push_core (cpu div 2) cpu) host gs)) = concat (map snd gs) @ host"
  using assms
proof (induction host arbitrary: gs)
  case (Cons cpu host)
  let ?gs = "push_core (cpu div 2) cpu gs"
  have keys: "\<forall>k \<in> set (map fst gs). k \<le> cpu div 2" using Cons.prems(3) by auto
  have flat: "concat (map snd ?gs) = concat (map snd gs) @ [cpu]" by (rule push_core_last [OF Cons.prems(1) keys])
  have "core_groups ?gs" by (rule push_core_groups [OF Cons.prems(1) refl])
  moreover have "sorted (concat (map snd ?gs) @ host)" using Cons.prems(2) flat by simp
  moreover have "\<forall>(core, cpus) \<in> set ?gs. \<forall>c \<in> set host. core \<le> c div 2"
  proof (intro ballI, clarify)
    fix core cpus c
    assume "(core, cpus) \<in> set ?gs" and c: "c \<in> set host"
    then have "core \<in> insert (cpu div 2) (set (map fst gs))" using push_core_keys [of "cpu div 2" cpu gs] by force
    moreover have "cpu \<le> c" using Cons.prems(2) c by (auto simp: sorted_append)
    ultimately show "core \<le> c div 2" using keys div_le_mono [of cpu c 2] by fastforce
  qed
  ultimately show ?case using Cons.IH [of ?gs] flat by simp
qed simp

lemma group_cores_sorted:
  assumes "sorted host"
  shows "core_groups (group_cores host)" "concat (map snd (group_cores host)) = host"
  using fold_push_core [of "[]" host] assms by (simp_all add: group_cores_def core_groups_def)

text \<open>On sorted CPUs the groups are sorted and non-empty already, so the clean-up changes nothing.\<close>

lemma group_cores_clean:
  assumes "sorted host"
  shows "filter (\<lambda>(core, cpus). cpus \<noteq> []) (map (\<lambda>(core, cpus). (core, sort cpus)) (group_cores host)) = group_cores host"
proof -
  have "sort cpus = cpus \<and> cpus \<noteq> []" if "(core, cpus) \<in> set (group_cores host)" for core cpus
  proof -
    from that obtain gs hs where "group_cores host = gs @ (core, cpus) # hs" by (auto dest: split_list)
    with group_cores_sorted (2) [OF assms] assms have "sorted cpus" by (auto simp: sorted_append)
    with group_cores_sorted (1) [OF assms] that show ?thesis by (auto simp: core_groups_def sorted_sort_id)
  qed
  then have "\<forall>g \<in> set (group_cores host). (\<lambda>(core, cpus). (core, sort cpus)) g = g \<and> (\<lambda>(core, cpus). cpus \<noteq> []) g"
    by auto
  then show ?thesis by (metis (mono_tags, lifting) filter_True map_idI)
qed

text \<open>
  The detail of a VM shows all its CPUs: the topology is unavailable exactly when the VM has fewer than
  two vCPUs or no host CPU; otherwise the pairs are the sorted vCPUs two by two, an odd one left out, and
  the groups list every host CPU once, in order, under its core, the cores ascending and none empty.
\<close>

theorem topology_complete:
  "case compute_cpu_topology vm of
     TopologyUnavailable msg \<Rightarrow> length (il_vm (tv_cpu_layout vm)) < 2 \<or> il_host (tv_cpu_layout vm) = []
   | TopologyAvailable pairs groups \<Rightarrow>
       concat (map (\<lambda>(x, y). [x, y]) pairs) =
         take (2 * (length (il_vm (tv_cpu_layout vm)) div 2)) (sort (il_vm (tv_cpu_layout vm))) \<and>
       concat (map snd groups) = sort (il_host (tv_cpu_layout vm)) \<and>
       sorted_wrt (<) (map fst groups) \<and>
       list_all (\<lambda>(core, cpus). cpus \<noteq> [] \<and> list_all (\<lambda>cpu. cpu div 2 = core) cpus) groups"
proof -
  let ?vm = "sort (il_vm (tv_cpu_layout vm))"
  let ?host = "sort (il_host (tv_cpu_layout vm))"
  note groups = group_cores_sorted [of ?host, OF sorted_sort] group_cores_clean [of ?host, OF sorted_sort]
  have "group_cores ?host \<noteq> []" if "?host \<noteq> []" using groups(2) that by auto
  moreover have "?host = [] \<longleftrightarrow> il_host (tv_cpu_layout vm) = []" by (metis length_0_conv length_sort)
  ultimately show ?thesis
    using groups full_pairs_flat [of ?vm] full_pairs_empty [of ?vm]
    by (auto simp: compute_cpu_topology_def Let_def core_groups_def list_all_iff)
qed

text \<open>
  The event panel shows consecutive events, as many as there are and fit, and never indexes outside the
  list: the newest ones unless the view is locked; locked, as many newer events are left out as the
  offset says, but never so many that rows stay empty.
\<close>

theorem event_panel_window:
  "case draw_events_panel cu height a g of
     Remark t \<Rightarrow> ap_events a = []
   | NoRoom \<Rightarrow> ap_events a \<noteq> [] \<and> height = 0
   | Items rows \<Rightarrow>
       (\<exists>older shown newer. ap_events a = older @ shown @ newer \<and>
          map (snd \<circ> last \<circ> hd) rows = map ae_message shown \<and>
          length shown = min (length (ap_events a)) height \<and>
          length newer = (if ap_scroll_locked a then min (ap_scroll_offset a) (length (ap_events a) - height) else 0))"
proof -
  have row: "snd (last (build_event_list_item cu evt i t fx g)) = ae_message evt" for evt i t fx
    by (simp add: build_event_list_item_def Let_def)
  have "map (snd \<circ> last \<circ> hd) (map (\<lambda>(i, evt). [build_event_list_item cu evt i t fx g]) (enumerate n evs)) =
      map ae_message evs" for n t fx evs
    by (induction evs arbitrary: n) (simp_all add: row)
  note rows = this [of "ap_tick_count a" "ap_effects a" 0 "event_window height a"]
  show ?thesis
  proof (cases "ap_events a = [] \<or> height = 0")
    case False
    then have "draw_events_panel cu height a g = Items (map (\<lambda>(i, evt).
        [build_event_list_item cu evt i (ap_tick_count a) (ap_effects a) g]) (enumerate 0 (event_window height a)))"
      by (simp add: draw_events_panel_def)
    with rows event_window_split [of a height] show ?thesis by (simp only: panel.case) blast
  qed (auto simp: draw_events_panel_def)
qed

end
