(* ===== verification/Chalybs_Logo.thy ===== *)
theory Chalybs_Logo
  imports Chalybs_Screen
begin

text \<open>
  The logo of the terminal client, from \<^verbatim>\<open>tui/src/logo.rs\<close> and \<^verbatim>\<open>tui/src/logo_png.rs\<close>: the choice
  of a terminal backend and of the picture, the picture's cache by geometry, the halo behind it, and
  the fallback to text.  What is drawn is a list of drawings, in their order.

  Outside of the model and so in the record \<open>canvas\<close>: whether a path is a file, the picture crate,
  and what is computed in floating point: the scaled height of the picture and the shades of the
  breathing.  The cells of the halo are computed in floating point too, but from fractions with
  denominators below 128 that are compared with thirds of sevenths: either exactly representable, or
  further from a bound than a rounding can move them; so integers give the same cells.
\<close>

subsection \<open>What is drawn\<close>

record rect =
  re_x :: nat
  re_y :: nat
  re_width :: nat
  re_height :: nat

datatype image_backend = Kitty | ITerm | NoImages

record render_geom =
  rg_x :: nat
  rg_y :: nat
  rg_width :: nat
  rg_height :: nat
  rg_scaled_height :: nat

record picture_config =
  pc_x :: nat
  pc_y :: nat
  pc_height :: nat
  pc_use_kitty :: bool
  pc_use_iterm :: bool
  pc_transparent :: bool

datatype drawing =
    Lines rect style "styled_line list"
  | Picture path picture_config

text \<open>What is taken from outside; the print may succeed or fail depending on all drawn before.\<close>

record canvas =
  ca_os :: os
  ca_is_file :: "path \<Rightarrow> bool"
  ca_scaled :: "string option \<Rightarrow> nat \<Rightarrow> nat"
  ca_print :: "drawing list \<Rightarrow> path \<Rightarrow> picture_config \<Rightarrow> bool"
  ca_use_kitty :: bool
  ca_use_iterm :: bool
  ca_halo :: "64 word \<Rightarrow> colour"
  ca_rune :: "64 word \<Rightarrow> colour \<Rightarrow> colour"

text \<open>The two statics, and what has been drawn.\<close>

record logo_state =
  ls_path :: "path option option"
  ls_geom :: "render_geom option"
  ls_drawn :: "drawing list"

definition logo_init :: logo_state where
  "logo_init = \<lparr>ls_path = None, ls_geom = None, ls_drawn = []\<rparr>"

type_synonym 'a logo_act = "(logo_state \<times> trace, 'a) act"

definition put :: "drawing \<Rightarrow> unit logo_act" where
  "put d = modify (\<lambda>ls. ls\<lparr>ls_drawn := ls_drawn ls @ [d]\<rparr>)"

subsection \<open>Backend and picture\<close>

definition detect_backend_auto :: "os \<Rightarrow> image_backend io" where
  "detect_backend_auto os =
     andThen (env_var os ''KITTY_WINDOW_ID'') (\<lambda>window.
       if window \<noteq> None then ret Kitty
       else
         andThen (env_var os ''TERM'') (\<lambda>terminal.
           if (case terminal of None \<Rightarrow> False | Some s \<Rightarrow> str_contains (map to_ascii_lower s) ''xterm-kitty'') then ret Kitty
           else
             andThen (env_var os ''TERM_PROGRAM'') (\<lambda>tp.
               if tp = Some ''iTerm.app'' then ret ITerm else ret NoImages)))"

definition detect_backend :: "os \<Rightarrow> image_backend io" where
  "detect_backend os =
     andThen (env_var os ''CHALYBS_TUI_IMAGE_BACKEND'') (\<lambda>val.
       case val of
         None \<Rightarrow> detect_backend_auto os
       | Some s \<Rightarrow>
           (let v = map to_ascii_lower s
            in if v = ''kitty'' then ret Kitty
               else if v = ''iterm'' \<or> v = ''iterm2'' then ret ITerm
               else if v = ''none'' \<or> v = ''off'' \<or> v = ''disable'' then ret NoImages
               else detect_backend_auto os))"

definition find_logo_path :: "canvas \<Rightarrow> path option io" where
  "find_logo_path ca =
     andThen (env_var (ca_os ca) ''CHALYBS_TUI_LOGO_PNG'') (\<lambda>v.
       ret (find (ca_is_file ca)
         ((case v of None \<Rightarrow> [] | Some p \<Rightarrow> [p]) @ [''assets/chalybs.png'', ''/usr/share/chalybs/chalybs.png''])))"

definition resolve_logo_path :: "canvas \<Rightarrow> path option logo_act" where
  "resolve_logo_path ca =
     andThen peek (\<lambda>ls.
       case ls_path ls of
         Some cached \<Rightarrow> ret cached
       | None \<Rightarrow>
           andThen (onOs (find_logo_path ca)) (\<lambda>p.
           andThen (modify (\<lambda>ls. ls\<lparr>ls_path := Some p\<rparr>)) (\<lambda>_. ret p)))"

definition resolve_height_scale :: "canvas \<Rightarrow> nat \<Rightarrow> nat io" where
  "resolve_height_scale ca height =
     andThen (env_var (ca_os ca) ''CHALYBS_TUI_LOGO_HEIGHT_SCALE'') (\<lambda>v. ret (ca_scaled ca v height))"

text \<open>The configuration handed to the picture crate; a backend that is not chosen keeps its default.\<close>

definition picture_config_of :: "canvas \<Rightarrow> render_geom \<Rightarrow> image_backend \<Rightarrow> picture_config" where
  "picture_config_of ca geom backend =
     \<lparr>pc_x = rg_x geom, pc_y = rg_y geom, pc_height = rg_scaled_height geom,
      pc_use_kitty = (case backend of Kitty \<Rightarrow> True | ITerm \<Rightarrow> False | NoImages \<Rightarrow> ca_use_kitty ca),
      pc_use_iterm = (case backend of Kitty \<Rightarrow> False | ITerm \<Rightarrow> True | NoImages \<Rightarrow> ca_use_iterm ca),
      pc_transparent = True\<rparr>"

definition render_png_at :: "canvas \<Rightarrow> path \<Rightarrow> render_geom \<Rightarrow> image_backend \<Rightarrow> bool logo_act" where
  "render_png_at ca p geom backend =
     andThen peek (\<lambda>ls.
       (let config = picture_config_of ca geom backend
        in if ca_print ca (ls_drawn ls) p config then andThen (put (Picture p config)) (\<lambda>_. ret True)
           else ret False))"

subsection \<open>The halo\<close>

definition MASK_ROWS :: nat where "MASK_ROWS = 7"
definition MASK_COLS :: nat where "MASK_COLS = 7"
definition HALO_MAX_WIDTH :: nat where "HALO_MAX_WIDTH = 32"

definition C3_MASK :: "nat list list" where
  "C3_MASK =
     [[3, 1, 0, 0, 0, 0, 0],
      [3, 2, 1, 0, 0, 0, 0],
      [3, 3, 1, 0, 0, 0, 0],
      [3, 3, 1, 0, 0, 0, 0],
      [3, 3, 1, 0, 0, 0, 0],
      [3, 2, 1, 0, 0, 0, 0],
      [3, 1, 0, 0, 0, 0, 0]]"

definition C3_NARROW_MASK :: "nat list list" where
  "C3_NARROW_MASK =
     [[3, 0, 0, 0, 0, 0, 0],
      [3, 1, 0, 0, 0, 0, 0],
      [3, 1, 0, 0, 0, 0, 0],
      [3, 1, 0, 0, 0, 0, 0],
      [3, 1, 0, 0, 0, 0, 0],
      [3, 1, 0, 0, 0, 0, 0],
      [3, 0, 0, 0, 0, 0, 0]]"

definition C3_WIDE_MASK :: "nat list list" where
  "C3_WIDE_MASK =
     [[3, 3, 1, 0, 0, 0, 0],
      [3, 3, 2, 1, 0, 0, 0],
      [3, 3, 3, 1, 0, 0, 0],
      [3, 3, 3, 2, 1, 0, 0],
      [3, 3, 3, 2, 1, 0, 0],
      [3, 3, 2, 1, 0, 0, 0],
      [3, 3, 1, 0, 0, 0, 0]]"

definition C3_XWIDE_MASK :: "nat list list" where
  "C3_XWIDE_MASK =
     [[3, 3, 3, 1, 0, 0, 0],
      [3, 3, 3, 2, 1, 0, 0],
      [3, 3, 3, 3, 1, 0, 0],
      [3, 3, 3, 3, 2, 1, 0],
      [3, 3, 3, 3, 2, 1, 0],
      [3, 3, 3, 2, 1, 0, 0],
      [3, 3, 3, 1, 0, 0, 0]]"

fun mask_of :: "logo_halo_profile \<Rightarrow> nat list list option" where
  "mask_of HaloOff = None"
| "mask_of HaloC3 = Some C3_MASK"
| "mask_of HaloC3Narrow = Some C3_NARROW_MASK"
| "mask_of HaloC3Wide = Some C3_WIDE_MASK"
| "mask_of HaloC3ExtraWide = Some C3_XWIDE_MASK"

text \<open>
  The distance of a cell from the centre line is \<open>n / d\<close>; a quarter is the gap, and the rest is cut
  into seven columns.
\<close>

definition off_centre :: "nat \<Rightarrow> nat \<Rightarrow> nat" where
  "off_centre x width = (let c = width - 1 in if c \<le> 2 * x then 2 * x - c else c - 2 * x)"

definition sample_mask :: "nat list list \<Rightarrow> nat \<Rightarrow> nat \<Rightarrow> nat \<Rightarrow> nat" where
  "sample_mask wings row x width =
     (if width = 0 then 0
      else
        (let n = off_centre x width; d = max (width - 1) 2
         in if 4 * n < d then 0
            else
              (let idx = min (MASK_COLS * (4 * n - d) div (3 * d)) (MASK_COLS - 1);
                   col = MASK_COLS - 1 - idx
               in wings ! row ! col)))"

definition shade :: "nat \<Rightarrow> string" where
  "shade intensity =
     (if intensity = 0 then '' ''
      else if intensity = 1 then [CHR 0xE2, CHR 0x96, CHR 0x91]
      else if intensity = 2 then [CHR 0xE2, CHR 0x96, CHR 0x92]
      else [CHR 0xE2, CHR 0x96, CHR 0x88])"

definition halo_height :: "rect \<Rightarrow> nat" where
  "halo_height area = max (min (re_height area) MASK_ROWS) 1"

definition halo_width :: "rect \<Rightarrow> nat" where
  "halo_width area = (let desired = min (MASK_COLS * 2 - 1) HALO_MAX_WIDTH in max (min (re_width area) desired) 1)"

definition halo_cells :: "nat list list \<Rightarrow> nat \<Rightarrow> nat \<Rightarrow> nat \<Rightarrow> nat list" where
  "halo_cells wings height width row =
     (let mask_row = min (row * MASK_ROWS div height) (MASK_ROWS - 1)
      in map (\<lambda>x. sample_mask wings mask_row x width) [0..<width])"

definition draw_logo_halo :: "canvas \<Rightarrow> rect \<Rightarrow> logo_halo_profile \<Rightarrow> 64 word \<Rightarrow> unit logo_act" where
  "draw_logo_halo ca area profile tick =
     (if re_width area = 0 \<or> re_height area = 0 then ret ()
      else
        (case mask_of profile of
           None \<Rightarrow> ret ()
         | Some wings \<Rightarrow>
             (let fg = with_fg (ca_halo ca tick) style_default; h = halo_height area; w = halo_width area
              in put (Lines \<lparr>re_x = re_x area, re_y = re_y area, re_width = w, re_height = h\<rparr> style_default
                   (map (\<lambda>row. [(fg, concat (map shade (halo_cells wings h w row)))]) [0..<h])))))"

subsection \<open>The picture\<close>

definition draw_png_logo :: "canvas \<Rightarrow> rect \<Rightarrow> 64 word \<Rightarrow> visual_effects \<Rightarrow> bool logo_act" where
  "draw_png_logo ca area tick fx =
     (if re_width area = 0 \<or> re_height area = 0 then ret False
      else
        andThen (onOs (detect_backend (ca_os ca))) (\<lambda>backend.
          if backend = NoImages then ret False
          else
            andThen (resolve_logo_path ca) (\<lambda>p.
              case p of
                None \<Rightarrow> ret False
              | Some file \<Rightarrow>
                  andThen (onOs (resolve_height_scale ca (re_height area))) (\<lambda>scaled_height.
                    (let geom = \<lparr>rg_x = re_x area, rg_y = re_y area, rg_width = re_width area,
                                 rg_height = re_height area, rg_scaled_height = scaled_height\<rparr>
                     in andThen (draw_logo_halo ca area (fx_logo_halo fx) tick) (\<lambda>_.
                        andThen peek (\<lambda>ls.
                          if ls_geom ls = Some geom then ret True
                          else
                            andThen (render_png_at ca file geom backend) (\<lambda>printed.
                            andThen (modify (\<lambda>ls. ls\<lparr>ls_geom := (if printed then Some geom else None)\<rparr>)) (\<lambda>_.
                              ret printed)))))))))"

subsection \<open>Text\<close>

definition rune :: string where
  "rune = [CHR 0xE2, CHR 0x9F, CHR 0x90]"
definition slash_up :: string where
  "slash_up = [CHR 0xE2, CHR 0x95, CHR 0xB1]"
definition slash_down :: string where
  "slash_down = [CHR 0xE2, CHR 0x95, CHR 0xB2]"

definition logo_rune_style :: "canvas \<Rightarrow> 64 word \<Rightarrow> visual_effects \<Rightarrow> style" where
  "logo_rune_style ca tick fx =
     (if \<not> fx_logo_reactive fx then with_fg ACCENT_PINK header_title
      else
        (let phase = tick div 8 mod 16
         in if phase \<le> 1 then with_dim (with_fg (ca_rune ca tick ACCENT_PINK) header_title)
            else if phase \<le> 9 then with_fg (ca_rune ca tick ACCENT_PINK) header_title
            else if phase \<le> 12 then with_bold (with_fg (ca_rune ca tick ACCENT_PINK) header_title)
            else with_bold (with_fg (ca_rune ca tick ACCENT_PURPLE) header_title)))"

definition logo_title :: "canvas \<Rightarrow> 64 word \<Rightarrow> visual_effects \<Rightarrow> styled_line" where
  "logo_title ca tick fx = [(header_title, ''CHALYBS ''), (logo_rune_style ca tick fx, rune)]"

definition ascii_logo :: "canvas \<Rightarrow> 64 word \<Rightarrow> visual_effects \<Rightarrow> styled_line list" where
  "ascii_logo ca tick fx =
     (let bold = with_bold normal_text
      in [logo_title ca tick fx, [plain ''''], [(bold, ''   '' @ slash_up @ slash_down)],
          [(bold, ''  '' @ slash_up @ '' ''), (header_title, ''C''), (bold, '' '' @ slash_down)],
          [(bold, '' '' @ slash_up @ ''   '' @ slash_down)]])"

definition draw_ascii_logo :: "canvas \<Rightarrow> rect \<Rightarrow> 64 word \<Rightarrow> visual_effects \<Rightarrow> unit logo_act" where
  "draw_ascii_logo ca area tick fx = put (Lines area dim_text (ascii_logo ca tick fx))"

definition draw_logo_caption :: "canvas \<Rightarrow> rect \<Rightarrow> 64 word \<Rightarrow> visual_effects \<Rightarrow> unit logo_act" where
  "draw_logo_caption ca area tick fx = put (Lines area (with_fg TEXT_DIM style_default) [logo_title ca tick fx])"

definition caption_height :: nat where "caption_height = 2"

definition picture_area :: "rect \<Rightarrow> rect" where
  "picture_area area = area\<lparr>re_height := re_height area - caption_height\<rparr>"

definition caption_area :: "rect \<Rightarrow> rect" where
  "caption_area area = area\<lparr>re_y := re_y area + (re_height area - caption_height), re_height := caption_height\<rparr>"

definition draw_logo :: "canvas \<Rightarrow> rect \<Rightarrow> 64 word \<Rightarrow> visual_effects \<Rightarrow> unit logo_act" where
  "draw_logo ca area tick fx =
     (if re_height area \<le> 3 then
        andThen (draw_png_logo ca area tick fx) (\<lambda>used_png.
          if used_png then ret () else draw_ascii_logo ca area tick fx)
      else
        andThen (draw_png_logo ca (picture_area area) tick fx) (\<lambda>used_png.
          if used_png then draw_logo_caption ca (caption_area area) tick fx
          else draw_ascii_logo ca area tick fx))"

text \<open>The trait's renderer in text only, at rest.\<close>

definition render_ascii :: "canvas \<Rightarrow> rect \<Rightarrow> unit logo_act" where
  "render_ascii ca area = draw_ascii_logo ca area 0 default_enabled"

subsection \<open>The halo is clear in the middle and symmetric\<close>

lemma off_centre_mirror: "x < w \<Longrightarrow> off_centre (w - Suc x) w = off_centre x w"
  by (auto simp: off_centre_def Let_def)

lemma sample_mask_mirror: "x < w \<Longrightarrow> sample_mask m row (w - Suc x) w = sample_mask m row x w"
  by (simp add: sample_mask_def off_centre_mirror)

theorem halo_symmetric: "rev (halo_cells m h w row) = halo_cells m h w row"
proof (rule nth_equalityI)
  fix i assume "i < length (rev (halo_cells m h w row))"
  then have i: "i < w" by (simp add: halo_cells_def Let_def)
  then have "rev (halo_cells m h w row) ! i = halo_cells m h w row ! (w - Suc i)"
    by (simp add: rev_nth halo_cells_def Let_def)
  with i show "rev (halo_cells m h w row) ! i = halo_cells m h w row ! i"
    by (simp add: halo_cells_def Let_def sample_mask_mirror)
qed (simp add: halo_cells_def Let_def)

text \<open>The cells of the widest halo; the heavy ends are outside, not near the picture.\<close>

lemma halo_c3: "map (halo_cells C3_MASK 7 13) [0..<7] =
    [[3, 1, 0, 0, 0, 0, 0, 0, 0, 0, 0, 1, 3], [3, 2, 0, 0, 0, 0, 0, 0, 0, 0, 0, 2, 3],
     [3, 3, 0, 0, 0, 0, 0, 0, 0, 0, 0, 3, 3], [3, 3, 0, 0, 0, 0, 0, 0, 0, 0, 0, 3, 3],
     [3, 3, 0, 0, 0, 0, 0, 0, 0, 0, 0, 3, 3], [3, 2, 0, 0, 0, 0, 0, 0, 0, 0, 0, 2, 3],
     [3, 1, 0, 0, 0, 0, 0, 0, 0, 0, 0, 1, 3]]"
  by code_simp

subsection \<open>Something is drawn, and the picture once\<close>

lemma put_run: "put d (ls, t) = (u, s') \<longleftrightarrow> s' = (ls\<lparr>ls_drawn := ls_drawn ls @ [d]\<rparr>, t)"
  by (auto simp: put_def modify_def)

text \<open>Pictures that have been printed.\<close>

definition is_picture :: "drawing \<Rightarrow> bool" where
  "is_picture d = (case d of Lines r st ls \<Rightarrow> False | Picture p c \<Rightarrow> True)"

definition pictures :: "logo_state \<Rightarrow> drawing list" where
  "pictures ls = filter is_picture (ls_drawn ls)"

lemma halo_run:
  assumes "draw_logo_halo ca area profile tick (ls, t) = (u, (ls', t'))"
  shows "t' = t \<and> ls_path ls' = ls_path ls \<and> ls_geom ls' = ls_geom ls \<and> pictures ls' = pictures ls \<and>
    prefix (ls_drawn ls) (ls_drawn ls')"
  using assms
  by (auto simp: draw_logo_halo_def run_simps put_run pictures_def is_picture_def Let_def split: if_splits option.splits)

lemma resolve_path_run:
  assumes "resolve_logo_path ca (ls, t) = (p, (ls', t'))"
  shows "ls_drawn ls' = ls_drawn ls \<and> ls_geom ls' = ls_geom ls \<and> ls_path ls' = Some p \<and>
    (ls_path ls \<noteq> None \<longrightarrow> ls_path ls = Some p)"
  using assms by (auto simp: resolve_logo_path_def run_simps split: option.splits)

definition geom_of :: "canvas \<Rightarrow> rect \<Rightarrow> trace \<Rightarrow> render_geom" where
  "geom_of ca area t = \<lparr>rg_x = re_x area, rg_y = re_y area, rg_width = re_width area, rg_height = re_height area,
     rg_scaled_height = fst (resolve_height_scale ca (re_height area) t)\<rparr>"

text \<open>The two courses of a drawing: no picture is in question, or the halo, and the picture if need be.\<close>

lemma png_cases:
  assumes "draw_png_logo ca area tick fx (ls, t) = (used, (ls', t'))"
  obtains (off) "\<not> used" "ls_drawn ls' = ls_drawn ls" "ls_path ls = None \<or> ls_path ls' = ls_path ls"
      "re_width area = 0 \<or> re_height area = 0 \<or> fst (detect_backend (ca_os ca) t) = NoImages \<or> ls_path ls' = Some None"
  | (on) pic ls2 t2 backend where
      "re_width area \<noteq> 0" "re_height area \<noteq> 0" "fst (detect_backend (ca_os ca) t) = backend" "backend \<noteq> NoImages"
      "ls_path ls2 = Some (Some pic)" "prefix (ls_drawn ls) (ls_drawn ls2)" "pictures ls2 = pictures ls" "ls_geom ls2 = ls_geom ls"
      "(used, ls') = (if ls_geom ls = Some (geom_of ca area t2) then (True, ls2)
         else if ca_print ca (ls_drawn ls2) pic (picture_config_of ca (geom_of ca area t2) backend)
         then (True, ls2\<lparr>ls_drawn := ls_drawn ls2 @ [Picture pic (picture_config_of ca (geom_of ca area t2) backend)],
                 ls_geom := Some (geom_of ca area t2)\<rparr>)
         else (False, ls2\<lparr>ls_geom := None\<rparr>))"
proof (cases "re_width area = 0 \<or> re_height area = 0")
  case True
  with assms have "\<not> used" "ls' = ls" by (simp_all add: draw_png_logo_def ret_def)
  with True off show ?thesis by blast
next
  case False
  obtain backend t1 where 1: "detect_backend (ca_os ca) t = (backend, t1)" by (metis prod.exhaust)
  obtain p ls1 t2 where 2: "resolve_logo_path ca (ls, t1) = (p, (ls1, t2))" by (metis prod.exhaust)
  note path = resolve_path_run [OF 2]
  show ?thesis
  proof (cases "backend = NoImages \<or> p = None")
    case True
    with assms False 1 2 have "used = False" "ls' = ls \<or> ls' = ls1 \<and> p = None" "ls' = ls \<longrightarrow> backend = NoImages \<or> ls = ls1 \<and> p = None"
      by (auto simp: draw_png_logo_def andThen_def onOs_def ret_def split: if_splits)
    with path 1 True show ?thesis by (intro off) auto
  next
    case real: False
    then obtain pic where p: "p = Some pic" by auto
    obtain h t3 where 3: "resolve_height_scale ca (re_height area) t2 = (h, t3)" by (metis prod.exhaust)
    obtain u ls2 t4 where 4: "draw_logo_halo ca area (fx_logo_halo fx) tick (ls1, t3) = (u, (ls2, t4))"
      by (metis prod.exhaust)
    note halo = halo_run [OF 4]
    let ?geom = "geom_of ca area t2"
    have "(used, ls') = (if ls_geom ls2 = Some ?geom then (True, ls2)
       else if ca_print ca (ls_drawn ls2) pic (picture_config_of ca ?geom backend)
       then (True, ls2\<lparr>ls_drawn := ls_drawn ls2 @ [Picture pic (picture_config_of ca ?geom backend)],
               ls_geom := Some ?geom\<rparr>)
       else (False, ls2\<lparr>ls_geom := None\<rparr>))"
      using assms False real p 1 2 3 4
      by (auto simp: draw_png_logo_def andThen_def onOs_def ret_def peek_def modify_def render_png_at_def put_def Let_def
          geom_of_def split: if_splits)
    with False real 1 path halo p show ?thesis
      by (intro on [of backend ls2 pic t2]) (auto simp: pictures_def)
  qed
qed

text \<open>A picture that is in use is the last thing that happened to the cache: its geometry is recorded.\<close>

lemma png_run:
  assumes "draw_png_logo ca area tick fx (ls, t) = (used, (ls', t'))"
  shows "prefix (ls_drawn ls) (ls_drawn ls') \<and> (used \<longrightarrow> (\<exists>t2. ls_geom ls' = Some (geom_of ca area t2)))"
  using assms by (cases rule: png_cases) (auto split: if_splits intro: prefix_order.trans)

text \<open>
  The logo is never missing: it ends with the caption under a picture, with the text over the whole
  area, or, where there is no room for a caption, with a picture that is there.
\<close>

theorem logo_always_drawn:
  "case draw_logo ca area tick fx (ls, t) of (u, (ls', t')) \<Rightarrow>
     prefix (ls_drawn ls) (ls_drawn ls') \<and>
     (if 0 < length (ls_drawn ls') \<and> last (ls_drawn ls') = Lines area dim_text (ascii_logo ca tick fx) then True
      else ls_geom ls' \<noteq> None \<and>
        (if re_height area \<le> 3 then True
         else last (ls_drawn ls') = Lines (caption_area area) (with_fg TEXT_DIM style_default) [logo_title ca tick fx]))"
proof -
  let ?area = "if re_height area \<le> 3 then area else picture_area area"
  obtain used ls1 t1 where 1: "draw_png_logo ca ?area tick fx (ls, t) = (used, (ls1, t1))" by (metis prod.exhaust)
  have "draw_logo ca area tick fx (ls, t) =
    (if used then (if re_height area \<le> 3 then ret () else draw_logo_caption ca (caption_area area) tick fx)
     else draw_ascii_logo ca area tick fx) (ls1, t1)"
    using 1 by (auto simp: draw_logo_def andThen_def split: if_splits)
  with png_run [OF 1] show ?thesis
    by (auto simp: draw_ascii_logo_def draw_logo_caption_def put_def modify_def ret_def)
qed

text \<open>
  The picture is printed once: while the environment gives the same answers, drawing the same area
  again, at other ticks and with other effects, prints no picture.
\<close>

definition steady_env :: "canvas \<Rightarrow> bool" where
  "steady_env ca \<longleftrightarrow> (\<forall>t k. os_env (ca_os ca) t k = os_env (ca_os ca) [] k)"

lemma env_steady: "steady_env ca \<Longrightarrow> env_var (ca_os ca) k t = (os_env (ca_os ca) [] k, t @ [EvEnv k])"
  by (simp add: env_var_def call_def steady_env_def)

text \<open>What the environment fixes: the backend and the height.\<close>

lemma auto_steady:
  assumes "steady_env ca"
  shows "fst (detect_backend_auto (ca_os ca) t) = fst (detect_backend_auto (ca_os ca) [])"
  using assms by (auto simp: detect_backend_auto_def andThen_def env_steady ret_def split: option.split)

lemma backend_steady:
  assumes "steady_env ca"
  shows "fst (detect_backend (ca_os ca) t) = fst (detect_backend (ca_os ca) [])"
  using auto_steady [OF assms, of "t @ [EvEnv ''CHALYBS_TUI_IMAGE_BACKEND'']"]
    auto_steady [OF assms, of "[EvEnv ''CHALYBS_TUI_IMAGE_BACKEND'']"]
  by (auto simp: detect_backend_def andThen_def env_steady [OF assms] ret_def Let_def split: option.split)

lemma geom_steady: "steady_env ca \<Longrightarrow> geom_of ca area t = geom_of ca area []"
  by (simp add: geom_of_def resolve_height_scale_def andThen_def env_steady ret_def)

lemma png_again:
  assumes "steady_env ca" "draw_png_logo ca area tick fx (ls, t) = (True, (ls1, t1))"
    "draw_png_logo ca area tick' fx' (ls1, t2) = (used, (ls2, t3))"
  shows "used \<and> ls_geom ls2 = ls_geom ls1 \<and> pictures ls2 = pictures ls1"
  using assms(2)
proof (cases rule: png_cases)
  case (on pic lsa ta backend)
  then have geom: "ls_geom ls1 = Some (geom_of ca area [])" and path: "ls_path ls1 = Some (Some pic)"
    using geom_steady [OF assms(1)] by (auto split: if_splits)
  show ?thesis
    using assms(3)
  proof (cases rule: png_cases)
    case off
    with path have "ls_path ls2 = Some (Some pic)" by simp
    with off on backend_steady [OF assms(1)] show ?thesis by (metis option.inject option.distinct(1))
  next
    case (on picb lsb tb backendb)
    with geom geom_steady [OF assms(1), of area tb] show ?thesis by (auto split: if_splits)
  qed
qed simp

text \<open>Many drawings of one area, each at its tick and with its effects.\<close>

fun draw_again :: "canvas \<Rightarrow> rect \<Rightarrow> (64 word \<times> visual_effects) list \<Rightarrow> bool list logo_act" where
  "draw_again ca area [] = ret []"
| "draw_again ca area ((tick, fx) # rest) =
     andThen (draw_png_logo ca area tick fx) (\<lambda>used. andThen (draw_again ca area rest) (\<lambda>later. ret (used # later)))"

theorem picture_printed_once:
  assumes "steady_env ca" "draw_png_logo ca area tick fx (ls, t) = (True, (ls1, t1))"
  shows "case draw_again ca area frames (ls1, t1) of (used, (ls2, t2)) \<Rightarrow>
    list_all id used \<and> pictures ls2 = pictures ls1"
proof -
  have "list_all id used \<and> pictures ls2 = pictures ls1"
    if "draw_again ca area frames (ls1, t1) = (used, (ls2, t2))" "draw_png_logo ca area tick fx (ls, t) = (True, (ls1, ta))"
    for frames ls1 t1 used ls2 t2 ls t ta tick fx
    using that
  proof (induction frames arbitrary: ls1 t1 used ls t ta tick fx)
    case (Cons frame frames)
    obtain tick' fx' where f: "frame = (tick', fx')" by (cases frame)
    obtain u lsa tb where 1: "draw_png_logo ca area tick' fx' (ls1, t1) = (u, (lsa, tb))" by (metis prod.exhaust)
    obtain later s2 where 2: "draw_again ca area frames (lsa, tb) = (later, s2)" by (metis prod.exhaust)
    from png_again [OF assms(1) Cons.prems(2) 1] have u: "u" "pictures lsa = pictures ls1" by simp_all
    from Cons.prems(1) f 1 2 have eq: "used = u # later" "s2 = (ls2, t2)" by (simp_all add: andThen_def ret_def)
    from Cons.IH [OF 2 [unfolded eq(2)] 1 [unfolded eqTrueI [OF u(1)]]] u eq show ?case by simp
  qed (simp add: ret_def)
  from this [OF _ assms(2)] show ?thesis by (auto split: prod.split)
qed

end
