(* ===== verification/Chalybs_Colour.thy ===== *)
theory Chalybs_Colour
  imports Complex_Main Chalybs_Screen
begin

text \<open>
  The floating-point arithmetic of the terminal client: the brightness helpers of \<^verbatim>\<open>tui/src/theme.rs\<close>,
  the blending of the halo in \<^verbatim>\<open>tui/src/logo_png.rs\<close>, the breathing of \<^verbatim>\<open>tui/src/logo.rs\<close> and
  the amplitude of the load bar in \<^verbatim>\<open>tui/src/ui.rs\<close>.  An operation on 32-bit floats is the exact
  operation followed by the rounding \<open>rnd\<close>, an argument, and so is the sine of the angle of a tick, \<open>wave\<close>.  What is proved of the results needs of it
  only what every rounding to nearest does: it is monotone, and it leaves whole numbers up to 255 alone.
\<close>

subsection \<open>Operations\<close>

text \<open>\<^verbatim>\<open>v as u8\<close> cuts off the fraction; out of range it goes to the nearer end.\<close>

definition as_u8 :: "rat \<Rightarrow> 8 word" where
  "as_u8 v = (if v < 0 then 0 else if 255 < v then 255 else of_int \<lfloor>v\<rfloor>)"

definition clamp_channel :: "rat \<Rightarrow> 8 word" where
  "clamp_channel v = (if v < 0 then 0 else if 255 < v then 255 else as_u8 v)"

definition channel :: "8 word \<Rightarrow> rat" where
  "channel c = of_nat (unat c)"

definition adjust_brightness :: "(rat \<Rightarrow> rat) \<Rightarrow> colour \<Rightarrow> rat \<Rightarrow> colour" where
  "adjust_brightness rnd c factor =
     (case c of Rgb r g b \<Rightarrow>
        Rgb (clamp_channel (rnd (channel r * factor))) (clamp_channel (rnd (channel g * factor)))
          (clamp_channel (rnd (channel b * factor))))"

definition softened :: "(rat \<Rightarrow> rat) \<Rightarrow> rat \<Rightarrow> rat" where
  "softened rnd factor = rnd (1 + rnd (rnd (factor - 1) * rnd (35 / 100)))"

definition adjust_brightness_soft :: "(rat \<Rightarrow> rat) \<Rightarrow> colour \<Rightarrow> rat \<Rightarrow> colour" where
  "adjust_brightness_soft rnd c factor =
     (case c of Rgb r g b \<Rightarrow>
        Rgb (clamp_channel (rnd (channel r * softened rnd factor))) (clamp_channel (rnd (channel g * softened rnd factor)))
          (clamp_channel (rnd (channel b * softened rnd factor))))"

definition clamp01 :: "rat \<Rightarrow> rat" where
  "clamp01 v = (if v < 0 then 0 else if 1 < v then 1 else v)"

definition blend_channel :: "(rat \<Rightarrow> rat) \<Rightarrow> 8 word \<Rightarrow> 8 word \<Rightarrow> rat \<Rightarrow> 8 word" where
  "blend_channel rnd a b t = as_u8 (rnd (rnd (channel a * rnd (1 - t)) + rnd (channel b * t)))"

definition blend_color :: "(rat \<Rightarrow> rat) \<Rightarrow> colour \<Rightarrow> colour \<Rightarrow> rat \<Rightarrow> colour" where
  "blend_color rnd a b v =
     (let t = clamp01 v
      in case (a, b) of (Rgb ar ag ab, Rgb br bg bb) \<Rightarrow>
           Rgb (blend_channel rnd ar br t) (blend_channel rnd ag bg t) (blend_channel rnd ab bb t))"

definition halo_color_for_breath :: "(rat \<Rightarrow> rat) \<Rightarrow> rat \<Rightarrow> colour" where
  "halo_color_for_breath rnd breath =
     (let low = rnd (88 / 100); high = rnd (112 / 100);
          t = clamp01 (rnd (rnd (breath - low) / rnd (high - low)));
          accent = blend_color rnd ACCENT_TEAL ACCENT_PINK t;
          subtle = blend_color rnd BG accent (rnd (25 / 100))
      in adjust_brightness_soft rnd subtle breath)"

subsection \<open>The breathing\<close>

text \<open>The cubic easing of a sine, which both public signals share.\<close>

definition eased :: "(rat \<Rightarrow> rat) \<Rightarrow> rat \<Rightarrow> rat" where
  "eased rnd s =
     (let raw = rnd (rnd (s + 1) * (1 / 2))
      in rnd (rnd (raw * raw) * rnd (3 - rnd (2 * raw))))"

definition logo_breath_factor :: "(rat \<Rightarrow> rat) \<Rightarrow> (64 word \<Rightarrow> rat) \<Rightarrow> 64 word \<Rightarrow> rat" where
  "logo_breath_factor rnd wave tick =
     rnd (1 + rnd (rnd (eased rnd (wave tick) - 1 / 2) * rnd (24 / 100)))"

definition logo_breath_coherence :: "(rat \<Rightarrow> rat) \<Rightarrow> (64 word \<Rightarrow> 64 word \<Rightarrow> rat) \<Rightarrow> 64 word \<Rightarrow> 64 word \<Rightarrow> rat" where
  "logo_breath_coherence rnd salted_wave tick salt = eased rnd (salted_wave tick salt)"

definition small_rng :: "64 word \<Rightarrow> 64 word \<Rightarrow> 64 word" where
  "small_rng tick salt =
     (let x0 = tick XOR salt * 0x9E3779B185EBCA87;
          x1 = x0 XOR drop_bit 12 x0;
          x2 = x1 XOR push_bit 25 x1;
          x3 = x2 XOR drop_bit 27 x2
      in x3 * 0x2545F4914F6CDD1D)"

text \<open>\<open>rising tick salt\<close>: the salted angle is below \<open>\<pi>\<close>.\<close>

definition compute_breath_factor_with_salt ::
  "(rat \<Rightarrow> rat) \<Rightarrow> (64 word \<Rightarrow> rat) \<Rightarrow> (64 word \<Rightarrow> 64 word \<Rightarrow> bool) \<Rightarrow> 64 word \<Rightarrow> 64 word \<Rightarrow> rat" where
  "compute_breath_factor_with_salt rnd wave rising tick salt =
     (let base = logo_breath_factor rnd wave tick
      in if rising tick salt then
           (let r = small_rng tick salt AND 0xFF;
                jitter = rnd (rnd (rnd (of_nat (unat r) / 255) * rnd (2 / 100)) - rnd (1 / 100))
            in min (max (rnd (base + jitter)) (rnd (8 / 10))) (rnd (12 / 10)))
         else base)"

text \<open>The load bar: the amplitude, and an offset scaled by it and rounded, halves away from zero.\<close>

definition spark_amplitude :: "(rat \<Rightarrow> rat) \<Rightarrow> rat \<Rightarrow> rat \<Rightarrow> rat" where
  "spark_amplitude rnd breath coh =
     (let amp = clamp01 (rnd (rnd (breath - rnd (9 / 10)) / rnd (25 / 100)))
      in clamp01 (rnd (rnd (amp * rnd (7 / 10)) + rnd (coh * rnd (3 / 10)))))"

definition round_away :: "rat \<Rightarrow> int" where
  "round_away x = (if 0 \<le> x then \<lfloor>x + 1 / 2\<rfloor> else - \<lfloor>- x + 1 / 2\<rfloor>)"

definition spark_scaled :: "(rat \<Rightarrow> rat) \<Rightarrow> rat \<Rightarrow> int \<Rightarrow> int" where
  "spark_scaled rnd amplitude offset =
     round_away (rnd (of_int offset * rnd (rnd (3 / 10) + rnd (rnd (7 / 10) * amplitude))))"

lemma easing_range:
  fixes r :: rat
  assumes "0 \<le> r" "r \<le> 1"
  shows "0 \<le> r * r * (3 - 2 * r)" "r * r * (3 - 2 * r) \<le> 1"
proof -
  show "0 \<le> r * r * (3 - 2 * r)" using assms by simp
  have "1 - r * r * (3 - 2 * r) = (1 - r) * (1 - r) * (1 + 2 * r)" by (simp add: algebra_simps)
  moreover have "0 \<le> (1 - r) * (1 - r) * (1 + 2 * r)" using assms by simp
  ultimately show "r * r * (3 - 2 * r) \<le> 1" by linarith
qed

text \<open>
  In exact arithmetic the signals have the ranges the documentation gives them, whatever the sine is.
\<close>

theorem breath_ranges:
  assumes "\<And>t. - 1 \<le> wave t \<and> wave t \<le> 1" "\<And>t k. - 1 \<le> salted t k \<and> salted t k \<le> 1"
  shows "88 / 100 \<le> logo_breath_factor (\<lambda>x. x) wave t \<and> logo_breath_factor (\<lambda>x. x) wave t \<le> 112 / 100"
    and "0 \<le> logo_breath_coherence (\<lambda>x. x) salted t k \<and> logo_breath_coherence (\<lambda>x. x) salted t k \<le> 1"
proof -
  have range: "0 \<le> eased (\<lambda>x. x) s \<and> eased (\<lambda>x. x) s \<le> 1" if "- 1 \<le> s" "s \<le> 1" for s
    using easing_range [of "(s + 1) * (1 / 2)"] that by (simp add: eased_def Let_def)
  have "0 \<le> eased (\<lambda>x. x) (wave t)" "eased (\<lambda>x. x) (wave t) \<le> 1" using range assms(1) by blast+
  then show "88 / 100 \<le> logo_breath_factor (\<lambda>x. x) wave t \<and> logo_breath_factor (\<lambda>x. x) wave t \<le> 112 / 100"
    by (auto simp: logo_breath_factor_def field_simps)
  show "0 \<le> logo_breath_coherence (\<lambda>x. x) salted t k \<and> logo_breath_coherence (\<lambda>x. x) salted t k \<le> 1"
    using range assms(2) by (simp add: logo_breath_coherence_def)
qed

subsection \<open>What the helpers do to a channel\<close>

lemma unat_byte: "unat (c :: 8 word) \<le> 255"
proof -
  have "unat c < 2 ^ LENGTH(8)" by (rule unsigned_less)
  then show ?thesis by simp
qed

lemma channel_range: "0 \<le> channel c" "channel c \<le> 255"
proof -
  show "0 \<le> channel c" unfolding channel_def by (rule of_nat_0_le_iff)
  have "(of_nat (unat c) :: rat) \<le> of_nat 255" using unat_byte by (rule of_nat_mono)
  then show "channel c \<le> 255" unfolding channel_def by simp
qed

lemma clamp_as_u8: "clamp_channel v = as_u8 v"
  by (simp add: clamp_channel_def as_u8_def)

lemma as_u8_channel: "as_u8 (channel c) = c"
proof -
  have "\<lfloor>channel c\<rfloor> = int (unat c)" unfolding channel_def by (rule floor_of_nat)
  with channel_range [of c] show ?thesis by (simp add: as_u8_def)
qed

lemma unat_as_u8: "unat (as_u8 v) = nat \<lfloor>min (max v 0) 255\<rfloor>"
proof -
  consider "v < 0" | "255 < v" | "0 \<le> v" "v \<le> 255" by linarith
  then show ?thesis
  proof cases
    case 3
    then have "0 \<le> \<lfloor>v\<rfloor>" "\<lfloor>v\<rfloor> \<le> 255" by (simp_all add: floor_le_iff)
    then have "uint (of_int \<lfloor>v\<rfloor> :: 8 word) = \<lfloor>v\<rfloor>" by (simp add: word_of_int_inverse uint_word_of_int)
    then show ?thesis using 3 by (simp add: as_u8_def flip: nat_uint_eq)
  qed (simp_all add: as_u8_def)
qed

lemma as_u8_mono: "v \<le> w \<Longrightarrow> unat (as_u8 v) \<le> unat (as_u8 w)"
  unfolding unat_as_u8 by (intro nat_mono floor_mono) auto

text \<open>
  A factor of one leaves a colour as it is; a smaller one makes no channel brighter, and a greater one
  none darker.
\<close>

theorem brightness_sense:
  assumes "\<And>x y. x \<le> y \<Longrightarrow> rnd x \<le> rnd y" "\<And>n. n \<le> 255 \<Longrightarrow> rnd (of_nat n) = of_nat n"
  shows "adjust_brightness rnd c 1 = c"
    and "0 \<le> f \<Longrightarrow> f \<le> 1 \<Longrightarrow> unat (clamp_channel (rnd (channel x * f))) \<le> unat x"
    and "1 \<le> f \<Longrightarrow> unat x \<le> unat (clamp_channel (rnd (channel x * f)))"
proof -
  have exact: "rnd (channel x) = channel x" for x
  proof -
    show ?thesis unfolding channel_def by (rule assms(2)) (rule unat_byte)
  qed
  show "adjust_brightness rnd c 1 = c"
    by (cases c) (simp add: adjust_brightness_def exact clamp_as_u8 as_u8_channel)
  note mono = as_u8_mono [OF assms(1), of "channel x * f" "channel x", unfolded exact as_u8_channel]
    as_u8_mono [OF assms(1), of "channel x" "channel x * f", unfolded exact as_u8_channel]
  show "unat (clamp_channel (rnd (channel x * f))) \<le> unat x" if "0 \<le> f" "f \<le> 1"
    using that mono(1) mult_left_mono [of f 1 "channel x"] channel_range(1) [of x] by (simp add: clamp_as_u8)
  show "unat x \<le> unat (clamp_channel (rnd (channel x * f)))" if "1 \<le> f"
    using that mono(2) mult_left_mono [of 1 f "channel x"] channel_range(1) [of x] by (simp add: clamp_as_u8)
qed

end
