(* ===== verification/Chalybs_Frame.thy ===== *)
theory Chalybs_Frame
  imports Chalybs_Logo Chalybs_Colour
begin

text \<open>
  A frame of the terminal client, from \<^verbatim>\<open>tui/src/ui.rs\<close> with \<^verbatim>\<open>logo_area_from_root\<close> of
  \<^verbatim>\<open>tui/src/main.rs\<close>: how the screen is divided and which widgets are put where, in their order,
  around the lines of \<open>Chalybs_Screen\<close> and the logo of \<open>Chalybs_Logo\<close>.  How an area is split by
  constraints, and what is left of an area within a border, is the drawing crate's and the record
  \<open>toolkit\<close>.  At the end the load bar, over the amplitude of \<open>Chalybs_Colour\<close>.
\<close>

subsection \<open>The drawing crate\<close>

datatype direction = Horizontal | Vertical

datatype constraint = FixedLength nat | AtLeast nat | Percent nat

record toolkit =
  tk_split :: "direction \<Rightarrow> constraint list \<Rightarrow> rect \<Rightarrow> rect list"
  tk_inner :: "rect \<Rightarrow> rect"

datatype borders = BordersNone | BordersTop | BordersBottom | BordersAll

record block =
  bk_title :: "styled option"
  bk_borders :: borders
  bk_border_style :: style
  bk_style :: style

definition block_default :: block where
  "block_default = \<lparr>bk_title = None, bk_borders = BordersNone, bk_border_style = style_default, bk_style = style_default\<rparr>"

datatype widget =
    Bare block
  | Paragraph "block option" style bool "styled_line list"
  | Listing block style "styled_line list list"
  | Cleared

text \<open>An item of the frame: a widget in its area, or what the logo draws.\<close>

datatype frame_item = Widget rect widget | LogoDrawing drawing

record frame =
  fr_logo :: logo_state
  fr_items :: "frame_item list"

type_synonym 'a frame_act = "(frame \<times> trace, 'a) act"

definition put_widget :: "widget \<Rightarrow> rect \<Rightarrow> unit frame_act" where
  "put_widget w area = modify (\<lambda>fr. fr\<lparr>fr_items := fr_items fr @ [Widget area w]\<rparr>)"

text \<open>The logo draws into the same frame.\<close>

definition put_logo :: "unit logo_act \<Rightarrow> unit frame_act" where
  "put_logo m = (\<lambda>(fr, t).
     case m (fr_logo fr, t) of
       (u, (ls, t')) \<Rightarrow>
         ((), (fr\<lparr>fr_logo := ls,
                 fr_items := fr_items fr @ map LogoDrawing (drop (length (ls_drawn (fr_logo fr))) (ls_drawn ls))\<rparr>, t')))"

subsection \<open>Areas\<close>

definition root_rows :: "toolkit \<Rightarrow> rect \<Rightarrow> rect list" where
  "root_rows tk screen = tk_split tk Vertical [FixedLength 3, AtLeast 1, FixedLength 1] screen"

definition body_columns :: "toolkit \<Rightarrow> rect \<Rightarrow> rect list" where
  "body_columns tk area = tk_split tk Horizontal [Percent 26, Percent 44, Percent 30] area"

definition status_rows :: "toolkit \<Rightarrow> rect \<Rightarrow> rect list" where
  "status_rows tk area = tk_split tk Vertical [FixedLength 7, AtLeast 3] area"

definition shell_rows :: "toolkit \<Rightarrow> rect \<Rightarrow> rect list" where
  "shell_rows tk area = tk_split tk Vertical [AtLeast 1, FixedLength 1] area"

definition logo_area_from_root :: "toolkit \<Rightarrow> rect \<Rightarrow> rect" where
  "logo_area_from_root tk whole =
     (let vertical = tk_split tk Vertical [FixedLength 3, AtLeast 1, FixedLength 1] whole;
          body = vertical ! 1;
          columns = tk_split tk Horizontal [Percent 26, Percent 44, Percent 30] body;
          status_panel = columns ! 0;
          splits = tk_split tk Vertical [FixedLength 7, AtLeast 3] status_panel
      in splits ! 0)"

definition centered_rect :: "toolkit \<Rightarrow> nat \<Rightarrow> nat \<Rightarrow> rect \<Rightarrow> rect" where
  "centered_rect tk percent_x percent_y r =
     (let vertical = tk_split tk Vertical
            [Percent ((100 - percent_y) div 2), Percent percent_y, Percent ((100 - percent_y) div 2)] r;
          horizontal = tk_split tk Horizontal
            [Percent ((100 - percent_x) div 2), Percent percent_x, Percent ((100 - percent_x) div 2)] (vertical ! 1)
      in horizontal ! 1)"

subsection \<open>Panels\<close>

definition scrim_bg :: style where
  "scrim_bg = with_fg TEXT_DIM (with_bg BG style_default)"

definition modal_bg :: style where
  "modal_bg = with_fg TEXT_NORMAL (with_bg PANEL_BG style_default)"

definition panel_block :: "string \<Rightarrow> style \<Rightarrow> block" where
  "panel_block title border = block_default\<lparr>bk_title := Some (block_title, title), bk_borders := BordersAll, bk_border_style := border\<rparr>"

definition render_header :: "curves \<Rightarrow> app \<Rightarrow> rect \<Rightarrow> glitch \<Rightarrow> unit frame_act" where
  "render_header cu a area g =
     put_widget (Paragraph
       (Some (block_default\<lparr>bk_borders := BordersBottom, bk_border_style := maybe_invert_style dim_text g REGION_HEADER\<rparr>))
       style_default False [draw_header cu a g]) area"

definition render_footer :: "app \<Rightarrow> rect \<Rightarrow> unit frame_act" where
  "render_footer a area =
     put_widget (Paragraph (Some (block_default\<lparr>bk_borders := BordersTop, bk_border_style := dim_text\<rparr>))
       style_default True [draw_footer a]) area"

text \<open>A list panel: a remark in dim text, the bare block where there is no room, or the items.\<close>

definition render_panel :: "block \<Rightarrow> style \<Rightarrow> panel \<Rightarrow> rect \<Rightarrow> unit frame_act" where
  "render_panel blk highlight p area =
     put_widget (case p of
         Remark s \<Rightarrow> Paragraph (Some blk) dim_text False [[plain s]]
       | NoRoom \<Rightarrow> Bare blk
       | Items items \<Rightarrow> Listing blk highlight items) area"

definition render_vm_status :: "toolkit \<Rightarrow> curves \<Rightarrow> app \<Rightarrow> rect \<Rightarrow> glitch \<Rightarrow> unit frame_act" where
  "render_vm_status tk cu a area g =
     render_panel (panel_block ''VMs'' (panel_border_style cu (ap_tick_count a) 1 (ap_effects a) g)) style_default
       (draw_vm_status cu (re_width (tk_inner tk area)) a g) area"

definition render_status_panel :: "toolkit \<Rightarrow> canvas \<Rightarrow> curves \<Rightarrow> app \<Rightarrow> rect \<Rightarrow> glitch \<Rightarrow> unit frame_act" where
  "render_status_panel tk ca cu a area g =
     (let splits = status_rows tk area
      in andThen (put_logo (draw_logo ca (splits ! 0) (ap_tick_count a) (ap_effects a))) (\<lambda>_.
         render_vm_status tk cu a (splits ! 1) g))"

definition render_events_panel :: "toolkit \<Rightarrow> curves \<Rightarrow> app \<Rightarrow> rect \<Rightarrow> glitch \<Rightarrow> unit frame_act" where
  "render_events_panel tk cu a area g =
     render_panel (panel_block (events_title a) (panel_border_style cu (ap_tick_count a) 2 (ap_effects a) g)) event_shell
       (draw_events_panel cu (re_height (tk_inner tk area)) a g) area"

definition render_shell_panel :: "toolkit \<Rightarrow> curves \<Rightarrow> app \<Rightarrow> rect \<Rightarrow> glitch \<Rightarrow> unit frame_act" where
  "render_shell_panel tk cu a area g =
     (case draw_shell_panel a of
        (history_lines, input_line) \<Rightarrow>
          (let splits = shell_rows tk (tk_inner tk area)
           in andThen (put_widget (Paragraph None style_default True history_lines) (splits ! 0)) (\<lambda>_.
              andThen (put_widget (Paragraph None style_default False [input_line]) (splits ! 1)) (\<lambda>_.
                put_widget (Bare (panel_block ''Chalybs shell''
                  (panel_border_style cu (ap_tick_count a) 3 (ap_effects a) g))) area))))"

definition render_body :: "toolkit \<Rightarrow> canvas \<Rightarrow> curves \<Rightarrow> app \<Rightarrow> rect \<Rightarrow> glitch \<Rightarrow> unit frame_act" where
  "render_body tk ca cu a area g =
     (let columns = body_columns tk area
      in andThen (render_status_panel tk ca cu a (columns ! 0) g) (\<lambda>_.
         andThen (render_events_panel tk cu a (columns ! 1) g) (\<lambda>_.
           render_shell_panel tk cu a (columns ! 2) g)))"

definition modal_block :: "curves \<Rightarrow> app \<Rightarrow> glitch \<Rightarrow> block" where
  "modal_block cu a g =
     (panel_block ''VM detail'' (panel_border_style cu (ap_tick_count a) 4 (ap_effects a) g))\<lparr>bk_style := modal_bg\<rparr>"

definition render_vm_detail_modal :: "toolkit \<Rightarrow> curves \<Rightarrow> app \<Rightarrow> rect \<Rightarrow> glitch \<Rightarrow> unit frame_act" where
  "render_vm_detail_modal tk cu a screen g =
     (let area = centered_rect tk 60 60 screen
      in andThen (put_widget (Bare (block_default\<lparr>bk_style := scrim_bg\<rparr>)) screen) (\<lambda>_.
         andThen (put_widget Cleared area) (\<lambda>_.
           put_widget (Paragraph (Some (modal_block cu a g)) style_default True (draw_vm_detail_modal a)) area)))"

definition draw_frame :: "toolkit \<Rightarrow> canvas \<Rightarrow> curves \<Rightarrow> app \<Rightarrow> rect \<Rightarrow> unit frame_act" where
  "draw_frame tk ca cu a screen =
     (let g = glitch_profile (ap_tick_count a); vertical = root_rows tk screen
      in andThen (render_header cu a (vertical ! 0) g) (\<lambda>_.
         andThen (render_body tk ca cu a (vertical ! 1) g) (\<lambda>_.
         andThen (render_footer a (vertical ! 2)) (\<lambda>_.
           if ap_detail_open a then render_vm_detail_modal tk cu a screen g else ret ()))))"

subsection \<open>The load bar\<close>

definition SPARK :: "string list" where
  "SPARK = map (\<lambda>c. [CHR 0xE2, CHR 0x96, c])
     [CHR 0x81, CHR 0x82, CHR 0x83, CHR 0x84, CHR 0x85, CHR 0x86, CHR 0x87, CHR 0x88]"

definition render_sparkline ::
  "(rat \<Rightarrow> rat) \<Rightarrow> (64 word \<Rightarrow> 64 word \<Rightarrow> rat) \<Rightarrow> 64 word \<Rightarrow> nat \<Rightarrow> rat \<Rightarrow> string" where
  "render_sparkline rnd salted_wave tick vm_index breath =
     (let len = int (length SPARK); mid = (len - 1) div 2;
          amplitude = spark_amplitude rnd breath (logo_breath_coherence rnd salted_wave tick (of_nat vm_index + 1))
      in concat (map (\<lambda>lane.
           (let base_phase = (tick + of_nat vm_index * 13 + of_nat lane * 3) mod of_nat (length SPARK);
                offset = uint base_phase - mid;
                idx = min (max (mid + spark_scaled rnd amplitude offset) 0) (len - 1)
            in SPARK ! nat idx)) [0..<10]))"

subsection \<open>What the panels take from the breathing\<close>

text \<open>The arguments \<open>curves\<close> of the panels and the colours of the logo, as the code computes them.\<close>

definition breathing_curves ::
  "(rat \<Rightarrow> rat) \<Rightarrow> (64 word \<Rightarrow> rat) \<Rightarrow> (64 word \<Rightarrow> 64 word \<Rightarrow> rat) \<Rightarrow> curves" where
  "breathing_curves rnd wave salted_wave =
     \<lparr>cu_strong = (\<lambda>t. rnd (105 / 100) < logo_breath_factor rnd wave t),
      cu_weak = (\<lambda>t. logo_breath_factor rnd wave t < rnd (95 / 100)),
      cu_drift = (\<lambda>t. round_away (rnd (rnd (logo_breath_factor rnd wave t - 1) * 16))),
      cu_shade = (\<lambda>t c. adjust_brightness_soft rnd c (logo_breath_factor rnd wave t)),
      cu_load = (\<lambda>t i. render_sparkline rnd salted_wave t i (logo_breath_factor rnd wave t))\<rparr>"

definition breathing_canvas ::
  "(rat \<Rightarrow> rat) \<Rightarrow> (64 word \<Rightarrow> rat) \<Rightarrow> (64 word \<Rightarrow> 64 word \<Rightarrow> bool) \<Rightarrow> canvas \<Rightarrow> canvas" where
  "breathing_canvas rnd wave rising ca =
     ca\<lparr>ca_halo := (\<lambda>t. halo_color_for_breath rnd (logo_breath_factor rnd wave t)),
        ca_rune := (\<lambda>t c. adjust_brightness rnd c (compute_breath_factor_with_salt rnd wave rising t 7))\<rparr>"

text \<open>In exact arithmetic the drift of the noise is at most two steps either way.\<close>

lemma drift_small:
  assumes "\<And>t. - 1 \<le> wave t \<and> wave t \<le> 1"
  shows "\<bar>cu_drift (breathing_curves (\<lambda>x. x) wave salted_wave) t\<bar> \<le> 2"
proof -
  have "88 / 100 \<le> logo_breath_factor (\<lambda>x. x) wave t" "logo_breath_factor (\<lambda>x. x) wave t \<le> 112 / 100"
    using breath_ranges(1) [where wave = wave and salted = "\<lambda>t k. 0" and t = t] assms by auto
  then have near: "(logo_breath_factor (\<lambda>x. x) wave t - 1) * 16 + 1 / 2 < 3"
    "- ((logo_breath_factor (\<lambda>x. x) wave t - 1) * 16) + 1 / 2 < 3" by (simp_all add: field_simps)
  have bounded: "\<bar>round_away x\<bar> \<le> 2" if "x + 1 / 2 < 3" "- x + 1 / 2 < 3" for x :: rat
  proof -
    have "\<lfloor>x + 1 / 2\<rfloor> \<le> 2" "\<lfloor>- x + 1 / 2\<rfloor> \<le> 2" using that by (simp_all add: floor_le_iff)
    moreover have "0 \<le> x \<Longrightarrow> 0 \<le> \<lfloor>x + 1 / 2\<rfloor>" "x < 0 \<Longrightarrow> 0 \<le> \<lfloor>- x + 1 / 2\<rfloor>" by simp_all
    ultimately show ?thesis by (auto simp: round_away_def)
  qed
  show ?thesis using bounded [OF near] by (simp add: breathing_curves_def)
qed

subsection \<open>Composition\<close>

lemma put_widget_run:
  "put_widget w area (fr, t) = ((), (fr\<lparr>fr_items := fr_items fr @ [Widget area w]\<rparr>, t))"
  by (simp add: put_widget_def modify_def)

lemma put_logo_run:
  "m (fr_logo fr, t) = (u, (ls, t')) \<Longrightarrow>
   put_logo m (fr, t) =
     ((), (fr\<lparr>fr_logo := ls,
            fr_items := fr_items fr @ map LogoDrawing (drop (length (ls_drawn (fr_logo fr))) (ls_drawn ls))\<rparr>, t'))"
  by (simp add: put_logo_def)

text \<open>The areas of the widgets and the drawings of the logo, in their order.\<close>

fun widget_areas :: "frame_item list \<Rightarrow> rect list" where
  "widget_areas [] = []"
| "widget_areas (Widget area w # items) = area # widget_areas items"
| "widget_areas (LogoDrawing d # items) = widget_areas items"

fun logo_drawings :: "frame_item list \<Rightarrow> drawing list" where
  "logo_drawings [] = []"
| "logo_drawings (Widget area w # items) = logo_drawings items"
| "logo_drawings (LogoDrawing d # items) = d # logo_drawings items"

lemma widget_areas_parts [simp]:
  "widget_areas (xs @ ys) = widget_areas xs @ widget_areas ys" "widget_areas (map LogoDrawing ds) = []"
  by (induction xs rule: widget_areas.induct; simp) (induction ds; simp)

lemma logo_drawings_parts [simp]:
  "logo_drawings (xs @ ys) = logo_drawings xs @ logo_drawings ys" "logo_drawings (map LogoDrawing ds) = ds"
  by (induction xs rule: logo_drawings.induct; simp) (induction ds; simp)

lemma logo_in_status_panel:
  "logo_area_from_root tk screen = status_rows tk (body_columns tk (root_rows tk screen ! 1) ! 0) ! 0"
  by (simp add: logo_area_from_root_def root_rows_def body_columns_def status_rows_def Let_def)

lemmas render_defs =
  render_header_def render_footer_def render_panel_def render_vm_status_def render_status_panel_def
  render_events_panel_def render_shell_panel_def render_body_def render_vm_detail_modal_def draw_frame_def

text \<open>
  A frame puts the header, the list of VMs, the events, the two parts of the shell with its border and
  the footer into the areas of the layout, and over them, only while the detail of a VM is open, the
  scrim over the whole screen and the cleared modal.  The logo is drawn in exactly the area that the
  main loop computes for it by itself.
\<close>

theorem frame_areas:
  "case draw_frame tk ca cu a screen (fr\<lparr>fr_items := []\<rparr>, t) of
     (u, (fr', t')) \<Rightarrow>
       (let rows = root_rows tk screen; columns = body_columns tk (rows ! 1); shell = shell_rows tk (tk_inner tk (columns ! 2));
            modal = centered_rect tk 60 60 screen
        in widget_areas (fr_items fr') =
             [rows ! 0, status_rows tk (columns ! 0) ! 1, columns ! 1, shell ! 0, shell ! 1, columns ! 2, rows ! 2] @
             (if ap_detail_open a then [screen, modal, modal] else [])) \<and>
       (case draw_logo ca (logo_area_from_root tk screen) (ap_tick_count a) (ap_effects a) (fr_logo fr, t) of
          (v, (ls, t'')) \<Rightarrow>
            t' = t'' \<and> fr_logo fr' = ls \<and>
            logo_drawings (fr_items fr') = drop (length (ls_drawn (fr_logo fr))) (ls_drawn ls))"
proof -
  obtain v ls t'' where logo: "draw_logo ca (logo_area_from_root tk screen) (ap_tick_count a) (ap_effects a) (fr_logo fr, t) =
      (v, (ls, t''))" by (metis prod.exhaust)
  have put: "put_logo (draw_logo ca (status_rows tk (body_columns tk (root_rows tk screen ! 1) ! 0) ! 0)
       (ap_tick_count a) (ap_effects a)) (fr\<lparr>fr_items := items\<rparr>, t) =
     ((), (fr\<lparr>fr_items := items @ map LogoDrawing (drop (length (ls_drawn (fr_logo fr))) (ls_drawn ls)), fr_logo := ls\<rparr>, t''))"
    for items
    using logo unfolding logo_in_status_panel by (simp add: put_logo_def)
  show ?thesis
    unfolding logo
    by (simp add: render_defs Let_def andThen_def put_widget_run put ret_def draw_shell_panel_def del: One_nat_def)
qed

lemma spark_length: "length SPARK = 8"
  by (simp add: SPARK_def)

text \<open>
  Whatever the rounding and the sine, the load bar is ten characters of the eight blocks: no index is out of range.
\<close>

theorem sparkline_total:
  "\<exists>cells. length cells = 10 \<and> list_all (\<lambda>i. i < 8) cells \<and> render_sparkline rnd salted_wave tick vm_index breath = concat (map ((!) SPARK) cells)"
proof -
  let ?offset = "\<lambda>lane. uint ((tick + of_nat vm_index * 13 + of_nat lane * 3) mod of_nat (length SPARK)) - (int (length SPARK) - 1) div 2"
  let ?amplitude = "spark_amplitude rnd breath (logo_breath_coherence rnd salted_wave tick (of_nat vm_index + 1))"
  let ?cell = "\<lambda>lane. nat (min (max ((int (length SPARK) - 1) div 2 + spark_scaled rnd ?amplitude (?offset lane)) 0) (int (length SPARK) - 1))"
  have cell_range: "nat (min (max x 0) 7) < 8" for x :: int by linarith
  have "render_sparkline rnd salted_wave tick vm_index breath = concat (map ((!) SPARK) (map ?cell [0..<10]))"
    by (simp add: render_sparkline_def Let_def comp_def)
  moreover have "list_all (\<lambda>i. i < 8) (map ?cell [0..<10])"
    using cell_range by (simp only: list_all_iff spark_length set_map ball_simps) simp
  moreover have "length (map ?cell [0..<10]) = 10" by simp
  ultimately show ?thesis by blast
qed

end
