(* ===== verification/Chalybs_Terminal.thy ===== *)
theory Chalybs_Terminal
  imports Chalybs_Frame Chalybs_Client
begin

text \<open>
  The entry point of the terminal client, \<^verbatim>\<open>tui/src/main.rs\<close>: entering and leaving the raw mode and
  the alternate screen, the loop with its drawing, and what is left of the terminal when any of the
  calls on the way fails.  What each call answers is an argument; the loop is given the answers of its
  rounds in a list and is still running when the list ends.
\<close>

subsection \<open>The terminal\<close>

record screen_mode =
  tm_raw :: bool
  tm_alternate :: bool
  tm_hidden :: bool

definition plain_mode :: screen_mode where
  "plain_mode = \<lparr>tm_raw = False, tm_alternate = False, tm_hidden = False\<rparr>"

text \<open>
  The answers of the calls made once: an error or none.  Two escape sequences are written at once, so
  when a write fails either, both or none may have been taken: any mode of these two.
\<close>

record terminal_answers =
  ta_raw_on :: "string option"
  ta_enter :: "string option"
  ta_entered :: "bool \<times> bool"
  ta_new :: "string option"
  ta_raw_off :: "string option"
  ta_leave :: "string option"
  ta_left :: "bool \<times> bool"

definition enable_raw_mode :: "terminal_answers \<Rightarrow> (screen_mode, string + unit) act" where
  "enable_raw_mode ta m = (case ta_raw_on ta of None \<Rightarrow> (Inr (), m\<lparr>tm_raw := True\<rparr>) | Some e \<Rightarrow> (Inl e, m))"

definition enter_screen :: "terminal_answers \<Rightarrow> (screen_mode, string + unit) act" where
  "enter_screen ta m =
     (case ta_enter ta of
        None \<Rightarrow> (Inr (), m\<lparr>tm_alternate := True, tm_hidden := True\<rparr>)
      | Some e \<Rightarrow> (Inl e, m\<lparr>tm_alternate := fst (ta_entered ta), tm_hidden := snd (ta_entered ta)\<rparr>))"

definition new_terminal :: "terminal_answers \<Rightarrow> (screen_mode, string + unit) act" where
  "new_terminal ta m = (case ta_new ta of None \<Rightarrow> (Inr (), m) | Some e \<Rightarrow> (Inl e, m))"

definition disable_raw_mode :: "terminal_answers \<Rightarrow> (screen_mode, string + unit) act" where
  "disable_raw_mode ta m = (case ta_raw_off ta of None \<Rightarrow> (Inr (), m\<lparr>tm_raw := False\<rparr>) | Some e \<Rightarrow> (Inl e, m))"

definition leave_screen :: "terminal_answers \<Rightarrow> (screen_mode, string + unit) act" where
  "leave_screen ta m =
     (case ta_leave ta of
        None \<Rightarrow> (Inr (), m\<lparr>tm_alternate := False, tm_hidden := False\<rparr>)
      | Some e \<Rightarrow> (Inl e, m\<lparr>tm_alternate := fst (ta_left ta), tm_hidden := snd (ta_left ta)\<rparr>))"

definition cleanup_terminal :: "terminal_answers \<Rightarrow> (screen_mode, string + unit) act" where
  "cleanup_terminal ta = bindR (disable_raw_mode ta) (\<lambda>_. leave_screen ta)"

subsection \<open>The loop\<close>

text \<open>
  The answers of a round.  Drawing fails before the frame is drawn, when the size of the screen
  cannot be had, or after it, when the frame cannot be written.  An event that is no key is \<open>None\<close>.
\<close>

datatype draw_outcome = Drawn | ResizeFailed string | FlushFailed string

record round_answers =
  ra_area :: rect
  ra_draw :: draw_outcome
  ra_size :: "string + rect"
  ra_poll :: "string + bool"
  ra_read :: "string + key_event option"
  ra_due :: bool

record 'b client_state =
  cl_app :: "app \<times> 'b"
  cl_frame :: "frame \<times> trace"

text \<open>A frame starts empty; the logo remembers its picture from frame to frame.\<close>

definition next_frame :: "toolkit \<Rightarrow> canvas \<Rightarrow> curves \<Rightarrow> rect \<Rightarrow> 'b client_state \<Rightarrow> 'b client_state" where
  "next_frame tk ca cu area s =
     s\<lparr>cl_frame := snd (draw_frame tk ca cu (fst (cl_app s)) area
                    ((fst (cl_frame s))\<lparr>fr_items := []\<rparr>, snd (cl_frame s)))\<rparr>"

definition client_draw :: "toolkit \<Rightarrow> canvas \<Rightarrow> curves \<Rightarrow> round_answers \<Rightarrow> ('b client_state, string + unit) act" where
  "client_draw tk ca cu ra s =
     (case ra_draw ra of
        Drawn \<Rightarrow> (Inr (), next_frame tk ca cu (ra_area ra) s)
      | ResizeFailed e \<Rightarrow> (Inl e, s)
      | FlushFailed e \<Rightarrow> (Inl e, next_frame tk ca cu (ra_area ra) s))"

definition client_input :: "'b backend_ops \<Rightarrow> round_answers \<Rightarrow> ('b client_state, string + unit) act" where
  "client_input ops ra s =
     (case ra_poll ra of
        Inl e \<Rightarrow> (Inl e, s)
      | Inr False \<Rightarrow> (Inr (), s)
      | Inr True \<Rightarrow>
          (case ra_read ra of
             Inl e \<Rightarrow> (Inl e, s)
           | Inr None \<Rightarrow> (Inr (), s)
           | Inr (Some key) \<Rightarrow> (Inr (), s\<lparr>cl_app := handle_key ops key (cl_app s)\<rparr>)))"

definition client_tick :: "'b backend_ops \<Rightarrow> round_answers \<Rightarrow> ('b client_state, string + unit) act" where
  "client_tick ops ra s = (Inr (), if ra_due ra then s\<lparr>cl_app := on_tick ops (cl_app s)\<rparr> else s)"

definition client_round ::
  "toolkit \<Rightarrow> canvas \<Rightarrow> curves \<Rightarrow> 'b backend_ops \<Rightarrow> round_answers \<Rightarrow> ('b client_state, string + unit) act" where
  "client_round tk ca cu ops ra =
     bindR (client_draw tk ca cu ra) (\<lambda>_.
     bindR (\<lambda>s. (ra_size ra, s)) (\<lambda>screen_area.
       (let unused = logo_area_from_root tk screen_area
        in bindR (client_input ops ra) (\<lambda>_. client_tick ops ra))))"

text \<open>\<open>None\<close>: the loop has not returned yet.\<close>

fun client_loop ::
  "toolkit \<Rightarrow> canvas \<Rightarrow> curves \<Rightarrow> 'b backend_ops \<Rightarrow> round_answers list \<Rightarrow> 'b client_state \<Rightarrow>
   (string + unit) option \<times> 'b client_state" where
  "client_loop tk ca cu ops [] s = (if ap_running (fst (cl_app s)) then None else Some (Inr ()), s)"
| "client_loop tk ca cu ops (ra # rest) s =
     (if ap_running (fst (cl_app s)) then
        (case client_round tk ca cu ops ra s of
           (Inl e, s') \<Rightarrow> (Some (Inl e), s')
         | (Inr u, s') \<Rightarrow> client_loop tk ca cu ops rest s')
      else (Some (Inr ()), s))"

subsection \<open>The entry point\<close>

text \<open>
  The application and its backend, as \<open>create_app_autodetect\<close> gives them, and the frame at the start.
\<close>

definition client_start :: "trace \<Rightarrow> app \<times> 'b \<Rightarrow> 'b client_state" where
  "client_start t s = \<lparr>cl_app = s, cl_frame = (\<lparr>fr_logo = logo_init, fr_items = []\<rparr>, t)\<rparr>"

definition client_loops ::
  "toolkit \<Rightarrow> canvas \<Rightarrow> curves \<Rightarrow> json_decoder \<Rightarrow> (ipc_message \<Rightarrow> string + string) \<Rightarrow> trace \<Rightarrow> round_answers list \<Rightarrow>
   (app \<times> mock_backend) + (app \<times> daemon_backend) \<Rightarrow> (string + unit) option" where
  "client_loops tk ca cu json to_json t ras start =
     (case start of
        Inl s \<Rightarrow> fst (client_loop tk ca cu mock_ops ras (client_start t s))
      | Inr s \<Rightarrow> fst (client_loop tk ca cu (daemon_ops json to_json) ras (client_start t s)))"

definition client_run ::
  "terminal_answers \<Rightarrow> (string + unit) option \<Rightarrow> screen_mode \<Rightarrow> (string + unit) option \<times> screen_mode" where
  "client_run ta loop m =
     (case bindR (enable_raw_mode ta) (\<lambda>_. bindR (enter_screen ta) (\<lambda>_. new_terminal ta)) m of
        (Inl e, m') \<Rightarrow> (Some (Inl e), m')
      | (Inr u, m') \<Rightarrow> (loop, m'))"

text \<open>The result of \<^verbatim>\<open>main\<close>, the mode of the terminal, and what is printed as an error.\<close>

definition client_main ::
  "terminal_answers \<Rightarrow> (string + unit) option \<Rightarrow> screen_mode \<Rightarrow> (string + unit) option \<times> screen_mode \<times> string list" where
  "client_main ta loop m =
     (case client_run ta loop m of
        (None, m') \<Rightarrow> (None, m', [])
      | (Some (Inl err), m') \<Rightarrow>
          (case cleanup_terminal ta m' of
             (Inl e, m'') \<Rightarrow> (Some (Inl e), m'', [])
           | (Inr u, m'') \<Rightarrow> (Some (Inl err), m'', [''chalybs-tui error: '' @ err]))
      | (Some (Inr u), m') \<Rightarrow>
          (case cleanup_terminal ta m' of
             (Inl e, m'') \<Rightarrow> (Some (Inl e), m'', [])
           | (Inr u, m'') \<Rightarrow> (Some (Inr ()), m'', [])))"

definition client_process ::
  "toolkit \<Rightarrow> canvas \<Rightarrow> curves \<Rightarrow> json_decoder \<Rightarrow> (ipc_message \<Rightarrow> string + string) \<Rightarrow> terminal_answers \<Rightarrow>
   trace \<Rightarrow> round_answers list \<Rightarrow> (app \<times> mock_backend) + (app \<times> daemon_backend) \<Rightarrow>
   (string + unit) option \<times> screen_mode \<times> string list" where
  "client_process tk ca cu json to_json ta t ras start =
     client_main ta (client_loops tk ca cu json to_json t ras start) plain_mode"

subsection \<open>The loop is the loop of keys and ticks\<close>

definition answered :: "round_answers \<Rightarrow> bool" where
  "answered ra \<longleftrightarrow>
     ra_draw ra = Drawn \<and> \<not> isl (ra_size ra) \<and>
     (case ra_poll ra of Inl e \<Rightarrow> False | Inr ready \<Rightarrow> if ready then \<not> isl (ra_read ra) else True)"

definition input_of :: "round_answers \<Rightarrow> tui_input" where
  "input_of ra =
     \<lparr>ti_key = (if ra_poll ra = Inr True then (case ra_read ra of Inl e \<Rightarrow> None | Inr k \<Rightarrow> k) else None),
      ti_tick = ra_due ra\<rparr>"

lemma client_draw_app: "client_draw tk ca cu ra s = (r, s') \<Longrightarrow> cl_app s' = cl_app s \<and> (r = Inr () \<longleftrightarrow> ra_draw ra = Drawn)"
  by (auto simp: client_draw_def next_frame_def split: draw_outcome.splits)

lemma client_round_answered:
  assumes "answered ra"
  shows "client_round tk ca cu ops ra s =
    (Inr (), (next_frame tk ca cu (ra_area ra) s)\<lparr>cl_app := tui_round ops (input_of ra) (cl_app s)\<rparr>)"
  using assms
  by (cases "ra_read ra")
    (auto simp: client_round_def bindR_def client_draw_def client_input_def client_tick_def answered_def input_of_def
      tui_round_def next_frame_def Let_def isl_def split: sum.splits option.splits bool.splits)

text \<open>
  As long as every call is answered, the application is that of the loop of keys and ticks, and the
  loop returns exactly when the application stops running.
\<close>

theorem client_loop_refines:
  "if list_all answered ras then
     (case client_loop tk ca cu ops ras s of
        (r, s') \<Rightarrow>
          cl_app s' = tui_run ops (map input_of ras) (cl_app s) \<and>
          r = (if ap_running (fst (cl_app s')) then None else Some (Inr ())))
   else True"
proof (induction ras arbitrary: s)
  case (Cons ra ras)
  show ?case
  proof (cases "ap_running (fst (cl_app s))")
    case True
    with Cons [of "(next_frame tk ca cu (ra_area ra) s)\<lparr>cl_app := tui_round ops (input_of ra) (cl_app s)\<rparr>"]
    show ?thesis by (auto simp: client_round_answered)
  qed simp
qed simp

subsection \<open>The terminal is given back\<close>

lemma cleanup_run:
  "cleanup_terminal ta m =
     (case ta_raw_off ta of
        Some e \<Rightarrow> (Inl e, m)
      | None \<Rightarrow>
          (case ta_leave ta of
             Some e \<Rightarrow> (Inl e, \<lparr>tm_raw = False, tm_alternate = fst (ta_left ta), tm_hidden = snd (ta_left ta)\<rparr>)
           | None \<Rightarrow> (Inr (), plain_mode)))"
  by (cases m) (simp add: cleanup_terminal_def bindR_def disable_raw_mode_def leave_screen_def plain_mode_def split: option.split)

text \<open>
  However the client ends, at whichever of its calls: when the two calls of the clean-up succeed, the
  terminal is as a shell expects it, the result is that of the run, and an error is printed exactly when
  the run failed.  When one of them fails its error is returned in place of the run's and nothing is
  printed; and when the raw mode cannot be left, the alternate screen is not left either.
\<close>

theorem terminal_given_back:
  "case client_run ta loop m of
     (None, m') \<Rightarrow> client_main ta loop m = (None, m', [])
   | (Some r, m') \<Rightarrow>
       client_main ta loop m =
         (case (ta_raw_off ta, ta_leave ta) of
            (None, None) \<Rightarrow> (Some r, plain_mode, (case r of Inl e \<Rightarrow> [''chalybs-tui error: '' @ e] | Inr u \<Rightarrow> []))
          | (Some e, l) \<Rightarrow> (Some (Inl e), m', [])
          | (None, Some e) \<Rightarrow>
              (Some (Inl e), \<lparr>tm_raw = False, tm_alternate = fst (ta_left ta), tm_hidden = snd (ta_left ta)\<rparr>, []))"
  by (cases "client_run ta loop m")
    (auto simp: client_main_def cleanup_run split: option.split sum.split)

end
