(* ===== verification/Chalybs_Topology.thy ===== *)
theory Chalybs_Topology
  imports Chalybs_Util "HOL-Library.Multiset"
begin

text \<open>
  The topology validator of \<^verbatim>\<open>core/src/cpu/detect/validate.rs\<close>: a pure function from the host's NUMA
  nodes and a VM's placement to a report.  No module declares the file, so the program does not
  contain it yet; the model is of the function as it stands.  The order in which a hash map is walked
  is an argument, and the verdict is shown not to depend on it.
\<close>

subsection \<open>Data\<close>

datatype topology_severity = TopologyInfo | TopologyWarning | TopologyError

record topology_issue =
  ti_severity :: topology_severity
  ti_code :: string
  ti_message :: string

record numa_node =
  nn_id :: nat
  nn_logical_cpus :: "nat list"

record vm_cpu_placement =
  pl_requested :: nat
  pl_vcpus :: "nat list"
  pl_hugepage_nodes :: "nat list"

type_synonym topology_report = "topology_issue list"

definition report_has :: "topology_severity \<Rightarrow> topology_report \<Rightarrow> bool" where
  "report_has s r = list_ex (\<lambda>i. ti_severity i = s) r"

definition report_is_ok :: "topology_report \<Rightarrow> bool" where
  "report_is_ok r = (\<not> report_has TopologyError r)"
definition report_is_clean :: "topology_report \<Rightarrow> bool" where
  "report_is_clean r = (r = [])"
definition report_has_warnings :: "topology_report \<Rightarrow> bool" where
  "report_has_warnings r = report_has TopologyWarning r"
definition report_has_errors :: "topology_report \<Rightarrow> bool" where
  "report_has_errors r = report_has TopologyError r"

definition issue :: "topology_severity \<Rightarrow> string \<Rightarrow> string \<Rightarrow> topology_issue" where
  "issue s code message = \<lparr>ti_severity = s, ti_code = code, ti_message = message\<rparr>"

subsection \<open>The checks\<close>

definition index_node :: "(nat \<times> nat) list \<times> (nat \<times> nat) list \<Rightarrow> numa_node \<Rightarrow> (nat \<times> nat) list \<times> (nat \<times> nat) list" where
  "index_node maps node =
     (case maps of (cpu_to_node, capacities) \<Rightarrow>
       (foldl (\<lambda>m cpu. hm_insert cpu (nn_id node) m) cpu_to_node (nn_logical_cpus node),
        hm_insert (nn_id node) (length (nn_logical_cpus node)) capacities))"

definition index_nodes :: "numa_node list \<Rightarrow> (nat \<times> nat) list \<times> (nat \<times> nat) list" where
  "index_nodes nodes = foldl index_node ([], []) nodes"

definition check_count :: "vm_cpu_placement \<Rightarrow> topology_report" where
  "check_count vm =
     (if pl_requested vm = 0 then
        [issue TopologyWarning ''vcpu_count_zero'' ''requested_vcpu_count is zero; VM will have no vCPUs'']
      else if length (pl_vcpus vm) mod 2 ^ 32 \<noteq> pl_requested vm then
        [issue TopologyWarning ''vcpu_mapping_incomplete''
           (''vCPU mapping is incomplete or inconsistent: requested '' @ show_nat (pl_requested vm) @
            '' vCPUs, but only '' @ show_nat (length (pl_vcpus vm)) @ '' host CPU assignments are present'')]
      else [])"

definition vcpu_nodes_of :: "(nat \<times> nat) list \<Rightarrow> vm_cpu_placement \<Rightarrow> nat list" where
  "vcpu_nodes_of cpu_to_node vm = remdups (List.map_filter (map_of cpu_to_node) (pl_vcpus vm))"

definition check_unmapped :: "(nat \<times> nat) list \<Rightarrow> vm_cpu_placement \<Rightarrow> topology_report" where
  "check_unmapped cpu_to_node vm =
     (let unmapped = filter (\<lambda>cpu. map_of cpu_to_node cpu = None) (pl_vcpus vm)
      in if unmapped \<noteq> [] then
           [issue TopologyError ''vcpu_host_cpu_unmapped''
              (''one or more vCPUs are assigned to host CPUs that do not appear in the host NUMA topology: '' @
               show_nats_debug unmapped)]
         else [])"

definition check_memory_nodes :: "(nat \<times> nat) list \<Rightarrow> vm_cpu_placement \<Rightarrow> topology_report" where
  "check_memory_nodes capacities vm =
     map (\<lambda>node. issue TopologyWarning ''memory_node_unknown''
         (''memory/hugepage node '' @ show_nat node @
          '' is not present in host CPU topology; cannot verify CPU-locality for this node''))
       (filter (\<lambda>node. map_of capacities node = None) (pl_hugepage_nodes vm))"

definition check_cross_node :: "nat list \<Rightarrow> topology_report" where
  "check_cross_node vcpu_nodes =
     (if 1 < length vcpu_nodes then
        [issue TopologyWarning ''vcpu_cross_node''
           (''vCPUs are spread across multiple NUMA nodes: '' @ show_nats_debug (sort vcpu_nodes) @
            ''; this may increase cross-node memory latency'')]
      else [])"

definition check_memory_cross_node :: "nat list \<Rightarrow> topology_report" where
  "check_memory_cross_node mem_nodes =
     (if 1 < length mem_nodes then
        [issue TopologyWarning ''memory_cross_node''
           (''memory/hugepages are allocated from multiple NUMA nodes: '' @ show_nats_debug (sort mem_nodes) @
            ''; this may reduce locality for vCPUs'')]
      else [])"

definition check_mismatch :: "nat list \<Rightarrow> nat list \<Rightarrow> topology_report" where
  "check_mismatch vcpu_nodes mem_nodes =
     (if vcpu_nodes \<noteq> [] \<and> mem_nodes \<noteq> [] \<and> sort vcpu_nodes \<noteq> sort mem_nodes then
        [issue TopologyWarning ''vcpu_memory_node_mismatch''
           (''NUMA nodes for vCPUs ('' @ show_nats_debug (sort vcpu_nodes) @
            '') do not match NUMA nodes for memory/hugepages ('' @ show_nats_debug (sort mem_nodes) @
            ''); this may introduce cross-node memory access'')]
      else [])"

definition count_on_node :: "(nat \<times> nat) list \<Rightarrow> vm_cpu_placement \<Rightarrow> (nat \<times> nat) list" where
  "count_on_node cpu_to_node vm =
     foldl (\<lambda>m node. hm_insert node ((case map_of m node of None \<Rightarrow> 0 | Some k \<Rightarrow> k) + 1) m) []
       (List.map_filter (map_of cpu_to_node) (pl_vcpus vm))"

definition oversubscribed :: "(nat \<times> nat) list \<Rightarrow> nat \<times> nat \<Rightarrow> bool" where
  "oversubscribed capacities used = (case map_of capacities (fst used) of None \<Rightarrow> False | Some cap \<Rightarrow> cap < snd used)"

definition check_capacity ::
  "((nat \<times> nat) list \<Rightarrow> (nat \<times> nat) list) \<Rightarrow> (nat \<times> nat) list \<Rightarrow> (nat \<times> nat) list \<Rightarrow> vm_cpu_placement \<Rightarrow> topology_report" where
  "check_capacity hash_order cpu_to_node capacities vm =
     (let per_node = hash_order (count_on_node cpu_to_node vm);
          unknown = filter (\<lambda>used. map_of capacities (fst used) = None) per_node;
          over = sort_key fst (filter (oversubscribed capacities) per_node)
      in map (\<lambda>used. issue TopologyWarning ''node_capacity_unknown''
             (''cannot verify capacity of NUMA node '' @ show_nat (fst used) @
              '' used by vCPUs; node is missing from capacity map'')) unknown @
         (if over \<noteq> [] then
            [issue TopologyError ''node_oversubscribed''
               (''one or more NUMA nodes are oversubscribed by vCPUs relative to their logical CPU capacity: '' @
                join ''; '' (map (\<lambda>used. ''node '' @ show_nat (fst used) @ '': '' @ show_nat (snd used) @ '' vCPUs > '' @
                  show_nat (the (map_of capacities (fst used))) @ '' CPUs'') over))]
          else []))"

definition validate_cpu_topology ::
  "((nat \<times> nat) list \<Rightarrow> (nat \<times> nat) list) \<Rightarrow> numa_node list \<Rightarrow> vm_cpu_placement \<Rightarrow> topology_report" where
  "validate_cpu_topology hash_order nodes vm =
     (if nodes = [] then
        [issue TopologyWarning ''host_topology_empty'' ''host NUMA topology is empty; cannot perform CPU/NUMA validation'']
      else
        (case index_nodes nodes of (cpu_to_node, capacities) \<Rightarrow>
          (let vcpu_nodes = vcpu_nodes_of cpu_to_node vm;
               mem_nodes = remdups (pl_hugepage_nodes vm);
               issues = check_count vm @ check_unmapped cpu_to_node vm @ check_memory_nodes capacities vm @
                 check_cross_node vcpu_nodes @ check_memory_cross_node mem_nodes @ check_mismatch vcpu_nodes mem_nodes @
                 (if pl_vcpus vm \<noteq> [] then check_capacity hash_order cpu_to_node capacities vm else [])
           in if issues = [] \<and> length vcpu_nodes = 1 \<and> length mem_nodes = 1 \<and> vcpu_nodes = mem_nodes then
                [issue TopologyInfo ''topology_local_and_aligned''
                   (''vCPUs and memory/hugepages are confined to NUMA node '' @ show_nat (hd vcpu_nodes) @
                    ''; topology appears local and aligned'')]
              else issues)))"

subsection \<open>The index\<close>

text \<open>The CPUs that are known are those of the nodes, and the node of a known CPU has a capacity.\<close>

definition indexed :: "(nat \<times> nat) list \<times> (nat \<times> nat) list \<Rightarrow> nat set \<Rightarrow> bool" where
  "indexed maps cpus \<longleftrightarrow>
     (\<forall>cpu. map_of (fst maps) cpu = None \<longleftrightarrow> cpu \<notin> cpus) \<and>
     (\<forall>cpu n. map_of (fst maps) cpu = Some n \<longrightarrow> map_of (snd maps) n \<noteq> None)"

lemma index_cpus:
  "map_of (foldl (\<lambda>m cpu. hm_insert cpu n m) m cpus) x = (if x \<in> set cpus then Some n else map_of m x)"
  by (induction cpus arbitrary: m) auto

lemma index_node_indexed:
  "indexed maps cpus \<Longrightarrow> indexed (index_node maps node) (cpus \<union> set (nn_logical_cpus node))"
  by (cases maps) (simp add: indexed_def index_node_def index_cpus)

lemma index_nodes_indexed: "indexed (index_nodes nodes) (\<Union>node \<in> set nodes. set (nn_logical_cpus node))"
proof -
  have "indexed maps cpus \<Longrightarrow>
      indexed (foldl index_node maps nodes) (cpus \<union> (\<Union>node \<in> set nodes. set (nn_logical_cpus node)))" for maps cpus
  proof (induction nodes arbitrary: maps cpus)
    case (Cons node nodes)
    from Cons.IH [OF index_node_indexed [OF Cons.prems]] show ?case by (simp add: Un_assoc)
  qed simp
  from this [of "([], [])" "{}"] show ?thesis by (simp add: index_nodes_def indexed_def)
qed

subsection \<open>The verdict\<close>

text \<open>How many vCPUs a node has.\<close>

definition vcpus_on :: "(nat \<times> nat) list \<Rightarrow> vm_cpu_placement \<Rightarrow> nat \<Rightarrow> nat" where
  "vcpus_on cpu_to_node vm n = count_list (List.map_filter (map_of cpu_to_node) (pl_vcpus vm)) n"

lemma count_on_node_eq:
  "map_of (count_on_node c vm) n = (if vcpus_on c vm n = 0 then None else Some (vcpus_on c vm n))"
  "distinct (map fst (count_on_node c vm))"
proof -
  let ?step = "\<lambda>m node. hm_insert node ((case map_of m node of None \<Rightarrow> 0 | Some k \<Rightarrow> k) + 1) m"
  have "map_of (foldl ?step m ns) n =
      (if count_list ns n = 0 then map_of m n else Some ((case map_of m n of None \<Rightarrow> 0 | Some k \<Rightarrow> k) + count_list ns n))"
    for m ns
    by (induction ns arbitrary: m) auto
  from this [of "[]" "List.map_filter (map_of c) (pl_vcpus vm)"]
  show "map_of (count_on_node c vm) n = (if vcpus_on c vm n = 0 then None else Some (vcpus_on c vm n))"
    by (simp add: count_on_node_def vcpus_on_def)
  have keys: "distinct (map fst m) \<Longrightarrow> distinct (map fst (foldl ?step m ns))" for m ns
    by (induction ns arbitrary: m) (simp_all add: distinct_hm_insert)
  show "distinct (map fst (count_on_node c vm))" unfolding count_on_node_def by (rule keys) simp
qed

lemma report_has_append [simp]: "report_has s (a @ b) \<longleftrightarrow> report_has s a \<or> report_has s b"
  by (simp add: report_has_def)

lemma report_has_simps [simp]:
  "\<not> report_has s []" "report_has s (i # r) \<longleftrightarrow> ti_severity i = s \<or> report_has s r"
  by (simp_all add: report_has_def)

lemma report_has_map: "report_has s (map f xs) \<longleftrightarrow> (\<exists>x \<in> set xs. ti_severity (f x) = s)"
  by (induction xs) auto

lemma warnings_only [simp]:
  "\<not> report_has TopologyError (check_count vm)" "\<not> report_has TopologyError (check_memory_nodes c vm)"
  "\<not> report_has TopologyError (check_cross_node ns)" "\<not> report_has TopologyError (check_memory_cross_node ms)"
  "\<not> report_has TopologyError (check_mismatch ns ms)"
  by (auto simp: check_count_def check_memory_nodes_def check_cross_node_def check_memory_cross_node_def
      check_mismatch_def issue_def report_has_def list_ex_iff)

lemma unmapped_error:
  "report_has TopologyError (check_unmapped c vm) \<longleftrightarrow> (\<exists>cpu \<in> set (pl_vcpus vm). map_of c cpu = None)"
  by (auto simp: check_unmapped_def issue_def Let_def filter_empty_conv)

lemma capacity_error:
  assumes "\<And>xs. mset (hash_order xs) = mset xs"
  shows "report_has TopologyError (check_capacity hash_order c caps vm) \<longleftrightarrow>
    (\<exists>n cap. map_of caps n = Some cap \<and> cap < vcpus_on c vm n)"
proof -
  have set: "set (hash_order xs) = set xs" for xs by (metis assms set_mset_mset)
  have "report_has TopologyError (check_capacity hash_order c caps vm) \<longleftrightarrow>
      (\<exists>used \<in> set (count_on_node c vm). oversubscribed caps used)"
  proof -
    have "sort_key fst xs = [] \<longleftrightarrow> xs = []" for xs :: "(nat \<times> nat) list" by (metis length_0_conv length_sort)
    then have "sort_key fst (filter (oversubscribed caps) (hash_order (count_on_node c vm))) = [] \<longleftrightarrow>
        (\<forall>used \<in> set (count_on_node c vm). \<not> oversubscribed caps used)"
      by (simp add: filter_empty_conv set)
    then show ?thesis by (auto simp: check_capacity_def Let_def issue_def report_has_map)
  qed
  also have "\<dots> \<longleftrightarrow> (\<exists>n k. map_of (count_on_node c vm) n = Some k \<and> oversubscribed caps (n, k))"
    by (metis count_on_node_eq(2) map_of_SomeD map_of_is_SomeI prod.collapse)
  also have "\<dots> \<longleftrightarrow> (\<exists>n cap. map_of caps n = Some cap \<and> cap < vcpus_on c vm n)"
  proof (rule arg_cong [where f = Ex], rule ext)
    fix n
    show "(\<exists>k. map_of (count_on_node c vm) n = Some k \<and> oversubscribed caps (n, k)) \<longleftrightarrow>
        (\<exists>cap. map_of caps n = Some cap \<and> cap < vcpus_on c vm n)"
      by (cases "map_of caps n") (simp_all add: count_on_node_eq(1) oversubscribed_def)
  qed
  finally show ?thesis .
qed

text \<open>
  A placement is rejected exactly when a vCPU sits on a CPU that no node has, or a node has more vCPUs
  than CPUs; in whatever order the maps are walked.
\<close>

theorem topology_verdict:
  assumes "\<And>xs. mset (hash_order xs) = mset xs"
  shows "report_has_errors (validate_cpu_topology hash_order nodes vm) \<longleftrightarrow>
    nodes \<noteq> [] \<and>
    ((\<exists>cpu \<in> set (pl_vcpus vm). \<forall>node \<in> set nodes. cpu \<notin> set (nn_logical_cpus node)) \<or>
     (\<exists>n cap. map_of (snd (index_nodes nodes)) n = Some cap \<and> cap < vcpus_on (fst (index_nodes nodes)) vm n))"
proof (cases "nodes = []")
  case False
  obtain c caps where maps: "index_nodes nodes = (c, caps)" by (cases "index_nodes nodes")
  have known: "map_of c cpu = None \<longleftrightarrow> (\<forall>node \<in> set nodes. cpu \<notin> set (nn_logical_cpus node))" for cpu
    using index_nodes_indexed [of nodes] maps by (simp add: indexed_def)
  have "vcpus_on c vm n = 0" if "pl_vcpus vm = []" for n
    using that by (simp add: vcpus_on_def map_filter_def)
  define issues where "issues = check_count vm @ check_unmapped c vm @ check_memory_nodes caps vm @
    check_cross_node (vcpu_nodes_of c vm) @ check_memory_cross_node (remdups (pl_hugepage_nodes vm)) @
    check_mismatch (vcpu_nodes_of c vm) (remdups (pl_hugepage_nodes vm)) @
    (if pl_vcpus vm \<noteq> [] then check_capacity hash_order c caps vm else [])"
  have "report_has_errors (validate_cpu_topology hash_order nodes vm) \<longleftrightarrow> report_has TopologyError issues"
    using False maps unfolding issues_def
    by (simp add: validate_cpu_topology_def report_has_errors_def Let_def issue_def)
  also have "\<dots> \<longleftrightarrow> (\<exists>cpu \<in> set (pl_vcpus vm). map_of c cpu = None) \<or>
      (\<exists>n cap. map_of caps n = Some cap \<and> cap < vcpus_on c vm n)"
    using \<open>\<And>n. pl_vcpus vm = [] \<Longrightarrow> vcpus_on c vm n = 0\<close>
    by (auto simp: issues_def unmapped_error capacity_error [OF assms])
  finally show ?thesis using False maps known by simp
qed (simp add: validate_cpu_topology_def report_has_errors_def issue_def)

text \<open>The capacity of a node that has a vCPU is always known: the branch that says otherwise is dead.\<close>

theorem capacity_always_known:
  assumes "\<And>xs. mset (hash_order xs) = mset xs"
  shows "list_all (\<lambda>i. ti_code i \<noteq> ''node_capacity_unknown'') (validate_cpu_topology hash_order nodes vm)"
proof -
  obtain c caps where maps: "index_nodes nodes = (c, caps)" by (cases "index_nodes nodes")
  have set: "set (hash_order xs) = set xs" for xs by (metis assms set_mset_mset)
  have "map_of caps (fst used) \<noteq> None" if "used \<in> set (count_on_node c vm)" for used
  proof -
    from that have "map_of (count_on_node c vm) (fst used) \<noteq> None" by (metis map_of_eq_None_iff image_eqI)
    then have "fst used \<in> set (List.map_filter (map_of c) (pl_vcpus vm))"
      by (auto simp: count_on_node_eq(1) vcpus_on_def count_list_0_iff split: if_splits)
    then obtain cpu where "map_of c cpu = Some (fst used)" by (auto simp: map_filter_def)
    with index_nodes_indexed [of nodes] maps show ?thesis by (simp add: indexed_def)
  qed
  then have "filter (\<lambda>used. map_of caps (fst used) = None) (hash_order (count_on_node c vm)) = []"
    by (simp add: filter_empty_conv set)
  then have cap: "list_all (\<lambda>i. ti_code i \<noteq> ''node_capacity_unknown'') (check_capacity hash_order c caps vm)"
    by (simp add: check_capacity_def Let_def issue_def)
  let ?ok = "list_all (\<lambda>i. ti_code i \<noteq> ''node_capacity_unknown'')"
  have rest: "?ok (check_count vm)" "?ok (check_unmapped c vm)" "?ok (check_memory_nodes caps vm)"
    "?ok (check_cross_node ns)" "?ok (check_memory_cross_node ms)" "?ok (check_mismatch ns ms)" for ns ms
    by (simp_all add: check_count_def check_unmapped_def check_memory_nodes_def check_cross_node_def
        check_memory_cross_node_def check_mismatch_def issue_def Let_def list.pred_map comp_def list_all_iff)
  show ?thesis
    using cap rest by (simp add: validate_cpu_topology_def maps Let_def issue_def)
qed

end
