(* ===== verification/Chalybs_Tests.thy ===== *)
theory Chalybs_Tests
  imports Chalybs_Vfio Chalybs_Util
begin

text \<open>
  The unit tests of \<^verbatim>\<open>core/src/pci.rs\<close>, \<^verbatim>\<open>vfio/isolation.rs\<close>, \<^verbatim>\<open>vfio/plan.rs\<close>,
  \<^verbatim>\<open>vfio/verify.rs\<close> and \<^verbatim>\<open>cpu/detect/topology.rs\<close>, run on the model: a test is the
  conjunction of its assertions on the test's own fixture, with the name of its function, and a lemma
  proves each.  So the definitions the tests exercise answer as the authors of the code expect.
  A \<^verbatim>\<open>HashSet\<close> with one insertion is a list of one element; \<^verbatim>\<open>unwrap\<close> and \<^verbatim>\<open>expect\<close>
  make a test fail on an error.
\<close>

subsection \<open>Fixtures\<close>

text \<open>The literal that all fixtures share: they differ in the devices, the policy and the node.\<close>

definition test_qemu :: qemu_config where
  "test_qemu =
     \<lparr>qc_binary = ''/usr/bin/qemu-system-x86_64'', qc_pre_args = None, qc_args = '''', qc_post_args = None,
      qc_rtc = None, qc_num_vcpus = 2, qc_mem_mb = 2048, qc_hugepages = False,
      qc_ovmf_code = ''/usr/share/OVMF/OVMF_CODE.fd'',
      qc_ovmf_vars = ''/var/lib/libvirt/qemu/nvram/test_VARS.fd'',
      qc_smbios = None, qc_cpu_model = None, qc_cpu_extras = None, qc_rombar_off = None,
      qc_pci_rootport = None, qc_legacy_primary_gpu = False\<rparr>"

definition test_config :: "nat option \<Rightarrow> devices_config \<Rightarrow> isolation_policy_config \<Rightarrow> vm_config" where
  "test_config node devices policy =
     \<lparr>vc_cpu = \<lparr>cc_host_cpus = ''0-3'', cc_vm_cpus = ''0-1''\<rparr>,
      vc_qemu = test_qemu,
      vc_numa = Some \<lparr>nc_node = node, nc_hugepage_node = None\<rparr>,
      vc_devices = devices,
      vc_gpu = \<lparr>gp_allow_single_gpu = False, gp_force_use_igpu = False\<rparr>,
      vc_isolation = policy,
      vc_peripherals = None\<rparr>"

definition required_device :: "string \<Rightarrow> isolation_level option \<Rightarrow> pci_device_config" where
  "required_device bdf level = \<lparr>pd_pci_address = bdf, pd_required = True, pd_level = level\<rparr>"

definition one_gpu :: "pci_device_config \<Rightarrow> devices_config" where
  "one_gpu d = \<lparr>dv_gpu = Some [d], dv_nvme = None, dv_nic = None, dv_usb = None\<rparr>"

definition one_nvme :: "pci_device_config \<Rightarrow> devices_config" where
  "one_nvme d = \<lparr>dv_gpu = None, dv_nvme = Some [d], dv_nic = None, dv_usb = None\<rparr>"

definition inventory :: "pci_function list \<Rightarrow> pci_inventory" where
  "inventory fs = \<lparr>inv_functions = fs\<rparr>"

lemmas fixture_defs =
  test_qemu_def test_config_def required_device_def one_gpu_def one_nvme_def inventory_def

subsection \<open>PCI inventory\<close>

definition pci_make_gpu :: "string option \<Rightarrow> nat option \<Rightarrow> pci_function" where
  "pci_make_gpu driver iommu_group =
     \<lparr>pf_bdf = ''0000:01:00.0'', pf_vendor_id = 0x1234, pf_device_id = 0x5678, pf_class = 0x030000,
      pf_driver = driver, pf_iommu_group = iommu_group, pf_numa_node = Some 0\<rparr>"

definition make_non_gpu :: pci_function where
  "make_non_gpu =
     \<lparr>pf_bdf = ''0000:02:00.0'', pf_vendor_id = 0x1234, pf_device_id = 0x5678, pf_class = 0x020000,
      pf_driver = Some ''e1000e'', pf_iommu_group = Some 2, pf_numa_node = Some 0\<rparr>"

definition gpu_driver_kind_is_none_for_non_gpu :: bool where
  "gpu_driver_kind_is_none_for_non_gpu \<longleftrightarrow>
     (let nic = make_non_gpu in gpu_driver_kind nic = None \<and> gpu_safety_class nic = None)"

definition gpu_driver_kind_classification_basic :: bool where
  "gpu_driver_kind_classification_basic \<longleftrightarrow>
     gpu_driver_kind (pci_make_gpu (Some ''vfio-pci'') (Some 1)) = Some KindVfio \<and>
     gpu_driver_kind (pci_make_gpu (Some ''amdgpu'') (Some 1)) = Some KindAmdGpu \<and>
     gpu_driver_kind (pci_make_gpu (Some ''radeon'') (Some 1)) = Some KindAmdGpu \<and>
     gpu_driver_kind (pci_make_gpu (Some ''nvidia'') (Some 1)) = Some KindNvidia \<and>
     gpu_driver_kind (pci_make_gpu (Some ''nouveau'') (Some 1)) = Some KindNouveau \<and>
     (case gpu_driver_kind (pci_make_gpu (Some ''weirdgpu'') (Some 1)) of
        Some (KindOtherKernel name) \<Rightarrow> name = ''weirdgpu'' | _ \<Rightarrow> False) \<and>
     gpu_driver_kind (pci_make_gpu None (Some 1)) = Some KindUnbound"

definition gpu_safety_classification_basic :: bool where
  "gpu_safety_classification_basic \<longleftrightarrow>
     gpu_safety_class (pci_make_gpu (Some ''vfio-pci'') (Some 1)) = Some VfioReady \<and>
     gpu_safety_class (pci_make_gpu (Some ''amdgpu'') (Some 1)) = Some HostOwned \<and>
     gpu_safety_class (pci_make_gpu (Some ''weirdgpu'') (Some 1)) = Some SafetyUnknown \<and>
     gpu_safety_class (pci_make_gpu None (Some 1)) = Some SafetyUnknown"

definition gpu_unbind_assessment_vfio_without_iommu_group_is_safe :: bool where
  "gpu_unbind_assessment_vfio_without_iommu_group_is_safe \<longleftrightarrow>
     (case assess_gpu_unbind_safety (inventory [pci_make_gpu (Some ''vfio-pci'') None]) of
        [a] \<Rightarrow> ga_feasibility a = Safe | _ \<Rightarrow> False)"

definition gpu_unbind_assessment_non_vfio_no_iommu_group_is_unsafe :: bool where
  "gpu_unbind_assessment_non_vfio_no_iommu_group_is_unsafe \<longleftrightarrow>
     (case assess_gpu_unbind_safety (inventory [pci_make_gpu (Some ''nvidia'') None]) of
        [a] \<Rightarrow> (case ga_feasibility a of Unsafe _ \<Rightarrow> True | _ \<Rightarrow> False) | _ \<Rightarrow> False)"

text \<open>The test's comment says the call must not touch \<^verbatim>\<open>/sys\<close>: no event is added to the trace.\<close>

definition bind_to_vfio_is_noop_if_already_bound :: "os \<Rightarrow> bool" where
  "bind_to_vfio_is_noop_if_already_bound os \<longleftrightarrow>
     bind_to_vfio_pci os (pci_make_gpu (Some ''vfio-pci'') (Some 1)) [] = (Inr (), [])"

definition is_bdf_in_gpu_complex_identifies_slot_mates :: bool where
  "is_bdf_in_gpu_complex_identifies_slot_mates \<longleftrightarrow>
     (let gpu = \<lparr>pf_bdf = ''0000:4a:00.0'', pf_vendor_id = 0x1234, pf_device_id = 0x5678,
                 pf_class = 0x030000, pf_driver = Some ''nvidia'', pf_iommu_group = Some 1,
                 pf_numa_node = Some 0\<rparr>;
          audio = \<lparr>pf_bdf = ''0000:4a:00.1'', pf_vendor_id = 0x1234, pf_device_id = 0x8765,
                   pf_class = 0x040300, pf_driver = Some ''snd_hda_intel'', pf_iommu_group = Some 1,
                   pf_numa_node = Some 0\<rparr>;
          pci = inventory [gpu, audio]
      in is_bdf_in_gpu_complex pci ''0000:4a:00.0'' \<and>
         is_bdf_in_gpu_complex pci ''0000:4a:00.1'' \<and>
         \<not> is_bdf_in_gpu_complex pci ''0000:4a:00.2'')"

subsection \<open>Isolation policy\<close>

definition make_gpu :: "string \<Rightarrow> string option \<Rightarrow> nat option \<Rightarrow> int option \<Rightarrow> pci_function" where
  "make_gpu bdf driver iommu_group numa_node =
     \<lparr>pf_bdf = bdf, pf_vendor_id = 0x1234, pf_device_id = 0x5678, pf_class = 0x030000,
      pf_driver = driver, pf_iommu_group = iommu_group, pf_numa_node = numa_node\<rparr>"

definition make_generic :: "string \<Rightarrow> 32 word \<Rightarrow> string option \<Rightarrow> nat option \<Rightarrow> int option \<Rightarrow> pci_function" where
  "make_generic bdf cls driver iommu_group numa_node =
     \<lparr>pf_bdf = bdf, pf_vendor_id = 0x1111, pf_device_id = 0x2222, pf_class = cls,
      pf_driver = driver, pf_iommu_group = iommu_group, pf_numa_node = numa_node\<rparr>"

definition minimal_vm_with_gpu_and_isolation :: "string \<Rightarrow> isolation_mode \<Rightarrow> vm_config" where
  "minimal_vm_with_gpu_and_isolation bdf mode =
     test_config None (one_gpu (required_device bdf None)) (isolation_policy_default\<lparr>ip_mode := mode\<rparr>)"

definition vm_with_numa_and_single_gpu :: "string \<Rightarrow> nat \<Rightarrow> isolation_mode \<Rightarrow> isolation_level \<Rightarrow> vm_config" where
  "vm_with_numa_and_single_gpu gpu_bdf vm_node mode level =
     test_config (Some vm_node) (one_gpu (required_device gpu_bdf (Some level)))
       (isolation_policy_default\<lparr>ip_mode := mode\<rparr>)"

definition has_finding :: "string \<Rightarrow> isolation_severity \<Rightarrow> isolation_finding list \<Rightarrow> bool" where
  "has_finding code sev findings = list_ex (\<lambda>f. if_code f = code \<and> if_severity f = sev) findings"

definition no_violation :: "isolation_finding list \<Rightarrow> bool" where
  "no_violation findings = (\<not> list_ex (\<lambda>f. if_severity f = SevViolation) findings)"

definition fails_with :: "string \<Rightarrow> 'a result \<Rightarrow> bool" where
  "fails_with msg r = (case r of Inl e \<Rightarrow> str_contains (show_error e) msg | Inr _ \<Rightarrow> False)"

definition parse_slot_key_parses_valid_bdf :: bool where
  "parse_slot_key_parses_valid_bdf \<longleftrightarrow> parse_slot_key ''0000:01:23.4'' = Some (0x0000, 0x01, 0x23)"

definition parse_slot_key_rejects_invalid_bdf :: bool where
  "parse_slot_key_rejects_invalid_bdf \<longleftrightarrow>
     parse_slot_key ''not-a-bdf'' = None \<and>
     parse_slot_key ''0000:01:23'' = None \<and>
     parse_slot_key ''0000:01:23.'' = None \<and>
     parse_slot_key ''00:01:23.1'' = None"

definition iommu_exclusivity_flags_mixed_group :: bool where
  "iommu_exclusivity_flags_mixed_group \<longleftrightarrow>
     (let pt = make_generic ''0000:01:00.0'' 0x020000 (Some ''e1000e'') (Some 10) (Some 0);
          host = make_generic ''0000:01:00.1'' 0x020000 (Some ''e1000e'') (Some 10) (Some 0)
      in has_finding ''IOMMU_GROUP_NOT_EXCLUSIVE'' SevViolation
           (evaluate_iommu_exclusivity ''testvm'' (inventory [pt, host]) [pf_bdf pt]))"

definition iommu_exclusivity_flags_cross_slot_shared_group :: bool where
  "iommu_exclusivity_flags_cross_slot_shared_group \<longleftrightarrow>
     (let pt = make_generic ''0000:01:00.0'' 0x010802 (Some ''nvme'') (Some 42) (Some 0);
          host = make_generic ''0000:02:00.0'' 0x020000 (Some ''e1000e'') (Some 42) (Some 0)
      in has_finding ''IOMMU_GROUP_NOT_EXCLUSIVE'' SevViolation
           (evaluate_iommu_exclusivity ''testvm'' (inventory [pt, host]) [pf_bdf pt]))"

definition multifunction_consistency_flags_mixed_functions :: bool where
  "multifunction_consistency_flags_mixed_functions \<longleftrightarrow>
     (let pt = make_generic ''0000:01:00.0'' 0x020000 (Some ''e1000e'') (Some 5) (Some 0);
          host = make_generic ''0000:01:00.1'' 0x020000 (Some ''e1000e'') (Some 5) (Some 0)
      in has_finding ''MULTIFUNCTION_MIXED_OWNERSHIP'' SevViolation
           (evaluate_multifunction_consistency ''testvm'' (inventory [pt, host]) [pf_bdf pt]))"

definition host_critical_sharing_flags_group_with_host_gpu :: bool where
  "host_critical_sharing_flags_group_with_host_gpu \<longleftrightarrow>
     (let nic = make_generic ''0000:01:00.0'' 0x020000 (Some ''e1000e'') (Some 7) (Some 0);
          host_gpu = make_gpu ''0000:01:00.1'' (Some ''amdgpu'') (Some 7) (Some 0)
      in has_finding ''HOST_CRITICAL_GPU_SHARED_GROUP'' SevViolation
           (evaluate_host_critical_sharing ''testvm'' (inventory [nic, host_gpu]) [pf_bdf nic]))"

definition host_critical_sharing_flags_group_with_passthrough_gpu_and_host_gpu :: bool where
  "host_critical_sharing_flags_group_with_passthrough_gpu_and_host_gpu \<longleftrightarrow>
     (let pt_gpu = make_gpu ''0000:03:00.0'' (Some ''vfio-pci'') (Some 9) (Some 0);
          host_gpu = make_gpu ''0000:03:00.1'' (Some ''amdgpu'') (Some 9) (Some 0)
      in has_finding ''HOST_CRITICAL_GPU_SHARED_GROUP'' SevViolation
           (evaluate_host_critical_sharing ''testvm'' (inventory [pt_gpu, host_gpu]) [pf_bdf pt_gpu]))"

definition evaluate_isolation_disabled_is_noop_even_with_issues :: bool where
  "evaluate_isolation_disabled_is_noop_even_with_issues \<longleftrightarrow>
     (let gpu_bdf = ''0000:02:00.0'';
          cfg = minimal_vm_with_gpu_and_isolation gpu_bdf Disabled;
          pt_gpu = make_gpu gpu_bdf (Some ''vfio-pci'') (Some 3) (Some 0);
          host_dev = make_generic ''0000:02:00.1'' 0x020000 (Some ''e1000e'') (Some 3) (Some 0)
      in evaluate_isolation_for_vm ''testvm'' cfg (inventory [pt_gpu, host_dev]) = Inr ())"

definition evaluate_isolation_enforce_errors_on_violation :: bool where
  "evaluate_isolation_enforce_errors_on_violation \<longleftrightarrow>
     (let gpu_bdf = ''0000:03:00.0'';
          cfg = minimal_vm_with_gpu_and_isolation gpu_bdf Enforce;
          pt_gpu = make_gpu gpu_bdf (Some ''vfio-pci'') (Some 4) (Some 0);
          host_dev = make_generic ''0000:03:00.1'' 0x020000 (Some ''e1000e'') (Some 4) (Some 0)
      in fails_with ''device isolation policy violations detected''
           (evaluate_isolation_for_vm ''testvm'' cfg (inventory [pt_gpu, host_dev])))"

text \<open>The common part of the NUMA tests: the contexts must be collected, then the placement is evaluated.\<close>

definition numa_outcome :: "vm_config \<Rightarrow> pci_inventory \<Rightarrow> isolation_finding list result" where
  "numa_outcome cfg pci =
     (case collect_device_contexts (vc_isolation cfg) cfg pci of
        Inl e \<Rightarrow> Inl e
      | Inr contexts \<Rightarrow> Inr (evaluate_numa_placement ''testvm'' (vc_isolation cfg) cfg contexts))"

definition numa_matching_nodes_produce_no_findings :: bool where
  "numa_matching_nodes_produce_no_findings \<longleftrightarrow>
     (let gpu_bdf = ''0000:04:00.0'';
          cfg = vm_with_numa_and_single_gpu gpu_bdf 0 Enforce Dedicated;
          gpu = make_gpu gpu_bdf (Some ''vfio-pci'') (Some 1) (Some 0)
      in case numa_outcome cfg (inventory [gpu]) of Inl _ \<Rightarrow> False | Inr findings \<Rightarrow> findings = [])"

definition numa_mismatched_nodes_produce_warning_or_info_but_not_error_in_audit_mode :: bool where
  "numa_mismatched_nodes_produce_warning_or_info_but_not_error_in_audit_mode \<longleftrightarrow>
     (let gpu_bdf = ''0000:05:00.0'';
          cfg = vm_with_numa_and_single_gpu gpu_bdf 0 Audit Dedicated;
          gpu = make_gpu gpu_bdf (Some ''vfio-pci'') (Some 2) (Some 1)
      in case numa_outcome cfg (inventory [gpu]) of
           Inl _ \<Rightarrow> False
         | Inr findings \<Rightarrow>
             list_ex (\<lambda>f. if_code f = ''NUMA_NODE_MISMATCH'' \<and> if_severity f \<noteq> SevViolation) findings \<and>
             no_violation findings)"

definition numa_mismatched_nodes_violate_in_enforce_mode_for_dedicated_level :: bool where
  "numa_mismatched_nodes_violate_in_enforce_mode_for_dedicated_level \<longleftrightarrow>
     (let gpu_bdf = ''0000:06:00.0'';
          cfg = vm_with_numa_and_single_gpu gpu_bdf 0 Enforce Dedicated;
          pci = inventory [make_gpu gpu_bdf (Some ''vfio-pci'') (Some 3) (Some 1)]
      in (case numa_outcome cfg pci of
            Inl _ \<Rightarrow> False | Inr findings \<Rightarrow> has_finding ''NUMA_NODE_MISMATCH'' SevViolation findings) \<and>
         fails_with ''device isolation policy violations detected'' (evaluate_isolation_for_vm ''testvm'' cfg pci))"

definition numa_negative_device_node_produces_warning_but_not_error :: bool where
  "numa_negative_device_node_produces_warning_but_not_error \<longleftrightarrow>
     (let gpu_bdf = ''0000:07:00.0'';
          cfg = vm_with_numa_and_single_gpu gpu_bdf 0 Enforce Dedicated;
          pci = inventory [make_gpu gpu_bdf (Some ''vfio-pci'') (Some 4) (Some (-1))]
      in (case numa_outcome cfg pci of
            Inl _ \<Rightarrow> False
          | Inr findings \<Rightarrow>
              has_finding ''NUMA_DEVICE_NODE_NEGATIVE'' SevWarning findings \<and> no_violation findings) \<and>
         evaluate_isolation_for_vm ''testvm'' cfg pci = Inr ())"

text \<open>The common part of the tests of per-device levels.\<close>

definition level_outcome :: "vm_config \<Rightarrow> pci_inventory \<Rightarrow> isolation_finding list result" where
  "level_outcome cfg pci =
     (case collect_device_contexts (vc_isolation cfg) cfg pci of
        Inl e \<Rightarrow> Inl e
      | Inr contexts \<Rightarrow>
          (case collect_passthrough_bdfs cfg pci of
             Inl e \<Rightarrow> Inl e
           | Inr bdfs \<Rightarrow> Inr (evaluate_per_device_isolation_levels ''testvm'' (vc_isolation cfg) pci contexts bdfs)))"

definition per_device_forbidden_nvme_produces_violation_finding :: bool where
  "per_device_forbidden_nvme_produces_violation_finding \<longleftrightarrow>
     (let nvme_bdf = ''0000:08:00.0'';
          cfg = test_config None (one_nvme (required_device nvme_bdf (Some Forbidden)))
                  (isolation_policy_default\<lparr>ip_mode := Audit\<rparr>);
          nvme = make_generic nvme_bdf 0x010802 (Some ''nvme'') (Some 10) (Some 0)
      in case level_outcome cfg (inventory [nvme]) of
           Inl _ \<Rightarrow> False
         | Inr findings \<Rightarrow>
             list_ex (\<lambda>f. if_code f = ''DEVICE_FORBIDDEN_BY_POLICY'' \<and> if_device_bdf f = Some nvme_bdf) findings)"

definition per_device_dedicated_nvme_in_shared_group_violates_when_iommu_exclusive_relaxed :: bool where
  "per_device_dedicated_nvme_in_shared_group_violates_when_iommu_exclusive_relaxed \<longleftrightarrow>
     (let nvme_bdf = ''0000:09:00.0'';
          host_bdf = ''0000:09:00.1'';
          cfg = test_config None (one_nvme (required_device nvme_bdf (Some Dedicated)))
                  (isolation_policy_default\<lparr>ip_mode := Audit, ip_require_iommu_exclusive := False\<rparr>);
          nvme = make_generic nvme_bdf 0x010802 (Some ''nvme'') (Some 11) (Some 0);
          host = make_generic host_bdf 0x020000 (Some ''e1000e'') (Some 11) (Some 0)
      in case level_outcome cfg (inventory [nvme, host]) of
           Inl _ \<Rightarrow> False
         | Inr findings \<Rightarrow>
             list_ex (\<lambda>f. if_code f = ''DEVICE_DEDICATED_GROUP_NOT_EXCLUSIVE'' \<and>
               if_device_bdf f = Some nvme_bdf \<and> if_severity f = SevViolation) findings)"

definition per_device_shared_with_host_nvme_in_shared_group_is_advisory_only :: bool where
  "per_device_shared_with_host_nvme_in_shared_group_is_advisory_only \<longleftrightarrow>
     (let nvme_bdf = ''0000:0a:00.0'';
          host_bdf = ''0000:0a:00.1'';
          cfg = test_config None (one_nvme (required_device nvme_bdf (Some SharedWithHost)))
                  (isolation_policy_default\<lparr>ip_mode := Audit, ip_require_iommu_exclusive := False\<rparr>);
          nvme = make_generic nvme_bdf 0x010802 (Some ''nvme'') (Some 12) (Some 0);
          host = make_generic host_bdf 0x020000 (Some ''e1000e'') (Some 12) (Some 0)
      in case level_outcome cfg (inventory [nvme, host]) of
           Inl _ \<Rightarrow> False
         | Inr findings \<Rightarrow>
             list_all (\<lambda>f. if_code f \<noteq> ''DEVICE_DEDICATED_GROUP_NOT_EXCLUSIVE'' \<and>
               if_code f \<noteq> ''DEVICE_FORBIDDEN_BY_POLICY'') findings)"

subsection \<open>Plan and verification\<close>

definition minimal_vm_config_with_gpu :: "string \<Rightarrow> vm_config" where
  "minimal_vm_config_with_gpu bdf =
     test_config None (one_gpu (required_device bdf None)) isolation_policy_default"

definition make_vfio_gpu :: "string \<Rightarrow> nat \<Rightarrow> pci_function" where
  "make_vfio_gpu bdf grp =
     \<lparr>pf_bdf = bdf, pf_vendor_id = 0x1234, pf_device_id = 0x5678, pf_class = 0x030000,
      pf_driver = Some ''vfio-pci'', pf_iommu_group = Some grp, pf_numa_node = Some 0\<rparr>"

definition build_plan_for_vm_with_vfio_gpu_and_no_others_is_empty_or_bind_only :: bool where
  "build_plan_for_vm_with_vfio_gpu_and_no_others_is_empty_or_bind_only \<longleftrightarrow>
     (let bdf = ''0000:01:00.0''
      in case build_plan_for_vm ''testvm'' (minimal_vm_config_with_gpu bdf) (inventory [make_vfio_gpu bdf 10]) of
           Inl _ \<Rightarrow> False
         | Inr plan \<Rightarrow>
             length (vp_actions plan) \<le> 1 \<and>
             (case vp_actions plan of
                [] \<Rightarrow> True | action # _ \<Rightarrow> va_bdf action = bdf \<and> va_kind action = BindToVfio))"

definition mk_list :: "string list \<Rightarrow> pci_device_config list option" where
  "mk_list bdfs = (if bdfs = [] then None else Some (map (\<lambda>bdf. required_device bdf None) bdfs))"

definition minimal_vm_config_for_devices :: "string list \<Rightarrow> string list \<Rightarrow> string list \<Rightarrow> string list \<Rightarrow> vm_config" where
  "minimal_vm_config_for_devices gpu_bdfs nvme_bdfs nic_bdfs usb_bdfs =
     test_config None
       \<lparr>dv_gpu = mk_list gpu_bdfs, dv_nvme = mk_list nvme_bdfs, dv_nic = mk_list nic_bdfs, dv_usb = mk_list usb_bdfs\<rparr>
       isolation_policy_default"

definition make_gpu_vfio :: "string \<Rightarrow> pci_function" where
  "make_gpu_vfio bdf =
     \<lparr>pf_bdf = bdf, pf_vendor_id = 0x1234, pf_device_id = 0x5678, pf_class = 0x030000,
      pf_driver = Some ''vfio-pci'', pf_iommu_group = Some 10, pf_numa_node = Some 0\<rparr>"

definition make_nvme_vfio :: "string \<Rightarrow> pci_function" where
  "make_nvme_vfio bdf =
     \<lparr>pf_bdf = bdf, pf_vendor_id = 0x8086, pf_device_id = 0x1234, pf_class = 0x010802,
      pf_driver = Some ''vfio-pci'', pf_iommu_group = Some 20, pf_numa_node = Some 0\<rparr>"

definition verify_with_inventory_succeeds_when_all_devices_are_vfio_bound :: bool where
  "verify_with_inventory_succeeds_when_all_devices_are_vfio_bound \<longleftrightarrow>
     (let gpu_bdf = ''0000:01:00.0'';
          nvme_bdf = ''0000:02:00.0'';
          cfg = minimal_vm_config_for_devices [gpu_bdf] [nvme_bdf] [] []
      in verify_with_inventory ''testvm'' cfg (inventory [make_gpu_vfio gpu_bdf, make_nvme_vfio nvme_bdf]) = Inr ())"

definition verify_with_inventory_fails_if_gpu_not_vfio_bound :: bool where
  "verify_with_inventory_fails_if_gpu_not_vfio_bound \<longleftrightarrow>
     (let gpu_bdf = ''0000:01:00.0'';
          cfg = minimal_vm_config_for_devices [gpu_bdf] [] [] [];
          func = \<lparr>pf_bdf = gpu_bdf, pf_vendor_id = 0x1234, pf_device_id = 0x5678, pf_class = 0x030000,
                  pf_driver = Some ''amdgpu'', pf_iommu_group = Some 10, pf_numa_node = Some 0\<rparr>
      in fails_with (''expected '' @ backquoted ''vfio-pci'') (verify_with_inventory ''testvm'' cfg (inventory [func])))"

definition verify_with_inventory_fails_if_gpu_class_not_display :: bool where
  "verify_with_inventory_fails_if_gpu_class_not_display \<longleftrightarrow>
     (let gpu_bdf = ''0000:01:00.0'';
          cfg = minimal_vm_config_for_devices [gpu_bdf] [] [] [];
          func = \<lparr>pf_bdf = gpu_bdf, pf_vendor_id = 0x1234, pf_device_id = 0xabcd, pf_class = 0x020000,
                  pf_driver = Some ''vfio-pci'', pf_iommu_group = Some 10, pf_numa_node = Some 0\<rparr>;
          res = verify_with_inventory ''testvm'' cfg (inventory [func])
      in fails_with ''configured as GPU'' res \<and> fails_with ''class base is not 0x03'' res)"

definition verify_with_inventory_fails_if_required_gpu_missing_from_inventory :: bool where
  "verify_with_inventory_fails_if_required_gpu_missing_from_inventory \<longleftrightarrow>
     (let gpu_bdf = ''0000:05:00.0'';
          cfg = minimal_vm_config_for_devices [gpu_bdf] [] [] []
      in \<not> is_ok (verify_with_inventory ''testvm'' cfg (inventory [])))"

subsection \<open>CPU lists\<close>

definition parse_simple_cpulist :: bool where
  "parse_simple_cpulist \<longleftrightarrow>
     parse_cpulist ''0'' = [0] \<and>
     parse_cpulist ''3,5'' = [3, 5] \<and>
     parse_cpulist ''0-3'' = [0, 1, 2, 3] \<and>
     parse_cpulist ''0-1,4-5,7'' = [0, 1, 4, 5, 7]"

definition parse_cpulist_ignores_garbage :: bool where
  "parse_cpulist_ignores_garbage \<longleftrightarrow> parse_cpulist ''0-x,2-3,y,5'' = [0, 2, 3, 5]"

subsection \<open>Evaluation\<close>

lemmas slot_eval =
  parse_bdf_slot_def parse_slot_key_def parse_unsigned_def to_digit_def u8_max_def u16_max_def is_ws_def

lemma display_literals [simp]:
  "is_display_controller (pci_make_gpu d g)"
  "is_display_controller (make_gpu b d g n)"
  "is_display_controller (make_vfio_gpu b k)"
  "is_display_controller (make_gpu_vfio b)"
  "\<not> is_display_controller (make_generic b 0x020000 d g n)"
  "\<not> is_display_controller (make_generic b 0x010802 d g n)"
  by (simp_all add: is_display_controller_def class_base_def class_triple_def pci_make_gpu_def make_gpu_def make_vfio_gpu_def make_gpu_vfio_def make_generic_def)

lemma make_fields [simp]:
  "pf_bdf (make_gpu b d g n) = b" "pf_driver (make_gpu b d g n) = d" "pf_iommu_group (make_gpu b d g n) = g"
  "pf_numa_node (make_gpu b d g n) = n"
  "pf_bdf (make_generic b c d g n) = b" "pf_driver (make_generic b c d g n) = d"
  "pf_iommu_group (make_generic b c d g n) = g" "pf_numa_node (make_generic b c d g n) = n"
  "pf_bdf (make_vfio_gpu b k) = b" "pf_driver (make_vfio_gpu b k) = Some ''vfio-pci''"
  "pf_bdf (make_gpu_vfio b) = b" "pf_driver (make_gpu_vfio b) = Some ''vfio-pci''"
  "pf_bdf (make_nvme_vfio b) = b" "pf_driver (make_nvme_vfio b) = Some ''vfio-pci''"
  by (simp_all add: make_gpu_def make_generic_def make_vfio_gpu_def make_gpu_vfio_def make_nvme_vfio_def)

lemma test_config_fields [simp]:
  "vc_devices (test_config node devices policy) = devices" "vc_isolation (test_config node devices policy) = policy"
  "vc_numa (test_config node devices policy) = Some \<lparr>nc_node = node, nc_hugepage_node = None\<rparr>"
  by (simp_all add: test_config_def)

lemmas isolation_eval =
  evaluate_isolation_for_vm_def isolation_findings_def required_device_def one_gpu_def inventory_def config_default_defs
  minimal_vm_with_gpu_and_isolation_def vm_with_numa_and_single_gpu_def
  collect_passthrough_bdfs_def collect_devices_for_kind_def device_kinds_def resolve_configured_def find_by_bdf_def
  collect_device_contexts_def collect_device_contexts_for_kind_def device_context_def cfg_by_bdf_def
  evaluate_iommu_exclusivity_def iommu_group_findings_def evaluate_multifunction_consistency_def slot_findings_def
  evaluate_host_critical_sharing_def host_critical_findings_def gpu_safety_class_def gpu_driver_kind_def
  evaluate_per_device_isolation_levels_def device_level_findings_def evaluate_numa_placement_def numa_findings_def
  by_iommu_group_def group_by_key_def group_step_def has_violations_def fails_with_def has_finding_def no_violation_def starts_with_def
  numa_outcome_def Let_def

lemmas level_eval =
  isolation_eval level_outcome_def one_nvme_def

lemmas staging_eval =
  required_device_def one_gpu_def inventory_def config_default_defs resolve_configured_def find_by_bdf_def Let_def
  minimal_vm_config_with_gpu_def minimal_vm_config_for_devices_def mk_list_def
  build_plan_for_vm_def build_gpu_actions_def build_non_gpu_actions_def stage_device_list_def gpu_function_actions_def
  assessment_by_bdf_def assess_gpu_unbind_safety_def assess_gpu_def gpus_def action_append_def
  append_actions_for_function_def verify_with_inventory_def verify_device_list_def verify_single_device_def
  is_bdf_in_gpu_complex_def slot_key_def fails_with_def starts_with_def

lemmas cpulist_eval =
  parse_cpulist_def trim_def is_ws_def parse_cpulist_part_def parse_u32_def parse_unsigned_def to_digit_def
  u32_max_def cpu_range_def upt_rec

subsection \<open>The tests hold\<close>

lemma gpu_driver_kind_is_none_for_non_gpu_holds: "gpu_driver_kind_is_none_for_non_gpu"
  by (simp add: gpu_driver_kind_is_none_for_non_gpu_def make_non_gpu_def gpu_safety_class_def gpu_driver_kind_def
      is_display_controller_def class_base_def)

lemma gpu_driver_kind_classification_basic_holds: "gpu_driver_kind_classification_basic"
  by (simp add: gpu_driver_kind_classification_basic_def gpu_safety_class_def gpu_driver_kind_def) (simp add: pci_make_gpu_def)

lemma gpu_safety_classification_basic_holds: "gpu_safety_classification_basic"
  by (simp add: gpu_safety_classification_basic_def gpu_safety_class_def gpu_driver_kind_def) (simp add: pci_make_gpu_def)

lemma gpu_unbind_assessment_vfio_without_iommu_group_is_safe_holds:
  "gpu_unbind_assessment_vfio_without_iommu_group_is_safe"
  by (simp add: gpu_unbind_assessment_vfio_without_iommu_group_is_safe_def staging_eval) (simp add: pci_make_gpu_def)

lemma gpu_unbind_assessment_non_vfio_no_iommu_group_is_unsafe_holds:
  "gpu_unbind_assessment_non_vfio_no_iommu_group_is_unsafe"
  by (simp add: gpu_unbind_assessment_non_vfio_no_iommu_group_is_unsafe_def staging_eval) (simp add: pci_make_gpu_def)

lemma bind_to_vfio_is_noop_if_already_bound_holds: "bind_to_vfio_is_noop_if_already_bound os"
  by (simp add: bind_to_vfio_is_noop_if_already_bound_def bind_to_vfio_pci_def pci_make_gpu_def)

lemma is_bdf_in_gpu_complex_identifies_slot_mates_holds: "is_bdf_in_gpu_complex_identifies_slot_mates"
  by (simp add: is_bdf_in_gpu_complex_identifies_slot_mates_def is_bdf_in_gpu_complex_def inventory_def slot_key_def
      slot_eval is_display_controller_def class_base_def)

lemma parse_slot_key_parses_valid_bdf_holds: "parse_slot_key_parses_valid_bdf"
  by (simp add: parse_slot_key_parses_valid_bdf_def slot_eval)

lemma parse_slot_key_rejects_invalid_bdf_holds: "parse_slot_key_rejects_invalid_bdf"
  by (simp add: parse_slot_key_rejects_invalid_bdf_def slot_eval)

lemma iommu_exclusivity_flags_mixed_group_holds: "iommu_exclusivity_flags_mixed_group"
  by (simp add: iommu_exclusivity_flags_mixed_group_def isolation_eval)

lemma iommu_exclusivity_flags_cross_slot_shared_group_holds: "iommu_exclusivity_flags_cross_slot_shared_group"
  by (simp add: iommu_exclusivity_flags_cross_slot_shared_group_def isolation_eval)

lemma multifunction_consistency_flags_mixed_functions_holds: "multifunction_consistency_flags_mixed_functions"
  by (simp add: multifunction_consistency_flags_mixed_functions_def isolation_eval slot_eval)

lemma host_critical_sharing_flags_group_with_host_gpu_holds: "host_critical_sharing_flags_group_with_host_gpu"
  by (simp add: host_critical_sharing_flags_group_with_host_gpu_def isolation_eval slot_eval)

lemma host_critical_sharing_flags_group_with_passthrough_gpu_and_host_gpu_holds:
  "host_critical_sharing_flags_group_with_passthrough_gpu_and_host_gpu"
  by (simp add: host_critical_sharing_flags_group_with_passthrough_gpu_and_host_gpu_def isolation_eval slot_eval)

lemma evaluate_isolation_disabled_is_noop_even_with_issues_holds:
  "evaluate_isolation_disabled_is_noop_even_with_issues"
  by (simp add: evaluate_isolation_disabled_is_noop_even_with_issues_def isolation_eval)

lemma evaluate_isolation_enforce_errors_on_violation_holds: "evaluate_isolation_enforce_errors_on_violation"
  by (simp add: evaluate_isolation_enforce_errors_on_violation_def isolation_eval slot_eval)

lemma numa_matching_nodes_produce_no_findings_holds: "numa_matching_nodes_produce_no_findings"
  by (simp add: numa_matching_nodes_produce_no_findings_def isolation_eval)

lemma numa_mismatched_nodes_produce_warning_or_info_but_not_error_in_audit_mode_holds:
  "numa_mismatched_nodes_produce_warning_or_info_but_not_error_in_audit_mode"
  by (simp add: numa_mismatched_nodes_produce_warning_or_info_but_not_error_in_audit_mode_def isolation_eval)

lemma numa_mismatched_nodes_violate_in_enforce_mode_for_dedicated_level_holds:
  "numa_mismatched_nodes_violate_in_enforce_mode_for_dedicated_level"
  by (simp add: numa_mismatched_nodes_violate_in_enforce_mode_for_dedicated_level_def isolation_eval slot_eval)

lemma numa_negative_device_node_produces_warning_but_not_error_holds:
  "numa_negative_device_node_produces_warning_but_not_error"
  by (simp add: numa_negative_device_node_produces_warning_but_not_error_def isolation_eval slot_eval)

lemma per_device_forbidden_nvme_produces_violation_finding_holds:
  "per_device_forbidden_nvme_produces_violation_finding"
  by (simp add: per_device_forbidden_nvme_produces_violation_finding_def level_eval)

lemma per_device_dedicated_nvme_in_shared_group_violates_when_iommu_exclusive_relaxed_holds:
  "per_device_dedicated_nvme_in_shared_group_violates_when_iommu_exclusive_relaxed"
  by (simp add: per_device_dedicated_nvme_in_shared_group_violates_when_iommu_exclusive_relaxed_def level_eval)

lemma per_device_shared_with_host_nvme_in_shared_group_is_advisory_only_holds:
  "per_device_shared_with_host_nvme_in_shared_group_is_advisory_only"
  by (simp add: per_device_shared_with_host_nvme_in_shared_group_is_advisory_only_def level_eval)

lemma build_plan_for_vm_with_vfio_gpu_and_no_others_is_empty_or_bind_only_holds:
  "build_plan_for_vm_with_vfio_gpu_and_no_others_is_empty_or_bind_only"
  by (simp add: build_plan_for_vm_with_vfio_gpu_and_no_others_is_empty_or_bind_only_def staging_eval)

lemma verify_with_inventory_succeeds_when_all_devices_are_vfio_bound_holds:
  "verify_with_inventory_succeeds_when_all_devices_are_vfio_bound"
  by (simp add: verify_with_inventory_succeeds_when_all_devices_are_vfio_bound_def staging_eval)

lemma verify_with_inventory_fails_if_gpu_not_vfio_bound_holds: "verify_with_inventory_fails_if_gpu_not_vfio_bound"
  by (simp add: verify_with_inventory_fails_if_gpu_not_vfio_bound_def staging_eval backquoted_def is_display_controller_def class_base_def)

lemma verify_with_inventory_fails_if_gpu_class_not_display_holds:
  "verify_with_inventory_fails_if_gpu_class_not_display"
  by (simp add: verify_with_inventory_fails_if_gpu_class_not_display_def staging_eval slot_eval is_display_controller_def class_base_def)

lemma verify_with_inventory_fails_if_required_gpu_missing_from_inventory_holds:
  "verify_with_inventory_fails_if_required_gpu_missing_from_inventory"
  by (simp add: verify_with_inventory_fails_if_required_gpu_missing_from_inventory_def staging_eval is_display_controller_def class_base_def)

lemma parse_simple_cpulist_holds: "parse_simple_cpulist"
  by (simp add: parse_simple_cpulist_def cpulist_eval)

lemma parse_cpulist_ignores_garbage_holds: "parse_cpulist_ignores_garbage"
  by (simp add: parse_cpulist_ignores_garbage_def cpulist_eval)

end
