(* ===== verification/Chalybs_Cli.thy ===== *)
theory Chalybs_Cli
  imports Chalybs_Lifecycle
begin

text \<open>
  The command line program, from \<^verbatim>\<open>cli/src/main.rs\<close>: read the configuration, build a
  fresh machine for the named VM, and run one command on it.  Argument parsing is the third-party
  \<^verbatim>\<open>clap\<close> crate; what it yields are the arguments of \<open>cli_main\<close>.  An \<^verbatim>\<open>anyhow\<close>
  error is its text.
\<close>

datatype cli_command = CmdUp | CmdDown | CmdStatus | CmdCpusetStatus

definition cli_layout :: "vm_config \<Rightarrow> vm_cpu_layout result" where
  "cli_layout vm_cfg =
     (case parse_cpu_list (cc_host_cpus (vc_cpu vm_cfg)) of
        Inl e \<Rightarrow> Inl e
      | Inr host_cpus \<Rightarrow>
          (case parse_cpu_list (cc_vm_cpus (vc_cpu vm_cfg)) of
             Inl e \<Rightarrow> Inl e
           | Inr vm_cpus \<Rightarrow> Inr \<lparr>vl_host = host_cpus, vl_vm = vm_cpus\<rparr>))"

text \<open>A blocking loop on a machine that nobody sees afterwards.\<close>

definition on_fresh :: "(machine \<times> trace \<Rightarrow> unit result \<times> machine \<times> trace) \<Rightarrow> machine \<Rightarrow> unit result io" where
  "on_fresh loop sm = (\<lambda>t. case loop (sm, t) of (r, (sm', t')) \<Rightarrow> (r, t'))"

definition run_command :: "host_env \<Rightarrow> string \<Rightarrow> cli_command \<Rightarrow> machine \<Rightarrow> string list result io" where
  "run_command he vm_name command sm =
     (case command of
        CmdUp \<Rightarrow> bindR (on_fresh (run_until_steady he) sm) (\<lambda>_. okR [])
      | CmdDown \<Rightarrow> bindR (on_fresh (run_shutdown he) sm) (\<lambda>_. okR [])
      | CmdStatus \<Rightarrow> okR [''VM: '' @ vm_name, ''State reporting coming via daemon (not yet implemented)'']
      | CmdCpusetStatus \<Rightarrow> bindR (cpuset_status (he_os he) vm_name) (\<lambda>text. okR [text]))"

definition cli_main ::
  "host_env \<Rightarrow> (string \<Rightarrow> string + root_config) \<Rightarrow> path \<Rightarrow> string option \<Rightarrow> cli_command \<Rightarrow> (string + string list) io" where
  "cli_main he toml config vm command =
     bindR (mapErr show_error (from_path (he_os he) toml config)) (\<lambda>cfg.
       (let vm_name = (case vm of None \<Rightarrow> ''default'' | Some n \<Rightarrow> n)
        in case map_of (rc_vm cfg) vm_name of
             None \<Rightarrow> errR (''VM '' @ vm_name @ '' not found in config'')
           | Some vm_cfg \<Rightarrow>
               (case cli_layout vm_cfg of
                  Inl e \<Rightarrow> errR (show_error e)
                | Inr cpus \<Rightarrow>
                    mapErr show_error
                      (run_command he vm_name command (machine_new (vm_runtime_new vm_name vm_cfg cpus))))))"

subsection \<open>What the commands reach\<close>

text \<open>Events of the peripherals, and reads.\<close>

fun is_peripheral :: "os_event \<Rightarrow> bool" where
  "is_peripheral (EvMqttConnect h p c) = True"
| "is_peripheral EvMqttPoll = True"
| "is_peripheral (EvMqttPublish tp pl ok) = True"
| "is_peripheral e = (is_i2c e \<or> is_readonly e)"

lemma publish_peripheral: "io_emits is_peripheral (publish_power os cfg on)"
proof -
  have "io_emits is_peripheral (await_connack os n)" for n
    by (induction n) (auto intro!: emits_intros split: mqtt_event.split)
  then show ?thesis
    unfolding publish_power_def by (auto intro!: emits_intros split: mqtt_event.split)
qed

lemma apply_vm_down_peripheral: "rt_emits is_peripheral (apply_vm_down os)"
proof -
  have "io_emits is_peripheral (ddc_set_input os cfg i)" for cfg i
    unfolding ddc_set_input_def send_ddc_set_input_def Let_def
    by (auto intro!: emits_intros split: sum.split)
  then show ?thesis
    unfolding apply_vm_down_def opt_hook_def tasmota_vm_down_def ddc_vm_down_def lg_vm_down_def spice_vm_down_def
    by (intro emits_intros publish_peripheral)
qed

text \<open>A runtime with nothing to undo: no QEMU, no transitions, no hugepages.\<close>

definition untouched :: "vm_runtime \<Rightarrow> bool" where
  "untouched rt \<longleftrightarrow> rt_qemu rt = None \<and> rt_vfio_transitions rt = [] \<and> \<not> rt_hugepages_active rt"

lemma untouched_push [simp]: "untouched (push_event k m rt) = untouched rt"
  by (simp add: untouched_def)

lemma do_stop_untouched:
  assumes "untouched rt"
  shows "do_stop he a b (rt, t) = (Inr (), (push_info b (push_system a rt), t))"
  using assms
  by (simp add: do_stop_def qemu_shutdown_def untouched_def bindR_def andThen_def note_rt_def modify_def peek_def okR_def push_abbrevs)

lemma do_teardown_untouched:
  assumes "do_teardown he (rt, t) = (r, (rt', t'))" "untouched rt"
  shows "\<exists>ev. t' = t @ ev \<and> list_all is_peripheral ev"
proof -
  let ?rt = "push_info ''hugepages: teardown completed for VM instance''
    (push_info ''cpuset: VM/host cpuset hierarchy cleaned up'' (push_system ''state=Cleanup''
      (push_info ''vfio: restore of PCI driver bindings requested for VM devices''
        (push_system ''state=RestorePci (restore PCI driver bindings)'' rt))))"
  obtain x rt1 t1 where 1: "apply_vm_down (he_os he) (?rt, t) = (x, (rt1, t1))" by (metis prod.exhaust)
  have "t' = t1"
    using assms 1
    by (cases x) (simp_all add: do_teardown_def bindR_def andThen_def note_rt_def modify_def okR_def reading_rt_def peek_def
        onOs_def restore_pci_devices_for_vm_def restore_impl_def Let_def cleanup_cpus_def destroy_cpuset_def
        cleanup_for_vm_def untouched_def push_abbrevs)
  with emitsE [OF apply_vm_down_peripheral 1] show ?thesis by (metis snd_conv)
qed

lemma run_shutdown_untouched:
  assumes "run_shutdown he (sm, t) = (r, (sm', t'))" "untouched (sm_rt sm)" "sm_state sm = Init"
  shows "\<exists>ev. t' = t @ ev \<and> list_all is_peripheral ev"
proof -
  obtain rt1 where rt1: "step_shutdown he (sm, t) = (Inr Shutdown, (sm\<lparr>sm_rt := rt1, sm_state := Shutdown\<rparr>, t))"
    "untouched rt1"
    using assms(2,3) do_stop_untouched [OF assms(2)]
    by (auto simp: step_shutdown_def advance_def bindR_def onRt_def goto_def push_abbrevs)
  let ?sm1 = "sm\<lparr>sm_rt := rt1, sm_state := Shutdown\<rparr>"
  from assms(1,3) rt1(1) have rest: "run_shutdown he (?sm1, t) = (r, (sm', t'))" by simp
  obtain x rt2 t2 where 2: "do_teardown he (rt1, t) = (x, (rt2, t2))" by (metis prod.exhaust)
  have "t' = t2"
  proof (cases x)
    case (Inl e)
    with 2 rest show ?thesis by (simp add: step_shutdown_def advance_def bindR_def onRt_def)
  next
    case (Inr u)
    let ?sm2 = "sm\<lparr>sm_rt := rt2, sm_state := Cleanup\<rparr>"
    have "step_shutdown he (?sm1, t) = (Inr Cleanup, (?sm2, t2))"
      using 2 Inr by (simp add: step_shutdown_def advance_def bindR_def onRt_def goto_def)
    with rest have "run_shutdown he (?sm2, t2) = (r, (sm', t'))" by simp
    moreover have "fst (snd (run_shutdown he (?sm2, t2))) = fst (snd (run_shutdown he (?sm2, t2))) \<and>
        snd (snd (run_shutdown he (?sm2, t2))) = t2"
      by (simp add: step_shutdown_def bindR_def goto_def onRt_def note_rt_def current_def act_simps)
    ultimately show ?thesis by simp
  qed
  with do_teardown_untouched [OF 2 rt1(2)] show ?thesis by simp
qed

text \<open>
  C35. \<^verbatim>\<open>chalybs down\<close> never touches a virtual machine that \<^verbatim>\<open>chalybs up\<close> started
  earlier: it shuts down a fresh machine, so all it does, whatever the outside world answers, is read
  the configuration and run the peripheral hooks.  No process is signalled or waited for, and no file
  is written.
\<close>

theorem cli_down_touches_no_vm: "io_emits is_peripheral (cli_main he toml config vm CmdDown)"
proof -
  have fresh: "io_emits is_peripheral (on_fresh (run_shutdown he) (machine_new (vm_runtime_new name cfg cpus)))"
    for name cfg cpus
  proof (rule emitsI)
    let ?sm = "machine_new (vm_runtime_new name cfg cpus)"
    fix t x t' assume "on_fresh (run_shutdown he) ?sm t = (x, t')"
    then obtain sm' where "run_shutdown he (?sm, t) = (x, (sm', t'))"
      by (auto simp: on_fresh_def split: prod.splits)
    from run_shutdown_untouched [OF this] show "\<exists>ev. t' = t @ ev \<and> list_all is_peripheral ev"
      by (simp add: machine_new_def vm_runtime_new_def untouched_def)
  qed
  have read: "io_emits is_peripheral (from_path (he_os he) toml config)"
    unfolding from_path_def by (intro emits_intros) simp
  show ?thesis
    unfolding cli_main_def run_command_def cli_command.case Let_def
    by (intro emits_intros fresh read)
qed

end
