(* ===== verification/Spec2Isabelle.thy ===== *)
theory Spec2Isabelle
  imports Chalybs_Confine Chalybs_Terminal Chalybs_Topology Chalybs_Tests Chalybs_Cli
begin

text \<open>
  A model of Chalybs, a launcher for virtual machines with passed-through devices, and the theorems
  that make it correct.

  \<^bold>\<open>The program.\<close>  The crate \<^verbatim>\<open>core\<close> takes a VM from its configuration to a running QEMU and back.
  A state machine (\<^verbatim>\<open>core/src/state.rs\<close>) calls one component per state: hugepages, VFIO staging
  behind an isolation policy, CPU planning, the QEMU command and launch, thread discovery and
  pinning, interrupt pinning, peripherals.  The daemon (\<^verbatim>\<open>daemon/src\<close>) keeps one such machine per
  VM, advances all of them in every round of its server, and sends a snapshot to every client; the
  clients' shell commands only set the state a VM is wanted in.  The terminal client
  (\<^verbatim>\<open>tui/src\<close>) shows snapshots and sends commands; the command line (\<^verbatim>\<open>cli/src/main.rs\<close>) runs the
  state machine without the daemon.

  \<^bold>\<open>Conventions.\<close>  A struct is a record whose fields carry a prefix, an enum a datatype.  A
  \<^verbatim>\<open>Result\<close> is a sum with the error on the left, \<open>'a result\<close> with the errors of
  \<^verbatim>\<open>core/src/errors.rs\<close>; so every error path is a branch of the model, its message included.  A string
  is its bytes.  A \<^verbatim>\<open>HashMap\<close> is an association list in the order in which it will be walked, so
  every theorem holds for every such order.  An integer of the code is a word where the code computes with
  its width (hugepage bytes, DDC frames, ticks, the glitch generator), a natural number with the bound of its
  parser elsewhere.  The outside world (kernel files, processes, I2C, MQTT, the environment) is a
  record \<open>os\<close> of answers, each a function of the trace of all earlier calls, and an action
  appends its calls to the trace: so a theorem about the trace says what the program does to the host,
  whatever the host answers.  Log lines are left out.

  \<^bold>\<open>Theories.\<close>
  \<^item> \<open>Chalybs_Prelude\<close>: errors, strings, integer parsing and printing, sorting, grouping, hash maps.
  \<^item> \<open>Chalybs_Os\<close>: the outside world, the action combinators, frames (which events an action can add).
  \<^item> \<open>Chalybs_Config\<close>, \<open>Chalybs_GpuPolicy\<close>: \<^verbatim>\<open>config.rs\<close>, its defaults, its validation, its GPU policy.
  \<^item> \<open>Chalybs_Util\<close>, \<open>Chalybs_Cpu\<close>: CPU lists; detection, classification, topology and the CPU plan
    (\<^verbatim>\<open>util.rs\<close>, \<^verbatim>\<open>cpu/detect/\<close>, \<^verbatim>\<open>cpuplan/\<close>).  \<open>Chalybs_Topology\<close>: the placement validator
    \<^verbatim>\<open>cpu/detect/validate.rs\<close> as it stands (no module declares the file yet).
  \<^item> \<open>Chalybs_Model\<close>: \<^verbatim>\<open>model.rs\<close>, the runtime object and its frame rule \<open>keeps\<close>.
  \<^item> \<open>Chalybs_Pci\<close>, \<open>Chalybs_Isolation\<close>, \<open>Chalybs_Vfio\<close>: \<^verbatim>\<open>pci.rs\<close> and \<^verbatim>\<open>vfio/\<close>: the inventory,
    the isolation policy, plan, execution, verification and restore.
  \<^item> \<open>Chalybs_Tests\<close>: the unit tests of the repository, run on the model, each proved to hold.
  \<^item> \<open>Chalybs_Hugepages\<close>, \<open>Chalybs_Cpuset\<close>, \<open>Chalybs_Affinity\<close>, \<open>Chalybs_Irq\<close>: \<^verbatim>\<open>hugepages.rs\<close>,
    \<^verbatim>\<open>cpuset/\<close>, \<^verbatim>\<open>affinity.rs\<close>, \<^verbatim>\<open>irq/pin.rs\<close>.
  \<^item> \<open>Chalybs_Qemu\<close>, \<open>Chalybs_Peripherals\<close>: \<^verbatim>\<open>qemu.rs\<close> and \<^verbatim>\<open>peripherals/\<close>.
  \<^item> \<open>Chalybs_State\<close>, \<open>Chalybs_Lifecycle\<close>: \<^verbatim>\<open>state.rs\<close>; then its invariant, its runs (\<open>vm_trans\<close>), the
    protocol of states it refines, and its blocking loops.
  \<^item> \<open>Chalybs_Ipc\<close>, \<open>Chalybs_Journal\<close>, \<open>Chalybs_Daemon\<close>, \<open>Chalybs_Server\<close>, \<open>Chalybs_Registry\<close>:
    \<^verbatim>\<open>daemon/src/ipc.rs\<close>, \<^verbatim>\<open>snapshot.rs\<close>, \<^verbatim>\<open>state.rs\<close> and \<^verbatim>\<open>server.rs\<close>; that events are only ever
    appended; and what the daemon promises over any sequence of commands and ticks.
  \<^item> \<open>Chalybs_Rounds\<close>: the start of the server, its loop over any number of rounds, and the entry
    point \<^verbatim>\<open>daemon/src/main.rs\<close>; each round refines the daemon of \<open>Chalybs_Registry\<close>.
  \<^item> \<open>Chalybs_Confine\<close>: what a configured VM entitles the daemon to do to its host, component by
    component, and that it does nothing else.
  \<^item> \<open>Chalybs_Tui\<close>, \<open>Chalybs_Client\<close>, \<open>Chalybs_Glitch\<close>, \<open>Chalybs_Screen\<close>: \<^verbatim>\<open>tui/src/app.rs\<close>,
    \<^verbatim>\<open>config.rs\<close> and the loop of \<^verbatim>\<open>main.rs\<close>; the client's invariant and its end of the protocol;
    \<^verbatim>\<open>glitch.rs\<close>; the panels of \<^verbatim>\<open>ui.rs\<close> with the styles of \<^verbatim>\<open>theme.rs\<close>.
  \<^item> \<open>Chalybs_Colour\<close>, \<open>Chalybs_Logo\<close>, \<open>Chalybs_Frame\<close>, \<open>Chalybs_Terminal\<close>: the arithmetic of
    colours and breathing; \<^verbatim>\<open>logo.rs\<close> and \<^verbatim>\<open>logo_png.rs\<close> (choice of the backend, halo,
    picture, fallback); a whole frame; the entry point of the terminal client with its loop, which is
    that of \<open>Chalybs_Tui\<close>, and what it leaves of the terminal.
  \<^item> \<open>Chalybs_Cli\<close>: \<^verbatim>\<open>cli/src/main.rs\<close>.
  \<^item> This theory: the way of a command from a key of the client to the registry of the daemon.

  \<^bold>\<open>Interfaces.\<close>  Locales state what one component relies on in another, and are interpreted on the
  model: \<open>device_lookup\<close> (an inventory lookup that returns only what was asked for),
  \<open>isolation_rule\<close> (a check whose findings are violations exactly where its condition holds; all five
  checks), \<open>peripheral_hook\<close> (a hook that leaves the life of the VM alone; four hooks), \<open>stepper\<close> (a step
  function with a distance to rest; bring-up and shutdown), \<open>way_law\<close> (ticks that bring a VM nearer
  to where it is wanted, over the rounds of the server; up and down), \<open>unmoved_entry\<close> (an entry of the
  registry that ticks only look at; on its way down, and up and alive), \<open>tui_backend\<close> (a backend that does not
  change the number of VMs; mock and daemon).

  \<^bold>\<open>Bounds and fuel.\<close>  The readiness barrier polls at most 400 times at 5 ms, the wait for an MQTT
  acknowledgement 20 times, hugepage provisioning makes 3 attempts: the code's own bounds, kept.
  The blocking loops recurse with a fuel that is the distance of the state to rest, 11 up and 3
  down, and are proved equal to ticking that often, so the fuel is enough.  The interrupt worker may
  never end; it is a partial function whose value is \<open>None\<close> then, and it is proved to end once
  QEMU is gone.  The client's wait for a first snapshot is given the number of rounds before its
  deadline.  Loops over a finite input recurse on it.

  \<^bold>\<open>What the lemmas show.\<close>  For each component: the outcome of every branch, errors included, and
  the calls it has made by then (isolation verdict, plan, staging, restore, provisioning, launch,
  pinning, cpusets, peripherals).  For the machine: an invariant in every reachable state, refinement
  of the protocol of states, termination of both loops.  For the daemon: an invariant over
  all commands and ticks, delivery of every event exactly once and in order, framing that does
  not depend on the reads.  For the server: each of its rounds is a run of the daemon, of exactly the commands
  received, one tick and one pause, so what holds of the daemon holds between any two rounds; a stop comes to rest and a start is shown running, or a failure
  is reported, within three and eleven rounds; and every effect on the host is one that a configured VM
  entitles it to.  For the client: its invariant under any keys and ticks, the
  windows of events it keeps and shows, and both directions of the protocol end to end.

  \<^bold>\<open>Not modelled.\<close>  Logging; parsing of TOML, JSON and command line arguments, the CPUID instruction,
  procfs, MQTT and I2C drivers and the terminal library (third-party code or hardware, parameters
  where the code depends on their answers); the clock, which only decides when the client ticks; how
  the drawing crate splits an area, a parameter of the frame.  The
  sine of the breathing curve and the rounding of 32-bit floats are arguments (\<open>Chalybs_Colour\<close>), as are
  the scaled height of the picture and the crate that prints it; keys are ASCII.
\<close>

subsection \<open>From the client to the daemon\<close>

definition echo_of :: "string \<Rightarrow> ipc_event" where
  "echo_of cmd = ipc_event_of IpcShell (''chalybs> '' @ cmd)"

lemma handle_line_command:
  assumes "line_codec to_json json" "to_json (ShellCommand cmd) = Inr enc"
  shows "handle_line json enc sb =
    \<lparr>sb_events = sb_events sb @ [echo_of cmd], sb_commands = sb_commands sb @ [cmd]\<rparr>"
  using assms by (simp add: line_codec_def handle_line_def echo_of_def)

lemma send_command:
  assumes "db_connected b" "db_writes b = []" "trim raw \<noteq> []" "to_json (ShellCommand (trim raw)) = Inr enc"
  shows "daemon_shell_command to_json raw b = ([], b\<lparr>db_sent := db_sent b @ enc @ [line_feed]\<rparr>)"
  using assms by (simp add: daemon_shell_command_def write_all_def)

text \<open>A command of the client is a line, which the server reads back.\<close>

lemma take_lines_command:
  assumes "line_codec to_json json" "to_json (ShellCommand cmd) = Inr enc"
  shows "take_lines json ((enc @ [line_feed]) @ rest, sb) =
    take_lines json (rest, \<lparr>sb_events = sb_events sb @ [echo_of cmd], sb_commands = sb_commands sb @ [cmd]\<rparr>)"
proof -
  have "line_feed \<notin> set enc" using assms by (simp add: line_codec_def)
  then have "split_once line_feed ((enc @ [line_feed]) @ rest) = Some (enc, rest)" by (simp add: split_once_append)
  from take_lines_some [OF this] handle_line_command [OF assms] show ?thesis by simp
qed

definition send_commands :: "(ipc_message \<Rightarrow> string + string) \<Rightarrow> string list \<Rightarrow> daemon_backend \<Rightarrow> daemon_backend" where
  "send_commands to_json raws b = fold (\<lambda>raw b. snd (daemon_shell_command to_json raw b)) raws b"

definition sendable :: "(ipc_message \<Rightarrow> string + string) \<Rightarrow> string \<Rightarrow> bool" where
  "sendable to_json raw \<longleftrightarrow> trim raw \<noteq> [] \<and> (\<exists>enc. to_json (ShellCommand (trim raw)) = Inr enc)"

lemma send_commands_lines:
  assumes codec: "line_codec to_json json"
    and "db_connected b" "db_writes b = []" "\<forall>raw \<in> set raws. sendable to_json raw"
  shows "\<exists>bytes. send_commands to_json raws b = b\<lparr>db_sent := db_sent b @ bytes\<rparr> \<and>
    (\<forall>sb. take_lines json (bytes, sb) =
       ([], \<lparr>sb_events = sb_events sb @ map (echo_of \<circ> trim) raws, sb_commands = sb_commands sb @ map trim raws\<rparr>))"
  using assms(2-)
proof (induction raws arbitrary: b)
  case Nil
  show ?case by (intro exI [of _ "[]"]) (simp add: send_commands_def take_lines_none)
next
  case (Cons raw raws)
  then obtain enc where enc: "trim raw \<noteq> []" "to_json (ShellCommand (trim raw)) = Inr enc" by (auto simp: sendable_def)
  let ?b = "b\<lparr>db_sent := db_sent b @ enc @ [line_feed]\<rparr>"
  from Cons.prems enc have "send_commands to_json (raw # raws) b = send_commands to_json raws ?b"
    by (simp add: send_commands_def send_command)
  moreover obtain bytes where "send_commands to_json raws ?b = ?b\<lparr>db_sent := db_sent ?b @ bytes\<rparr>"
    and take: "\<And>sb. take_lines json (bytes, sb) =
       ([], \<lparr>sb_events = sb_events sb @ map (echo_of \<circ> trim) raws, sb_commands = sb_commands sb @ map trim raws\<rparr>)"
    using Cons.IH [of ?b] Cons.prems by auto
  ultimately have "send_commands to_json (raw # raws) b = b\<lparr>db_sent := db_sent b @ (enc @ [line_feed]) @ bytes\<rparr>" by simp
  moreover have "take_lines json ((enc @ [line_feed]) @ bytes, sb) =
      ([], \<lparr>sb_events = sb_events sb @ map (echo_of \<circ> trim) (raw # raws), sb_commands = sb_commands sb @ map trim (raw # raws)\<rparr>)" for sb
    unfolding take_lines_command [OF codec enc(2)] by (simp add: take)
  ultimately show ?case by blast
qed

text \<open>
  C21. Commands typed into a connected client reach the daemon: whatever commands it sends, and however
  the socket cuts the bytes into reads, the server finds in its buffers an echo of every command and
  every command, trimmed, all in the order they were typed; nothing is left over.
\<close>

theorem commands_reach_daemon:
  assumes "line_codec to_json json" "\<forall>raw \<in> set raws. sendable to_json raw"
    and "db_connected b" "db_writes b = []" "db_sent b = []"
    and "concat chunks = db_sent (send_commands to_json raws b)"
    and "\<forall>chunk \<in> set chunks. chunk \<noteq> [] \<and> utf8_valid chunk"
  shows "drain_client_commands json (map ReadBytes chunks) (client_new i) sb =
    (Alive, client_new i,
     \<lparr>sb_events = sb_events sb @ map (echo_of \<circ> trim) raws, sb_commands = sb_commands sb @ map trim raws\<rparr>)"
proof -
  obtain bytes where sent: "send_commands to_json raws b = b\<lparr>db_sent := db_sent b @ bytes\<rparr>"
    and take: "\<And>sb. take_lines json (bytes, sb) =
       ([], \<lparr>sb_events = sb_events sb @ map (echo_of \<circ> trim) raws, sb_commands = sb_commands sb @ map trim raws\<rparr>)"
    using send_commands_lines [OF assms(1,3,4,2)] by auto
  from sent assms(5,6) have bytes: "concat chunks = bytes" by simp
  show ?thesis
  proof (cases "chunks = []")
    case True
    with bytes take [of sb] show ?thesis by (simp add: take_lines_none)
  next
    case False
    with drain_chunks [OF assms(7), of json "client_new i" sb] bytes take [of sb] show ?thesis
      by (simp add: client_new_def)
  qed
qed

lemma commands_reach_daemon_witness:
  "\<forall>b i sb. \<exists>chunks.
     drain_client_commands (\<lambda>line. if line = ''{}'' then Inr (ShellCommand ''help'') else Inl ''no'')
       (map ReadBytes chunks) (client_new i) sb =
     (Alive, client_new i,
      \<lparr>sb_events = sb_events sb @ map (echo_of \<circ> trim) [''help'', '' help''],
       sb_commands = sb_commands sb @ map trim [''help'', '' help'']\<rparr>)"
proof (intro allI)
  fix b :: daemon_backend and i sb
  let ?to_json = "\<lambda>m. if m = ShellCommand ''help'' then Inr ''{}'' else Inl ''no''"
  let ?json = "\<lambda>line. if line = ''{}'' then Inr (ShellCommand ''help'') else Inl ''no''"
  let ?b = "b\<lparr>db_connected := True, db_writes := [], db_sent := []\<rparr>"
  let ?chunks = "[''{}'' @ [line_feed] @ ''{'', ''}'' @ [line_feed]]"
  have codec: "line_codec ?to_json ?json"
    by (auto simp: line_codec_def line_feed_def trim_def is_ws_def split: if_splits)
  have trims: "trim ''help'' = ''help''" "trim '' help'' = ''help''" by (simp_all add: trim_def is_ws_def)
  then have ok: "\<forall>raw \<in> set [''help'', '' help'']. sendable ?to_json raw" by (simp add: sendable_def)
  have sent: "concat ?chunks = db_sent (send_commands ?to_json [''help'', '' help''] ?b)"
    by (simp add: send_commands_def send_command trims)
  have cut: "\<forall>chunk \<in> set ?chunks. chunk \<noteq> [] \<and> utf8_valid chunk"
    by (simp add: utf8_valid_def utf8_follow_def in_range_def line_feed_def)
  show "\<exists>chunks. drain_client_commands ?json (map ReadBytes chunks) (client_new i) sb =
     (Alive, client_new i,
      \<lparr>sb_events = sb_events sb @ map (echo_of \<circ> trim) [''help'', '' help''],
       sb_commands = sb_commands sb @ map trim [''help'', '' help'']\<rparr>)"
    by (rule exI, rule commands_reach_daemon [OF codec ok _ _ _ sent cut]) simp_all
qed

subsection \<open>A key that starts a VM\<close>

lemma split_ws_word: "(\<forall>c \<in> set w. \<not> is_ws c) \<Longrightarrow> split_ws_acc acc (w @ s) = split_ws_acc (rev w @ acc) s"
  by (induction w arbitrary: acc) auto

lemma split_words:
  assumes "\<forall>c \<in> set w. \<not> is_ws c" "w \<noteq> []"
  shows "split_whitespace (w @ '' '' @ s) = w # split_whitespace s" "split_whitespace w = [w]"
  using split_ws_word [OF assms(1), of "[]" "'' '' @ s"] split_ws_word [OF assms(1), of "[]" "[]"] assms(2)
  by (simp_all add: split_whitespace_def is_ws_def)

lemma trim_ends:
  assumes "s \<noteq> []" "\<not> is_ws (hd s)" "\<not> is_ws (last s)"
  shows "trim s = s"
proof -
  have "dropWhile is_ws s = s" using assms(1,2) by (cases s) simp_all
  moreover have "dropWhile is_ws (rev s) = rev s" using assms(1,3) by (cases s rule: rev_cases) simp_all
  ultimately show ?thesis by (simp add: trim_def)
qed

definition vm_command :: "string \<Rightarrow> string \<Rightarrow> string" where
  "vm_command verb name = ''vm '' @ verb @ '' '' @ name"

lemma vm_command_words:
  assumes "\<forall>c \<in> set verb. \<not> is_ws c" "verb \<noteq> []" "\<forall>c \<in> set name. \<not> is_ws c" "name \<noteq> []"
  shows "trim (vm_command verb name) = vm_command verb name"
    "split_whitespace (vm_command verb name) = [''vm'', verb, name]"
proof -
  show "trim (vm_command verb name) = vm_command verb name"
    using assms(3,4) by (intro trim_ends) (simp_all add: vm_command_def is_ws_def)
  have "vm_command verb name = ''vm'' @ '' '' @ verb @ '' '' @ name" by (simp add: vm_command_def)
  moreover have "\<forall>c \<in> set ''vm''. \<not> is_ws c" "''vm'' \<noteq> []" by (simp_all add: is_ws_def)
  ultimately show "split_whitespace (vm_command verb name) = [''vm'', verb, name]"
    by (simp only: split_words [OF \<open>\<forall>c \<in> set ''vm''. \<not> is_ws c\<close>] split_words [OF assms(1,2)] split_words [OF assms(3,4)]
        not_Cons_self2 list.distinct simp_thms)
qed

text \<open>The two keys, and what each sets: the entry and the desired state.\<close>

definition key_effect :: "char \<Rightarrow> string \<Rightarrow> vm_config \<Rightarrow> daemon_state \<Rightarrow> ipc_vm_state \<Rightarrow> daemon_vm \<Rightarrow> bool" where
  "key_effect key name cfg st want dvm \<longleftrightarrow>
     (key = CHR ''u'' \<and> want = IpcStarting \<and> entry_to_start name cfg st = Inr dvm) \<or>
     (key = CHR ''o'' \<and> want = IpcShuttingDown \<and> map_of (ds_vms st) name = Some dvm)"

definition control_key :: "char \<Rightarrow> key_event" where
  "control_key c = \<lparr>ke_code = KeyChar c, ke_control = True, ke_shift_or_alt = False\<rparr>"

definition key_verb :: "char \<Rightarrow> string" where
  "key_verb key = (if key = CHR ''u'' then ''start'' else ''stop'')"

lemma control_key_sends:
  assumes "key = CHR ''u'' \<or> key = CHR ''o''" "selected_vm a = Some vm"
  shows "snd (handle_key (daemon_ops json to_json) (control_key key) (a, b)) =
    snd (daemon_shell_command to_json (vm_command (key_verb key) (tv_name vm)) b)"
  using assms
  by (auto simp: handle_key_def handle_char_def control_key_def no_modifiers_def start_selected_vm_def
      stop_selected_vm_def command_selected_vm_def to_backend_def daemon_ops_def key_verb_def vm_command_def
      split: prod.split)

lemma key_command_effect:
  assumes "\<forall>c \<in> set name. \<not> is_ws c" "name \<noteq> []"
    and "ds_root_cfg st = Some root_cfg" "map_of (rc_vm root_cfg) name = Some cfg" "key_effect key name cfg st want dvm"
  shows "snd (handle_shell_command (vm_command (key_verb key) name) st) = set_desired name want dvm st"
proof -
  have verb: "\<forall>c \<in> set (key_verb key). \<not> is_ws c" "key_verb key \<noteq> []" by (simp_all add: key_verb_def is_ws_def)
  note words = vm_command_words [OF verb assms(1,2)]
  have "handle_shell_command (vm_command (key_verb key) name) = handle_vm_command [key_verb key, name]"
    by (simp add: handle_shell_command_def words)
  with assms(3-) show ?thesis
    by (auto simp: handle_vm_command_def key_effect_def key_verb_def vm_start_def vm_stop_def simp del: map_of_eq_Some_iff)
qed

text \<open>
  C22. The keys for start and stop reach the state machine: Ctrl+U or Ctrl+O on a selected VM whose
  name holds no white space makes a connected client send bytes from which the server, however they are
  cut, takes one command; and running it sets the desired state of exactly that VM, to Starting on
  the entry there is or a fresh one, or to ShuttingDown on the entry there is.
\<close>

theorem lifecycle_keys_reach_vm:
  assumes "line_codec to_json json" "sendable to_json (vm_command (key_verb key) name)"
    and "selected_vm a = Some vm" "tv_name vm = name" "\<forall>c \<in> set name. \<not> is_ws c" "name \<noteq> []"
    and "db_connected b" "db_writes b = []" "db_sent b = []"
    and "concat chunks = db_sent (snd (handle_key (daemon_ops json to_json) (control_key key) (a, b)))"
    and "\<forall>chunk \<in> set chunks. chunk \<noteq> [] \<and> utf8_valid chunk"
    and "ds_root_cfg st = Some root_cfg" "map_of (rc_vm root_cfg) name = Some cfg" "key_effect key name cfg st want dvm"
  shows "case drain_client_commands json (map ReadBytes chunks) (client_new i) \<lparr>sb_events = [], sb_commands = []\<rparr> of
      (outcome, c, sb) \<Rightarrow>
        outcome = Alive \<and> snd (gatherA (sb_commands sb) handle_shell_command st) = set_desired name want dvm st"
proof -
  let ?cmd = "vm_command (key_verb key) name"
  have verb: "\<forall>c \<in> set (key_verb key). \<not> is_ws c" "key_verb key \<noteq> []" by (simp_all add: key_verb_def is_ws_def)
  have key: "key = CHR ''u'' \<or> key = CHR ''o''" using assms(14) by (auto simp: key_effect_def)
  obtain bytes where sent: "send_commands to_json [?cmd] b = b\<lparr>db_sent := db_sent b @ bytes\<rparr>"
    and take: "\<And>sb. take_lines json (bytes, sb) =
       ([], \<lparr>sb_events = sb_events sb @ map (echo_of \<circ> trim) [?cmd], sb_commands = sb_commands sb @ map trim [?cmd]\<rparr>)"
    using send_commands_lines [OF assms(1,7,8), of "[?cmd]"] assms(2) by auto
  have bytes: "concat chunks = bytes"
    using assms(9,10) sent control_key_sends [OF key assms(3), of json to_json b] assms(4) by (simp add: send_commands_def)
  have "bytes \<noteq> []"
    using take [of "\<lparr>sb_events = [], sb_commands = []\<rparr>"] take_lines_none [of "[]" json] by auto
  with bytes have "chunks \<noteq> []" by auto
  with bytes take drain_chunks [OF assms(11), of json "client_new i"]
  have "snd (snd (drain_client_commands json (map ReadBytes chunks) (client_new i) \<lparr>sb_events = [], sb_commands = []\<rparr>)) =
      \<lparr>sb_events = [echo_of (trim ?cmd)], sb_commands = [trim ?cmd]\<rparr>"
    "fst (drain_client_commands json (map ReadBytes chunks) (client_new i) \<lparr>sb_events = [], sb_commands = []\<rparr>) = Alive"
    by (simp_all add: client_new_def)
  moreover have "snd (gatherA [?cmd] handle_shell_command st) = set_desired name want dvm st"
    using key_command_effect [OF assms(5,6,12,13,14)] by (simp add: andThen_def ret_def split: prod.split)
  ultimately show ?thesis
    using vm_command_words (1) [OF verb assms(5,6)] by (auto split: prod.splits)
qed

lemma lifecycle_keys_reach_vm_witness:
  "\<forall>json (vm :: tui_vm) (a :: app) (b :: daemon_backend) cfg (root_cfg :: root_config) (st :: daemon_state) dvm i.
     \<exists>chunks.
       concat chunks = db_sent (snd (handle_key
           (daemon_ops json (\<lambda>m. if m = ShellCommand ''vm stop win'' then Inr ''{}'' else Inl ''no'')) (control_key (CHR ''o''))
           (a\<lparr>ap_vms := [vm\<lparr>tv_name := ''win''\<rparr>], ap_selected_vm := 0\<rparr>,
            b\<lparr>db_connected := True, db_writes := [], db_sent := []\<rparr>))) \<and>
       (case drain_client_commands (\<lambda>line. if line = ''{}'' then Inr (ShellCommand ''vm stop win'') else Inl ''no'')
           (map ReadBytes chunks) (client_new i) \<lparr>sb_events = [], sb_commands = []\<rparr> of
         (outcome, c, sb) \<Rightarrow>
           outcome = Alive \<and>
           snd (gatherA (sb_commands sb) handle_shell_command
               (st\<lparr>ds_root_cfg := Some (root_cfg\<lparr>rc_vm := [(''win'', cfg)]\<rparr>), ds_vms := [(''win'', dvm)]\<rparr>)) =
             set_desired ''win'' IpcShuttingDown dvm
               (st\<lparr>ds_root_cfg := Some (root_cfg\<lparr>rc_vm := [(''win'', cfg)]\<rparr>), ds_vms := [(''win'', dvm)]\<rparr>))"
proof (intro allI)
  fix json and vm :: tui_vm and a :: app and b :: daemon_backend and cfg and root_cfg :: root_config and st :: daemon_state and dvm i
  let ?to_json = "\<lambda>m. if m = ShellCommand ''vm stop win'' then Inr ''{}'' else Inl ''no''"
  let ?json = "\<lambda>line. if line = ''{}'' then Inr (ShellCommand ''vm stop win'') else Inl ''no''"
  let ?a = "a\<lparr>ap_vms := [vm\<lparr>tv_name := ''win''\<rparr>], ap_selected_vm := 0\<rparr>"
  let ?b = "b\<lparr>db_connected := True, db_writes := [], db_sent := []\<rparr>"
  let ?root_cfg = "root_cfg\<lparr>rc_vm := [(''win'', cfg)]\<rparr>"
  let ?st = "st\<lparr>ds_root_cfg := Some ?root_cfg, ds_vms := [(''win'', dvm)]\<rparr>"
  let ?key = "CHR ''o''"
  let ?chunks = "[''{'', ''}'' @ [line_feed]]"
  have codec: "line_codec ?to_json ?json"
    by (auto simp: line_codec_def line_feed_def trim_def is_ws_def split: if_splits)
  have cmd: "vm_command (key_verb ?key) ''win'' = ''vm stop win''" by (simp add: vm_command_def key_verb_def)
  have trims: "trim ''vm stop win'' = ''vm stop win''" by (simp add: trim_def is_ws_def)
  have ok: "sendable ?to_json (vm_command (key_verb ?key) ''win'')" unfolding cmd by (simp add: sendable_def trims)
  have sel: "selected_vm ?a = Some (vm\<lparr>tv_name := ''win''\<rparr>)" by (simp add: selected_vm_def)
  have name: "\<forall>c \<in> set ''win''. \<not> is_ws c" by (simp add: is_ws_def)
  have sent: "concat ?chunks = db_sent (snd (handle_key (daemon_ops js ?to_json) (control_key ?key) (?a, ?b)))" for js
    unfolding control_key_sends [OF disjI2 [OF refl] sel] by (simp add: cmd send_command trims)
  have cut: "\<forall>chunk \<in> set ?chunks. chunk \<noteq> [] \<and> utf8_valid chunk"
    by (simp add: utf8_valid_def utf8_follow_def in_range_def line_feed_def)
  have eff: "key_effect ?key ''win'' cfg ?st IpcShuttingDown dvm" by (simp add: key_effect_def)
  have root_cfg: "ds_root_cfg ?st = Some ?root_cfg" "map_of (rc_vm ?root_cfg) ''win'' = Some cfg" by simp_all
  show "\<exists>chunks.
       concat chunks = db_sent (snd (handle_key (daemon_ops json ?to_json) (control_key ?key) (?a, ?b))) \<and>
       (case drain_client_commands ?json (map ReadBytes chunks) (client_new i) \<lparr>sb_events = [], sb_commands = []\<rparr> of
         (outcome, c, sb) \<Rightarrow>
           outcome = Alive \<and> snd (gatherA (sb_commands sb) handle_shell_command ?st) = set_desired ''win'' IpcShuttingDown dvm ?st)"
    by (rule exI, rule conjI, rule sent)
      (rule lifecycle_keys_reach_vm [OF codec ok sel _ name _ _ _ _ sent cut root_cfg eff], simp_all)
qed

end
